(* ===== verification/Prelude.thy ===== *)
theory Prelude
  imports Main "HOL-Library.Word" "HOL-Library.AList" "HOL-Library.Sublist"
begin

text \<open>
  Shared vocabulary of the g2way development: machine integers, results with panics,
  instants and durations, the Rust string operations the gateway uses, hash maps as
  association lists, and the lemma collections the component theories draw on.

  Strings are byte strings (UTF-8), as Rust's \<open>str\<close> is; \<open>char\<close> is one byte.
  Instants and durations are natural numbers of nanoseconds. Unsigned 64-bit counters that
  only ever grow by one or are compared are kept as \<open>nat\<close> with the saturation or
  wrap-around written out; words packed bit by bit (circuit breaker, spike guard) are
  \<open>64 word\<close>.
\<close>

unbundle bit_operations_syntax

named_theorems g2_string \<open>laws of the string operations\<close>
named_theorems g2_map \<open>laws of hash maps as association lists\<close>

type_synonym u32 = "32 word"
type_synonym u64 = "64 word"
type_synonym instant = nat
type_synonym duration = nat
type_synonym ('k, 'v) hashmap = "('k \<times> 'v) list"

section \<open>Results\<close>

text \<open>A fallible, possibly panicking call: \<open>Result\<close> plus the unwinding outcome.\<close>

datatype ('e, 'a) res = Ok 'a | Err 'e | Panic

text \<open>\<open>iter().map(f).collect::<Result<Vec<_>, _>>()\<close>: stops at the first failure.\<close>

fun traverse :: "('a \<Rightarrow> ('e, 'b) res) \<Rightarrow> 'a list \<Rightarrow> ('e, 'b list) res" where
  "traverse f [] = Ok []"
| "traverse f (x # xs) =
     (case f x of
        Ok y \<Rightarrow> (case traverse f xs of Ok ys \<Rightarrow> Ok (y # ys) | Err e \<Rightarrow> Err e | Panic \<Rightarrow> Panic)
      | Err e \<Rightarrow> Err e
      | Panic \<Rightarrow> Panic)"

text \<open>The \<open>?\<close> operator.\<close>

definition bind_res :: "('e, 'a) res \<Rightarrow> ('a \<Rightarrow> ('e, 'b) res) \<Rightarrow> ('e, 'b) res" where
  "bind_res r k = (case r of Ok x \<Rightarrow> k x | Err e \<Rightarrow> Err e | Panic \<Rightarrow> Panic)"

lemma bind_res_Ok [simp]: "bind_res r k = Ok y \<longleftrightarrow> (\<exists>x. r = Ok x \<and> k x = Ok y)"
  by (cases r) (simp_all add: bind_res_def)

lemma traverse_Ok: "traverse f xs = Ok ys \<longleftrightarrow> list_all2 (\<lambda>x y. f x = Ok y) xs ys"
proof (induction xs arbitrary: ys)
  case Nil
  then show ?case by auto
next
  case (Cons x xs)
  have e: "traverse f xs = Ok zs \<longleftrightarrow> list_all2 (\<lambda>x y. f x = Ok y) xs zs" for zs
    by (rule Cons.IH)
  show ?case
    by (auto simp: list_all2_Cons1 e [symmetric] split: res.splits)
qed

section \<open>Integers, instants, durations\<close>

definition u64_max :: nat where
  "u64_max = 2 ^ 64 - 1"

definition u32_max :: nat where
  "u32_max = 2 ^ 32 - 1"

definition wrap64 :: "nat \<Rightarrow> nat" where
  "wrap64 n = n mod 2 ^ 64"

definition sat_u64 :: "nat \<Rightarrow> nat" where
  "sat_u64 n = min n u64_max"

definition sat_u32 :: "nat \<Rightarrow> nat" where
  "sat_u32 n = min n u32_max"

definition ns_per_sec :: nat where
  "ns_per_sec = 10 ^ 9"

definition ns_per_milli :: nat where
  "ns_per_milli = 10 ^ 6"

definition from_secs :: "nat \<Rightarrow> duration" where
  "from_secs s = s * ns_per_sec"

definition from_millis :: "nat \<Rightarrow> duration" where
  "from_millis m = m * ns_per_milli"

definition as_millis :: "duration \<Rightarrow> nat" where
  "as_millis d = d div ns_per_milli"

text \<open>
  \<open>Instant + Duration\<close>: a Unix \<open>Instant\<close> counts whole seconds in an \<open>i64\<close>
  and the addition panics when the sum leaves that range (\<open>None\<close> here).
\<close>

definition instant_limit :: nat where
  "instant_limit = 2 ^ 63 * ns_per_sec"

definition instant_add :: "instant \<Rightarrow> duration \<Rightarrow> instant option" where
  "instant_add t d = (if t + d < instant_limit then Some (t + d) else None)"

definition div_ceil :: "nat \<Rightarrow> nat \<Rightarrow> nat" where
  "div_ceil a b = (a + b - 1) div b"

lemma instant_add_Some [simp]:
  "instant_add t d = Some u \<longleftrightarrow> u = t + d \<and> t + d < instant_limit"
  by (auto simp: instant_add_def)

lemma instant_add_None [simp]: "instant_add t d = None \<longleftrightarrow> instant_limit \<le> t + d"
  by (auto simp: instant_add_def)

lemma wrap64_id: "n < 2 ^ 64 \<Longrightarrow> wrap64 n = n"
  by (simp add: wrap64_def)

section \<open>Strings\<close>

definition strip_prefix :: "string \<Rightarrow> string \<Rightarrow> string option" where
  "strip_prefix p s = (if prefix p s then Some (drop (length p) s) else None)"

definition trim_start_matches :: "char \<Rightarrow> string \<Rightarrow> string" where
  "trim_start_matches c s = dropWhile (\<lambda>x. x = c) s"

definition trim_end_matches :: "char \<Rightarrow> string \<Rightarrow> string" where
  "trim_end_matches c s = rev (dropWhile (\<lambda>x. x = c) (rev s))"

text \<open>\<open>str::split\<close> at a character: always at least one piece.\<close>

fun split_on :: "char \<Rightarrow> string \<Rightarrow> string list" where
  "split_on c [] = [[]]"
| "split_on c (x # xs) =
     (if x = c then [] # split_on c xs
      else (case split_on c xs of [] \<Rightarrow> [[x]] | p # ps \<Rightarrow> (x # p) # ps))"

text \<open>\<open>str::split_once\<close> at a character.\<close>

fun split_once :: "char \<Rightarrow> string \<Rightarrow> (string \<times> string) option" where
  "split_once c [] = None"
| "split_once c (x # xs) =
     (if x = c then Some ([], xs) else map_option (\<lambda>(a, b). (x # a, b)) (split_once c xs))"

definition ascii_lower :: "char \<Rightarrow> char" where
  "ascii_lower c =
     (let n = of_char c :: nat in if 65 \<le> n \<and> n \<le> 90 then char_of (n + 32) else c)"

definition ascii_upper :: "char \<Rightarrow> char" where
  "ascii_upper c =
     (let n = of_char c :: nat in if 97 \<le> n \<and> n \<le> 122 then char_of (n - 32) else c)"

definition to_ascii_lowercase :: "string \<Rightarrow> string" where
  "to_ascii_lowercase s = map ascii_lower s"

definition to_ascii_uppercase :: "string \<Rightarrow> string" where
  "to_ascii_uppercase s = map ascii_upper s"

definition eq_ignore_ascii_case :: "string \<Rightarrow> string \<Rightarrow> bool" where
  "eq_ignore_ascii_case a b \<longleftrightarrow> to_ascii_lowercase a = to_ascii_lowercase b"

text \<open>
  \<open>str::trim\<close> removes Unicode white space, here by its UTF-8 encodings: the ASCII
  controls and space, U+0085, U+00A0, U+1680, U+2000 to U+200A, U+2028, U+2029, U+202F,
  U+205F and U+3000. On valid UTF-8 no encoding is a suffix or prefix of the middle of
  another character, so matching bytes is matching characters.
\<close>

definition white_space :: "string list" where
  "white_space = map (map (char_of :: nat \<Rightarrow> char))
     ([[9], [10], [11], [12], [13], [32], [194, 133], [194, 160], [225, 154, 128]]
      @ map (\<lambda>n. [226, 128, n]) [128 ..< 139]
      @ [[226, 128, 168], [226, 128, 169], [226, 128, 175], [226, 129, 159], [227, 128, 128]])"

function drop_prefixes :: "string list \<Rightarrow> string \<Rightarrow> string" where
  "drop_prefixes ps s =
     (case find (\<lambda>p. p \<noteq> [] \<and> prefix p s) ps of
        None \<Rightarrow> s
      | Some p \<Rightarrow> drop_prefixes ps (drop (length p) s))"
  by pat_completeness auto
termination
proof (relation "measure (\<lambda>(ps, s). length s)", goal_cases)
  case 1
  show ?case by simp
next
  case (2 ps s p)
  then have "p \<noteq> []" and "prefix p s"
    by (auto simp: find_Some_iff)
  then show ?case
    by (auto simp: prefix_def)
qed

declare drop_prefixes.simps [simp del]

definition trim_start :: "string \<Rightarrow> string" where
  "trim_start s = drop_prefixes white_space s"

definition trim_end :: "string \<Rightarrow> string" where
  "trim_end s = rev (drop_prefixes (map rev white_space) (rev s))"

definition trim :: "string \<Rightarrow> string" where
  "trim s = trim_end (trim_start s)"

text \<open>Decimal rendering of an unsigned integer (\<open>u64::to_string\<close>, \<open>usize\<close> in \<open>format!\<close>).\<close>

definition digit_char :: "nat \<Rightarrow> char" where
  "digit_char d = char_of (48 + d)"

fun show_nat :: "nat \<Rightarrow> string" where
  "show_nat n = (if n < 10 then [digit_char n] else show_nat (n div 10) @ [digit_char (n mod 10)])"

declare show_nat.simps [simp del]

text \<open>\<open>str::parse::<u64>\<close>: an optional \<open>+\<close>, then one or more digits within range.\<close>

definition is_digit :: "char \<Rightarrow> bool" where
  "is_digit c \<longleftrightarrow> 48 \<le> (of_char c :: nat) \<and> (of_char c :: nat) \<le> 57"

definition digits_value :: "string \<Rightarrow> nat" where
  "digits_value s = foldl (\<lambda>acc c. acc * 10 + (of_char c - 48)) 0 s"

definition parse_u64 :: "string \<Rightarrow> nat option" where
  "parse_u64 s =
     (let ds = (case s of c # cs \<Rightarrow> (if c = CHR ''+'' then cs else s) | [] \<Rightarrow> s)
      in if ds = [] \<or> \<not> list_all is_digit ds then None
         else if digits_value ds \<le> u64_max then Some (digits_value ds) else None)"

definition join_strings :: "string \<Rightarrow> string list \<Rightarrow> string" where
  "join_strings sep xs =
     (case xs of [] \<Rightarrow> [] | y # ys \<Rightarrow> y @ concat (map (\<lambda>z. sep @ z) ys))"

lemma strip_prefix_append [simp, g2_string]: "strip_prefix p (p @ s) = Some s"
  by (simp add: strip_prefix_def)

lemma strip_prefix_Some [g2_string]: "strip_prefix p s = Some r \<longleftrightarrow> s = p @ r"
  by (auto simp: strip_prefix_def prefix_def)

lemma strip_prefix_None [g2_string]: "strip_prefix p s = None \<longleftrightarrow> \<not> prefix p s"
  by (auto simp: strip_prefix_def)

lemma split_on_nonempty [simp]: "split_on c s \<noteq> []"
  by (induction c s rule: split_on.induct) (auto split: list.splits)

lemma split_on_pieces: "p \<in> set (split_on c s) \<Longrightarrow> c \<notin> set p"
proof (induction c s arbitrary: p rule: split_on.induct)
  case (1 c)
  then show ?case by simp
next
  case (2 c x xs)
  then show ?case by (fastforce split: if_splits list.splits)
qed

lemma split_once_Some [g2_string]:
  "split_once c s = Some (a, b) \<longleftrightarrow> s = a @ c # b \<and> c \<notin> set a"
proof (induction c s arbitrary: a rule: split_once.induct)
  case (1 c)
  then show ?case by simp
next
  case (2 c x xs)
  then show ?case by (cases a) auto
qed

lemma trim_end_matches_suffix: "\<exists>n. s = trim_end_matches c s @ replicate n c"
proof -
  obtain n where n: "takeWhile (\<lambda>x. x = c) (rev s) = replicate n c"
    by (metis (full_types) replicate_length_same set_takeWhileD)
  have "rev s = takeWhile (\<lambda>x. x = c) (rev s) @ dropWhile (\<lambda>x. x = c) (rev s)"
    by simp
  then have "s = rev (dropWhile (\<lambda>x. x = c) (rev s)) @ rev (takeWhile (\<lambda>x. x = c) (rev s))"
    by (metis rev_append rev_rev_ident)
  with n show ?thesis
    by (auto simp: trim_end_matches_def)
qed

lemma trim_end_matches_last: "trim_end_matches c s = [] \<or> last (trim_end_matches c s) \<noteq> c"
  unfolding trim_end_matches_def
  using hd_dropWhile [of "\<lambda>x. x = c" "rev s"] by (auto simp: last_rev)

lemma trim_start_matches_hd: "trim_start_matches c s = [] \<or> hd (trim_start_matches c s) \<noteq> c"
  unfolding trim_start_matches_def
  using hd_dropWhile [of "\<lambda>x. x = c" s] by auto

text \<open>A printable ASCII character is never trimmed away.\<close>

definition graphic :: "char \<Rightarrow> bool" where
  "graphic c \<longleftrightarrow> 33 \<le> (of_char c :: nat) \<and> (of_char c :: nat) \<le> 126"

lemma white_space_not_graphic: "p \<in> set white_space \<Longrightarrow> c \<in> set p \<Longrightarrow> \<not> graphic c"
proof -
  have "\<forall>p \<in> set white_space. \<forall>c \<in> set p. \<not> graphic c"
    by (simp add: white_space_def graphic_def upt_rec)
  then show "p \<in> set white_space \<Longrightarrow> c \<in> set p \<Longrightarrow> \<not> graphic c" by blast
qed

lemma drop_prefixes_keeps:
  assumes "\<And>p. p \<in> set ps \<Longrightarrow> x \<notin> set p" and "x \<in> set s"
  shows "x \<in> set (drop_prefixes ps s)"
  using assms
proof (induction ps s rule: drop_prefixes.induct)
  case (1 ps s)
  show ?case
  proof (cases "find (\<lambda>p. p \<noteq> [] \<and> prefix p s) ps")
    case None
    with 1 show ?thesis by (subst drop_prefixes.simps) simp
  next
    case (Some p)
    then have "p \<in> set ps" "prefix p s" by (auto simp: find_Some_iff)
    with 1 have "x \<in> set (drop (length p) s)" by (auto simp: prefix_def)
    with 1 Some have "x \<in> set (drop_prefixes ps (drop (length p) s))" by blast
    with Some show ?thesis by (subst drop_prefixes.simps) simp
  qed
qed

lemma drop_prefixes_Nil [simp]: "drop_prefixes ps [] = []"
proof -
  have "find (\<lambda>p. False) ps = None" for ps :: "string list" by (induction ps) simp_all
  then show ?thesis by (subst drop_prefixes.simps) simp
qed

lemma trim_keeps_graphic: "x \<in> set s \<Longrightarrow> graphic x \<Longrightarrow> trim s \<noteq> []"
proof -
  assume "x \<in> set s" and g: "graphic x"
  then have "x \<in> set (trim_start s)"
    unfolding trim_start_def using white_space_not_graphic by (intro drop_prefixes_keeps) auto
  then have "x \<in> set (trim s)"
    unfolding trim_def trim_end_def using white_space_not_graphic g
    by (auto intro!: drop_prefixes_keeps)
  then show ?thesis by auto
qed

lemma show_nat_nonempty [simp]: "show_nat n \<noteq> []"
  by (subst show_nat.simps) simp

section \<open>Hash maps\<close>

text \<open>
  A \<open>HashMap\<close> is an association list without duplicate keys: \<open>map_of\<close> looks a key
  up, \<open>AList.update\<close> inserts, \<open>AList.delete\<close> removes; the iteration order, which Rust
  leaves unspecified, is the list order.
\<close>

abbreviation hm_wf :: "('k, 'v) hashmap \<Rightarrow> bool" where
  "hm_wf m \<equiv> distinct (map fst m)"

lemma map_of_update [simp, g2_map]:
  "map_of (AList.update k v m) l = (if l = k then Some v else map_of m l)"
  by (simp add: update_conv')

lemma map_of_delete [simp, g2_map]:
  "map_of (AList.delete k m) l = (if l = k then None else map_of m l)"
  by (simp add: delete_conv')

lemma hm_wf_update [simp, intro]: "hm_wf m \<Longrightarrow> hm_wf (AList.update k v m)"
  by (rule distinct_update)

lemma hm_wf_delete [simp, intro]: "hm_wf m \<Longrightarrow> hm_wf (AList.delete k m)"
  by (rule distinct_delete)

end
