(* ===== verification/Session.thy ===== *)
theory Session
  imports Prelude
begin

text \<open>
  Key sessions and policies: \<open>g2-core/src/error.rs\<close>, \<open>session.rs\<close> and \<open>policy.rs\<close>. The
  records carry the fields of the structs, \<open>validate\<close> the checks in the order of the code
  with the message of each, and the storage-key builders the string formats. A \<open>BTreeMap\<close>
  is an association list in key order. SHA-256 is a parameter; \<open>hex::encode\<close> renders its
  digest.
\<close>

section \<open>Errors\<close>

datatype error =
    InvalidApiDefinition string string
  | InvalidKeySession string
  | InvalidPolicy string string
  | InvalidGatewayConfig string
  | ConflictingApiDefinitions string
  | IoError string string
  | ParseError string string

section \<open>Data\<close>

definition DEFAULT_ORG_ID :: string where
  "DEFAULT_ORG_ID = ''default''"

record rate_limit =
  rl_requests :: nat
  rl_per_seconds :: nat

record quota =
  qt_max :: nat
  qt_renewal_rate_secs :: nat

record basic_auth_data =
  ba_password_hash :: string

record hmac_data =
  hd_secret :: string

record type_fields =
  tf_name :: string
  tf_fields :: "string list"

record api_access =
  aa_allowed_types :: "type_fields list"
  aa_restricted_types :: "type_fields list"
  aa_disable_introspection :: bool
  aa_max_query_depth :: "int option"

record key_session =
  ks_org_id :: string
  ks_alias :: "string option"
  ks_rate :: "rate_limit option"
  ks_quota :: "quota option"
  ks_expires_at :: "nat option"
  ks_active :: bool
  ks_access :: "(string \<times> api_access) list"
  ks_basic_auth :: "basic_auth_data option"
  ks_hmac :: "hmac_data option"
  ks_apply_policies :: "string list"

record policy =
  po_policy_id :: string
  po_name :: string
  po_org_id :: string
  po_active :: bool
  po_rate :: "rate_limit option"
  po_quota :: "quota option"
  po_access :: "(string \<times> api_access) list"

definition session_default :: key_session where
  "session_default =
     \<lparr>ks_org_id = DEFAULT_ORG_ID, ks_alias = None, ks_rate = None, ks_quota = None,
      ks_expires_at = None, ks_active = True, ks_access = [], ks_basic_auth = None,
      ks_hmac = None, ks_apply_policies = []\<rparr>"

section \<open>Validation\<close>

definition is_blank :: "string \<Rightarrow> bool" where
  "is_blank s \<longleftrightarrow> trim s = []"

fun entries_validate :: "(string \<Rightarrow> error) \<Rightarrow> string \<Rightarrow> type_fields list \<Rightarrow> (error, unit) res" where
  "entries_validate fail lst [] = Ok ()"
| "entries_validate fail lst (e # es) =
     (if is_blank (tf_name e) then
        Err (fail (''`access.'' @ lst @ ''` entries must have a non-empty type name''))
      else if list_ex is_blank (tf_fields e) then
        Err (fail (''`access.'' @ lst @ ''` field names must not be empty (use \"*\" for all)''))
      else entries_validate fail lst es)"

definition api_access_validate :: "(string \<Rightarrow> error) \<Rightarrow> api_access \<Rightarrow> (error, unit) res" where
  "api_access_validate fail a =
     (case entries_validate fail ''allowed_types'' (aa_allowed_types a) of
        Ok _ \<Rightarrow> entries_validate fail ''restricted_types'' (aa_restricted_types a)
      | r \<Rightarrow> r)"

definition rate_validate :: "(string \<Rightarrow> error) \<Rightarrow> rate_limit option \<Rightarrow> (error, unit) res" where
  "rate_validate fail r =
     (case r of
        Some rate \<Rightarrow>
          (if rl_requests rate = 0 then Err (fail ''`rate.requests` must be greater than zero'')
           else if rl_per_seconds rate = 0 then Err (fail ''`rate.per_seconds` must be greater than zero'')
           else Ok ())
      | None \<Rightarrow> Ok ())"

definition quota_validate :: "(string \<Rightarrow> error) \<Rightarrow> quota option \<Rightarrow> (error, unit) res" where
  "quota_validate fail q =
     (case q of
        Some quota \<Rightarrow>
          (if qt_max quota = 0 then Err (fail ''`quota.max` must be greater than zero'')
           else if qt_renewal_rate_secs quota = 0
             then Err (fail ''`quota.renewal_rate_secs` must be greater than zero'')
           else Ok ())
      | None \<Rightarrow> Ok ())"

fun access_validate :: "(string \<Rightarrow> error) \<Rightarrow> (string \<times> api_access) list \<Rightarrow> (error, unit) res" where
  "access_validate fail [] = Ok ()"
| "access_validate fail ((api_id, grant) # rest) =
     (if is_blank api_id then Err (fail ''`access` keys (api_id) must not be empty'')
      else (case api_access_validate fail grant of
              Ok _ \<Rightarrow> access_validate fail rest
            | r \<Rightarrow> r))"

text \<open>The \<open>?\<close> operator between two checks.\<close>

definition and_then :: "('e, unit) res \<Rightarrow> ('e, unit) res \<Rightarrow> ('e, unit) res" where
  "and_then r k = (case r of Ok _ \<Rightarrow> k | Err e \<Rightarrow> Err e | Panic \<Rightarrow> Panic)"

definition require :: "bool \<Rightarrow> 'e \<Rightarrow> ('e, unit) res" where
  "require b e = (if b then Ok () else Err e)"

definition session_validate :: "key_session \<Rightarrow> (error, unit) res" where
  "session_validate s =
     (let fail = InvalidKeySession in
      and_then (require (\<not> is_blank (ks_org_id s)) (fail ''`org_id` must not be empty''))
     (and_then (rate_validate fail (ks_rate s))
     (and_then (quota_validate fail (ks_quota s))
     (and_then (access_validate fail (ks_access s))
     (and_then (require (case ks_basic_auth s of Some b \<Rightarrow> \<not> is_blank (ba_password_hash b) | None \<Rightarrow> True)
                  (fail ''`basic_auth.password_hash` must not be empty''))
     (and_then (require (case ks_hmac s of Some h \<Rightarrow> \<not> is_blank (hd_secret h) | None \<Rightarrow> True)
                  (fail ''`hmac.secret` must not be empty''))
     (and_then (require (length (ks_apply_policies s) \<le> 1)
                  (fail (''`apply_policies` currently supports at most one policy ''
                    @ ''(combining policies needs partitioned policies, not yet implemented)'')))
               (require (\<not> list_ex is_blank (ks_apply_policies s))
                  (fail ''`apply_policies` entries must not be empty'')))))))))"

definition policy_validate :: "policy \<Rightarrow> (error, unit) res" where
  "policy_validate p =
     (let fail = InvalidPolicy (po_policy_id p) in
      and_then (require (\<not> is_blank (po_policy_id p)) (fail ''`policy_id` must not be empty''))
     (and_then (require (\<not> is_blank (po_name p)) (fail ''`name` must not be empty''))
     (and_then (require (\<not> is_blank (po_org_id p)) (fail ''`org_id` must not be empty''))
     (and_then (rate_validate fail (po_rate p))
     (and_then (quota_validate fail (po_quota p))
               (require (\<not> list_ex (\<lambda>(api_id, _). is_blank api_id) (po_access p))
                  (fail ''`access` keys (api_id) must not be empty'')))))))"

section \<open>Operations\<close>

definition apply_policy :: "key_session \<Rightarrow> policy \<Rightarrow> key_session" where
  "apply_policy s p = s\<lparr>ks_rate := po_rate p, ks_quota := po_quota p, ks_access := po_access p\<rparr>"

definition session_is_expired :: "key_session \<Rightarrow> nat \<Rightarrow> bool" where
  "session_is_expired s now_unix_secs =
     (case ks_expires_at s of Some e \<Rightarrow> e \<le> now_unix_secs | None \<Rightarrow> False)"

definition allows_api :: "key_session \<Rightarrow> string \<Rightarrow> bool" where
  "allows_api s api_id \<longleftrightarrow> ks_access s = [] \<or> map_of (ks_access s) api_id \<noteq> None"

definition hex_digit :: "nat \<Rightarrow> char" where
  "hex_digit d = (if d < 10 then char_of (48 + d) else char_of (87 + d))"

definition hex_encode :: "string \<Rightarrow> string" where
  "hex_encode bs = concat (map (\<lambda>b. [hex_digit (of_char b div 16), hex_digit (of_char b mod 16)]) bs)"

definition hash_key :: "(string \<Rightarrow> string) \<Rightarrow> string \<Rightarrow> string" where
  "hash_key sha256 raw_key = hex_encode (sha256 raw_key)"

definition cert_fingerprint_hex :: "(string \<Rightarrow> string) \<Rightarrow> string \<Rightarrow> string" where
  "cert_fingerprint_hex sha256 cert_der = hex_encode (sha256 cert_der)"

definition session_key_prefix :: "string \<Rightarrow> string" where
  "session_key_prefix org_id = ''g2:'' @ org_id @ '':apikey:''"

definition session_storage_key :: "string \<Rightarrow> string \<Rightarrow> string" where
  "session_storage_key org_id key_hash = session_key_prefix org_id @ key_hash"

definition rate_limit_storage_key :: "string \<Rightarrow> string \<Rightarrow> string" where
  "rate_limit_storage_key org_id key_hash = ''g2:'' @ org_id @ '':ratelimit:'' @ key_hash"

definition quota_storage_key :: "string \<Rightarrow> string \<Rightarrow> string" where
  "quota_storage_key org_id key_hash = ''g2:'' @ org_id @ '':quota:'' @ key_hash"

definition policy_key_prefix :: "string \<Rightarrow> string" where
  "policy_key_prefix org_id = ''g2:'' @ org_id @ '':policy:''"

definition policy_storage_key :: "string \<Rightarrow> string \<Rightarrow> string" where
  "policy_storage_key org_id policy_id = policy_key_prefix org_id @ policy_id"

section \<open>Lemmas\<close>

lemma not_blank [simp]: "graphic c \<Longrightarrow> \<not> is_blank (c # s)"
  using trim_keeps_graphic [of c "c # s"] by (simp add: is_blank_def)

lemma blank_Nil [simp]: "is_blank []"
  by (simp add: is_blank_def trim_def trim_start_def trim_end_def)

lemma and_then_Ok [simp]: "and_then r k = Ok () \<longleftrightarrow> r = Ok () \<and> k = Ok ()"
  by (auto simp: and_then_def split: res.splits)

lemma require_Ok [simp]: "require b e = Ok () \<longleftrightarrow> b"
  by (simp add: require_def)

definition type_fields_ok :: "type_fields \<Rightarrow> bool" where
  "type_fields_ok e \<longleftrightarrow> \<not> is_blank (tf_name e) \<and> (\<forall>f \<in> set (tf_fields e). \<not> is_blank f)"

definition grant_ok :: "api_access \<Rightarrow> bool" where
  "grant_ok a \<longleftrightarrow> list_all type_fields_ok (aa_allowed_types a @ aa_restricted_types a)"

lemma entries_validate_Ok: "entries_validate fail l es = Ok () \<longleftrightarrow> list_all type_fields_ok es"
  by (induction es) (auto simp: type_fields_ok_def list_ex_iff)

lemma api_access_validate_Ok: "api_access_validate fail a = Ok () \<longleftrightarrow> grant_ok a"
  using entries_validate_Ok [of fail "''allowed_types''" "aa_allowed_types a"]
    entries_validate_Ok [of fail "''restricted_types''" "aa_restricted_types a"]
  by (auto simp: api_access_validate_def grant_ok_def split: res.splits)

lemma access_validate_Ok:
  "access_validate fail m = Ok () \<longleftrightarrow> (\<forall>(k, g) \<in> set m. \<not> is_blank k \<and> grant_ok g)"
proof (induction m)
  case Nil
  then show ?case by simp
next
  case (Cons kg m)
  obtain k g where "kg = (k, g)" by fastforce
  with Cons api_access_validate_Ok [of fail g] show ?case by (auto split: res.splits)
qed

lemma rate_validate_Ok:
  "rate_validate fail r = Ok () \<longleftrightarrow> (\<forall>x. r = Some x \<longrightarrow> 0 < rl_requests x \<and> 0 < rl_per_seconds x)"
  by (auto simp: rate_validate_def split: option.splits)

lemma quota_validate_Ok:
  "quota_validate fail q = Ok () \<longleftrightarrow> (\<forall>x. q = Some x \<longrightarrow> 0 < qt_max x \<and> 0 < qt_renewal_rate_secs x)"
  by (auto simp: quota_validate_def split: option.splits)

lemmas validate_Ok = rate_validate_Ok quota_validate_Ok access_validate_Ok

lemma append_sep_eq:
  fixes c :: char
  assumes "c \<notin> set h" and "c \<notin> set h'"
  shows "a @ c # h = a' @ c # h' \<longleftrightarrow> a = a' \<and> h = h'"
proof
  assume e: "a @ c # h = a' @ c # h'"
  have "split_once c (rev (a @ c # h)) = Some (rev h, rev a)"
    and "split_once c (rev (a' @ c # h')) = Some (rev h', rev a')"
    using assms by (simp_all add: split_once_Some)
  with e show "a = a' \<and> h = h'" by simp
qed simp

lemma colon_not_hex_digit: "d < 16 \<Longrightarrow> hex_digit d \<noteq> CHR '':''"
proof
  assume "d < 16" and "hex_digit d = CHR '':''"
  then have "of_char (hex_digit d) = (58 :: nat)" by simp
  with \<open>d < 16\<close> show False by (auto simp: hex_digit_def split: if_splits)
qed

lemma hash_key_no_colon: "CHR '':'' \<notin> set (hash_key sha256 k)"
proof -
  have "hex_digit (of_char b div 16) \<noteq> CHR '':'' \<and> hex_digit (of_char b mod 16) \<noteq> CHR '':''" for b
    by (intro conjI colon_not_hex_digit) (auto simp: less_mult_imp_div_less)
  then show ?thesis by (fastforce simp: hash_key_def hex_encode_def)
qed

section \<open>Properties\<close>

text \<open>
  Applying a policy: rate, quota and access are the policy's, everything else is the
  session's, and from a valid session and a valid policy the result is valid exactly when
  the policy's grants are well formed, which \<open>Policy::validate\<close> does not check although
  \<open>KeySession::validate\<close> does.
\<close>

theorem apply_policy_validity:
  assumes "session_validate s = Ok ()" and "policy_validate p = Ok ()"
  shows "ks_rate (apply_policy s p) = po_rate p \<and> ks_quota (apply_policy s p) = po_quota p
    \<and> (\<forall>api. allows_api (apply_policy s p) api \<longleftrightarrow> po_access p = [] \<or> api \<in> fst ` set (po_access p))
    \<and> (\<forall>t. session_is_expired (apply_policy s p) t = session_is_expired s t)
    \<and> ks_active (apply_policy s p) = ks_active s \<and> ks_org_id (apply_policy s p) = ks_org_id s
    \<and> (session_validate (apply_policy s p) = Ok () \<longleftrightarrow> (\<forall>(k, g) \<in> set (po_access p). grant_ok g))"
proof -
  have "session_validate (apply_policy s p) = Ok () \<longleftrightarrow> (\<forall>(k, g) \<in> set (po_access p). grant_ok g)"
    using assms
    by (auto simp: session_validate_def policy_validate_def apply_policy_def Let_def validate_Ok list_ex_iff)
  then show ?thesis
    by (auto simp: apply_policy_def allows_api_def session_is_expired_def map_of_eq_None_iff)
qed

definition blank_grant :: api_access where
  "blank_grant = \<lparr>aa_allowed_types = [\<lparr>tf_name = [], tf_fields = []\<rparr>], aa_restricted_types = [],
     aa_disable_introspection = False, aa_max_query_depth = None\<rparr>"

theorem apply_policy_validity_witness:
  "\<exists>p. policy_validate p = Ok () \<and> po_access p = [(''api'', blank_grant)]
    \<and> session_validate session_default = Ok ()
    \<and> session_validate (apply_policy session_default p) \<noteq> Ok ()"
proof -
  let ?p = "\<lparr>po_policy_id = ''p'', po_name = ''P'', po_org_id = ''default'', po_active = True,
    po_rate = None, po_quota = None, po_access = [(''api'', blank_grant)]\<rparr>"
  have p: "policy_validate ?p = Ok ()"
    by (simp add: policy_validate_def Let_def validate_Ok graphic_def)
  have s: "session_validate session_default = Ok ()"
    by (simp add: session_validate_def session_default_def DEFAULT_ORG_ID_def Let_def validate_Ok graphic_def)
  have "\<not> grant_ok blank_grant" by (simp add: grant_ok_def blank_grant_def type_fields_ok_def)
  with apply_policy_validity [OF s p] have "session_validate (apply_policy session_default ?p) \<noteq> Ok ()"
    by simp
  with p s show ?thesis by (intro exI [of _ ?p]) simp
qed

text \<open>
  Storage keys do not collide: for hashed keys, whatever the organizations are called,
  the session, rate-counter and quota-counter keys are injective in organization and hash,
  and a key of one kind is never a key of another.
\<close>

theorem storage_keys_disjoint:
  fixes org org' k k' :: string and sha256 :: "string \<Rightarrow> string"
  defines "h \<equiv> hash_key sha256 k" and "h' \<equiv> hash_key sha256 k'"
  shows "(session_storage_key org h = session_storage_key org' h' \<longleftrightarrow> org = org' \<and> h = h')
    \<and> (rate_limit_storage_key org h = rate_limit_storage_key org' h' \<longleftrightarrow> org = org' \<and> h = h')
    \<and> (quota_storage_key org h = quota_storage_key org' h' \<longleftrightarrow> org = org' \<and> h = h')
    \<and> session_storage_key org h \<noteq> rate_limit_storage_key org' h'
    \<and> session_storage_key org h \<noteq> quota_storage_key org' h'
    \<and> rate_limit_storage_key org h \<noteq> quota_storage_key org' h'"
proof -
  note c = append_sep_eq [OF hash_key_no_colon [of sha256 k] hash_key_no_colon [of sha256 k']]
  have s: "session_storage_key org h = (''g2:'' @ org @ '':apikey'') @ CHR '':'' # h"
    and r: "rate_limit_storage_key org h = (''g2:'' @ org @ '':ratelimit'') @ CHR '':'' # h"
    and q: "quota_storage_key org h = (''g2:'' @ org @ '':quota'') @ CHR '':'' # h" for org h
    by (simp_all add: session_storage_key_def session_key_prefix_def rate_limit_storage_key_def
        quota_storage_key_def)
  have d: "a @ '':apikey'' \<noteq> b @ '':ratelimit''" "a @ '':apikey'' \<noteq> b @ '':quota''"
    "a @ '':ratelimit'' \<noteq> b @ '':quota''" for a b :: string
    by (auto dest!: arg_cong [where f = last])
  show ?thesis
    unfolding s r q h_def h'_def c using d by (simp add: c)
qed

end
