(* ===== verification/Http.thy ===== *)
theory Http
  imports Session
begin

text \<open>
  Requests, responses and services as the middleware crate sees them:
  \<open>g2-middleware/src/context.rs\<close>, \<open>body.rs\<close>, \<open>response.rs\<close>, \<open>set_context.rs\<close> and
  \<open>api_id_header.rs\<close>. The \<open>http\<close> crate is a parameter: a record of the operations the
  gateway calls on header maps, header values, header names and methods, with the
  documented laws as the locale \<open>header_map\<close>; likewise the \<open>regex\<close> crate and the JSON
  string encoder. Header names are the lower-case strings \<open>HeaderName\<close> normalises to.
\<close>

section \<open>Third-party operations\<close>

record 'h http_ext =
  hm_empty :: 'h
  hm_get_all :: "'h \<Rightarrow> string \<Rightarrow> string list"
  hm_insert :: "'h \<Rightarrow> string \<Rightarrow> string \<Rightarrow> 'h"
  hm_append :: "'h \<Rightarrow> string \<Rightarrow> string \<Rightarrow> 'h"
  hm_remove :: "'h \<Rightarrow> string \<Rightarrow> 'h"
  hv_to_str :: "string \<Rightarrow> string option"
  hv_from_str :: "string \<Rightarrow> string option"
  hn_parse :: "string \<Rightarrow> string option"
  method_parse :: "string \<Rightarrow> string option"
  json_str :: "string \<Rightarrow> string"

record 'r regex_ext =
  rx_new :: "string \<Rightarrow> string + 'r"
  rx_is_match :: "'r \<Rightarrow> string \<Rightarrow> bool"
  rx_expand :: "'r \<Rightarrow> string \<Rightarrow> string \<Rightarrow> string option"

definition hm_get :: "'h http_ext \<Rightarrow> 'h \<Rightarrow> string \<Rightarrow> string option" where
  "hm_get X h n = (case hm_get_all X h n of [] \<Rightarrow> None | v # _ \<Rightarrow> Some v)"

definition hm_contains :: "'h http_ext \<Rightarrow> 'h \<Rightarrow> string \<Rightarrow> bool" where
  "hm_contains X h n \<longleftrightarrow> hm_get_all X h n \<noteq> []"

text \<open>What the header map's documentation promises of the operations used.\<close>

locale header_map =
  fixes X :: "'h http_ext"
  assumes get_all_empty [simp]: "hm_get_all X (hm_empty X) n = []"
    and get_all_insert [simp]: "hm_get_all X (hm_insert X h n v) m = (if m = n then [v] else hm_get_all X h m)"
    and get_all_append [simp]: "hm_get_all X (hm_append X h n v) m
      = (if m = n then hm_get_all X h n @ [v] else hm_get_all X h m)"
    and get_all_remove [simp]: "hm_get_all X (hm_remove X h n) m = (if m = n then [] else hm_get_all X h m)"
    and to_str_val: "hv_to_str X v = Some s \<Longrightarrow> s = v"
    and from_str_val: "hv_from_str X s = Some v \<Longrightarrow> v = s"
    and from_str_digits: "list_all is_digit s \<Longrightarrow> hv_from_str X s = Some s"
begin

lemma get_insert [simp]: "hm_get X (hm_insert X h n v) m = (if m = n then Some v else hm_get X h m)"
  by (simp add: hm_get_def)

lemma get_append [simp]:
  "hm_get X (hm_append X h n v) m
   = (if m = n then Some (case hm_get X h n of Some w \<Rightarrow> w | None \<Rightarrow> v) else hm_get X h m)"
  by (auto simp: hm_get_def split: list.splits)

lemma get_remove [simp]: "hm_get X (hm_remove X h n) m = (if m = n then None else hm_get X h m)"
  by (simp add: hm_get_def)

lemma get_empty [simp]: "hm_get X (hm_empty X) n = None"
  by (simp add: hm_get_def)

lemma foldl_remove [simp]:
  "hm_get_all X (foldl (hm_remove X) h ns) m = (if m \<in> set ns then [] else hm_get_all X h m)"
  by (induction ns arbitrary: h) auto

lemma foldl_insert:
  "hm_get_all X (foldl (\<lambda>h (n, v). hm_insert X h n v) h nvs) m
   = (case map_of (rev nvs) m of Some v \<Rightarrow> [v] | None \<Rightarrow> hm_get_all X h m)"
proof (induction nvs arbitrary: h)
  case Nil
  then show ?case by simp
next
  case (Cons nv nvs)
  then show ?case
    by (cases nv) (auto simp: map_add_def map_of_append [symmetric] split: option.splits)
qed

end

section \<open>A reference header map\<close>

text \<open>
  The laws can be met: a header map as an association list from names to value lists, with
  visible ASCII for \<open>to_str\<close> and the token characters for names and methods. Witnesses
  evaluate on it.
\<close>

type_synonym alist_headers = "(string \<times> string list) list"

definition visible :: "string \<Rightarrow> bool" where
  "visible s \<longleftrightarrow> list_all (\<lambda>c. 32 \<le> (of_char c :: nat) \<and> (of_char c :: nat) < 127) s"

definition token :: "string \<Rightarrow> bool" where
  "token s \<longleftrightarrow> s \<noteq> [] \<and> list_all (\<lambda>c. graphic c \<and> c \<notin> set ''()<>@,;:/[]?={}'' \<union> {CHR 0x22, CHR 0x5c}) s"

definition al_get :: "alist_headers \<Rightarrow> string \<Rightarrow> string list" where
  "al_get h n = (case map_of h n of Some vs \<Rightarrow> vs | None \<Rightarrow> [])"

definition alist_ext :: "alist_headers http_ext" where
  "alist_ext =
     \<lparr>hm_empty = [],
      hm_get_all = al_get,
      hm_insert = (\<lambda>h n v. AList.update n [v] h),
      hm_append = (\<lambda>h n v. AList.update n (al_get h n @ [v]) h),
      hm_remove = (\<lambda>h n. AList.delete n h),
      hv_to_str = (\<lambda>v. if visible v then Some v else None),
      hv_from_str = (\<lambda>s. if visible s then Some s else None),
      hn_parse = (\<lambda>s. if token s then Some (to_ascii_lowercase s) else None),
      method_parse = (\<lambda>s. if token s then Some s else None),
      json_str = (\<lambda>s. CHR ''\"'' # s @ [CHR ''\"''])\<rparr>"

interpretation alist: header_map alist_ext
  by unfold_locales
    (auto simp: alist_ext_def al_get_def visible_def is_digit_def list_all_iff split: if_splits)

section \<open>Addresses and contexts\<close>

datatype ip_addr = V4 "32 word" | V6 "128 word"

text \<open>\<open>IpAddr::to_canonical\<close>: an IPv4-mapped IPv6 address is the IPv4 address.\<close>

definition to_canonical :: "ip_addr \<Rightarrow> ip_addr" where
  "to_canonical a =
     (case a of
        V4 w \<Rightarrow> V4 w
      | V6 w \<Rightarrow> if drop_bit 32 w = 0xffff then V4 (ucast w) else V6 w)"

record request_context =
  cx_api_id :: string
  cx_org_id :: string

record session_context =
  sc_session :: key_session
  sc_key_hash :: string

record connection_info =
  cn_tls :: bool
  cn_client_cert_fingerprint :: "string option"

section \<open>Bodies, requests, responses\<close>

text \<open>
  A streaming body is what polling it yields: frames (data or trailers), then the end or an
  error. \<open>bd_end\<close> is its \<open>is_end_stream\<close> before any poll.
\<close>

datatype frame = Data string | Trailers

datatype body_error = RequestTooLarge nat | OtherBodyError

record body =
  bd_frames :: "frame list"
  bd_error :: "body_error option"
  bd_end :: bool

definition body_empty :: body where
  "body_empty = \<lparr>bd_frames = [], bd_error = None, bd_end = True\<rparr>"

definition body_full :: "string \<Rightarrow> body" where
  "body_full bs = (if bs = [] then body_empty
     else \<lparr>bd_frames = [Data bs], bd_error = None, bd_end = False\<rparr>)"

text \<open>The bytes a reader of the frames sees.\<close>

fun frames_data :: "frame list \<Rightarrow> string" where
  "frames_data [] = []"
| "frames_data (Data d # fs) = d @ frames_data fs"
| "frames_data (Trailers # fs) = frames_data fs"

record 'h request =
  rq_method :: string
  rq_path :: string
  rq_query :: "string option"
  rq_headers :: 'h
  rq_body :: body
  rq_client_addr :: "ip_addr option"
  rq_conn :: "connection_info option"
  rq_context :: "request_context option"
  rq_session :: "session_context option"
  rq_auth_bypass :: bool
  rq_on_upgrade :: bool
  rq_tunnel :: "(string option \<Rightarrow> bool) option"

record 'h response =
  rs_status :: nat
  rs_headers :: 'h
  rs_body :: body
  rs_latency :: "duration option"
  rs_session :: "session_context option"

definition response_new :: "'h http_ext \<Rightarrow> body \<Rightarrow> 'h response" where
  "response_new X b = \<lparr>rs_status = 200, rs_headers = hm_empty X, rs_body = b, rs_latency = None, rs_session = None\<rparr>"

definition json_error :: "'h http_ext \<Rightarrow> nat \<Rightarrow> string \<Rightarrow> 'h response" where
  "json_error X status message =
     (let resp = response_new X (body_full (''{\"error\":'' @ json_str X message @ ''}''))
      in resp\<lparr>rs_status := status,
              rs_headers := hm_insert X (rs_headers resp) ''content-type'' ''application/json''\<rparr>)"

text \<open>
  A service maps a request and the state of the world (stores, guards, breakers, the
  upstream) to a response and the new state; \<open>None\<close> is a panic unwinding the task.
\<close>

type_synonym ('h, 'w) service = "'h request \<Rightarrow> 'w \<Rightarrow> 'h response option \<times> 'w"

section \<open>The context and api-id layers\<close>

definition set_context :: "request_context \<Rightarrow> ('h, 'w) service \<Rightarrow> ('h, 'w) service" where
  "set_context ctx inner req w = inner (req\<lparr>rq_context := Some ctx\<rparr>) w"

definition API_ID_HEADER :: string where
  "API_ID_HEADER = ''x-g2-api-id''"

definition api_id_header :: "'h http_ext \<Rightarrow> ('h, 'w) service \<Rightarrow> ('h, 'w) service" where
  "api_id_header X inner req w =
     (let value = Option.bind (rq_context req) (\<lambda>ctx. hv_from_str X (cx_api_id ctx))
      in case value of
           Some v \<Rightarrow> inner (req\<lparr>rq_headers := hm_insert X (rq_headers req) API_ID_HEADER v\<rparr>) w
         | None \<Rightarrow> inner (req\<lparr>rq_headers := hm_remove X (rq_headers req) API_ID_HEADER\<rparr>) w)"

section \<open>Sample values\<close>

text \<open>
  Concrete parameters for the witnesses: patterns that are literal strings, searched as
  substrings, and a plain request.
\<close>

definition literal_ext :: "string regex_ext" where
  "literal_ext =
     \<lparr>rx_new = (\<lambda>p. Inr p),
      rx_is_match = (\<lambda>p s. list_ex (\<lambda>t. prefix p t) (suffixes s)),
      rx_expand = (\<lambda>p t s. if list_ex (\<lambda>u. prefix p u) (suffixes s) then Some t else None)\<rparr>"

definition sample_request :: "string \<Rightarrow> string \<Rightarrow> alist_headers request" where
  "sample_request method path =
     \<lparr>rq_method = method, rq_path = path, rq_query = None, rq_headers = [], rq_body = body_empty,
      rq_client_addr = None, rq_conn = None, rq_context = None, rq_session = None,
      rq_auth_bypass = False, rq_on_upgrade = False, rq_tunnel = None\<rparr>"

end
