(* ===== verification/Upstream.thy ===== *)
theory Upstream
  imports Prelude
begin

text \<open>
  Upstream addresses, their rotation and their health: \<open>UpstreamAddr\<close>, \<open>TargetSet\<close> and
  \<open>next_addr\<close> of \<open>g2-proxy/src/forward.rs\<close>, and the health flags, probe streaks and
  checker round of \<open>g2-proxy/src/health.rs\<close>. The URI parser and the outcome of a probe are
  parameters.
\<close>

section \<open>Addresses\<close>

record uri_parts =
  uri_scheme :: "string option"
  uri_authority :: "string option"
  uri_path :: string
  uri_query :: "string option"

record upstream_addr =
  ua_scheme :: string
  ua_authority :: string
  ua_base_path :: string

definition try_from_url :: "(string \<Rightarrow> string + uri_parts) \<Rightarrow> string \<Rightarrow> string + upstream_addr" where
  "try_from_url parse_uri url =
     (case parse_uri url of
        Inl e \<Rightarrow> Inl (''`'' @ url @ ''` is not a valid URL: '' @ e)
      | Inr uri \<Rightarrow>
          (case uri_scheme uri of
             Some sch \<Rightarrow>
               (if sch = ''http'' \<or> sch = ''https'' then
                  (case uri_authority uri of
                     None \<Rightarrow> Inl (''`'' @ url @ ''` must include a host'')
                   | Some auth \<Rightarrow>
                       Inr \<lparr>ua_scheme = sch, ua_authority = auth,
                            ua_base_path = trim_end_matches (CHR ''/'') (uri_path uri)\<rparr>)
                else Inl (''`'' @ url @ ''` must be an absolute http/https URL''))
           | None \<Rightarrow> Inl (''`'' @ url @ ''` must be an absolute http/https URL'')))"

text \<open>\<open>from_url\<close> panics (\<open>None\<close>) on a URL that did not pass validation.\<close>

definition from_url :: "(string \<Rightarrow> string + uri_parts) \<Rightarrow> string \<Rightarrow> upstream_addr option" where
  "from_url parse_uri url =
     (case try_from_url parse_uri url of Inl _ \<Rightarrow> None | Inr a \<Rightarrow> Some a)"

section \<open>Health flags\<close>

definition health_new :: "nat \<Rightarrow> bool list" where
  "health_new count = replicate count True"

definition is_healthy :: "bool list \<Rightarrow> nat \<Rightarrow> bool" where
  "is_healthy flags i = flags ! i"

definition set_healthy :: "bool list \<Rightarrow> nat \<Rightarrow> bool \<Rightarrow> bool list" where
  "set_healthy flags i healthy = flags[i := healthy]"

text \<open>
  A generation of addresses. \<open>ts_gen\<close> stands for the identity of the \<open>Arc\<close> the checker
  compares with \<open>ptr_eq\<close>.
\<close>

record target_set =
  ts_gen :: nat
  ts_addrs :: "upstream_addr list"
  ts_health :: "bool list option"

definition target_set_new :: "nat \<Rightarrow> upstream_addr list \<Rightarrow> bool \<Rightarrow> target_set" where
  "target_set_new gen addrs health_checked =
     \<lparr>ts_gen = gen, ts_addrs = addrs,
      ts_health = (if health_checked then Some (health_new (length addrs)) else None)\<rparr>"

section \<open>Rotation\<close>

text \<open>
  \<open>next_addr\<close> over the values its \<open>fetch_add\<close>s return: the loop body once per value, and
  one more value for the plain rotation. The result is the index picked; \<open>None\<close> is the
  division by zero of an empty set. Other threads advancing the same cursor in between
  only show as gaps between the values.
\<close>

fun pick_seen :: "nat \<Rightarrow> bool list option \<Rightarrow> u64 list \<Rightarrow> nat option" where
  "pick_seen count health [] = None"
| "pick_seen count health (c # cs) =
     (let index = unat c mod count
      in if (case health of None \<Rightarrow> True | Some flags \<Rightarrow> is_healthy flags index) then Some index
         else pick_seen count health cs)"

definition next_addr_seen :: "target_set \<Rightarrow> u64 list \<Rightarrow> nat option" where
  "next_addr_seen ts cs =
     (let count = length (ts_addrs ts)
      in if count = 1 then Some 0
         else case pick_seen count (ts_health ts) (take count cs) of
                Some i \<Rightarrow> Some i
              | None \<Rightarrow> (if count = 0 then None else Some (unat (cs ! count) mod count)))"

text \<open>Alone on the cursor, the \<open>fetch_add\<close>s return consecutive values (wrapping at \<open>2^64\<close>).\<close>

fun pick_loop :: "nat \<Rightarrow> nat \<Rightarrow> bool list option \<Rightarrow> u64 \<Rightarrow> nat option \<times> u64" where
  "pick_loop 0 count health cur = (None, cur)"
| "pick_loop (Suc n) count health cur =
     (let index = unat cur mod count
      in if (case health of None \<Rightarrow> True | Some flags \<Rightarrow> is_healthy flags index)
         then (Some index, cur + 1)
         else pick_loop n count health (cur + 1))"

definition next_addr :: "target_set \<Rightarrow> u64 \<Rightarrow> nat option \<times> u64" where
  "next_addr ts cur =
     (let count = length (ts_addrs ts)
      in if count = 1 then (Some 0, cur)
         else case pick_loop count count (ts_health ts) cur of
                (Some i, cur') \<Rightarrow> (Some i, cur')
              | (None, cur') \<Rightarrow> ((if count = 0 then None else Some (unat cur' mod count)), cur' + 1))"

section \<open>The health checker\<close>

record health_check_config =
  hc_path :: string
  hc_interval_ms :: nat
  hc_timeout_ms :: nat
  hc_unhealthy_threshold :: nat
  hc_healthy_threshold :: nat

record streak =
  sk_failures :: nat
  sk_successes :: nat

definition streak_default :: streak where
  "streak_default = \<lparr>sk_failures = 0, sk_successes = 0\<rparr>"

definition probe_uri :: "upstream_addr \<Rightarrow> string \<Rightarrow> string" where
  "probe_uri a path = ua_scheme a @ ''://'' @ ua_authority a @ ua_base_path a @ path"

text \<open>The body of the result loop for one address.\<close>

definition apply_result :: "health_check_config \<Rightarrow> bool \<Rightarrow> bool \<times> streak \<Rightarrow> bool \<times> streak" where
  "apply_result cfg healthy fs =
     (let (flag, sk) = fs
      in if healthy then
           let sk' = sk\<lparr>sk_failures := 0, sk_successes := sat_u32 (sk_successes sk + 1)\<rparr>
           in (if \<not> flag \<and> sk_successes sk' \<ge> hc_healthy_threshold cfg then True else flag, sk')
         else
           let sk' = sk\<lparr>sk_successes := 0, sk_failures := sat_u32 (sk_failures sk + 1)\<rparr>
           in (if flag \<and> sk_failures sk' \<ge> hc_unhealthy_threshold cfg then False else flag, sk'))"

fun apply_results :: "health_check_config \<Rightarrow> bool list \<Rightarrow> bool list \<Rightarrow> streak list \<Rightarrow>
    bool list \<times> streak list" where
  "apply_results cfg (r # rs) (f # fs) (k # ks) =
     (let (f', k') = apply_result cfg r (f, k); (fs', ks') = apply_results cfg rs fs ks
      in (f' # fs', k' # ks'))"
| "apply_results cfg _ fs ks = (fs, ks)"

text \<open>
  One tick of the checker task while the target is alive: rebuild the probe URIs and
  streaks when the set changed, then probe every address and apply the outcomes.
\<close>

definition checker_tick :: "health_check_config \<Rightarrow> (string \<Rightarrow> bool) \<Rightarrow>
    (nat \<times> string list \<times> streak list) option \<Rightarrow> target_set \<Rightarrow>
    (nat \<times> string list \<times> streak list) option \<times> target_set" where
  "checker_tick cfg probe probed current =
     (let uris0 = map (\<lambda>a. probe_uri a (hc_path cfg)) (ts_addrs current);
          fresh = (ts_gen current, uris0, map (\<lambda>_. streak_default) uris0);
          (gen, uris, streaks) =
            (case probed of Some (g, us, sks) \<Rightarrow> if g = ts_gen current then (g, us, sks) else fresh
             | None \<Rightarrow> fresh)
      in case ts_health current of
           None \<Rightarrow> (Some (gen, uris, streaks), current)
         | Some flags \<Rightarrow>
             let (flags', streaks') = apply_results cfg (map probe uris) flags streaks
             in (Some (gen, uris, streaks'), current\<lparr>ts_health := Some flags'\<rparr>))"

definition probe_outcome :: "nat option \<Rightarrow> bool" where
  "probe_outcome status = (case status of Some st \<Rightarrow> 200 \<le> st \<and> st < 300 | None \<Rightarrow> False)"

section \<open>Lemmas: rotation\<close>

lemma pick_loop_finds:
  assumes "unat cur + n \<le> 2 ^ 64 - 1" and "k < n"
    and "is_healthy flags ((unat cur + k) mod count)"
    and "\<And>j. j < k \<Longrightarrow> \<not> is_healthy flags ((unat cur + j) mod count)"
  shows "pick_loop n count (Some flags) cur
    = (Some ((unat cur + k) mod count), cur + word_of_nat (Suc k))"
  using assms
proof (induction n arbitrary: cur k)
  case 0
  then show ?case by simp
next
  case (Suc n)
  have suc: "unat (cur + 1) = unat cur + 1"
    using Suc.prems(1) by (simp add: unat_word_ariths)
  show ?case
  proof (cases k)
    case 0
    with Suc.prems(3) show ?thesis by simp
  next
    case (Suc j)
    have "\<not> is_healthy flags (unat cur mod count)"
      using Suc.prems(4) [of 0] Suc by simp
    moreover have "pick_loop n count (Some flags) (cur + 1)
        = (Some ((unat (cur + 1) + j) mod count), cur + 1 + word_of_nat (Suc j))"
      using Suc.prems Suc.prems(4) [of "Suc _"] Suc suc by (intro Suc.IH) auto
    ultimately show ?thesis
      using Suc suc by (simp add: algebra_simps)
  qed
qed

lemma pick_loop_none:
  assumes "unat cur + n \<le> 2 ^ 64 - 1" and "\<And>j. j < n \<Longrightarrow> \<not> is_healthy flags ((unat cur + j) mod count)"
  shows "pick_loop n count (Some flags) cur = (None, cur + word_of_nat n)
    \<and> unat (cur + word_of_nat n) = unat cur + n"
  using assms
proof (induction n arbitrary: cur)
  case 0
  then show ?case by simp
next
  case (Suc n)
  have suc: "unat (cur + 1) = unat cur + 1"
    using Suc.prems(1) by (simp add: unat_word_ariths)
  have "pick_loop n count (Some flags) (cur + 1) = (None, cur + 1 + word_of_nat n)
    \<and> unat (cur + 1 + word_of_nat n) = unat (cur + 1) + n"
    using Suc.prems(1) Suc.prems(2) [of "Suc _"] suc by (intro Suc.IH) auto
  moreover have "\<not> is_healthy flags (unat cur mod count)"
    using Suc.prems(2) [of 0] by simp
  ultimately show ?case using suc by (simp add: algebra_simps)
qed

lemma residues_covered: "0 < count \<Longrightarrow> i < count \<Longrightarrow> \<exists>k < count. (c + k) mod count = (i :: nat)"
proof -
  assume a: "0 < count" "i < count"
  let ?k = "(i + (count - c mod count)) mod count"
  have "(c + ?k) mod count = (c mod count + (i + (count - c mod count))) mod count"
    by (simp add: mod_add_left_eq mod_add_right_eq)
  also have "c mod count + (i + (count - c mod count)) = i + count"
    using mod_less_divisor [OF a(1), of c] by simp
  finally have "(c + ?k) mod count = i" using a by simp
  then show ?thesis using a by (intro exI [of _ ?k]) simp
qed

section \<open>Lemmas: streaks\<close>

text \<open>The trailing run of one outcome at the end of a probe history.\<close>

definition trailing :: "bool \<Rightarrow> bool list \<Rightarrow> nat" where
  "trailing b rs = length (takeWhile (\<lambda>r. r = b) (rev rs))"

definition probe_run :: "health_check_config \<Rightarrow> bool list \<Rightarrow> bool \<times> streak" where
  "probe_run cfg rs = foldl (\<lambda>fs r. apply_result cfg r fs) (True, streak_default) rs"

lemma trailing_snoc [simp]:
  "trailing b (rs @ [r]) = (if r = b then Suc (trailing b rs) else 0)" "trailing b [] = 0"
  by (simp_all add: trailing_def)

lemma probe_run_snoc [simp]: "probe_run cfg (rs @ [r]) = apply_result cfg r (probe_run cfg rs)"
  by (simp add: probe_run_def)

lemma probe_run_streak:
  "sk_failures (snd (probe_run cfg rs)) = sat_u32 (trailing False rs)
   \<and> sk_successes (snd (probe_run cfg rs)) = sat_u32 (trailing True rs)"
proof (induction rs rule: rev_induct)
  case Nil
  then show ?case by (simp add: probe_run_def streak_default_def sat_u32_def)
next
  case (snoc r rs)
  then show ?case
    by (cases "probe_run cfg rs") (auto simp: apply_result_def Let_def sat_u32_def u32_max_def)
qed

lemma sat_u32_ge: "t \<le> u32_max \<Longrightarrow> t \<le> sat_u32 n \<longleftrightarrow> t \<le> n"
  by (auto simp: sat_u32_def)

lemma trailing_ge: "n \<le> trailing b rs \<longleftrightarrow> n \<le> length rs \<and> (\<forall>r \<in> set (drop (length rs - n) rs). r = b)"
proof (induction rs arbitrary: n rule: rev_induct)
  case Nil
  then show ?case by simp
next
  case (snoc r rs)
  then show ?case by (cases n) (auto simp: Suc_diff_le)
qed

section \<open>Properties\<close>

text \<open>
  Eviction hysteresis: for one address probed with any history of outcomes from a
  fresh, healthy start, the checker evicts it exactly when it is in the rotation and its
  last \<open>unhealthy_threshold\<close> probes have all failed, and reinstates it exactly when it is
  evicted and its last \<open>healthy_threshold\<close> probes have all succeeded; otherwise the flag
  keeps its value.
\<close>

theorem health_hysteresis:
  assumes "hc_unhealthy_threshold cfg \<in> {1 .. u32_max}" and "hc_healthy_threshold cfg \<in> {1 .. u32_max}"
  shows "fst (probe_run cfg []) = True
    \<and> fst (probe_run cfg (rs @ [r])) =
        (let hist = rs @ [r];
             lastn = (\<lambda>n. drop (length hist - n) hist)
         in if fst (probe_run cfg rs)
            then \<not> (hc_unhealthy_threshold cfg \<le> length hist
                   \<and> (\<forall>x \<in> set (lastn (hc_unhealthy_threshold cfg)). x = False))
            else hc_healthy_threshold cfg \<le> length hist
                 \<and> (\<forall>x \<in> set (lastn (hc_healthy_threshold cfg)). x = True))"
proof -
  obtain f k where fk: "probe_run cfg rs = (f, k)" by fastforce
  have k: "sk_failures k = sat_u32 (trailing False rs)" "sk_successes k = sat_u32 (trailing True rs)"
    using probe_run_streak [of cfg rs] fk by auto
  have u: "hc_unhealthy_threshold cfg \<le> sat_u32 (Suc (sat_u32 n)) \<longleftrightarrow> hc_unhealthy_threshold cfg \<le> Suc n"
    and h: "hc_healthy_threshold cfg \<le> sat_u32 (Suc (sat_u32 n)) \<longleftrightarrow> hc_healthy_threshold cfg \<le> Suc n" for n
    using assms by (auto simp: sat_u32_def)
  have z: "0 < hc_unhealthy_threshold cfg" "0 < hc_healthy_threshold cfg"
    using assms by auto
  have step: "fst (probe_run cfg (rs @ [r])) =
      (if f then \<not> hc_unhealthy_threshold cfg \<le> trailing False (rs @ [r])
       else hc_healthy_threshold cfg \<le> trailing True (rs @ [r]))"
    using z by (simp add: fk apply_result_def Let_def k u h)
  then show ?thesis
    unfolding trailing_ge Let_def fk fst_conv by (simp add: probe_run_def)
qed

theorem health_hysteresis_witness:
  "map (\<lambda>n. fst (probe_run \<lparr>hc_path = ''/'', hc_interval_ms = 1, hc_timeout_ms = 1,
        hc_unhealthy_threshold = 2, hc_healthy_threshold = 1\<rparr> (take n [False, False, False, True])))
     [0, 1, 2, 3, 4] = [True, True, False, False, True]"
  using health_hysteresis [of "\<lparr>hc_path = ''/'', hc_interval_ms = 1, hc_timeout_ms = 1,
      hc_unhealthy_threshold = 2, hc_healthy_threshold = 1\<rparr>" "[False]" False]
  by (simp add: probe_run_def apply_result_def streak_default_def sat_u32_def u32_max_def)

text \<open>
  The rotation skips evicted addresses and fails open: with more than one address and a
  cursor that does not wrap during the call, \<open>next_addr\<close> picks the first healthy address
  at or after the cursor's position and advances the cursor just past it; when every address
  is evicted it picks the plain rotation's address, so an address is always returned.
\<close>

theorem next_addr_skips_evicted:
  assumes "ts_health ts = Some flags" and "length flags = length (ts_addrs ts)"
    and "1 < length (ts_addrs ts)" and "unat cur + length (ts_addrs ts) < 2 ^ 64 - 1"
  defines "n \<equiv> length (ts_addrs ts)"
  shows "(if \<exists>i < n. flags ! i then
      \<exists>k < n. next_addr ts cur = (Some ((unat cur + k) mod n), cur + word_of_nat (Suc k))
        \<and> flags ! ((unat cur + k) mod n) \<and> (\<forall>j < k. \<not> flags ! ((unat cur + j) mod n))
     else next_addr ts cur = (Some (unat cur mod n), cur + word_of_nat (Suc n)))"
proof (cases "\<exists>i < n. flags ! i")
  case True
  have n: "0 < n" using assms(3) unfolding n_def by linarith
  let ?P = "\<lambda>k. k < n \<and> flags ! ((unat cur + k) mod n)"
  obtain k0 where "?P k0"
    using True residues_covered [OF n] by metis
  then have k: "?P (LEAST k. ?P k)" by (rule LeastI)
  have least: "\<not> ?P j" if "j < (LEAST k. ?P k)" for j
    using that by (rule not_less_Least)
  define k where "k = (LEAST k. ?P k)"
  have lt: "\<not> flags ! ((unat cur + j) mod n)" if "j < k" for j
    using least [of j] that k by (auto simp: k_def)
  have "pick_loop n n (Some flags) cur = (Some ((unat cur + k) mod n), cur + word_of_nat (Suc k))"
    using k lt assms(4) by (intro pick_loop_finds) (auto simp: is_healthy_def k_def n_def)
  then have "next_addr ts cur = (Some ((unat cur + k) mod n), cur + word_of_nat (Suc k))"
    using assms(1,3) by (simp add: next_addr_def n_def)
  with True k lt show ?thesis by (auto simp: k_def)
next
  case False
  have n: "0 < n" using assms(3) unfolding n_def by linarith
  have "pick_loop n n (Some flags) cur = (None, cur + word_of_nat n)
      \<and> unat (cur + word_of_nat n) = unat cur + n"
    using False n assms(4) by (intro pick_loop_none) (auto simp: is_healthy_def n_def)
  then have "next_addr ts cur = (Some (unat cur mod n), cur + word_of_nat (Suc n))"
    using assms(1,3) n by (simp add: next_addr_def n_def Let_def algebra_simps)
  then show ?thesis unfolding if_not_P [OF False] .
qed

theorem next_addr_skips_evicted_witness:
  "\<exists>ts k. ts_health ts = Some [False, True, False] \<and> k < 3 \<and> [False, True, False] ! ((2 + k) mod 3)
    \<and> fst (next_addr ts 2) = Some ((2 + k) mod 3)"
proof -
  let ?a = "\<lparr>ua_scheme = ''http'', ua_authority = ''h'', ua_base_path = []\<rparr>"
  let ?ts = "\<lparr>ts_gen = 0, ts_addrs = [?a, ?a, ?a], ts_health = Some [False, True, False]\<rparr>"
  have n: "length (ts_addrs ?ts) = 3" by simp
  have e: "\<exists>i < 3. [False, True, False] ! i" by (rule exI [of _ 1]) simp
  have "\<exists>k < 3. next_addr ?ts 2 = (Some ((unat (2 :: u64) + k) mod 3), 2 + word_of_nat (Suc k))
      \<and> [False, True, False] ! ((unat (2 :: u64) + k) mod 3)
      \<and> (\<forall>j < k. \<not> [False, True, False] ! ((unat (2 :: u64) + j) mod 3))"
    using next_addr_skips_evicted [of ?ts "[False, True, False]" 2, unfolded n if_P [OF e]] by simp
  then obtain k where "k < 3" "fst (next_addr ?ts 2) = Some ((2 + k) mod 3)"
    "[False, True, False] ! ((2 + k) mod 3)" by auto
  then show ?thesis by (intro exI [of _ ?ts] exI [of _ k]) simp
qed

text \<open>
  Rotation is fair: with no health state, any \<open>n\<close> consecutive picks (while the
  cursor does not wrap) hit each of the \<open>n\<close> addresses exactly once.
\<close>

fun picks :: "nat \<Rightarrow> target_set \<Rightarrow> u64 \<Rightarrow> nat option list" where
  "picks 0 ts cur = []"
| "picks (Suc k) ts cur = (let (i, cur') = next_addr ts cur in i # picks k ts cur')"

lemma picks_unchecked:
  assumes "ts_health ts = None" and "1 < length (ts_addrs ts)" and "unat cur + k \<le> 2 ^ 64 - 1"
  shows "picks k ts cur = map (\<lambda>j. Some ((unat cur + j) mod length (ts_addrs ts))) [0 ..< k]"
  using assms(3)
proof (induction k arbitrary: cur)
  case 0
  then show ?case by simp
next
  case (Suc k)
  have suc: "unat (cur + 1) = unat cur + 1"
    using Suc.prems by (simp add: unat_word_ariths)
  obtain m where m: "length (ts_addrs ts) = Suc m" using assms(2) by (cases "length (ts_addrs ts)") auto
  have "next_addr ts cur = (Some (unat cur mod length (ts_addrs ts)), cur + 1)"
    using assms(1,2) by (simp add: next_addr_def m)
  moreover have "picks k ts (cur + 1)
      = map (\<lambda>j. Some ((unat cur + 1 + j) mod length (ts_addrs ts))) [0 ..< k]"
    using Suc suc by simp
  ultimately show ?case
    by (simp add: upt_conv_Cons map_Suc_upt [symmetric] comp_def del: upt_Suc)
qed

theorem rotation_is_fair:
  assumes "ts_health ts = None" and "1 < length (ts_addrs ts)"
    and "unat cur + length (ts_addrs ts) \<le> 2 ^ 64 - 1" and "i < length (ts_addrs ts)"
  shows "length (filter (\<lambda>p. p = Some i) (picks (length (ts_addrs ts)) ts cur)) = 1"
proof -
  let ?n = "length (ts_addrs ts)"
  have n: "0 < ?n" using assms(2) by linarith
  have inj: "inj_on (\<lambda>j. (unat cur + j) mod ?n) {0 ..< ?n}"
  proof (rule eq_card_imp_inj_on)
    have "(\<lambda>j. (unat cur + j) mod ?n) ` {0 ..< ?n} = {0 ..< ?n}"
    proof (intro equalityI subsetI)
      fix x
      assume "x \<in> {0 ..< ?n}"
      then obtain k where "k < ?n" "(unat cur + k) mod ?n = x"
        using residues_covered [OF n, of x "unat cur"] by auto
      then show "x \<in> (\<lambda>j. (unat cur + j) mod ?n) ` {0 ..< ?n}" by force
    qed (use n in auto)
    then show "card ((\<lambda>j. (unat cur + j) mod ?n) ` {0 ..< ?n}) = card {0 ..< ?n}" by simp
  qed simp
  have d: "distinct (picks ?n ts cur)"
    using inj by (simp add: picks_unchecked [OF assms(1-3)] distinct_map inj_on_def)
  have mem: "Some i \<in> set (picks ?n ts cur)"
    using residues_covered [OF n assms(4), of "unat cur"]
    by (fastforce simp: picks_unchecked [OF assms(1-3)] image_iff)
  have "length (filter (\<lambda>p. p = Some i) (picks ?n ts cur)) = card ({Some i} \<inter> set (picks ?n ts cur))"
    using distinct_length_filter [OF d, of "\<lambda>p. p = Some i"] by (simp add: Collect_conv_if)
  with mem show ?thesis by simp
qed

theorem rotation_is_fair_witness:
  "\<exists>ts. length (ts_addrs ts) = 3 \<and> length (filter (\<lambda>p. p = Some 1) (picks 3 ts 7)) = 1"
proof -
  let ?a = "\<lparr>ua_scheme = ''http'', ua_authority = ''h'', ua_base_path = []\<rparr>"
  let ?ts = "\<lparr>ts_gen = 0, ts_addrs = [?a, ?a, ?a], ts_health = None\<rparr>"
  have "length (filter (\<lambda>p. p = Some 1) (picks 3 ?ts 7)) = 1"
    using rotation_is_fair [of ?ts 7 1] by (simp add: numeral_3_eq_3)
  then show ?thesis by (intro exI [of _ ?ts]) simp
qed

text \<open>
  Under concurrency the skip is only best effort: a request whose \<open>fetch_add\<close>s
  interleave with another's sees every other cursor value, and can pick an evicted address
  although a healthy one is in the rotation.
\<close>

theorem concurrent_pick_can_be_evicted:
  "\<exists>ts flags. ts_health ts = Some flags \<and> flags = [False, True] \<and> length (ts_addrs ts) = 2
    \<and> next_addr_seen ts [0, 2, 4] = Some 0"
proof -
  let ?a = "\<lparr>ua_scheme = ''http'', ua_authority = ''h'', ua_base_path = []\<rparr>"
  let ?ts = "\<lparr>ts_gen = 0, ts_addrs = [?a, ?a], ts_health = Some [False, True]\<rparr>"
  have "next_addr_seen ?ts [0, 2, 4] = Some 0"
    by code_simp
  then show ?thesis by (intro exI [of _ ?ts]) simp
qed

end
