(* ===== verification/Auth_Config.thy ===== *)
theory Auth_Config
  imports Http Upstream "HOL-Library.Char_ord" "HOL-Library.List_Lexorder"
begin

text \<open>
  Authentication settings of an API definition: \<open>AuthConfig\<close> of
  \<open>g2-core/src/api_definition.rs\<close> with its validation. The URI parser is a parameter.
\<close>

datatype jwt_signing_method = Hs256 | Rs256

datatype hmac_algorithm = HmacSha256 | HmacSha384 | HmacSha512

definition hmac_as_str :: "hmac_algorithm \<Rightarrow> string" where
  "hmac_as_str a =
     (case a of HmacSha256 \<Rightarrow> ''hmac-sha256'' | HmacSha384 \<Rightarrow> ''hmac-sha384'' | HmacSha512 \<Rightarrow> ''hmac-sha512'')"

record auth_token_config =
  at_header :: string
  at_query_param :: "string option"
  at_cookie :: "string option"

record jwt_config =
  jw_signing_method :: jwt_signing_method
  jw_secret :: "string option"
  jw_public_key_pem :: "string option"
  jw_jwks_url :: "string option"
  jw_jwks_refresh_secs :: "nat option"
  jw_header :: string
  jw_identity_claim :: string

record oidc_config =
  oi_issuer_url :: string
  oi_audiences :: "string list"
  oi_jwks_url :: "string option"
  oi_jwks_refresh_secs :: "nat option"
  oi_header :: string
  oi_identity_claim :: string
  oi_policy_claim :: string
  oi_policy_map :: "(string \<times> string) list"

datatype auth_config =
    Keyless
  | AuthToken auth_token_config
  | Jwt jwt_config
  | Oidc oidc_config
  | BasicAuth string
  | Mtls
  | Hmac "hmac_algorithm list" "nat option"

definition auth_default :: auth_config where
  "auth_default = AuthToken \<lparr>at_header = ''Authorization'', at_query_param = None, at_cookie = None\<rparr>"

definition mode_name :: "auth_config \<Rightarrow> string" where
  "mode_name a =
     (case a of
        Keyless \<Rightarrow> ''keyless''
      | AuthToken _ \<Rightarrow> ''auth_token''
      | Jwt _ \<Rightarrow> ''jwt''
      | Oidc _ \<Rightarrow> ''oidc''
      | BasicAuth _ \<Rightarrow> ''basic_auth''
      | Mtls \<Rightarrow> ''mtls''
      | Hmac _ _ \<Rightarrow> ''hmac'')"

definition blank_opt :: "string option \<Rightarrow> bool" where
  "blank_opt x \<longleftrightarrow> (case x of Some s \<Rightarrow> is_blank s | None \<Rightarrow> False)"

definition http_url_ok :: "(string \<Rightarrow> string + uri_parts) \<Rightarrow> string \<Rightarrow> bool" where
  "http_url_ok parse_uri url =
     (case parse_uri url of
        Inl _ \<Rightarrow> False
      | Inr u \<Rightarrow> (uri_scheme u = Some ''http'' \<or> uri_scheme u = Some ''https'') \<and> uri_authority u \<noteq> None)"

definition header_name_check :: "'h http_ext \<Rightarrow> string \<Rightarrow> string \<Rightarrow> (error, unit) res" where
  "header_name_check X api header =
     require (hn_parse X header \<noteq> None)
       (InvalidApiDefinition api (''`auth.header` is not a valid header name: `'' @ header @ ''`''))"

definition jwks_url_check :: "(string \<Rightarrow> string + uri_parts) \<Rightarrow> string \<Rightarrow> string option \<Rightarrow> (error, unit) res" where
  "jwks_url_check parse_uri api jwks_url =
     (case jwks_url of
        None \<Rightarrow> Ok ()
      | Some url \<Rightarrow> require (http_url_ok parse_uri url)
          (InvalidApiDefinition api (''`auth.jwks_url` is not a valid http(s) URL: `'' @ url @ ''`'')))"

definition auth_token_validate :: "'h http_ext \<Rightarrow> string \<Rightarrow> auth_token_config \<Rightarrow> (error, unit) res" where
  "auth_token_validate X api c =
     and_then (header_name_check X api (at_header c))
    (and_then (require (\<not> blank_opt (at_query_param c))
                (InvalidApiDefinition api ''`auth.query_param` must not be empty''))
              (require (\<not> blank_opt (at_cookie c))
                (InvalidApiDefinition api ''`auth.cookie` must not be empty'')))"

definition jwt_key_validate :: "string \<Rightarrow> jwt_config \<Rightarrow> (error, unit) res" where
  "jwt_key_validate api c =
     (let fail = InvalidApiDefinition api;
          filled = (\<lambda>x. case x of Some s \<Rightarrow> \<not> is_blank s | None \<Rightarrow> False)
      in case jw_signing_method c of
           Hs256 \<Rightarrow>
             and_then (require (filled (jw_secret c)) (fail ''hs256 requires a non-empty `auth.secret`''))
            (and_then (require (jw_public_key_pem c = None)
                        (fail ''`auth.public_key_pem` is not used with hs256; remove it''))
                      (require (jw_jwks_url c = None)
                        (fail ''`auth.jwks_url` is not used with hs256; remove it'')))
         | Rs256 \<Rightarrow>
             and_then (require (filled (jw_public_key_pem c) \<noteq> filled (jw_jwks_url c))
                        (fail (''rs256 requires exactly one of `auth.public_key_pem` or ''
                          @ ''`auth.jwks_url`'')))
                      (require (jw_secret c = None)
                        (fail ''`auth.secret` is not used with rs256; remove it'')))"

definition jwt_validate :: "(string \<Rightarrow> string + uri_parts) \<Rightarrow> 'h http_ext \<Rightarrow> string \<Rightarrow> jwt_config \<Rightarrow>
    (error, unit) res" where
  "jwt_validate parse_uri X api c =
     (let fail = InvalidApiDefinition api in
      and_then (header_name_check X api (jw_header c))
     (and_then (require (\<not> is_blank (jw_identity_claim c)) (fail ''`auth.identity_claim` must not be empty''))
     (and_then (require (\<not> (jw_jwks_refresh_secs c \<noteq> None \<and> jw_jwks_url c = None))
                 (fail ''`auth.jwks_refresh_secs` requires `auth.jwks_url`''))
     (and_then (require (jw_jwks_refresh_secs c \<noteq> Some 0)
                 (fail ''`auth.jwks_refresh_secs` must be at least 1''))
     (and_then (jwks_url_check parse_uri api (jw_jwks_url c))
               (jwt_key_validate api c))))))"

definition issuer_ok :: "(string \<Rightarrow> string + uri_parts) \<Rightarrow> string \<Rightarrow> bool" where
  "issuer_ok parse_uri url \<longleftrightarrow>
     http_url_ok parse_uri url
     \<and> (case parse_uri url of Inl _ \<Rightarrow> False | Inr u \<Rightarrow> uri_query u = None)
     \<and> CHR ''#'' \<notin> set url"

definition oidc_validate :: "(string \<Rightarrow> string + uri_parts) \<Rightarrow> 'h http_ext \<Rightarrow> string \<Rightarrow> oidc_config \<Rightarrow>
    (error, unit) res" where
  "oidc_validate parse_uri X api c =
     (let fail = InvalidApiDefinition api in
      and_then (header_name_check X api (oi_header c))
     (and_then (require (\<not> is_blank (oi_identity_claim c)) (fail ''`auth.identity_claim` must not be empty''))
     (and_then (require (\<not> is_blank (oi_policy_claim c)) (fail ''`auth.policy_claim` must not be empty''))
     (and_then (require (issuer_ok parse_uri (oi_issuer_url c))
                 (fail (''`auth.issuer_url` is not a valid http(s) URL without ''
                   @ ''query or fragment: `'' @ oi_issuer_url c @ ''`'')))
     (and_then (require (oi_audiences c \<noteq> []) (fail ''`auth.audiences` must not be empty''))
     (and_then (require (\<not> list_ex is_blank (oi_audiences c)) (fail ''`auth.audiences` entries must not be empty''))
     (and_then (jwks_url_check parse_uri api (oi_jwks_url c))
     (and_then (require (oi_jwks_refresh_secs c \<noteq> Some 0)
                 (fail ''`auth.jwks_refresh_secs` must be at least 1''))
               (require (\<not> list_ex (\<lambda>(k, v). is_blank k \<or> is_blank v) (oi_policy_map c))
                 (fail ''`auth.policy_map` keys and values must not be empty''))))))))))"

definition basic_auth_validate :: "string \<Rightarrow> string \<Rightarrow> (error, unit) res" where
  "basic_auth_validate api realm =
     and_then (require (\<not> is_blank realm) (InvalidApiDefinition api ''`auth.realm` must not be empty''))
              (require (list_all (\<lambda>c. 32 \<le> (of_char c :: nat) \<and> (of_char c :: nat) \<le> 126
                          \<and> c \<noteq> CHR 0x22 \<and> c \<noteq> CHR 0x5c) realm)
                (InvalidApiDefinition api
                  (''`auth.realm` must be printable ASCII without `'' @ [CHR 0x22] @ ''` or `'' @ [CHR 0x5c] @ ''`'')))"

definition hmac_validate :: "string \<Rightarrow> hmac_algorithm list \<Rightarrow> nat option \<Rightarrow> (error, unit) res" where
  "hmac_validate api algs skew =
     (let fail = InvalidApiDefinition api;
          seen = remdups_adj (sort_key hmac_as_str algs)
      in and_then (require (algs \<noteq> []) (fail ''`auth.allowed_algorithms` must not be empty''))
        (and_then (require (length seen = length algs)
                    (fail ''`auth.allowed_algorithms` must not repeat entries''))
                  (require (skew \<noteq> Some 0)
                    (fail (''`auth.allowed_clock_skew_secs` must be at least 1 ''
                      @ ''(use null to disable the Date check)'')))))"

definition auth_validate :: "(string \<Rightarrow> string + uri_parts) \<Rightarrow> 'h http_ext \<Rightarrow> auth_config \<Rightarrow> string \<Rightarrow>
    (error, unit) res" where
  "auth_validate parse_uri X a api =
     (case a of
        Keyless \<Rightarrow> Ok ()
      | AuthToken c \<Rightarrow> auth_token_validate X api c
      | Jwt c \<Rightarrow> jwt_validate parse_uri X api c
      | Oidc c \<Rightarrow> oidc_validate parse_uri X api c
      | BasicAuth realm \<Rightarrow> basic_auth_validate api realm
      | Mtls \<Rightarrow> Ok ()
      | Hmac algs skew \<Rightarrow> hmac_validate api algs skew)"

end
