(* ===== verification/Endpoints.thy ===== *)
theory Endpoints
  imports Http
begin

text \<open>
  Per-endpoint configuration and its validation: \<open>g2-core/src/endpoints.rs\<close>, the header
  and method rules of \<open>g2-core/src/transform.rs\<close>, and the compiled path rules that
  \<open>path_policy.rs\<close>, \<open>mock.rs\<close> and \<open>rate_limit.rs\<close> of the middleware crate build
  from them.
\<close>

section \<open>Configuration\<close>

record path_rule =
  pr_pattern :: string
  pr_methods :: "string list"

record mock_response =
  mr_pattern :: string
  mr_methods :: "string list"
  mr_status :: nat
  mr_body :: string
  mr_headers :: "(string \<times> string) list"

record endpoint_rate_limit =
  er_pattern :: string
  er_methods :: "string list"
  er_rate :: rate_limit

definition HOP_BY_HOP :: "string list" where
  "HOP_BY_HOP = [''connection'', ''keep-alive'', ''proxy-authenticate'', ''proxy-authorization'',
     ''te'', ''trailer'', ''transfer-encoding'', ''upgrade'']"

definition TRANSFORM_METHODS :: "string list" where
  "TRANSFORM_METHODS = [''GET'', ''POST'', ''PUT'', ''PATCH'', ''DELETE'', ''HEAD'', ''OPTIONS'', ''TRACE'']"

definition default_mock_status :: nat where
  "default_mock_status = 200"

section \<open>Validation\<close>

definition validate_pattern :: "'r regex_ext \<Rightarrow> string \<Rightarrow> string \<Rightarrow> string \<Rightarrow> nat \<Rightarrow> (error, unit) res" where
  "validate_pattern R pattern api lst index =
     (case rx_new R pattern of
        Inr _ \<Rightarrow> Ok ()
      | Inl err \<Rightarrow> Err (InvalidApiDefinition api
          (''`'' @ lst @ ''['' @ show_nat index @ ''].pattern` is not a valid regex: '' @ err)))"

fun validate_methods :: "string list \<Rightarrow> string \<Rightarrow> string \<Rightarrow> nat \<Rightarrow> (error, unit) res" where
  "validate_methods [] api lst index = Ok ()"
| "validate_methods (m # ms) api lst index =
     (if \<not> list_ex (\<lambda>t. eq_ignore_ascii_case t m) TRANSFORM_METHODS then
        Err (InvalidApiDefinition api
          (''`'' @ lst @ ''['' @ show_nat index @ ''].methods` must contain only standard HTTP methods (''
           @ join_strings '', '' TRANSFORM_METHODS @ ''), got `'' @ m @ ''`''))
      else validate_methods ms api lst index)"

definition path_rule_validate :: "'r regex_ext \<Rightarrow> path_rule \<Rightarrow> string \<Rightarrow> string \<Rightarrow> nat \<Rightarrow> (error, unit) res"
where
  "path_rule_validate R rule api lst index =
     and_then (validate_pattern R (pr_pattern rule) api lst index)
              (validate_methods (pr_methods rule) api lst index)"

definition status_from_u16 :: "nat \<Rightarrow> nat option" where
  "status_from_u16 st = (if 100 \<le> st \<and> st < 1000 then Some st else None)"

fun mock_headers_validate :: "'h http_ext \<Rightarrow> (string \<Rightarrow> error) \<Rightarrow> nat \<Rightarrow> (string \<times> string) list \<Rightarrow>
    (error, unit) res" where
  "mock_headers_validate X fail index [] = Ok ()"
| "mock_headers_validate X fail index ((name, v) # rest) =
     (if hn_parse X name = None then
        Err (fail (''`mock_responses['' @ show_nat index @ ''].headers` name is not a valid header name: `''
          @ name @ ''`''))
      else if list_ex (\<lambda>h. eq_ignore_ascii_case h name) HOP_BY_HOP then
        Err (fail (''`mock_responses['' @ show_nat index @ ''].headers` must not set hop-by-hop header `''
          @ name @ ''`''))
      else if hv_from_str X v = None then
        Err (fail (''`mock_responses['' @ show_nat index @ ''].headers` value for `'' @ name
          @ ''` is not a valid header value''))
      else mock_headers_validate X fail index rest)"

definition mock_response_validate :: "'h http_ext \<Rightarrow> 'r regex_ext \<Rightarrow> mock_response \<Rightarrow> string \<Rightarrow> nat \<Rightarrow>
    (error, unit) res" where
  "mock_response_validate X R rule api index =
     and_then (validate_pattern R (mr_pattern rule) api ''mock_responses'' index)
    (and_then (validate_methods (mr_methods rule) api ''mock_responses'' index)
    (and_then (require (status_from_u16 (mr_status rule) \<noteq> None \<and> mr_status rule \<le> 599)
                (InvalidApiDefinition api
                  (''`mock_responses['' @ show_nat index @ ''].status` is not a valid HTTP status code: ''
                   @ show_nat (mr_status rule))))
              (mock_headers_validate X (InvalidApiDefinition api) index (mr_headers rule))))"

definition endpoint_rate_limit_validate :: "'r regex_ext \<Rightarrow> endpoint_rate_limit \<Rightarrow> string \<Rightarrow> nat \<Rightarrow>
    (error, unit) res" where
  "endpoint_rate_limit_validate R rule api index =
     (let zero = (\<lambda>field. InvalidApiDefinition api
            (''`endpoint_rate_limits['' @ show_nat index @ ''].rate.'' @ field
             @ ''` must be greater than zero (omit the rule for unlimited)'')) in
      and_then (validate_pattern R (er_pattern rule) api ''endpoint_rate_limits'' index)
     (and_then (validate_methods (er_methods rule) api ''endpoint_rate_limits'' index)
     (and_then (require (rl_requests (er_rate rule) \<noteq> 0) (zero ''requests''))
               (require (rl_per_seconds (er_rate rule) \<noteq> 0) (zero ''per_seconds'')))))"

definition endpoint_rate_limit_storage_key :: "string \<Rightarrow> string \<Rightarrow> nat \<Rightarrow> string" where
  "endpoint_rate_limit_storage_key org_id scope index =
     ''g2:'' @ org_id @ '':endpointrl:'' @ scope @ '':'' @ show_nat index"

section \<open>Compiled rules\<close>

text \<open>The method filter every compiled rule carries; \<open>what\<close> names the rule kind in errors.\<close>

definition compile_methods :: "'h http_ext \<Rightarrow> string \<Rightarrow> string \<Rightarrow> string list \<Rightarrow> (error, string list) res" where
  "compile_methods X what api_id ms =
     traverse (\<lambda>m. case method_parse X (to_ascii_uppercase m) of
                     Some p \<Rightarrow> Ok p
                   | None \<Rightarrow> Err (InvalidApiDefinition api_id (''invalid '' @ what @ '' method `'' @ m @ ''`''))) ms"

definition compile_regex :: "'r regex_ext \<Rightarrow> string \<Rightarrow> string \<Rightarrow> string \<Rightarrow> (error, 'r) res" where
  "compile_regex R what api_id pattern =
     (case rx_new R pattern of
        Inr r \<Rightarrow> Ok r
      | Inl e \<Rightarrow> Err (InvalidApiDefinition api_id (''invalid '' @ what @ '' regex `'' @ pattern @ ''`: '' @ e)))"

record 'r compiled_rule =
  cr_regex :: 'r
  cr_methods :: "string list"

definition rule_matches :: "'r regex_ext \<Rightarrow> 'r \<Rightarrow> string list \<Rightarrow> string \<Rightarrow> string \<Rightarrow> bool" where
  "rule_matches R regex methods method path \<longleftrightarrow>
     (methods = [] \<or> method \<in> set methods) \<and> rx_is_match R regex path"

definition compiled_rule_compile :: "'h http_ext \<Rightarrow> 'r regex_ext \<Rightarrow> string \<Rightarrow> path_rule \<Rightarrow>
    (error, 'r compiled_rule) res" where
  "compiled_rule_compile X R api_id rule =
     bind_res (compile_regex R ''path rule'' api_id (pr_pattern rule)) (\<lambda>regex.
     bind_res (compile_methods X ''path rule'' api_id (pr_methods rule)) (\<lambda>methods.
       Ok \<lparr>cr_regex = regex, cr_methods = methods\<rparr>))"

definition compiled_rule_matches :: "'r regex_ext \<Rightarrow> 'r compiled_rule \<Rightarrow> string \<Rightarrow> string \<Rightarrow> bool" where
  "compiled_rule_matches R r method path = rule_matches R (cr_regex r) (cr_methods r) method path"

definition compile_list :: "'h http_ext \<Rightarrow> 'r regex_ext \<Rightarrow> string \<Rightarrow> path_rule list \<Rightarrow>
    (error, 'r compiled_rule list) res" where
  "compile_list X R api_id rules = traverse (compiled_rule_compile X R api_id) rules"

definition any_match :: "'r regex_ext \<Rightarrow> 'r compiled_rule list \<Rightarrow> string \<Rightarrow> string \<Rightarrow> bool" where
  "any_match R rules method path = list_ex (\<lambda>r. compiled_rule_matches R r method path) rules"

end
