(* ===== verification/Path_Policy.thy ===== *)
theory Path_Policy
  imports Endpoints
begin

text \<open>
  Request admission by path, address and size: \<open>path_policy.rs\<close>, \<open>ip_filter.rs\<close> and
  \<open>size_limit.rs\<close> of \<open>g2-middleware\<close>, with the list parsing of \<open>g2-core/src/security.rs\<close>.
  The \<open>ipnet\<close> crate and the address parser are parameters.
\<close>

section \<open>Path lists\<close>

definition FORBIDDEN_PATH_MSG :: string where
  "FORBIDDEN_PATH_MSG = ''requested endpoint is forbidden''"

record 'r policy_state =
  ps_allow :: "'r compiled_rule list"
  ps_block :: "'r compiled_rule list"
  ps_ignore :: "'r compiled_rule list"

definition path_policy_from_config :: "'h http_ext \<Rightarrow> 'r regex_ext \<Rightarrow> path_rule list \<Rightarrow> path_rule list \<Rightarrow>
    path_rule list \<Rightarrow> string \<Rightarrow> (error, 'r policy_state option) res" where
  "path_policy_from_config X R allow block ignore api_id =
     (if allow = [] \<and> block = [] \<and> ignore = [] then Ok None
      else bind_res (compile_list X R api_id allow) (\<lambda>a.
           bind_res (compile_list X R api_id block) (\<lambda>b.
           bind_res (compile_list X R api_id ignore) (\<lambda>i.
             Ok (Some \<lparr>ps_allow = a, ps_block = b, ps_ignore = i\<rparr>)))))"

definition path_policy :: "'h http_ext \<Rightarrow> 'r regex_ext \<Rightarrow> 'r policy_state \<Rightarrow> ('h, 'w) service \<Rightarrow> ('h, 'w) service"
where
  "path_policy X R st inner req w =
     (let method = rq_method req; path = rq_path req
      in if any_match R (ps_block st) method path
            \<or> (ps_allow st \<noteq> [] \<and> \<not> any_match R (ps_allow st) method path)
         then (Some (json_error X 403 FORBIDDEN_PATH_MSG), w)
         else inner (if any_match R (ps_ignore st) method path
                     then req\<lparr>rq_auth_bypass := True\<rparr> else req) w)"

section \<open>Address lists\<close>

record 'n ipnet_ext =
  net_parse :: "string \<Rightarrow> 'n option"
  ip_parse :: "string \<Rightarrow> ip_addr option"
  net_of_ip :: "ip_addr \<Rightarrow> 'n"
  net_contains :: "'n \<Rightarrow> ip_addr \<Rightarrow> bool"

definition parse_ip_entry :: "'n ipnet_ext \<Rightarrow> string \<Rightarrow> 'n option" where
  "parse_ip_entry N entry =
     (case net_parse N entry of
        Some net \<Rightarrow> Some net
      | None \<Rightarrow> map_option (net_of_ip N) (ip_parse N entry))"

fun validate_ip_list :: "'n ipnet_ext \<Rightarrow> string list \<Rightarrow> string \<Rightarrow> string \<Rightarrow> (error, unit) res" where
  "validate_ip_list N [] api field = Ok ()"
| "validate_ip_list N (entry # rest) api field =
     (if parse_ip_entry N entry = None then
        Err (InvalidApiDefinition api
          (''`'' @ field @ ''` entry is not an IP address or CIDR network: `'' @ entry @ ''`''))
      else validate_ip_list N rest api field)"

definition FORBIDDEN_IP_MSG :: string where
  "FORBIDDEN_IP_MSG = ''access from this address is forbidden''"

record 'n filter_state =
  fs_allow :: "'n list"
  fs_block :: "'n list"

definition parse_ip_list :: "'n ipnet_ext \<Rightarrow> string \<Rightarrow> string \<Rightarrow> string list \<Rightarrow> (error, 'n list) res" where
  "parse_ip_list N api_id field lst =
     traverse (\<lambda>entry. case parse_ip_entry N entry of
                 Some net \<Rightarrow> Ok net
               | None \<Rightarrow> Err (InvalidApiDefinition api_id
                   (''`'' @ field @ ''` entry is not an IP or CIDR: `'' @ entry @ ''`''))) lst"

definition ip_filter_from_config :: "'n ipnet_ext \<Rightarrow> string list \<Rightarrow> string list \<Rightarrow> string \<Rightarrow>
    (error, 'n filter_state option) res" where
  "ip_filter_from_config N allow block api_id =
     (if allow = [] \<and> block = [] then Ok None
      else bind_res (parse_ip_list N api_id ''allow_ips'' allow) (\<lambda>a.
           bind_res (parse_ip_list N api_id ''block_ips'' block) (\<lambda>b.
             Ok (Some \<lparr>fs_allow = a, fs_block = b\<rparr>))))"

definition permits :: "'n ipnet_ext \<Rightarrow> 'n filter_state \<Rightarrow> ip_addr \<Rightarrow> bool" where
  "permits N st ip =
     (let c = to_canonical ip
      in if list_ex (\<lambda>net. net_contains N net c) (fs_block st) then False
         else fs_allow st = [] \<or> list_ex (\<lambda>net. net_contains N net c) (fs_allow st))"

definition ip_filter :: "'h http_ext \<Rightarrow> 'n ipnet_ext \<Rightarrow> 'n filter_state \<Rightarrow> ('h, 'w) service \<Rightarrow> ('h, 'w) service"
where
  "ip_filter X N st inner req w =
     (let permitted = (case rq_client_addr req of Some addr \<Rightarrow> permits N st addr | None \<Rightarrow> False)
      in if \<not> permitted then (Some (json_error X 403 FORBIDDEN_IP_MSG), w) else inner req w)"

section \<open>Body size\<close>

definition TOO_LARGE_MSG :: string where
  "TOO_LARGE_MSG = ''request body too large''"

text \<open>
  \<open>LimitedBody\<close>, frame by frame: trailers pass, a data frame longer than what remains ends
  the body with \<open>RequestTooLarge\<close>. The consumer stops at an error.
\<close>

fun limited_frames :: "nat \<Rightarrow> nat \<Rightarrow> frame list \<Rightarrow> body_error option \<Rightarrow> frame list \<times> body_error option" where
  "limited_frames limit rem [] err = ([], err)"
| "limited_frames limit rem (Trailers # fs) err =
     (let (out, e) = limited_frames limit rem fs err in (Trailers # out, e))"
| "limited_frames limit rem (Data d # fs) err =
     (if rem < length d then ([], Some (RequestTooLarge limit))
      else let (out, e) = limited_frames limit (rem - length d) fs err in (Data d # out, e))"

definition limited_body :: "nat \<Rightarrow> body \<Rightarrow> body" where
  "limited_body limit b =
     (let (fs, e) = limited_frames limit limit (bd_frames b) (bd_error b)
      in \<lparr>bd_frames = fs, bd_error = e, bd_end = bd_end b\<rparr>)"

definition declared_length :: "'h http_ext \<Rightarrow> 'h request \<Rightarrow> nat option" where
  "declared_length X req =
     Option.bind (Option.bind (hm_get X (rq_headers req) ''content-length'') (hv_to_str X)) parse_u64"

definition request_size_limit :: "'h http_ext \<Rightarrow> nat \<Rightarrow> ('h, 'w) service \<Rightarrow> ('h, 'w) service" where
  "request_size_limit X limit inner req w =
     (if (case declared_length X req of Some len \<Rightarrow> limit < len | None \<Rightarrow> False)
      then (Some (json_error X 413 TOO_LARGE_MSG), w)
      else inner (req\<lparr>rq_body := limited_body limit (rq_body req)\<rparr>) w)"

section \<open>Lemmas\<close>

definition frame_bytes :: "frame \<Rightarrow> nat" where
  "frame_bytes f = (case f of Data d \<Rightarrow> length d | Trailers \<Rightarrow> 0)"

definition body_bytes :: "frame list \<Rightarrow> nat" where
  "body_bytes fs = sum_list (map frame_bytes fs)"

lemma body_bytes_simps [simp]:
  "body_bytes [] = 0" "body_bytes (Data d # fs) = length d + body_bytes fs"
  "body_bytes (Trailers # fs) = body_bytes fs"
  by (simp_all add: body_bytes_def frame_bytes_def)

lemma limited_frames_small:
  "body_bytes fs \<le> rem \<Longrightarrow> limited_frames limit rem fs err = (fs, err)"
  by (induction limit rem fs err rule: limited_frames.induct) auto

lemma limited_frames_large:
  assumes "rem < body_bytes fs"
  shows "\<exists>out d rest. fs = out @ Data d # rest \<and> body_bytes out \<le> rem \<and> rem < body_bytes out + length d
    \<and> limited_frames limit rem fs err = (out, Some (RequestTooLarge limit))"
  using assms
proof (induction limit rem fs err rule: limited_frames.induct)
  case (1 limit rem err)
  then show ?case by simp
next
  case (2 limit rem fs err)
  then obtain out d rest where "fs = out @ Data d # rest" "body_bytes out \<le> rem"
    "rem < body_bytes out + length d" "limited_frames limit rem fs err = (out, Some (RequestTooLarge limit))"
    by auto
  then show ?case by (intro exI [of _ "Trailers # out"] exI [of _ d] exI [of _ rest]) simp
next
  case (3 limit rem x fs err)
  show ?case
  proof (cases "rem < length x")
    case True
    then show ?thesis by (intro exI [of _ "[]"] exI [of _ x] exI [of _ fs]) simp
  next
    case False
    with "3.prems" have "rem - length x < body_bytes fs" by auto
    with "3.IH" [OF False] obtain out d rest where o: "fs = out @ Data d # rest" "body_bytes out \<le> rem - length x"
      "rem - length x < body_bytes out + length d"
      "limited_frames limit (rem - length x) fs err = (out, Some (RequestTooLarge limit))"
      by blast
    with False show ?thesis by (intro exI [of _ "Data x # out"] exI [of _ d] exI [of _ rest]) auto
  qed
qed

text \<open>What a list of rules must satisfy to be compiled, and that validation ensures it.\<close>

lemma compile_regex_Ok: "(\<exists>r. compile_regex R what api p = Ok r) \<longleftrightarrow> (\<exists>r. rx_new R p = Inr r)"
  by (auto simp: compile_regex_def split: sum.splits)

lemma validate_pattern_Ok: "validate_pattern R p api l i = Ok () \<longleftrightarrow> (\<exists>r. rx_new R p = Inr r)"
  by (auto simp: validate_pattern_def split: sum.splits)

lemma validate_methods_Ok:
  "validate_methods ms api l i = Ok () \<longleftrightarrow>
   (\<forall>m \<in> set ms. \<exists>t \<in> set TRANSFORM_METHODS. eq_ignore_ascii_case t m)"
  by (induction ms) (auto simp: list_ex_iff)

lemma upper_lower: "ascii_upper (ascii_lower c) = ascii_upper c"
proof -
  have "of_char c < (256 :: nat)" by simp
  then show ?thesis by (auto simp: ascii_upper_def ascii_lower_def Let_def)
qed

lemma to_upper_lower: "to_ascii_uppercase (to_ascii_lowercase s) = to_ascii_uppercase s"
  by (simp add: to_ascii_uppercase_def to_ascii_lowercase_def upper_lower)

lemma eq_ignore_upper: "eq_ignore_ascii_case t m \<Longrightarrow> to_ascii_uppercase m = to_ascii_uppercase t"
  unfolding eq_ignore_ascii_case_def by (metis to_upper_lower)

lemma transform_methods_upper: "t \<in> set TRANSFORM_METHODS \<Longrightarrow> to_ascii_uppercase t = t"
  by (auto simp: TRANSFORM_METHODS_def to_ascii_uppercase_def ascii_upper_def)

lemma traverse_total: "(\<And>x. x \<in> set xs \<Longrightarrow> \<exists>y. f x = Ok y) \<Longrightarrow> \<exists>ys. traverse f xs = Ok ys"
proof (induction xs)
  case Nil
  then show ?case by simp
next
  case (Cons x xs)
  obtain y where "f x = Ok y" using Cons.prems by force
  moreover obtain ys where "traverse f xs = Ok ys" using Cons by force
  ultimately show ?case by simp
qed

lemma compile_methods_validated:
  assumes "validate_methods ms api l i = Ok ()" and "\<And>m. m \<in> set TRANSFORM_METHODS \<Longrightarrow> method_parse X m = Some m"
  shows "\<exists>ys. compile_methods X what api ms = Ok ys"
  unfolding compile_methods_def
proof (rule traverse_total)
  fix m
  assume "m \<in> set ms"
  with assms(1) obtain t where t: "t \<in> set TRANSFORM_METHODS" "eq_ignore_ascii_case t m"
    by (auto simp: validate_methods_Ok)
  then have "to_ascii_uppercase m = t"
    using eq_ignore_upper transform_methods_upper by metis
  with assms(2) t show "\<exists>y. (case method_parse X (to_ascii_uppercase m) of Some p \<Rightarrow> Ok p
      | None \<Rightarrow> Err (InvalidApiDefinition api (''invalid '' @ what @ '' method `'' @ m @ ''`''))) = Ok y"
    by simp
qed

definition path_rules_valid :: "'r regex_ext \<Rightarrow> string \<Rightarrow> string \<Rightarrow> path_rule list \<Rightarrow> bool" where
  "path_rules_valid R api lst rules \<longleftrightarrow>
     list_all (\<lambda>(i, r). path_rule_validate R r api lst i = Ok ()) (List.enumerate 0 rules)"

lemma compile_list_validated:
  assumes "path_rules_valid R api l rules" and "\<And>m. m \<in> set TRANSFORM_METHODS \<Longrightarrow> method_parse X m = Some m"
  shows "\<exists>ys. compile_list X R api rules = Ok ys"
  unfolding compile_list_def
proof (rule traverse_total)
  fix r
  assume "r \<in> set rules"
  then obtain i where "i < length rules" "rules ! i = r" by (auto simp: in_set_conv_nth)
  then have "(i, r) \<in> set (List.enumerate 0 rules)" by (simp add: in_set_enumerate_eq)
  with assms(1) have v: "path_rule_validate R r api l i = Ok ()"
    by (auto simp: path_rules_valid_def list_all_iff)
  then have "validate_pattern R (pr_pattern r) api l i = Ok ()" "validate_methods (pr_methods r) api l i = Ok ()"
    by (simp_all add: path_rule_validate_def)
  then obtain g ms where "compile_regex R ''path rule'' api (pr_pattern r) = Ok g"
    and "compile_methods X ''path rule'' api (pr_methods r) = Ok ms"
    using compile_regex_Ok [of R "''path rule''" api "pr_pattern r"] validate_pattern_Ok [of R "pr_pattern r" api l i]
      compile_methods_validated [of "pr_methods r" api l i X "''path rule''"] assms(2) by blast
  then show "\<exists>y. compiled_rule_compile X R api r = Ok y"
    by (simp add: compiled_rule_compile_def bind_res_def)
qed

lemma path_policy_validated:
  assumes "path_rules_valid R api ''allow_paths'' allow" and "path_rules_valid R api ''block_paths'' block"
    and "path_rules_valid R api ''ignore_auth_paths'' ignore"
    and "\<And>m. m \<in> set TRANSFORM_METHODS \<Longrightarrow> method_parse X m = Some m"
  shows "\<exists>p. path_policy_from_config X R allow block ignore api = Ok p
    \<and> (p = None \<longleftrightarrow> allow = [] \<and> block = [] \<and> ignore = [])"
proof -
  obtain a b i where "compile_list X R api allow = Ok a" "compile_list X R api block = Ok b"
    "compile_list X R api ignore = Ok i"
    using compile_list_validated [OF assms(1,4)] compile_list_validated [OF assms(2,4)]
      compile_list_validated [OF assms(3,4)] by blast
  then show ?thesis by (simp add: path_policy_from_config_def bind_res_def)
qed

section \<open>Properties\<close>

text \<open>When a configured rule covers a request, read off the configuration: its pattern matches the path, and it names the method or none.\<close>

definition path_rule_covers :: "'h http_ext \<Rightarrow> 'r regex_ext \<Rightarrow> path_rule \<Rightarrow> 'h request \<Rightarrow> bool" where
  "path_rule_covers X R rule req \<longleftrightarrow>
     (\<exists>regex. rx_new R (pr_pattern rule) = Inr regex \<and> rx_is_match R regex (rq_path req))
     \<and> (pr_methods rule = [] \<or> (\<exists>m \<in> set (pr_methods rule). method_parse X (to_ascii_uppercase m) = Some (rq_method req)))"

lemma compile_methods_mem:
  "compile_methods X what api ms = Ok ps \<Longrightarrow> (p \<in> set ps \<longleftrightarrow> (\<exists>m \<in> set ms. method_parse X (to_ascii_uppercase m) = Some p)) \<and> (ps = [] \<longleftrightarrow> ms = [])"
  unfolding compile_methods_def by (induction ms arbitrary: ps) (auto split: option.splits res.splits)

lemma compiled_rule_covers:
  assumes "compiled_rule_compile X R api rule = Ok c"
  shows "compiled_rule_matches R c (rq_method req) (rq_path req) \<longleftrightarrow> path_rule_covers X R rule req"
proof -
  obtain regex ms where c: "compile_regex R ''path rule'' api (pr_pattern rule) = Ok regex"
    "compile_methods X ''path rule'' api (pr_methods rule) = Ok ms" "c = \<lparr>cr_regex = regex, cr_methods = ms\<rparr>"
    using assms by (auto simp: compiled_rule_compile_def)
  have "rx_new R (pr_pattern rule) = Inr regex" using c(1) by (auto simp: compile_regex_def split: sum.splits)
  with c(3) compile_methods_mem [OF c(2), of "rq_method req"] show ?thesis
    by (auto simp: compiled_rule_matches_def rule_matches_def path_rule_covers_def)
qed

lemma compile_list_covers:
  assumes "compile_list X R api rules = Ok cs"
  shows "(any_match R cs (rq_method req) (rq_path req) \<longleftrightarrow> (\<exists>rule \<in> set rules. path_rule_covers X R rule req)) \<and> (cs = [] \<longleftrightarrow> rules = [])"
  using assms unfolding compile_list_def any_match_def
proof (induction rules arbitrary: cs)
  case (Cons rule rules)
  then obtain c cs' where "compiled_rule_compile X R api rule = Ok c" "traverse (compiled_rule_compile X R api) rules = Ok cs'" "cs = c # cs'"
    by (auto split: res.splits)
  with Cons.IH [of cs'] compiled_rule_covers [of X R api rule c req] show ?case by simp
qed simp

text \<open>
  C18. Path policy is strict, from the configured lists to the request: whenever the lists of
  an API compile, a request that a \<open>block_paths\<close> rule covers is answered 403 even when an allow or
  ignore rule covers it too; with a non-empty \<open>allow_paths\<close> so is one that no allow rule covers;
  none of these reaches the layers below. Every other request goes on with nothing changed but
  the mark to skip authentication, which it gets exactly when an \<open>ignore_auth_paths\<close> rule covers
  it. A rule covers a request when its pattern matches the path and its methods, in any case,
  are none or include the request's.
\<close>

theorem path_policy_strict:
  assumes "path_policy_from_config X R allow block ignore api = Ok st"
  shows "(case st of Some s \<Rightarrow> path_policy X R s inner | None \<Rightarrow> inner) req w =
    (if (\<exists>rule \<in> set block. path_rule_covers X R rule req) \<or> (allow \<noteq> [] \<and> (\<forall>rule \<in> set allow. \<not> path_rule_covers X R rule req))
     then (Some (json_error X 403 FORBIDDEN_PATH_MSG), w)
     else inner (req\<lparr>rq_auth_bypass := rq_auth_bypass req \<or> (\<exists>rule \<in> set ignore. path_rule_covers X R rule req)\<rparr>) w)"
proof (cases "allow = [] \<and> block = [] \<and> ignore = []")
  case True
  with assms show ?thesis by (simp add: path_policy_from_config_def)
next
  case False
  then obtain a b i where c: "compile_list X R api allow = Ok a" "compile_list X R api block = Ok b" "compile_list X R api ignore = Ok i"
    and st: "st = Some \<lparr>ps_allow = a, ps_block = b, ps_ignore = i\<rparr>"
    using assms by (auto simp: path_policy_from_config_def)
  note covers = c [THEN compile_list_covers, of req]
  show ?thesis using covers by (simp add: st path_policy_def Let_def)
qed

theorem path_policy_strict_witness:
  "\<exists>s. path_policy_from_config alist_ext literal_ext [] [\<lparr>pr_pattern = ''/a'', pr_methods = []\<rparr>] [\<lparr>pr_pattern = ''/a'', pr_methods = []\<rparr>] ''api'' = Ok (Some s)
    \<and> path_policy alist_ext literal_ext s (\<lambda>r w. (None, w)) (sample_request ''GET'' ''/a'') () = (Some (json_error alist_ext 403 FORBIDDEN_PATH_MSG), ())"
proof -
  let ?r = "\<lparr>pr_pattern = ''/a'', pr_methods = []\<rparr>"
  obtain s where s: "path_policy_from_config alist_ext literal_ext [] [?r] [?r] ''api'' = Ok (Some s)"
    by (simp add: path_policy_from_config_def compile_list_def compiled_rule_compile_def compile_regex_def compile_methods_def literal_ext_def bind_res_def)
  have "path_rule_covers alist_ext literal_ext ?r (sample_request ''GET'' ''/a'')"
    by (simp add: path_rule_covers_def literal_ext_def sample_request_def)
  with path_policy_strict [OF s, of "\<lambda>r w. (None, w)" "sample_request ''GET'' ''/a''" "()"] s show ?thesis by simp
qed

text \<open>An entry of an address list contains an address, read off the configuration.\<close>

definition ip_entry_contains :: "'n ipnet_ext \<Rightarrow> string \<Rightarrow> ip_addr \<Rightarrow> bool" where
  "ip_entry_contains N entry ip \<longleftrightarrow>
     (case net_parse N entry of
        Some net \<Rightarrow> net_contains N net ip
      | None \<Rightarrow> (\<exists>own. ip_parse N entry = Some own \<and> net_contains N (net_of_ip N own) ip))"

lemma parse_ip_list_contains:
  assumes "parse_ip_list N api field entries = Ok nets"
  shows "(list_ex (\<lambda>net. net_contains N net ip) nets \<longleftrightarrow> (\<exists>entry \<in> set entries. ip_entry_contains N entry ip)) \<and> (nets = [] \<longleftrightarrow> entries = [])"
  using assms unfolding parse_ip_list_def
proof (induction entries arbitrary: nets)
  case (Cons e entries)
  then obtain net nets' where n: "parse_ip_entry N e = Some net" "nets = net # nets'"
    and "traverse (\<lambda>entry. case parse_ip_entry N entry of Some net \<Rightarrow> Ok net
      | None \<Rightarrow> Err (InvalidApiDefinition api (''`'' @ field @ ''` entry is not an IP or CIDR: `'' @ entry @ ''`''))) entries = Ok nets'"
    by (auto split: res.splits option.splits)
  with Cons.IH [of nets'] have IH: "(list_ex (\<lambda>net. net_contains N net ip) nets' \<longleftrightarrow> (\<exists>entry \<in> set entries. ip_entry_contains N entry ip))"
    by blast
  have "net_contains N net ip \<longleftrightarrow> ip_entry_contains N e ip"
    using n(1) by (auto simp: parse_ip_entry_def ip_entry_contains_def split: option.splits)
  with IH n(2) show ?case by simp
qed simp

lemma to_canonical_mapped: "to_canonical (V6 (push_bit 32 0xffff OR ucast v4)) = V4 v4"
proof -
  have low: "(ucast (push_bit 32 m OR ucast v4 :: 128 word) :: 32 word) = v4" for m
    by (rule bit_word_eqI) (auto simp: bit_simps)
  have "drop_bit 32 (push_bit 32 0xffff OR ucast v4 :: 128 word) = 0xffff"
    by (rule bit_word_eqI) (auto simp: bit_simps dest: bit_imp_le_length)
  moreover have "(ucast (push_bit 32 0xffff OR ucast v4 :: 128 word) :: 32 word) = v4" by (rule low)
  ultimately show ?thesis by (simp add: to_canonical_def)
qed

text \<open>
  C19. The address filter fails closed, from the configured lists to the request: whenever the
  lists of an API parse and are not both empty, the layers below run exactly when the request
  carries a client address that no \<open>block_ips\<close> entry contains and that an \<open>allow_ips\<close> entry
  contains (or there is no allow list), where an IPv4-mapped IPv6 address counts as its IPv4
  address; every other request, one without an address included, is answered 403 without them.
\<close>

theorem ip_filter_fails_closed:
  assumes "ip_filter_from_config N allow block api = Ok (Some st)"
  shows "ip_filter X N st inner req w =
     (if \<exists>a. rq_client_addr req = Some a \<and> (\<forall>entry \<in> set block. \<not> ip_entry_contains N entry (to_canonical a))
           \<and> (allow = [] \<or> (\<exists>entry \<in> set allow. ip_entry_contains N entry (to_canonical a)))
      then inner req w else (Some (json_error X 403 FORBIDDEN_IP_MSG), w))
   \<and> to_canonical (V6 (push_bit 32 0xffff OR ucast v4)) = V4 v4"
proof -
  obtain a b where p: "parse_ip_list N api ''allow_ips'' allow = Ok a" "parse_ip_list N api ''block_ips'' block = Ok b"
    and st: "st = \<lparr>fs_allow = a, fs_block = b\<rparr>"
    using assms by (auto simp: ip_filter_from_config_def split: if_splits)
  have "permits N st ip \<longleftrightarrow> (\<forall>entry \<in> set block. \<not> ip_entry_contains N entry (to_canonical ip))
      \<and> (allow = [] \<or> (\<exists>entry \<in> set allow. ip_entry_contains N entry (to_canonical ip)))" for ip
    using p [THEN parse_ip_list_contains, of "to_canonical ip"] by (auto simp: permits_def Let_def st)
  then have "ip_filter X N st inner req w =
     (if \<exists>a. rq_client_addr req = Some a \<and> (\<forall>entry \<in> set block. \<not> ip_entry_contains N entry (to_canonical a))
           \<and> (allow = [] \<or> (\<exists>entry \<in> set allow. ip_entry_contains N entry (to_canonical a)))
      then inner req w else (Some (json_error X 403 FORBIDDEN_IP_MSG), w))"
    by (auto simp: ip_filter_def split: option.splits)
  then show ?thesis using to_canonical_mapped by blast
qed

definition sample_net :: "ip_addr ipnet_ext" where
  "sample_net = \<lparr>net_parse = (\<lambda>s. None), ip_parse = (\<lambda>s. if s = ''10.0.0.1'' then Some (V4 0x0a000001) else None),
     net_of_ip = (\<lambda>a. a), net_contains = (\<lambda>n a. n = a)\<rparr>"

theorem ip_filter_fails_closed_witness:
  "\<exists>st. ip_filter_from_config sample_net [''10.0.0.1''] [] ''api'' = Ok (Some st)
    \<and> ip_filter alist_ext sample_net st (\<lambda>r w. (None, w)) (sample_request ''GET'' ''/'') () = (Some (json_error alist_ext 403 FORBIDDEN_IP_MSG), ())"
proof -
  obtain st where st: "ip_filter_from_config sample_net [''10.0.0.1''] [] ''api'' = Ok (Some st)"
    by (simp add: ip_filter_from_config_def parse_ip_list_def parse_ip_entry_def sample_net_def bind_res_def)
  with ip_filter_fails_closed [OF st, of alist_ext "\<lambda>r w. (None, w)" "sample_request ''GET'' ''/''" "()"] show ?thesis
    by (simp add: sample_request_def)
qed

text \<open>
  C20. The size limit: a request whose declared length exceeds the limit is answered 413
  without reaching the layers below; otherwise they see the same request with a body that
  delivers at most \<open>limit\<close> bytes: the body unchanged when it has no more than that, else its
  longest prefix of whole frames within the limit, ended by \<open>RequestTooLarge\<close>.
\<close>

theorem request_size_limited:
  "(\<exists>len. declared_length X req = Some len \<and> limit < len) \<and>
     request_size_limit X limit inner req w = (Some (json_error X 413 TOO_LARGE_MSG), w)
   \<or> (\<exists>b. request_size_limit X limit inner req w = inner (req\<lparr>rq_body := b\<rparr>) w
      \<and> body_bytes (bd_frames b) \<le> limit
      \<and> (if body_bytes (bd_frames (rq_body req)) \<le> limit then b = rq_body req
         else bd_error b = Some (RequestTooLarge limit)
           \<and> (\<exists>d rest. bd_frames (rq_body req) = bd_frames b @ Data d # rest
                \<and> limit < body_bytes (bd_frames b) + length d)))"
proof (cases "\<exists>len. declared_length X req = Some len \<and> limit < len")
  case True
  then show ?thesis by (auto simp: request_size_limit_def)
next
  case False
  let ?b = "limited_body limit (rq_body req)"
  have r: "request_size_limit X limit inner req w = inner (req\<lparr>rq_body := ?b\<rparr>) w"
    using False by (auto simp: request_size_limit_def split: option.splits)
  show ?thesis
  proof (cases "body_bytes (bd_frames (rq_body req)) \<le> limit")
    case True
    then have "?b = rq_body req" by (simp add: limited_body_def limited_frames_small)
    with r True show ?thesis by auto
  next
    case False
    then show ?thesis
      using r limited_frames_large [of limit "bd_frames (rq_body req)" limit "bd_error (rq_body req)"]
      by (intro disjI2 exI [of _ ?b]) (auto simp: limited_body_def)
  qed
qed

end
