(* ===== verification/Transform.thy ===== *)
theory Transform
  imports Path_Policy
begin

text \<open>
  Header transforms, method transforms and mock responses: \<open>g2-core/src/transform.rs\<close>,
  \<open>g2-middleware/src/transform_headers.rs\<close> and \<open>mock.rs\<close>.
\<close>

section \<open>Header transforms\<close>

record header_transform =
  ht_add :: "(string \<times> string) list"
  ht_remove :: "string list"

record header_transforms =
  hts_request :: header_transform
  hts_response :: header_transform

definition header_transform_is_empty :: "header_transform \<Rightarrow> bool" where
  "header_transform_is_empty t \<longleftrightarrow> ht_add t = [] \<and> ht_remove t = []"

fun add_rules_validate :: "'h http_ext \<Rightarrow> string \<Rightarrow> string \<Rightarrow> (string \<times> string) list \<Rightarrow> (error, unit) res" where
  "add_rules_validate X api direction [] = Ok ()"
| "add_rules_validate X api direction ((name, v) # rest) =
     (if hn_parse X name = None then
        Err (InvalidApiDefinition api (''`transform_headers.'' @ direction
          @ ''.add` name is not a valid header name: `'' @ name @ ''`''))
      else if list_ex (\<lambda>h. eq_ignore_ascii_case h name) HOP_BY_HOP then
        Err (InvalidApiDefinition api (''`transform_headers.'' @ direction
          @ ''.add` must not set hop-by-hop header `'' @ name @ ''`''))
      else if hv_from_str X v = None then
        Err (InvalidApiDefinition api (''`transform_headers.'' @ direction
          @ ''.add` value for `'' @ name @ ''` is not a valid header value''))
      else add_rules_validate X api direction rest)"

fun remove_rules_validate :: "'h http_ext \<Rightarrow> string \<Rightarrow> string \<Rightarrow> string list \<Rightarrow> (error, unit) res" where
  "remove_rules_validate X api direction [] = Ok ()"
| "remove_rules_validate X api direction (name # rest) =
     (if hn_parse X name = None then
        Err (InvalidApiDefinition api (''`transform_headers.'' @ direction
          @ ''.remove` entry is not a valid header name: `'' @ name @ ''`''))
      else remove_rules_validate X api direction rest)"

definition header_transform_validate :: "'h http_ext \<Rightarrow> header_transform \<Rightarrow> string \<Rightarrow> string \<Rightarrow> (error, unit) res"
where
  "header_transform_validate X t api direction =
     and_then (add_rules_validate X api direction (ht_add t))
              (remove_rules_validate X api direction (ht_remove t))"

definition header_transforms_validate :: "'h http_ext \<Rightarrow> header_transforms \<Rightarrow> string \<Rightarrow> (error, unit) res" where
  "header_transforms_validate X ts api =
     and_then (header_transform_validate X (hts_request ts) api ''request'')
              (header_transform_validate X (hts_response ts) api ''response'')"

definition validate_transform_method :: "string \<Rightarrow> string \<Rightarrow> (error, unit) res" where
  "validate_transform_method method api =
     (if list_ex (\<lambda>m. eq_ignore_ascii_case m method) TRANSFORM_METHODS then Ok ()
      else Err (InvalidApiDefinition api
        (''`transform_method` must be one of '' @ join_strings '', '' TRANSFORM_METHODS
         @ '' (got `'' @ method @ ''`)'')))"

record compiled_rules =
  cs_remove :: "string list"
  cs_add :: "(string \<times> string) list"

definition parse_name :: "'h http_ext \<Rightarrow> string \<Rightarrow> string \<Rightarrow> (error, string) res" where
  "parse_name X api_id name =
     (case hn_parse X name of
        Some n \<Rightarrow> Ok n
      | None \<Rightarrow> Err (InvalidApiDefinition api_id (''invalid header name in transform: `'' @ name @ ''`'')))"

definition compiled_rules_compile :: "'h http_ext \<Rightarrow> string \<Rightarrow> header_transform \<Rightarrow> (error, compiled_rules) res"
where
  "compiled_rules_compile X api_id cfg =
     bind_res (traverse (parse_name X api_id) (ht_remove cfg)) (\<lambda>remove.
     bind_res (traverse (\<lambda>(name, v).
         bind_res (parse_name X api_id name) (\<lambda>n.
           case hv_from_str X v of
             Some w \<Rightarrow> Ok (n, w)
           | None \<Rightarrow> Err (InvalidApiDefinition api_id
               (''invalid header value in transform for `'' @ name @ ''`'')))) (ht_add cfg)) (\<lambda>add.
       Ok \<lparr>cs_remove = remove, cs_add = add\<rparr>))"

definition rules_apply :: "'h http_ext \<Rightarrow> compiled_rules \<Rightarrow> 'h \<Rightarrow> 'h" where
  "rules_apply X r h =
     foldl (\<lambda>h (n, v). hm_insert X h n v) (foldl (hm_remove X) h (cs_remove r)) (cs_add r)"

definition header_transform_from_config :: "'h http_ext \<Rightarrow> header_transforms \<Rightarrow> string \<Rightarrow>
    (error, compiled_rules \<times> compiled_rules) res" where
  "header_transform_from_config X cfg api_id =
     bind_res (compiled_rules_compile X api_id (hts_request cfg)) (\<lambda>rq.
     bind_res (compiled_rules_compile X api_id (hts_response cfg)) (\<lambda>rs. Ok (rq, rs)))"

definition header_transformer :: "'h http_ext \<Rightarrow> compiled_rules \<times> compiled_rules \<Rightarrow> ('h, 'w) service \<Rightarrow>
    ('h, 'w) service" where
  "header_transformer X rules inner req w =
     (case inner (req\<lparr>rq_headers := rules_apply X (fst rules) (rq_headers req)\<rparr>) w of
        (Some resp, w') \<Rightarrow> (Some (resp\<lparr>rs_headers := rules_apply X (snd rules) (rs_headers resp)\<rparr>), w')
      | (None, w') \<Rightarrow> (None, w'))"

section \<open>Mock responses\<close>

record 'r compiled_mock =
  cm_regex :: 'r
  cm_methods :: "string list"
  cm_status :: nat
  cm_headers :: "(string \<times> string) list"
  cm_body :: string

definition compiled_mock_compile :: "'h http_ext \<Rightarrow> 'r regex_ext \<Rightarrow> string \<Rightarrow> mock_response \<Rightarrow>
    (error, 'r compiled_mock) res" where
  "compiled_mock_compile X R api_id rule =
     bind_res (compile_regex R ''mock'' api_id (mr_pattern rule)) (\<lambda>regex.
     bind_res (compile_methods X ''mock'' api_id (mr_methods rule)) (\<lambda>methods.
     bind_res (case status_from_u16 (mr_status rule) of
                 Some st \<Rightarrow> Ok st
               | None \<Rightarrow> Err (InvalidApiDefinition api_id
                   (''invalid mock status `'' @ show_nat (mr_status rule) @ ''`''))) (\<lambda>status.
     bind_res (traverse (\<lambda>(name, v).
         case hn_parse X name of
           None \<Rightarrow> Err (InvalidApiDefinition api_id (''invalid mock header name `'' @ name @ ''`''))
         | Some n \<Rightarrow>
             (case hv_from_str X v of
                None \<Rightarrow> Err (InvalidApiDefinition api_id (''invalid mock header value for `'' @ name @ ''`''))
              | Some w \<Rightarrow> Ok (n, w))) (mr_headers rule)) (\<lambda>headers.
       Ok \<lparr>cm_regex = regex, cm_methods = methods, cm_status = status, cm_headers = headers,
           cm_body = mr_body rule\<rparr>))))"

definition mock_matches :: "'r regex_ext \<Rightarrow> 'r compiled_mock \<Rightarrow> string \<Rightarrow> string \<Rightarrow> bool" where
  "mock_matches R m method path = rule_matches R (cm_regex m) (cm_methods m) method path"

definition mock_response_of :: "'h http_ext \<Rightarrow> 'r compiled_mock \<Rightarrow> 'h response" where
  "mock_response_of X m =
     (let resp = response_new X (body_full (cm_body m))
      in resp\<lparr>rs_status := cm_status m,
              rs_headers := foldl (\<lambda>h (n, v). hm_insert X h n v) (rs_headers resp) (cm_headers m)\<rparr>)"

definition mock_from_config :: "'h http_ext \<Rightarrow> 'r regex_ext \<Rightarrow> mock_response list \<Rightarrow> string \<Rightarrow>
    (error, 'r compiled_mock list option) res" where
  "mock_from_config X R rules api_id =
     (if rules = [] then Ok None
      else bind_res (traverse (compiled_mock_compile X R api_id) rules) (\<lambda>ms. Ok (Some ms)))"

definition mock_layer :: "'h http_ext \<Rightarrow> 'r regex_ext \<Rightarrow> 'r compiled_mock list \<Rightarrow> ('h, 'w) service \<Rightarrow>
    ('h, 'w) service" where
  "mock_layer X R rules inner req w =
     (case find (\<lambda>m. mock_matches R m (rq_method req) (rq_path req)) rules of
        Some rule \<Rightarrow> (Some (mock_response_of X rule), w)
      | None \<Rightarrow> inner req w)"

section \<open>Lemmas\<close>

context header_map
begin

lemma rules_apply_get_all:
  "hm_get_all X (rules_apply X r h) n =
     (case map_of (rev (cs_add r)) n of
        Some v \<Rightarrow> [v]
      | None \<Rightarrow> if n \<in> set (cs_remove r) then [] else hm_get_all X h n)"
  by (simp add: rules_apply_def foldl_insert split: option.splits)

end

lemma add_rules_validate_Ok:
  "add_rules_validate X api dir nvs = Ok () \<longleftrightarrow>
   (\<forall>(n, v) \<in> set nvs. hn_parse X n \<noteq> None \<and> hv_from_str X v \<noteq> None
      \<and> \<not> (\<exists>h \<in> set HOP_BY_HOP. eq_ignore_ascii_case h n))"
  by (induction X api dir nvs rule: add_rules_validate.induct) (auto simp: list_ex_iff)

lemma remove_rules_validate_Ok:
  "remove_rules_validate X api dir ns = Ok () \<longleftrightarrow> (\<forall>n \<in> set ns. hn_parse X n \<noteq> None)"
  by (induction ns) auto

lemma compiled_rules_validated:
  assumes "header_transform_validate X t api dir = Ok ()"
  shows "\<exists>r. compiled_rules_compile X api t = Ok r"
proof -
  have "\<forall>n \<in> set (ht_remove t). hn_parse X n \<noteq> None"
    and a: "\<forall>(n, v) \<in> set (ht_add t). hn_parse X n \<noteq> None \<and> hv_from_str X v \<noteq> None"
    using assms by (auto simp: header_transform_validate_def add_rules_validate_Ok remove_rules_validate_Ok)
  then have "\<exists>rm. traverse (parse_name X api) (ht_remove t) = Ok rm"
    by (intro traverse_total) (auto simp: parse_name_def)
  moreover have "\<exists>add. traverse (\<lambda>(name, v).
         bind_res (parse_name X api name) (\<lambda>n.
           case hv_from_str X v of
             Some w \<Rightarrow> Ok (n, w)
           | None \<Rightarrow> Err (InvalidApiDefinition api
               (''invalid header value in transform for `'' @ name @ ''`'')))) (ht_add t) = Ok add"
    using a by (intro traverse_total) (fastforce simp: parse_name_def)
  ultimately show ?thesis
    by (auto simp: compiled_rules_compile_def bind_res_def)
qed

end
