(* ===== verification/Cors.thy ===== *)
theory Cors
  imports Transform Upstream
begin

text \<open>
  Cross-origin handling: \<open>CorsConfig\<close> and its validation (\<open>g2-core/src/security.rs\<close>) and the
  CORS layer (\<open>g2-middleware/src/cors.rs\<close>).
\<close>

section \<open>Configuration\<close>

definition DEFAULT_CORS_METHODS :: "string list" where
  "DEFAULT_CORS_METHODS = [''GET'', ''HEAD'', ''POST'']"

record cors_config =
  cc_allowed_origins :: "string list"
  cc_allowed_methods :: "string list"
  cc_allowed_headers :: "string list"
  cc_exposed_headers :: "string list"
  cc_allow_credentials :: bool
  cc_max_age_secs :: "nat option"
  cc_options_passthrough :: bool

definition is_valid_origin :: "(string \<Rightarrow> string + uri_parts) \<Rightarrow> string \<Rightarrow> bool" where
  "is_valid_origin parse_uri origin =
     (case parse_uri origin of
        Inl _ \<Rightarrow> False
      | Inr uri \<Rightarrow>
          (case (uri_scheme uri, uri_authority uri) of
             (Some sch, Some auth) \<Rightarrow>
               (sch = ''http'' \<or> sch = ''https'') \<and> CHR ''@'' \<notin> set auth \<and> origin = sch @ ''://'' @ auth
           | _ \<Rightarrow> False))"

fun first_failure :: "('a \<Rightarrow> bool) \<Rightarrow> ('a \<Rightarrow> error) \<Rightarrow> 'a list \<Rightarrow> (error, unit) res" where
  "first_failure ok err [] = Ok ()"
| "first_failure ok err (x # xs) = (if \<not> ok x then Err (err x) else first_failure ok err xs)"

definition cors_validate :: "(string \<Rightarrow> string + uri_parts) \<Rightarrow> 'h http_ext \<Rightarrow> cors_config \<Rightarrow> string \<Rightarrow>
    (error, unit) res" where
  "cors_validate parse_uri X c api =
     (let fail = InvalidApiDefinition api;
          wildcard = list_ex (\<lambda>x. x = ''*'') (cc_allowed_origins c);
          names = (\<lambda>field. first_failure (\<lambda>n. hn_parse X n \<noteq> None)
                    (\<lambda>n. fail (''`cors.'' @ field @ ''` entry is not a valid header name: `'' @ n @ ''`'')))
      in and_then (require (cc_allowed_origins c \<noteq> []) (fail ''`cors.allowed_origins` must not be empty''))
        (and_then (require (\<not> (wildcard \<and> length (cc_allowed_origins c) > 1))
                    (fail (''`cors.allowed_origins` must be either `[\"*\"]` or a list of ''
                      @ ''explicit origins, not both'')))
        (and_then (require (\<not> (wildcard \<and> cc_allow_credentials c))
                    (fail (''`cors.allow_credentials` cannot be combined with the `*` origin ''
                      @ ''(browsers reject that combination)'')))
        (and_then (first_failure (\<lambda>or. or = ''*'' \<or> is_valid_origin parse_uri or)
                    (\<lambda>or. fail (''`cors.allowed_origins` entry is not a valid origin ''
                      @ ''(`scheme://host[:port]`, no path): `'' @ or @ ''`'')) (cc_allowed_origins c))
        (and_then (require (cc_allowed_methods c \<noteq> []) (fail ''`cors.allowed_methods` must not be empty''))
        (and_then (first_failure (\<lambda>m. list_ex (\<lambda>t. eq_ignore_ascii_case t m) TRANSFORM_METHODS)
                    (\<lambda>m. fail (''`cors.allowed_methods` must contain only standard HTTP methods (''
                      @ join_strings '', '' TRANSFORM_METHODS @ ''), got `'' @ m @ ''`'')) (cc_allowed_methods c))
        (and_then (names ''allowed_headers'' (cc_allowed_headers c))
                  (names ''exposed_headers'' (cc_exposed_headers c)))))))))"

section \<open>The compiled policy\<close>

record cors_state =
  co_wildcard :: bool
  co_origins :: "string list"
  co_allowed_methods :: "string list"
  co_allow_methods_value :: string
  co_allow_headers_value :: "string option"
  co_allowed_headers_lower :: "string list"
  co_expose_headers_value :: "string option"
  co_credentials :: bool
  co_max_age :: "string option"
  co_options_passthrough :: bool

definition cors_join :: "'h http_ext \<Rightarrow> string \<Rightarrow> string \<Rightarrow> string list \<Rightarrow> (error, string) res" where
  "cors_join X api_id what names =
     (case hv_from_str X (join_strings '', '' names) of
        Some v \<Rightarrow> Ok v
      | None \<Rightarrow> Err (InvalidApiDefinition api_id (''CORS '' @ what @ '' do not form a valid header value'')))"

definition cors_join_opt :: "'h http_ext \<Rightarrow> string \<Rightarrow> string \<Rightarrow> string list \<Rightarrow> (error, string option) res" where
  "cors_join_opt X api_id what names =
     (if names = [] then Ok None else bind_res (cors_join X api_id what names) (\<lambda>v. Ok (Some v)))"

definition cors_max_age :: "'h http_ext \<Rightarrow> string \<Rightarrow> nat option \<Rightarrow> (error, string option) res" where
  "cors_max_age X api_id age =
     (case age of
        None \<Rightarrow> Ok None
      | Some secs \<Rightarrow>
          (case hv_from_str X (show_nat secs) of
             Some v \<Rightarrow> Ok (Some v)
           | None \<Rightarrow> Err (InvalidApiDefinition api_id ''CORS max_age_secs is not a valid header value'')))"

definition cors_from_config :: "'h http_ext \<Rightarrow> cors_config \<Rightarrow> string \<Rightarrow> (error, cors_state) res" where
  "cors_from_config X c api_id =
     bind_res (compile_methods X ''CORS'' api_id (cc_allowed_methods c)) (\<lambda>methods.
     bind_res (cors_join X api_id ''allowed_methods'' methods) (\<lambda>methods_value.
     bind_res (cors_join_opt X api_id ''allowed_headers'' (cc_allowed_headers c)) (\<lambda>headers_value.
     bind_res (cors_join_opt X api_id ''exposed_headers'' (cc_exposed_headers c)) (\<lambda>expose_value.
     bind_res (cors_max_age X api_id (cc_max_age_secs c)) (\<lambda>max_age.
       Ok \<lparr>co_wildcard = list_ex (\<lambda>x. x = ''*'') (cc_allowed_origins c),
           co_origins = map to_ascii_lowercase (filter (\<lambda>x. x \<noteq> ''*'') (cc_allowed_origins c)),
           co_allowed_methods = methods,
           co_allow_methods_value = methods_value,
           co_allow_headers_value = headers_value,
           co_allowed_headers_lower = map to_ascii_lowercase (cc_allowed_headers c),
           co_expose_headers_value = expose_value,
           co_credentials = cc_allow_credentials c,
           co_max_age = max_age,
           co_options_passthrough = cc_options_passthrough c\<rparr>)))))"

definition origin_allowed :: "'h http_ext \<Rightarrow> cors_state \<Rightarrow> string \<Rightarrow> bool" where
  "origin_allowed X st origin =
     (if co_wildcard st then True
      else case hv_to_str X origin of
             None \<Rightarrow> False
           | Some s \<Rightarrow> list_ex (\<lambda>x. eq_ignore_ascii_case x s) (co_origins st))"

definition allow_origin_value :: "cors_state \<Rightarrow> string \<Rightarrow> string" where
  "allow_origin_value st origin = (if co_wildcard st then ''*'' else origin)"

definition preflight_method_allowed :: "'h http_ext \<Rightarrow> cors_state \<Rightarrow> 'h \<Rightarrow> bool" where
  "preflight_method_allowed X st h =
     (case Option.bind (hm_get X h ''access-control-request-method'') (method_parse X) of
        Some m \<Rightarrow> m \<in> set (co_allowed_methods st)
      | None \<Rightarrow> False)"

definition preflight_headers_allowed :: "'h http_ext \<Rightarrow> cors_state \<Rightarrow> 'h \<Rightarrow> bool" where
  "preflight_headers_allowed X st h =
     (if co_allowed_headers_lower st = [] then True
      else case hm_get X h ''access-control-request-headers'' of
             None \<Rightarrow> True
           | Some requested \<Rightarrow>
               (case hv_to_str X requested of
                  None \<Rightarrow> False
                | Some s \<Rightarrow>
                    list_all (\<lambda>name. list_ex (\<lambda>a. eq_ignore_ascii_case a name) (co_allowed_headers_lower st))
                      (filter (\<lambda>n. n \<noteq> []) (map trim (split_on (CHR '','') s)))))"

definition PREFLIGHT_VARY :: string where
  "PREFLIGHT_VARY = ''origin, access-control-request-method, access-control-request-headers''"

definition insert_opt :: "'h http_ext \<Rightarrow> string \<Rightarrow> string option \<Rightarrow> 'h \<Rightarrow> 'h" where
  "insert_opt X n v h = (case v of Some x \<Rightarrow> hm_insert X h n x | None \<Rightarrow> h)"

definition preflight_response :: "'h http_ext \<Rightarrow> cors_state \<Rightarrow> 'h request \<Rightarrow> string \<Rightarrow> 'h response" where
  "preflight_response X st req origin =
     (let resp = (response_new X body_empty)\<lparr>rs_status := 204\<rparr>;
          h0 = hm_insert X (rs_headers resp) ''vary'' PREFLIGHT_VARY
      in if \<not> origin_allowed X st origin \<or> \<not> preflight_method_allowed X st (rq_headers req)
            \<or> \<not> preflight_headers_allowed X st (rq_headers req)
         then resp\<lparr>rs_headers := h0\<rparr>
         else let h1 = hm_insert X h0 ''access-control-allow-origin'' (allow_origin_value st origin);
                  h2 = hm_insert X h1 ''access-control-allow-methods'' (co_allow_methods_value st);
                  h3 = insert_opt X ''access-control-allow-headers''
                         (case co_allow_headers_value st of
                            Some v \<Rightarrow> Some v
                          | None \<Rightarrow> hm_get X (rq_headers req) ''access-control-request-headers'') h2;
                  h4 = (if co_credentials st
                        then hm_insert X h3 ''access-control-allow-credentials'' ''true'' else h3)
              in resp\<lparr>rs_headers := insert_opt X ''access-control-max-age'' (co_max_age st) h4\<rparr>)"

definition cors_decorate :: "'h http_ext \<Rightarrow> cors_state \<Rightarrow> 'h \<Rightarrow> string \<Rightarrow> 'h" where
  "cors_decorate X st h origin =
     (let h1 = hm_insert X h ''access-control-allow-origin'' (allow_origin_value st origin);
          h2 = (if co_credentials st
                then hm_insert X h1 ''access-control-allow-credentials'' ''true'' else h1)
      in insert_opt X ''access-control-expose-headers'' (co_expose_headers_value st) h2)"

definition cors_layer :: "'h http_ext \<Rightarrow> cors_state \<Rightarrow> ('h, 'w) service \<Rightarrow> ('h, 'w) service" where
  "cors_layer X st inner req w =
     (case hm_get X (rq_headers req) ''origin'' of
        None \<Rightarrow> inner req w
      | Some origin \<Rightarrow>
          let is_preflight = (rq_method req = ''OPTIONS''
                \<and> hm_contains X (rq_headers req) ''access-control-request-method'')
          in if is_preflight \<and> \<not> co_options_passthrough st
             then (Some (preflight_response X st req origin), w)
             else case inner req w of
                    (None, w') \<Rightarrow> (None, w')
                  | (Some resp, w') \<Rightarrow>
                      let h1 = (if origin_allowed X st origin
                                then cors_decorate X st (rs_headers resp) origin else rs_headers resp);
                          h2 = (if \<not> co_wildcard st then hm_append X h1 ''vary'' ''origin'' else h1)
                      in (Some (resp\<lparr>rs_headers := h2\<rparr>), w'))"

section \<open>Lemmas\<close>

lemma first_failure_Ok [simp]: "first_failure ok err xs = Ok () \<longleftrightarrow> list_all ok xs"
  by (induction xs) auto

context header_map
begin

lemma get_insert_opt [simp]:
  "hm_get_all X (insert_opt X n v h) m = (if m = n \<and> v \<noteq> None then [the v] else hm_get_all X h m)"
  by (cases v) (auto simp: insert_opt_def)

lemma decorate_allow_origin:
  "hm_get_all X (cors_decorate X st h origin) ''access-control-allow-origin'' = [allow_origin_value st origin]"
  by (simp add: cors_decorate_def Let_def)

lemma decorate_credentials:
  "hm_get_all X (cors_decorate X st h origin) ''access-control-allow-credentials'' =
     (if co_credentials st then [''true''] else hm_get_all X h ''access-control-allow-credentials'')"
  by (simp add: cors_decorate_def Let_def)

end

section \<open>Properties\<close>

text \<open>
  Preflights are answered by the gateway alone: without passthrough, an \<open>OPTIONS\<close>
  request with an origin and a requested method gets a 204 without reaching the layers
  below (so before any credential check); it carries \<open>Access-Control-Allow-Origin\<close> exactly
  when origin, method and headers all pass the policy, and for a validated configuration
  never credentials together with the wildcard origin.
\<close>

theorem cors_preflight:
  assumes "header_map X" and "cors_validate parse_uri X c api = Ok ()" and "cors_from_config X c api = Ok st"
    and "hm_get X (rq_headers req) ''origin'' = Some origin" and "rq_method req = ''OPTIONS''"
    and "hm_contains X (rq_headers req) ''access-control-request-method''" and "\<not> cc_options_passthrough c"
  shows "\<exists>resp. cors_layer X st inner req w = (Some resp, w) \<and> rs_status resp = 204
    \<and> hm_get X (rs_headers resp) ''access-control-allow-origin'' =
        (if origin_allowed X st origin \<and> preflight_method_allowed X st (rq_headers req)
            \<and> preflight_headers_allowed X st (rq_headers req)
         then Some (if ''*'' \<in> set (cc_allowed_origins c) then ''*'' else origin) else None)
    \<and> (hm_get X (rs_headers resp) ''access-control-allow-credentials'' \<noteq> None \<longrightarrow>
         hm_get X (rs_headers resp) ''access-control-allow-origin'' = Some origin
         \<and> ''*'' \<notin> set (cc_allowed_origins c))"
proof -
  have st: "co_options_passthrough st = cc_options_passthrough c" "co_credentials st = cc_allow_credentials c"
    "co_wildcard st \<longleftrightarrow> ''*'' \<in> set (cc_allowed_origins c)"
    using assms(3) by (auto simp: cors_from_config_def list_ex_iff)
  have wild: "\<not> (co_wildcard st \<and> co_credentials st)"
    using assms(2) st by (auto simp: cors_validate_def Let_def list_ex_iff)
  let ?resp = "preflight_response X st req origin"
  have "cors_layer X st inner req w = (Some ?resp, w)"
    using assms(4-7) st by (simp add: cors_layer_def)
  moreover have "rs_status ?resp = 204"
    by (simp add: preflight_response_def Let_def)
  moreover have "hm_get X (rs_headers ?resp) ''access-control-allow-origin'' =
        (if origin_allowed X st origin \<and> preflight_method_allowed X st (rq_headers req)
            \<and> preflight_headers_allowed X st (rq_headers req)
         then Some (if ''*'' \<in> set (cc_allowed_origins c) then ''*'' else origin) else None)"
    using assms(1) st
    by (simp add: preflight_response_def Let_def hm_get_def header_map.get_insert_opt header_map.get_all_insert
        header_map.get_all_empty response_new_def allow_origin_value_def)
  moreover have "hm_get X (rs_headers ?resp) ''access-control-allow-credentials'' \<noteq> None \<longrightarrow>
      origin_allowed X st origin \<and> preflight_method_allowed X st (rq_headers req)
      \<and> preflight_headers_allowed X st (rq_headers req) \<and> co_credentials st"
    using assms(1)
    by (simp add: preflight_response_def Let_def hm_get_def header_map.get_insert_opt header_map.get_all_insert
        header_map.get_all_empty response_new_def)
  ultimately show ?thesis using wild st by auto
qed

text \<open>A parser for absolute URLs without userinfo or query, for the witnesses.\<close>

definition sample_parse_uri :: "string \<Rightarrow> string + uri_parts" where
  "sample_parse_uri s =
     (let parts = (\<lambda>sch r. \<lparr>uri_scheme = Some sch, uri_authority = Some (takeWhile (\<lambda>c. c \<noteq> CHR ''/'') r),
            uri_path = (let p = dropWhile (\<lambda>c. c \<noteq> CHR ''/'') r in if p = [] then ''/'' else p),
            uri_query = None\<rparr>)
      in case strip_prefix ''https://'' s of
           Some r \<Rightarrow> Inr (parts ''https'' r)
         | None \<Rightarrow> (case strip_prefix ''http://'' s of
                      Some r \<Rightarrow> Inr (parts ''http'' r)
                    | None \<Rightarrow> Inl ''invalid uri''))"

definition sample_cors :: cors_config where
  "sample_cors = \<lparr>cc_allowed_origins = [''https://a''], cc_allowed_methods = [''get''], cc_allowed_headers = [],
     cc_exposed_headers = [], cc_allow_credentials = True, cc_max_age_secs = None,
     cc_options_passthrough = False\<rparr>"

definition sample_cors_state :: cors_state where
  "sample_cors_state = \<lparr>co_wildcard = False, co_origins = [''https://a''], co_allowed_methods = [''GET''],
     co_allow_methods_value = ''GET'', co_allow_headers_value = None, co_allowed_headers_lower = [],
     co_expose_headers_value = None, co_credentials = True, co_max_age = None, co_options_passthrough = False\<rparr>"

definition sample_preflight :: "alist_headers request" where
  "sample_preflight = (sample_request ''OPTIONS'' ''/'')\<lparr>rq_headers :=
     [(''origin'', [''https://a'']), (''access-control-request-method'', [''GET''])]\<rparr>"

theorem cors_preflight_witness:
  "\<exists>resp. cors_layer alist_ext sample_cors_state (\<lambda>r w. (None, w)) sample_preflight () = (Some resp, ())
    \<and> rs_status resp = 204 \<and> hm_get alist_ext (rs_headers resp) ''access-control-allow-origin'' = Some ''https://a''"
proof -
  have v: "cors_validate sample_parse_uri alist_ext sample_cors ''api'' = Ok ()" by code_simp
  have c: "cors_from_config alist_ext sample_cors ''api'' = Ok sample_cors_state" by code_simp
  have a: "origin_allowed alist_ext sample_cors_state ''https://a''"
    "preflight_method_allowed alist_ext sample_cors_state (rq_headers sample_preflight)"
    "preflight_headers_allowed alist_ext sample_cors_state (rq_headers sample_preflight)"
    by code_simp+
  have h: "hm_get alist_ext (rq_headers sample_preflight) ''origin'' = Some ''https://a''"
    "hm_contains alist_ext (rq_headers sample_preflight) ''access-control-request-method''"
    by code_simp+
  show ?thesis
    using cors_preflight [OF alist.header_map_axioms v c h(1) _ h(2), of "\<lambda>r w. (None, w)" "()"] a
    by (auto simp: sample_preflight_def sample_request_def sample_cors_def)
qed

text \<open>
  Actual cross-origin requests reach the layers below whatever their origin; the answer
  keeps its status and body, names the origin (or \<open>*\<close>) exactly once when the origin is
  allowed, and gains \<open>Vary: origin\<close> under an origin-specific policy. For an origin that is
  not allowed nothing else is touched: an \<open>Access-Control-Allow-Origin\<close> the upstream itself
  sent goes through to the client.
\<close>

theorem cors_decoration:
  assumes "header_map X" and "hm_get X (rq_headers req) ''origin'' = Some origin"
    and "rq_method req \<noteq> ''OPTIONS'' \<or> co_options_passthrough st" and "inner req w = (Some resp, w')"
  shows "\<exists>resp'. cors_layer X st inner req w = (Some resp', w') \<and> rs_status resp' = rs_status resp
    \<and> rs_body resp' = rs_body resp
    \<and> hm_get_all X (rs_headers resp') ''access-control-allow-origin'' =
        (if origin_allowed X st origin then [if co_wildcard st then ''*'' else origin]
         else hm_get_all X (rs_headers resp) ''access-control-allow-origin'')
    \<and> hm_get_all X (rs_headers resp') ''vary'' =
        hm_get_all X (rs_headers resp) ''vary'' @ (if co_wildcard st then [] else [''origin''])
    \<and> (\<not> origin_allowed X st origin \<longrightarrow>
         (\<forall>n. n \<noteq> ''vary'' \<longrightarrow> hm_get_all X (rs_headers resp') n = hm_get_all X (rs_headers resp) n))"
  using assms
  by (auto simp: cors_layer_def cors_decorate_def Let_def header_map.get_insert_opt header_map.get_all_insert
      header_map.get_all_append allow_origin_value_def)

theorem cors_decoration_witness:
  "\<exists>resp'. cors_layer alist_ext sample_cors_state
      (\<lambda>r w. (Some ((response_new alist_ext body_empty)\<lparr>rs_headers := [(''access-control-allow-origin'', [''*''])]\<rparr>), w))
      ((sample_request ''GET'' ''/'')\<lparr>rq_headers := [(''origin'', [''https://b''])]\<rparr>) () = (Some resp', ())
    \<and> hm_get_all alist_ext (rs_headers resp') ''access-control-allow-origin'' = [''*'']"
proof -
  let ?inner = "\<lambda>r w. (Some ((response_new alist_ext body_empty)\<lparr>rs_headers := [(''access-control-allow-origin'', [''*''])]\<rparr>), w)"
  let ?req = "(sample_request ''GET'' ''/'')\<lparr>rq_headers := [(''origin'', [''https://b''])]\<rparr>"
  have "hm_get alist_ext (rq_headers ?req) ''origin'' = Some ''https://b''" by code_simp
  moreover have "\<not> origin_allowed alist_ext sample_cors_state ''https://b''" by code_simp
  moreover have "hm_get_all alist_ext [(''access-control-allow-origin'', [''*''])] ''access-control-allow-origin'' = [''*'']"
    by code_simp
  ultimately show ?thesis
    using cors_decoration [OF alist.header_map_axioms, of ?req "''https://b''" sample_cors_state ?inner "()"]
    by (auto simp: sample_request_def)
qed

end
