(* ===== verification/Rewrite.thy ===== *)
theory Rewrite
  imports Endpoints Upstream
begin

text \<open>
  Request rewriting on the way to the upstream: \<open>g2-proxy/src/rewrite.rs\<close>, with the URL
  rewrite rules of \<open>g2-core/src/transform.rs\<close> and the immutable part of
  \<open>UpstreamTarget\<close> (\<open>forward.rs\<close>). The textual form of an address, \<open>X-Forwarded-For\<close>'s
  entry, is the standard library's and is written out.
\<close>

section \<open>Rewrite rules\<close>

record url_rewrite_rule =
  ur_pattern :: string
  ur_rewrite :: string

definition url_rewrite_validate :: "'r regex_ext \<Rightarrow> url_rewrite_rule \<Rightarrow> string \<Rightarrow> nat \<Rightarrow> (error, unit) res" where
  "url_rewrite_validate R rule api index =
     (case rx_new R (ur_pattern rule) of
        Inl err \<Rightarrow> Err (InvalidApiDefinition api
          (''`url_rewrites['' @ show_nat index @ ''].pattern` is not a valid regex: '' @ err))
      | Inr _ \<Rightarrow>
          (if \<not> prefix ''/'' (ur_rewrite rule) then
             Err (InvalidApiDefinition api
               (''`url_rewrites['' @ show_nat index @ ''].rewrite` must start with '' @ [CHR 0x27, CHR ''/'', CHR 0x27]
                @ '', got `'' @ ur_rewrite rule @ ''`''))
           else Ok ()))"

record 'r compiled_rewrite =
  cw_pattern :: 'r
  cw_rewrite :: string

definition compiled_rewrite_compile :: "'r regex_ext \<Rightarrow> string \<Rightarrow> url_rewrite_rule \<Rightarrow>
    (error, 'r compiled_rewrite) res" where
  "compiled_rewrite_compile R api_id rule =
     (case rx_new R (ur_pattern rule) of
        Inl err \<Rightarrow> Err (InvalidApiDefinition api_id
          (''invalid `url_rewrites` pattern `'' @ ur_pattern rule @ ''`: '' @ err))
      | Inr p \<Rightarrow> Ok \<lparr>cw_pattern = p, cw_rewrite = ur_rewrite rule\<rparr>)"

definition rewrite_apply :: "'r regex_ext \<Rightarrow> 'r compiled_rewrite \<Rightarrow> string \<Rightarrow> string option" where
  "rewrite_apply R r path = rx_expand R (cw_pattern r) (cw_rewrite r) path"

section \<open>The target\<close>

record 'r upstream_target =
  tg_api_id :: string
  tg_listen_prefix :: string
  tg_strip_listen_path :: bool
  tg_preserve_host_header :: bool
  tg_timeout :: duration
  tg_rewrites :: "'r compiled_rewrite list"
  tg_method_override :: "string option"
  tg_retries :: nat
  tg_upgrades_enabled :: bool
  tg_http2 :: bool

section \<open>Paths\<close>

definition join_paths :: "string \<Rightarrow> string \<Rightarrow> string" where
  "join_paths base tail =
     (let t = trim_start_matches (CHR ''/'') tail
      in if t = [] then (if base = [] then ''/'' else base) else base @ ''/'' @ t)"

text \<open>\<open>find_map\<close> over the rewrite rules.\<close>

fun first_rewrite :: "'r regex_ext \<Rightarrow> 'r compiled_rewrite list \<Rightarrow> string \<Rightarrow> string option" where
  "first_rewrite R [] path = None"
| "first_rewrite R (r # rs) path =
     (case rewrite_apply R r path of Some e \<Rightarrow> Some e | None \<Rightarrow> first_rewrite R rs path)"

fun push_queries :: "bool \<Rightarrow> string list \<Rightarrow> string" where
  "push_queries first [] = []"
| "push_queries first (q # qs) = (if first then CHR ''?'' else CHR ''&'') # q @ push_queries False qs"

definition upstream_tail :: "'r regex_ext \<Rightarrow> 'r upstream_target \<Rightarrow> string \<Rightarrow> string \<times> string option" where
  "upstream_tail R target req_path =
     (case first_rewrite R (tg_rewrites target) req_path of
        Some expanded \<Rightarrow>
          (case split_once (CHR ''?'') expanded of
             Some (path, q) \<Rightarrow> (path, if q = [] then None else Some q)
           | None \<Rightarrow> (expanded, None))
      | None \<Rightarrow>
          if tg_strip_listen_path target
          then ((case strip_prefix (tg_listen_prefix target) req_path of
                   Some rest \<Rightarrow> rest | None \<Rightarrow> req_path), None)
          else (req_path, None))"

definition upstream_path_and_query :: "'r regex_ext \<Rightarrow> 'r upstream_target \<Rightarrow> upstream_addr \<Rightarrow> string \<Rightarrow>
    string option \<Rightarrow> string" where
  "upstream_path_and_query R target addr req_path query =
     (let query' = (case query of Some q \<Rightarrow> if q = [] then None else Some q | None \<Rightarrow> None);
          (tail, rewrite_query) = upstream_tail R target req_path;
          opt = (\<lambda>x. case x of Some q \<Rightarrow> [q] | None \<Rightarrow> [])
      in join_paths (ua_base_path addr) tail @ push_queries True (opt rewrite_query @ opt query'))"

section \<open>Headers\<close>

definition connection_named :: "'h http_ext \<Rightarrow> 'h \<Rightarrow> string list" where
  "connection_named X h =
     List.map_filter (\<lambda>name. hn_parse X (trim name))
       (concat (map (split_on (CHR '','')) (List.map_filter (hv_to_str X) (hm_get_all X h ''connection''))))"

definition strip_hop_by_hop_headers :: "'h http_ext \<Rightarrow> 'h \<Rightarrow> 'h" where
  "strip_hop_by_hop_headers X h =
     foldl (hm_remove X) (foldl (hm_remove X) h (connection_named X h)) HOP_BY_HOP"

text \<open>\<open>IpAddr\<close>'s \<open>Display\<close>: dotted quads; for IPv6 the first longest run of two or more zero
  segments is compressed, and an IPv4-mapped address shows its IPv4 part.\<close>

definition show_v4 :: "32 word \<Rightarrow> string" where
  "show_v4 w = join_strings ''.'' (map (\<lambda>i. show_nat (unat (take_bit 8 (drop_bit (8 * i) w)))) [3, 2, 1, 0])"

fun show_hex :: "nat \<Rightarrow> string" where
  "show_hex n = (if n < 16 then [hex_digit n] else show_hex (n div 16) @ [hex_digit (n mod 16)])"

declare show_hex.simps [simp del]

fun longest_zeros :: "nat \<Rightarrow> nat \<times> nat \<Rightarrow> nat \<times> nat \<Rightarrow> nat list \<Rightarrow> nat \<times> nat" where
  "longest_zeros i cur best [] = best"
| "longest_zeros i (st, len) best (x # xs) =
     (if x = 0 then
        let cur' = (if len = 0 then i else st, len + 1)
        in longest_zeros (i + 1) cur' (if snd cur' > snd best then cur' else best) xs
      else longest_zeros (i + 1) (0, 0) best xs)"

definition show_v6 :: "128 word \<Rightarrow> string" where
  "show_v6 w =
     (let segs = map (\<lambda>i. unat (take_bit 16 (drop_bit (16 * i) w))) [7, 6, 5, 4, 3, 2, 1, 0];
          fmt = (\<lambda>xs. join_strings '':'' (map show_hex xs));
          (st, len) = longest_zeros 0 (0, 0) (0, 0) segs
      in if drop_bit 32 w = 0xffff then ''::ffff:'' @ show_v4 (ucast w)
         else if len > 1 then fmt (take st segs) @ ''::'' @ fmt (drop (st + len) segs)
         else fmt segs)"

definition show_ip :: "ip_addr \<Rightarrow> string" where
  "show_ip a = (case a of V4 w \<Rightarrow> show_v4 w | V6 w \<Rightarrow> show_v6 w)"

definition apply_forwarded_headers :: "'h http_ext \<Rightarrow> 'h \<Rightarrow> ip_addr \<Rightarrow> string option \<Rightarrow> bool \<Rightarrow> 'h" where
  "apply_forwarded_headers X h client_ip original_host tls =
     (let chain = (case Option.bind (hm_get X h ''x-forwarded-for'') (hv_to_str X) of
                     Some existing \<Rightarrow> existing @ '', '' @ show_ip client_ip
                   | None \<Rightarrow> show_ip client_ip);
          h1 = (case hv_from_str X chain of Some v \<Rightarrow> hm_insert X h ''x-forwarded-for'' v | None \<Rightarrow> h);
          h2 = (if \<not> hm_contains X h1 ''x-forwarded-host''
                then (case original_host of Some host \<Rightarrow> hm_insert X h1 ''x-forwarded-host'' host | None \<Rightarrow> h1)
                else h1)
      in if \<not> hm_contains X h2 ''x-forwarded-proto''
         then hm_insert X h2 ''x-forwarded-proto'' (if tls then ''https'' else ''http'')
         else h2)"

definition prepare_upstream_headers :: "'h http_ext \<Rightarrow> 'r upstream_target \<Rightarrow> 'h \<Rightarrow> ip_addr \<Rightarrow> bool \<Rightarrow> 'h" where
  "prepare_upstream_headers X target h client_ip tls =
     (let original_host = hm_get X h ''host'';
          h1 = strip_hop_by_hop_headers X h;
          h2 = (if \<not> tg_preserve_host_header target then hm_remove X h1 ''host'' else h1)
      in apply_forwarded_headers X h2 client_ip original_host tls)"

section \<open>Lemmas\<close>

context header_map
begin

lemma strip_get_all:
  "hm_get_all X (strip_hop_by_hop_headers X h) n =
     (if n \<in> set HOP_BY_HOP \<or> n \<in> set (connection_named X h) then [] else hm_get_all X h n)"
  by (simp add: strip_hop_by_hop_headers_def)

lemma forwarded_get_all:
  assumes "hv_from_str X chain = Some chain"
    and "chain = (case Option.bind (hm_get X h ''x-forwarded-for'') (hv_to_str X) of
           Some existing \<Rightarrow> existing @ '', '' @ show_ip ip | None \<Rightarrow> show_ip ip)"
  shows "hm_get_all X (apply_forwarded_headers X h ip host tls) n =
    (if n = ''x-forwarded-for'' then [chain]
     else if n = ''x-forwarded-host'' \<and> hm_get_all X h n = [] then (case host of Some v \<Rightarrow> [v] | None \<Rightarrow> [])
     else if n = ''x-forwarded-proto'' \<and> hm_get_all X h n = [] then [if tls then ''https'' else ''http'']
     else hm_get_all X h n)"
  using assms(1)
  by (auto simp: apply_forwarded_headers_def assms(2) [symmetric] Let_def hm_contains_def split: option.splits)

end

lemma join_paths_under: "\<exists>p. join_paths base tail = base @ p \<and> (p = [] \<or> hd p = CHR ''/'') \<and> (base = [] \<longrightarrow> p \<noteq> [])"
  by (auto simp: join_paths_def Let_def)

lemma first_rewrite_Nil [simp]:
  "(\<And>r. r \<in> set rs \<Longrightarrow> rewrite_apply R r path = None) \<Longrightarrow> first_rewrite R rs path = None"
  by (induction rs) auto

section \<open>Properties\<close>


definition sample_target :: "bool \<Rightarrow> string upstream_target" where
  "sample_target http2 =
     \<lparr>tg_api_id = ''api'', tg_listen_prefix = ''/users'', tg_strip_listen_path = True,
      tg_preserve_host_header = False, tg_timeout = 1000, tg_rewrites = [], tg_method_override = None,
      tg_retries = 2, tg_upgrades_enabled = False, tg_http2 = http2\<rparr>"

definition sample_addr :: upstream_addr where
  "sample_addr = \<lparr>ua_scheme = ''http'', ua_authority = ''h'', ua_base_path = ''/v1''\<rparr>"




end
