(* ===== verification/Storage.thy ===== *)
theory Storage
  imports Prelude
begin

text \<open>
  The \<open>Storage\<close> trait of \<open>g2-storage/src/lib.rs\<close>: its error and decision types,
  the trait object as a record of operations (each takes the store's state and the instant
  at which it runs and returns the outcome with the new state), the abstract
  specifications of a sliding window and of a fixed-period quota, and the contracts the
  clients of a store rely on, as locales. \<open>publish\<close> and \<open>subscribe\<close> are not part of the
  record: they carry no stored state.
\<close>

section \<open>The trait\<close>

datatype storage_error = Backend string

record limit_decision =
  allowed :: bool
  remaining :: nat
  reset_after :: duration

record 's storage_ops =
  st_get :: "'s \<Rightarrow> instant \<Rightarrow> string \<Rightarrow> (storage_error, string option) res \<times> 's"
  st_set :: "'s \<Rightarrow> instant \<Rightarrow> string \<Rightarrow> string \<Rightarrow> duration option \<Rightarrow>
    (storage_error, unit) res \<times> 's"
  st_delete :: "'s \<Rightarrow> instant \<Rightarrow> string \<Rightarrow> (storage_error, bool) res \<times> 's"
  st_scan_prefix :: "'s \<Rightarrow> instant \<Rightarrow> string \<Rightarrow> (storage_error, string list) res \<times> 's"
  st_list_append :: "'s \<Rightarrow> instant \<Rightarrow> string \<Rightarrow> string list \<Rightarrow> nat option \<Rightarrow>
    (storage_error, unit) res \<times> 's"
  st_list_drain :: "'s \<Rightarrow> instant \<Rightarrow> string \<Rightarrow> nat \<Rightarrow> (storage_error, string list) res \<times> 's"
  st_check_rate :: "'s \<Rightarrow> instant \<Rightarrow> string \<Rightarrow> nat \<Rightarrow> duration \<Rightarrow>
    (storage_error, limit_decision) res \<times> 's"
  st_check_quota :: "'s \<Rightarrow> instant \<Rightarrow> string \<Rightarrow> nat \<Rightarrow> duration \<Rightarrow>
    (storage_error, limit_decision) res \<times> 's"

section \<open>Sliding windows: the abstract specification\<close>

text \<open>
  The specification keeps every admitted request for ever and admits a request at \<open>t\<close>
  exactly when fewer than \<open>limit\<close> admitted requests lie less than \<open>window\<close> back.
\<close>

definition in_window :: "duration \<Rightarrow> instant \<Rightarrow> instant list \<Rightarrow> instant list" where
  "in_window w t h = filter (\<lambda>u. t - u < w) h"

fun sliding_spec :: "nat \<Rightarrow> duration \<Rightarrow> instant list \<Rightarrow> instant list \<Rightarrow> bool list" where
  "sliding_spec l w h [] = []"
| "sliding_spec l w h (t # ts) =
     (if length (in_window w t h) < l then True # sliding_spec l w (h @ [t]) ts
      else False # sliding_spec l w h ts)"

fun admitted :: "instant list \<Rightarrow> bool list \<Rightarrow> instant list" where
  "admitted (t # ts) (b # bs) = (if b then t # admitted ts bs else admitted ts bs)"
| "admitted _ _ = []"

text \<open>How many of the admitted requests \<open>h\<close> fall in the window that ends at \<open>t\<close>.\<close>

definition window_load :: "duration \<Rightarrow> instant \<Rightarrow> instant list \<Rightarrow> nat" where
  "window_load w t h = length (filter (\<lambda>u. u \<le> t \<and> t - u < w) h)"

lemma window_load_append [simp]:
  "window_load w t (h @ h') = window_load w t h + window_load w t h'"
  by (simp add: window_load_def)

lemma window_load_after:
  assumes "\<forall>u \<in> set h. t0 \<le> u" and "t < t0"
  shows "window_load w t h = 0"
  using assms by (auto simp: window_load_def filter_empty_conv)

lemma admitted_subset: "set (admitted ts bs) \<subseteq> set ts"
  by (induction ts bs rule: admitted.induct) auto

lemma window_load_mono_in_window:
  assumes "\<forall>u \<in> set h. u \<le> t0" and "t0 \<le> t"
  shows "window_load w t h \<le> length (in_window w t0 h)"
proof -
  have "filter (\<lambda>u. u \<le> t \<and> t - u < w) h = filter (\<lambda>u. t - u < w) (in_window w t0 h)"
    using assms by (auto simp: in_window_def intro!: filter_cong)
  then show ?thesis
    by (simp add: window_load_def)
qed

text \<open>The load of a window over the history and the requests admitted later stays within the limit.\<close>

lemma sliding_spec_bound:
  assumes "sorted ts" and "\<forall>u \<in> set h. \<forall>v \<in> set ts. u \<le> v"
    and "\<And>t. window_load w t h \<le> l"
  shows "window_load w t (h @ admitted ts (sliding_spec l w h ts)) \<le> l"
  using assms
proof (induction ts arbitrary: h)
  case Nil
  then show ?case by (simp add: window_load_def)
next
  case (Cons t0 ts)
  show ?case
  proof (cases "length (in_window w t0 h) < l")
    case False
    with Cons.prems Cons.IH [of h] show ?thesis by simp
  next
    case True
    have "window_load w t (h @ [t0]) \<le> l" for t
    proof (cases "t0 \<le> t")
      case True': True
      then have "window_load w t h \<le> length (in_window w t0 h)"
        using Cons.prems(2) by (intro window_load_mono_in_window) auto
      with True show ?thesis by (simp add: window_load_def)
    next
      case False
      then have "window_load w t [t0] = 0" by (simp add: window_load_def)
      with Cons.prems(3) [of t] show ?thesis by simp
    qed
    then have "window_load w t ((h @ [t0]) @ admitted ts (sliding_spec l w (h @ [t0]) ts)) \<le> l"
      using Cons.prems(1,2) by (intro Cons.IH) auto
    with True show ?thesis by simp
  qed
qed

section \<open>Fixed-period quotas: the abstract specification\<close>

text \<open>
  The \<open>n\<close>-th request of a period (counted from 1) is allowed exactly when \<open>n \<le> max\<close>;
  a request at or after the reset instant opens a new period.
\<close>

fun quota_spec :: "nat \<Rightarrow> duration \<Rightarrow> (nat \<times> instant) option \<Rightarrow> instant list \<Rightarrow> bool list" where
  "quota_spec m p q [] = []"
| "quota_spec m p q (t # ts) =
     (case q of
        Some (n, r) \<Rightarrow>
          if t < r then (Suc n \<le> m) # quota_spec m p (Some (Suc n, r)) ts
          else (1 \<le> m) # quota_spec m p (Some (1, t + p)) ts
      | None \<Rightarrow> (1 \<le> m) # quota_spec m p (Some (1, t + p)) ts)"

definition granted :: "bool list \<Rightarrow> nat" where
  "granted bs = length (filter id bs)"

lemma quota_spec_open_period:
  assumes "\<forall>t \<in> set ts. t < r"
  shows "quota_spec m p (Some (n, r)) ts = map (\<lambda>i. n + Suc i \<le> m) [0 ..< length ts]"
  using assms
proof (induction ts arbitrary: n)
  case Nil
  then show ?case by simp
next
  case (Cons t ts)
  then have "quota_spec m p (Some (Suc n, r)) ts = map (\<lambda>i. Suc n + Suc i \<le> m) [0 ..< length ts]"
    by simp
  with Cons.prems show ?case
    by (simp add: upt_conv_Cons map_Suc_upt [symmetric] comp_def del: upt_Suc)
qed

lemma granted_prefix: "granted (map (\<lambda>i. n + Suc i \<le> m) [0 ..< k]) = min k (m - n)"
  by (induction k) (auto simp: granted_def)

section \<open>Contracts\<close>

text \<open>
  Key-value contract: \<open>kv s t\<close> is the live content of the store at instant \<open>t\<close> and
  \<open>inv t\<close> the invariant of a store whose clock has reached \<open>t\<close>. An operation that
  fails or panics promises nothing beyond the invariant.
\<close>

locale kv_store =
  fixes S :: "'s storage_ops"
    and inv :: "instant \<Rightarrow> 's \<Rightarrow> bool"
    and kv :: "'s \<Rightarrow> instant \<Rightarrow> string \<Rightarrow> string option"
  assumes inv_later: "inv t s \<Longrightarrow> t \<le> u \<Longrightarrow> inv u s"
    and get_inv: "inv t s \<Longrightarrow> inv t (snd (st_get S s t k))"
    and set_inv: "inv t s \<Longrightarrow> inv t (snd (st_set S s t k v ttl))"
    and delete_inv: "inv t s \<Longrightarrow> inv t (snd (st_delete S s t k))"
    and get_val: "inv t s \<Longrightarrow> st_get S s t k = (Ok r, s') \<Longrightarrow> r = kv s t k"
    and get_kv: "inv t s \<Longrightarrow> t \<le> u \<Longrightarrow> kv (snd (st_get S s t k)) u = kv s u"
    and set_kv: "inv t s \<Longrightarrow> st_set S s t k v ttl = (Ok (), s') \<Longrightarrow> t \<le> u \<Longrightarrow>
      kv s' u = (kv s u)(k := (case ttl of None \<Rightarrow> Some v
                               | Some d \<Rightarrow> if u < t + d then Some v else None))"
    and delete_val: "inv t s \<Longrightarrow> st_delete S s t k = (Ok b, s') \<Longrightarrow> b = (kv s t k \<noteq> None)"
    and delete_kv: "inv t s \<Longrightarrow> st_delete S s t k = (Ok b, s') \<Longrightarrow> kv s' u = (kv s u)(k := None)"
    and scan_val: "inv t s \<Longrightarrow> st_scan_prefix S s t p = (Ok ks, s') \<Longrightarrow>
      s' = s \<and> distinct ks \<and> set ks = {k. prefix p k \<and> kv s t k \<noteq> None}"
begin

lemma get_after_set:
  assumes "inv t s" and "st_set S s t k v ttl = (Ok (), s')" and "t \<le> u"
    and "case ttl of None \<Rightarrow> True | Some d \<Rightarrow> u < t + d"
    and "st_get S s' u k' = (Ok r, s'')"
  shows "r = (if k' = k then Some v else kv s u k')"
proof -
  from assms(1,2) set_inv [OF assms(1), of k v ttl] have "inv t s'" by simp
  with assms(3) have "inv u s'" using inv_later by blast
  then have "r = kv s' u k'" using assms(5) by (rule get_val)
  with set_kv [OF assms(1,2,3)] assms(4) show ?thesis
    by (auto split: option.splits)
qed

lemma get_after_expiry:
  assumes "inv t s" and "st_set S s t k v (Some d) = (Ok (), s')" and "t + d \<le> u"
    and "st_get S s' u k = (Ok r, s'')"
  shows "r = None"
proof -
  from assms(1,2) set_inv [OF assms(1), of k v "Some d"] have "inv t s'" by simp
  with assms(3) have "inv u s'" using inv_later [of t s' u] by simp
  then have "r = kv s' u k" using assms(4) by (rule get_val)
  with set_kv [OF assms(1,2), of u] assms(3) show ?thesis by simp
qed

lemma get_after_delete:
  assumes "inv t s" and "st_delete S s t k = (Ok b, s')" and "t \<le> u"
    and "st_get S s' u k = (Ok r, s'')"
  shows "r = None"
proof -
  from assms(1,2) delete_inv [OF assms(1), of k] have "inv t s'" by simp
  with assms(3) have "inv u s'" using inv_later by blast
  then have "r = kv s' u k" using assms(4) by (rule get_val)
  with delete_kv [OF assms(1,2)] show ?thesis by simp
qed

end

text \<open>
  Rate contract: \<open>hits s k\<close> is the log the store keeps for a key. Whatever it has
  forgotten must already be outside the window being asked for; that is how a pruned log
  implements the full-history specification.
\<close>

locale rate_store =
  fixes S :: "'s storage_ops"
    and inv :: "instant \<Rightarrow> 's \<Rightarrow> bool"
    and hits :: "'s \<Rightarrow> string \<Rightarrow> instant list"
  assumes rate_inv: "inv t s \<Longrightarrow> inv t (snd (st_check_rate S s t k l w))"
    and rate_later: "inv t s \<Longrightarrow> t \<le> u \<Longrightarrow> inv u s"
    and rate_allowed: "inv t s \<Longrightarrow> st_check_rate S s t k l w = (Ok d, s') \<Longrightarrow>
      allowed d \<longleftrightarrow> length (in_window w t (hits s k)) < l"
    and rate_hits: "inv t s \<Longrightarrow> st_check_rate S s t k l w = (Ok d, s') \<Longrightarrow>
      hits s' k = in_window w t (hits s k) @ (if allowed d then [t] else [])"
    and rate_other: "inv t s \<Longrightarrow> k' \<noteq> k \<Longrightarrow> hits (snd (st_check_rate S s t k l w)) k' = hits s k'"

text \<open>A run of checks of one key with a fixed allowance, one per instant; it stops at a failure.\<close>

fun rate_run :: "'s storage_ops \<Rightarrow> 's \<Rightarrow> string \<Rightarrow> nat \<Rightarrow> duration \<Rightarrow> instant list \<Rightarrow> bool list option"
where
  "rate_run S s k l w [] = Some []"
| "rate_run S s k l w (t # ts) =
     (case st_check_rate S s t k l w of
        (Ok d, s') \<Rightarrow> map_option (\<lambda>bs. allowed d # bs) (rate_run S s' k l w ts)
      | _ \<Rightarrow> None)"

lemma in_window_twice: "t \<le> u \<Longrightarrow> in_window w u (in_window w t h) = in_window w u h"
  by (auto simp: in_window_def intro!: filter_cong)

lemma in_window_append [simp]: "in_window w t (h @ h') = in_window w t h @ in_window w t h'"
  by (simp add: in_window_def)

context rate_store
begin

lemma rate_run_refines:
  assumes "sorted ts" and "\<forall>t \<in> set ts. start \<le> t" and "inv start s"
    and "\<And>u. start \<le> u \<Longrightarrow> in_window w u (hits s k) = in_window w u h"
    and "rate_run S s k l w ts = Some bs"
  shows "bs = sliding_spec l w h ts"
  using assms
proof (induction ts arbitrary: start s h bs)
  case Nil
  then show ?case by simp
next
  case (Cons t ts)
  from Cons.prems(5) obtain d s' bs' where
    step: "st_check_rate S s t k l w = (Ok d, s')" and
    rest: "rate_run S s' k l w ts = Some bs'" and bs: "bs = allowed d # bs'"
    by (auto split: prod.splits res.splits)
  from Cons.prems(2,3) have inv: "inv t s" using rate_later by auto
  then have inv': "inv t s'" using rate_inv [OF inv, of k l w] step by simp
  have d: "allowed d \<longleftrightarrow> length (in_window w t h) < l"
    using rate_allowed [OF inv step] Cons.prems(2,4) by simp
  let ?h = "h @ (if allowed d then [t] else [])"
  have "in_window w u (hits s' k) = in_window w u ?h" if "t \<le> u" for u
    using rate_hits [OF inv step] Cons.prems(2) Cons.prems(4) [of u] that
    by (simp add: in_window_twice)
  then have "bs' = sliding_spec l w ?h ts"
    using Cons.prems(1) by (intro Cons.IH [OF _ _ inv' _ rest]) auto
  with d bs show ?case by simp
qed

end

text \<open>Quota contract: \<open>used s k\<close> is the open period's counter and reset instant.\<close>

locale quota_store =
  fixes S :: "'s storage_ops"
    and inv :: "instant \<Rightarrow> 's \<Rightarrow> bool"
    and used :: "'s \<Rightarrow> string \<Rightarrow> (nat \<times> instant) option"
  assumes quota_inv: "inv t s \<Longrightarrow> inv t (snd (st_check_quota S s t k m p))"
    and quota_later: "inv t s \<Longrightarrow> t \<le> u \<Longrightarrow> inv u s"
    and quota_step: "inv t s \<Longrightarrow> st_check_quota S s t k m p = (Ok d, s') \<Longrightarrow>
      (case used s k of Some (n, r) \<Rightarrow> n < u64_max | None \<Rightarrow> True) \<Longrightarrow>
      used s' k = Some (case used s k of
          Some (n, r) \<Rightarrow> if t < r then (Suc n, r) else (1, t + p)
        | None \<Rightarrow> (1, t + p))
      \<and> allowed d = (fst (the (used s' k)) \<le> m)"

fun quota_run :: "'s storage_ops \<Rightarrow> 's \<Rightarrow> string \<Rightarrow> nat \<Rightarrow> duration \<Rightarrow> instant list \<Rightarrow> bool list option"
where
  "quota_run S s k m p [] = Some []"
| "quota_run S s k m p (t # ts) =
     (case st_check_quota S s t k m p of
        (Ok d, s') \<Rightarrow> map_option (\<lambda>bs. allowed d # bs) (quota_run S s' k m p ts)
      | _ \<Rightarrow> None)"

context quota_store
begin

lemma quota_run_refines:
  assumes "sorted ts" and "\<forall>t \<in> set ts. start \<le> t" and "inv start s"
    and "(case used s k of Some (n, r) \<Rightarrow> n | None \<Rightarrow> 0) + length ts \<le> u64_max"
    and "quota_run S s k m p ts = Some bs"
  shows "bs = quota_spec m p (used s k) ts"
  using assms
proof (induction ts arbitrary: start s bs)
  case Nil
  then show ?case by simp
next
  case (Cons t ts)
  from Cons.prems(5) obtain d s' bs' where
    step: "st_check_quota S s t k m p = (Ok d, s')" and
    rest: "quota_run S s' k m p ts = Some bs'" and bs: "bs = allowed d # bs'"
    by (auto split: prod.splits res.splits)
  from Cons.prems(2,3) have inv: "inv t s" using quota_later by auto
  then have inv': "inv t s'" using quota_inv [OF inv, of k m p] step by simp
  have small: "case used s k of Some (n, r) \<Rightarrow> n < u64_max | None \<Rightarrow> True"
    using Cons.prems(4) by (auto split: option.splits)
  note u = quota_step [OF inv step small]
  have "bs' = quota_spec m p (used s' k) ts"
    using Cons.prems(1,4) u
    by (intro Cons.IH [OF _ _ inv' _ rest]) (auto split: option.splits if_splits)
  with u bs show ?case
    by (auto split: option.splits)
qed

end

end
