(* ===== verification/Memory_Storage.thy ===== *)
theory Memory_Storage
  imports Storage
begin

text \<open>
  \<open>MemoryStorage\<close> of \<open>g2-storage/src/memory.rs\<close>: five lock-protected maps. Every
  operation but \<open>get\<close> holds one lock for its whole body and is one atomic step; \<open>get\<close>
  takes the read lock and then, on an expired entry, the write lock, and is modelled as
  those two steps. Interpretations discharge the contracts of \<open>Storage\<close> for it.
\<close>

section \<open>State\<close>

record entry =
  e_value :: string
  e_expires_at :: "instant option"

record quota_entry =
  q_count :: nat
  q_resets_at :: instant

record memory_storage =
  ms_map :: "(string, entry) hashmap"
  ms_windows :: "(string, instant list) hashmap"
  ms_quotas :: "(string, quota_entry) hashmap"
  ms_lists :: "(string, string list) hashmap"

definition is_expired :: "entry \<Rightarrow> instant \<Rightarrow> bool" where
  "is_expired e now = (case e_expires_at e of Some at \<Rightarrow> at \<le> now | None \<Rightarrow> False)"

definition mem_new :: memory_storage where
  "mem_new = \<lparr>ms_map = [], ms_windows = [], ms_quotas = [], ms_lists = []\<rparr>"

section \<open>Values\<close>

text \<open>The read-lock half of \<open>get\<close>: \<open>Some r\<close> returns \<open>r\<close>, \<open>None\<close> falls through to the eviction.\<close>

definition mem_get_read :: "memory_storage \<Rightarrow> instant \<Rightarrow> string \<Rightarrow> string option option" where
  "mem_get_read s now key =
     (case map_of (ms_map s) key of
        None \<Rightarrow> Some None
      | Some e \<Rightarrow> if \<not> is_expired e now then Some (Some (e_value e)) else None)"

definition mem_get_evict :: "memory_storage \<Rightarrow> instant \<Rightarrow> string \<Rightarrow> memory_storage" where
  "mem_get_evict s now key =
     (case map_of (ms_map s) key of
        Some e \<Rightarrow> if is_expired e now then s\<lparr>ms_map := AList.delete key (ms_map s)\<rparr> else s
      | None \<Rightarrow> s)"

definition mem_get :: "memory_storage \<Rightarrow> instant \<Rightarrow> string \<Rightarrow>
    (storage_error, string option) res \<times> memory_storage" where
  "mem_get s now key =
     (case mem_get_read s now key of
        Some r \<Rightarrow> (Ok r, s)
      | None \<Rightarrow> (Ok None, mem_get_evict s now key))"

definition mem_set :: "memory_storage \<Rightarrow> instant \<Rightarrow> string \<Rightarrow> string \<Rightarrow> duration option \<Rightarrow>
    (storage_error, unit) res \<times> memory_storage" where
  "mem_set s now key v ttl =
     (case ttl of
        None \<Rightarrow> (Ok (), s\<lparr>ms_map := AList.update key \<lparr>e_value = v, e_expires_at = None\<rparr> (ms_map s)\<rparr>)
      | Some t \<Rightarrow>
          (case instant_add now t of
             None \<Rightarrow> (Panic, s)
           | Some at \<Rightarrow>
               (Ok (), s\<lparr>ms_map := AList.update key \<lparr>e_value = v, e_expires_at = Some at\<rparr> (ms_map s)\<rparr>)))"

definition mem_delete :: "memory_storage \<Rightarrow> instant \<Rightarrow> string \<Rightarrow>
    (storage_error, bool) res \<times> memory_storage" where
  "mem_delete s now key =
     (case map_of (ms_map s) key of
        Some e \<Rightarrow> (Ok (\<not> is_expired e now), s\<lparr>ms_map := AList.delete key (ms_map s)\<rparr>)
      | None \<Rightarrow> (Ok False, s))"

definition mem_scan_prefix :: "memory_storage \<Rightarrow> instant \<Rightarrow> string \<Rightarrow>
    (storage_error, string list) res \<times> memory_storage" where
  "mem_scan_prefix s now p =
     (Ok (map fst (filter (\<lambda>(k, e). prefix p k \<and> \<not> is_expired e now) (ms_map s))), s)"

section \<open>Lists\<close>

text \<open>\<open>while list.len() > max { list.pop_front(); }\<close>\<close>

fun pop_front_while_longer :: "nat \<Rightarrow> 'a list \<Rightarrow> 'a list" where
  "pop_front_while_longer m [] = []"
| "pop_front_while_longer m (x # xs) =
     (if length (x # xs) > m then pop_front_while_longer m xs else x # xs)"

definition mem_list_append :: "memory_storage \<Rightarrow> instant \<Rightarrow> string \<Rightarrow> string list \<Rightarrow> nat option \<Rightarrow>
    (storage_error, unit) res \<times> memory_storage" where
  "mem_list_append s now key vs max_len =
     (if vs = [] then (Ok (), s)
      else
        let l = (case map_of (ms_lists s) key of Some xs \<Rightarrow> xs | None \<Rightarrow> []) @ vs;
            l' = (case max_len of Some m \<Rightarrow> pop_front_while_longer m l | None \<Rightarrow> l)
        in (Ok (), s\<lparr>ms_lists := AList.update key l' (ms_lists s)\<rparr>))"

definition mem_list_drain :: "memory_storage \<Rightarrow> instant \<Rightarrow> string \<Rightarrow> nat \<Rightarrow>
    (storage_error, string list) res \<times> memory_storage" where
  "mem_list_drain s now key m =
     (case map_of (ms_lists s) key of
        None \<Rightarrow> (Ok [], s)
      | Some l \<Rightarrow>
          let n = min m (length l); rest = drop n l
          in (Ok (take n l),
              s\<lparr>ms_lists := (if rest = [] then AList.delete key (ms_lists s)
                            else AList.update key rest (ms_lists s))\<rparr>))"

section \<open>Limits\<close>

text \<open>\<open>while log.front() is window or more in the past { log.pop_front(); }\<close>\<close>

definition slide_log :: "duration \<Rightarrow> instant \<Rightarrow> instant list \<Rightarrow> instant list" where
  "slide_log window now log = dropWhile (\<lambda>t. window \<le> now - t) log"

definition log_reset_after :: "duration \<Rightarrow> instant \<Rightarrow> instant list \<Rightarrow> duration" where
  "log_reset_after window now log =
     (case log of [] \<Rightarrow> window | oldest # _ \<Rightarrow> window - (now - oldest))"

definition mem_check_rate :: "memory_storage \<Rightarrow> instant \<Rightarrow> string \<Rightarrow> nat \<Rightarrow> duration \<Rightarrow>
    (storage_error, limit_decision) res \<times> memory_storage" where
  "mem_check_rate s now key limit window =
     (let log0 = (case map_of (ms_windows s) key of Some l \<Rightarrow> l | None \<Rightarrow> []);
          log = slide_log window now log0;
          count = length log
      in if count < limit then
           (Ok \<lparr>allowed = True, remaining = limit - count - 1,
                reset_after = log_reset_after window now log\<rparr>,
            s\<lparr>ms_windows := AList.update key (log @ [now]) (ms_windows s)\<rparr>)
         else
           (Ok \<lparr>allowed = False, remaining = 0, reset_after = log_reset_after window now log\<rparr>,
            s\<lparr>ms_windows := (if log = [] then AList.delete key (ms_windows s)
                            else AList.update key log (ms_windows s))\<rparr>))"

text \<open>
  \<open>or_insert\<close> evaluates its argument, and with it \<open>now + period\<close>, even when the entry
  exists: a period that overflows the instant panics on every call.
\<close>

definition mem_check_quota :: "memory_storage \<Rightarrow> instant \<Rightarrow> string \<Rightarrow> nat \<Rightarrow> duration \<Rightarrow>
    (storage_error, limit_decision) res \<times> memory_storage" where
  "mem_check_quota s now key m period =
     (case instant_add now period of
        None \<Rightarrow> (Panic, s)
      | Some renewed \<Rightarrow>
          let fresh = \<lparr>q_count = 0, q_resets_at = renewed\<rparr>;
              e0 = (case map_of (ms_quotas s) key of Some e \<Rightarrow> e | None \<Rightarrow> fresh);
              e1 = (if q_resets_at e0 \<le> now then fresh else e0);
              e2 = e1\<lparr>q_count := wrap64 (q_count e1 + 1)\<rparr>;
              ra = q_resets_at e2 - now
          in (Ok (if q_count e2 > m
                  then \<lparr>allowed = False, remaining = 0, reset_after = ra\<rparr>
                  else \<lparr>allowed = True, remaining = m - q_count e2, reset_after = ra\<rparr>),
              s\<lparr>ms_quotas := AList.update key e2 (ms_quotas s)\<rparr>))"

text \<open>The trait object.\<close>

definition memory_ops :: "memory_storage storage_ops" where
  "memory_ops =
     \<lparr>st_get = mem_get, st_set = mem_set, st_delete = mem_delete,
      st_scan_prefix = mem_scan_prefix, st_list_append = mem_list_append,
      st_list_drain = mem_list_drain, st_check_rate = mem_check_rate,
      st_check_quota = mem_check_quota\<rparr>"

section \<open>Invariant\<close>

definition log_ok :: "instant \<Rightarrow> instant list \<Rightarrow> bool" where
  "log_ok now log \<longleftrightarrow> sorted log \<and> (\<forall>t \<in> set log. t \<le> now)"

definition mem_hits :: "memory_storage \<Rightarrow> string \<Rightarrow> instant list" where
  "mem_hits s k = (case map_of (ms_windows s) k of Some l \<Rightarrow> l | None \<Rightarrow> [])"

definition mem_inv :: "instant \<Rightarrow> memory_storage \<Rightarrow> bool" where
  "mem_inv now s \<longleftrightarrow>
     hm_wf (ms_map s) \<and> hm_wf (ms_windows s) \<and> hm_wf (ms_quotas s) \<and> hm_wf (ms_lists s)
     \<and> (\<forall>k. log_ok now (mem_hits s k))"

definition mem_kv :: "memory_storage \<Rightarrow> instant \<Rightarrow> string \<Rightarrow> string option" where
  "mem_kv s now k =
     (case map_of (ms_map s) k of
        Some e \<Rightarrow> if is_expired e now then None else Some (e_value e) | None \<Rightarrow> None)"

definition mem_used :: "memory_storage \<Rightarrow> string \<Rightarrow> (nat \<times> instant) option" where
  "mem_used s k = map_option (\<lambda>e. (q_count e, q_resets_at e)) (map_of (ms_quotas s) k)"

definition mem_queue :: "memory_storage \<Rightarrow> string \<Rightarrow> string list" where
  "mem_queue s k = (case map_of (ms_lists s) k of Some l \<Rightarrow> l | None \<Rightarrow> [])"

lemma memory_ops_sel [simp]:
  "st_get memory_ops = mem_get" "st_set memory_ops = mem_set" "st_delete memory_ops = mem_delete"
  "st_scan_prefix memory_ops = mem_scan_prefix" "st_list_append memory_ops = mem_list_append"
  "st_list_drain memory_ops = mem_list_drain" "st_check_rate memory_ops = mem_check_rate"
  "st_check_quota memory_ops = mem_check_quota"
  by (simp_all add: memory_ops_def)

lemma mem_new_sel [simp]:
  "ms_map mem_new = []" "ms_windows mem_new = []" "ms_quotas mem_new = []" "ms_lists mem_new = []"
  by (simp_all add: mem_new_def)

lemma mem_inv_new [simp]: "mem_inv now mem_new"
  by (simp add: mem_inv_def mem_hits_def log_ok_def)

lemma mem_inv_later: "mem_inv t s \<Longrightarrow> t \<le> u \<Longrightarrow> mem_inv u s"
  by (fastforce simp: mem_inv_def log_ok_def)

lemma is_expired_later: "is_expired e t \<Longrightarrow> t \<le> u \<Longrightarrow> is_expired e u"
  by (auto simp: is_expired_def split: option.splits)

lemma mem_inv_log: "mem_inv now s \<Longrightarrow> log_ok now (mem_hits s k)"
  by (simp add: mem_inv_def)

text \<open>On a sorted log the front-popping loop keeps exactly the entries inside the window.\<close>

lemma slide_log_filter:
  assumes "log_ok now log"
  shows "slide_log w now log = in_window w now log"
  using assms
proof (induction log)
  case Nil
  then show ?case by (simp add: slide_log_def in_window_def)
next
  case (Cons t log)
  show ?case
  proof (cases "w \<le> now - t")
    case True
    with Cons show ?thesis
      by (simp add: slide_log_def in_window_def log_ok_def)
  next
    case False
    then have "now - u < w" if "u \<in> set log" for u
      using Cons.prems that by (fastforce simp: log_ok_def)
    then have "in_window w now log = log"
      by (simp add: in_window_def)
    with False show ?thesis
      by (simp add: slide_log_def in_window_def)
  qed
qed

lemma log_ok_slide: "log_ok now log \<Longrightarrow> log_ok now (slide_log w now log)"
  by (simp add: slide_log_filter in_window_def log_ok_def sorted_wrt_filter)

lemma log_ok_snoc: "log_ok now log \<Longrightarrow> log_ok now (log @ [now])"
  by (simp add: log_ok_def sorted_append)

lemma pop_front_while_longer_drop: "pop_front_while_longer m xs = drop (length xs - m) xs"
  by (induction xs) (auto simp: Suc_diff_le)

lemma mem_check_rate_windows:
  "ms_windows (snd (mem_check_rate s now k l w)) =
     (let log = slide_log w now (mem_hits s k)
      in if length log < l then AList.update k (log @ [now]) (ms_windows s)
         else if log = [] then AList.delete k (ms_windows s)
         else AList.update k log (ms_windows s))"
  by (simp add: mem_check_rate_def mem_hits_def Let_def)

lemma mem_check_rate_frame [simp]:
  "ms_map (snd (mem_check_rate s now k l w)) = ms_map s"
  "ms_quotas (snd (mem_check_rate s now k l w)) = ms_quotas s"
  "ms_lists (snd (mem_check_rate s now k l w)) = ms_lists s"
  by (simp_all add: mem_check_rate_def Let_def)

lemma mem_check_quota_frame [simp]:
  "ms_map (snd (mem_check_quota s now k m p)) = ms_map s"
  "ms_windows (snd (mem_check_quota s now k m p)) = ms_windows s"
  "ms_lists (snd (mem_check_quota s now k m p)) = ms_lists s"
  by (simp_all add: mem_check_quota_def Let_def split: option.splits)

lemma mem_hits_check_rate:
  "mem_hits (snd (mem_check_rate s now k l w)) k' =
     (if k' = k then
        (let log = slide_log w now (mem_hits s k) in if length log < l then log @ [now] else log)
      else mem_hits s k')"
  by (simp add: mem_hits_def [of "snd _"] mem_check_rate_windows Let_def)
     (simp add: mem_hits_def)

lemma mem_check_rate_total: "\<exists>d s'. mem_check_rate s now k l w = (Ok d, s')"
  by (simp add: mem_check_rate_def Let_def split: if_splits)

lemma mem_get_total: "\<exists>r s'. mem_get s now k = (Ok r, s')"
  by (simp add: mem_get_def split: option.splits)

lemma mem_list_append_queue:
  "vs \<noteq> [] \<Longrightarrow> mem_list_append s now k vs (Some m) = (Ok (), s') \<Longrightarrow>
   mem_queue s' k' = (if k' = k then (let q = mem_queue s k @ vs in drop (length q - m) q)
                      else mem_queue s k')"
  by (auto simp: mem_list_append_def Let_def pop_front_while_longer_drop mem_queue_def)

lemma mem_list_drain_queue:
  assumes "mem_list_drain s now k n = (r, s')"
  shows "r = Ok (take n (mem_queue s k))
    \<and> mem_queue s' k' = (if k' = k then drop n (mem_queue s k) else mem_queue s k')"
proof (cases "map_of (ms_lists s) k")
  case None
  with assms show ?thesis by (auto simp: mem_list_drain_def mem_queue_def)
next
  case (Some l)
  then have l: "mem_queue s k = l" by (simp add: mem_queue_def)
  have "take (min n (length l)) l = take n l" and "drop (min n (length l)) l = drop n l"
    by (simp_all add: min_def)
  with assms Some l show ?thesis
    by (auto simp: mem_list_drain_def Let_def mem_queue_def)
qed

section \<open>The contracts hold\<close>

lemma mem_inv_check_rate: "mem_inv t s \<Longrightarrow> mem_inv t (snd (mem_check_rate s t k l w))"
  using log_ok_slide [of t "mem_hits s k" w]
  by (auto simp: mem_inv_def mem_hits_check_rate Let_def log_ok_snoc)
     (auto simp: mem_check_rate_windows Let_def)

lemma mem_inv_check_quota: "mem_inv t s \<Longrightarrow> mem_inv t (snd (mem_check_quota s t k m p))"
  by (auto simp: mem_inv_def mem_check_quota_def Let_def mem_hits_def split: option.splits)

lemma mem_get_evict_map:
  "map_of (ms_map (mem_get_evict s now key)) k =
     (if k = key \<and> (\<exists>e. map_of (ms_map s) key = Some e \<and> is_expired e now) then None
      else map_of (ms_map s) k)"
  by (auto simp: mem_get_evict_def split: option.splits)

lemma mem_kv_evict: "t \<le> u \<Longrightarrow> mem_kv (mem_get_evict s t k) u = mem_kv s u"
  by (rule ext) (auto simp: mem_kv_def mem_get_evict_map dest: is_expired_later split: option.splits)

lemma mem_kv_set:
  assumes "mem_set s t k v ttl = (Ok (), s')"
  shows "mem_kv s' u k' =
    (if k' = k then (case ttl of None \<Rightarrow> Some v | Some d \<Rightarrow> if u < t + d then Some v else None)
     else mem_kv s u k')"
proof (cases ttl)
  case None
  with assms show ?thesis by (auto simp: mem_set_def mem_kv_def is_expired_def)
next
  case (Some d)
  with assms have "s' = s\<lparr>ms_map := AList.update k \<lparr>e_value = v, e_expires_at = Some (t + d)\<rparr> (ms_map s)\<rparr>"
    by (auto simp: mem_set_def split: option.splits)
  with Some show ?thesis by (simp add: mem_kv_def is_expired_def)
qed

interpretation memkv: kv_store memory_ops mem_inv mem_kv
proof (unfold_locales, goal_cases)
  case (1 t s u)
  then show ?case by (rule mem_inv_later)
next
  case (2 t s k)
  then show ?case
    by (auto simp: mem_get_def mem_get_evict_def mem_inv_def mem_hits_def split: option.splits)
next
  case (3 t s k v ttl)
  then show ?case
    by (auto simp: mem_set_def mem_inv_def mem_hits_def split: option.splits)
next
  case (4 t s k)
  then show ?case
    by (auto simp: mem_delete_def mem_inv_def mem_hits_def split: option.splits)
next
  case (5 t s k r s')
  then show ?case
    by (auto simp: mem_get_def mem_get_read_def mem_kv_def split: option.splits if_splits)
next
  case (6 t s u k)
  then show ?case
    by (simp add: mem_get_def mem_kv_evict split: option.splits)
next
  case (7 t s k v ttl s' u)
  then show ?case
    by (intro ext) (simp add: mem_kv_set)
next
  case (8 t s k b s')
  then show ?case
    by (auto simp: mem_delete_def mem_kv_def split: option.splits)
next
  case (9 t s k b s' u)
  then show ?case
    by (intro ext) (auto simp: mem_delete_def mem_kv_def split: option.splits if_splits)
next
  case (10 t s p ks s')
  then have ks: "ks = map fst (filter (\<lambda>(k, e). prefix p k \<and> \<not> is_expired e t) (ms_map s))"
    and s': "s' = s" and wf: "hm_wf (ms_map s)"
    by (auto simp: mem_scan_prefix_def mem_inv_def)
  from wf have "distinct ks"
    unfolding ks by (rule distinct_map_filter)
  moreover have "k \<in> set ks \<longleftrightarrow> prefix p k \<and> mem_kv s t k \<noteq> None" for k
  proof -
    have "k \<in> set ks \<longleftrightarrow> (\<exists>e. map_of (ms_map s) k = Some e \<and> prefix p k \<and> \<not> is_expired e t)"
      by (force simp: ks map_of_eq_Some_iff [OF wf])
    then show ?thesis by (cases "map_of (ms_map s) k") (auto simp: mem_kv_def)
  qed
  ultimately show ?case using s' by blast
qed

interpretation memrate: rate_store memory_ops mem_inv mem_hits
proof (unfold_locales, goal_cases)
  case (1 t s k l w)
  then show ?case by (simp add: mem_inv_check_rate)
next
  case (2 t s u)
  then show ?case by (rule mem_inv_later)
next
  case (3 t s k l w d s')
  then show ?case
    by (auto simp: mem_check_rate_def Let_def slide_log_filter [OF mem_inv_log, symmetric]
        mem_hits_def [symmetric] split: if_splits)
next
  case (4 t s k l w d s')
  then have "s' = snd (mem_check_rate s t k l w)"
    and "allowed d \<longleftrightarrow> length (slide_log w t (mem_hits s k)) < l"
    by (auto simp: mem_check_rate_def Let_def mem_hits_def split: if_splits)
  with 4(1) show ?case
    by (simp add: mem_hits_check_rate slide_log_filter [OF mem_inv_log])
next
  case (5 t s k' k l w)
  then show ?case
    by (auto simp: mem_hits_def mem_check_rate_windows Let_def)
qed

interpretation memquota: quota_store memory_ops mem_inv mem_used
proof (unfold_locales, goal_cases)
  case (1 t s k m p)
  then show ?case by (simp add: mem_inv_check_quota)
next
  case (2 t s u)
  then show ?case by (rule mem_inv_later)
next
  case (3 t s k m p d s')
  have w: "wrap64 (Suc n) = Suc n" if "n < u64_max" for n
    using that by (simp add: wrap64_def u64_max_def)
  have w1: "wrap64 (Suc 0) = Suc 0" by (simp add: wrap64_def)
  from 3(2,3) show ?case
    by (auto simp: mem_check_quota_def mem_used_def Let_def w w1
        split: option.splits if_splits)
qed

lemma mem_rate_run_spec:
  assumes "sorted ts"
  shows "\<exists>bs. rate_run memory_ops mem_new k l w ts = Some bs
    \<and> bs = sliding_spec l w [] ts
    \<and> (\<forall>t. window_load w t (admitted ts bs) \<le> l)"
proof -
  have total: "\<exists>bs. rate_run memory_ops s k l w ts = Some bs" for s ts
  proof (induction ts arbitrary: s)
    case (Cons t ts)
    with mem_check_rate_total [of s t k l w] show ?case by fastforce
  qed simp
  then obtain bs where bs: "rate_run memory_ops mem_new k l w ts = Some bs" by blast
  have "bs = sliding_spec l w [] ts"
    using assms bs
    by (intro memrate.rate_run_refines [where start = 0 and s = mem_new and k = k])
       (auto simp: mem_hits_def)
  moreover have "window_load w t (admitted ts (sliding_spec l w [] ts)) \<le> l" for t
    using sliding_spec_bound [OF assms, of "[]" w l t] by (simp add: window_load_def)
  ultimately show ?thesis using bs by blast
qed

lemma mem_rate_step:
  assumes "mem_inv t s"
  shows "\<exists>d s'. mem_check_rate s t k l w = (Ok d, s') \<and> mem_inv t s'
    \<and> allowed d = (length (in_window w t (mem_hits s k)) < l)
    \<and> remaining d = l - length (in_window w t (mem_hits s k)) - 1
    \<and> reset_after d \<le> w
    \<and> mem_hits s' k = in_window w t (mem_hits s k) @ (if allowed d then [t] else [])
    \<and> (\<forall>k'. k' \<noteq> k \<longrightarrow> mem_hits s' k' = mem_hits s k')
    \<and> mem_kv s' = mem_kv s \<and> mem_used s' = mem_used s \<and> mem_queue s' = mem_queue s"
proof -
  obtain d s' where step: "mem_check_rate s t k l w = (Ok d, s')"
    using mem_check_rate_total by blast
  then have s': "s' = snd (mem_check_rate s t k l w)" by simp
  have "mem_inv t s'"
    using mem_inv_check_rate [OF assms] s' by simp
  moreover have "remaining d = l - length (in_window w t (mem_hits s k)) - 1 \<and> reset_after d \<le> w"
    using step slide_log_filter [OF mem_inv_log [OF assms, of k], of w]
    by (auto simp: mem_check_rate_def Let_def mem_hits_def [symmetric] log_reset_after_def
        split: if_splits list.splits)
  moreover have "mem_hits s' k' = mem_hits s k'" if "k' \<noteq> k" for k'
    using that by (simp add: s' mem_hits_check_rate)
  moreover have "mem_kv s' = mem_kv s \<and> mem_used s' = mem_used s \<and> mem_queue s' = mem_queue s"
    by (simp add: s' fun_eq_iff mem_kv_def mem_used_def mem_queue_def)
  ultimately show ?thesis
    using step memrate.rate_allowed [of t s k l w d s'] memrate.rate_hits [of t s k l w d s'] assms
    by simp
qed

section \<open>Properties\<close>

text \<open>
  C3. Sliding-window enforcement: on a memory store, for any sequence of \<open>check_rate\<close>
  calls of one key at non-decreasing instants with a fixed allowance, every call returns a
  decision, the decisions are exactly those of the full-history sliding-window
  specification, and no window of length \<open>w\<close>, wherever it ends, holds more than \<open>l\<close>
  admitted requests.
\<close>

theorem check_rate_sliding_window:
  assumes "sorted ts"
  shows "\<exists>bs. rate_run memory_ops mem_new k l w ts = Some bs
    \<and> bs = sliding_spec l w [] ts
    \<and> (\<forall>t. window_load w t (admitted ts bs) \<le> l)"
  using assms by (rule mem_rate_run_spec)

theorem check_rate_sliding_window_witness:
  "sorted [0, 1, 2, 10 :: nat]
   \<and> rate_run memory_ops mem_new ''k'' 2 10 [0, 1, 2, 10] = Some [True, True, False, True]"
  using check_rate_sliding_window [of "[0, 1, 2, 10]" "''k''" 2 10]
  by (simp add: in_window_def)

text \<open>
  One \<open>check_rate\<close> call on a store whose clock has reached \<open>t\<close>: it is allowed iff
  fewer than \<open>l\<close> logged requests are still inside the window; an allowed call reports
  one slot fewer and logs itself, a denied call reports 0 and records nothing; other keys'
  logs, stored values, quota counters and lists are untouched, and the reported reset
  never exceeds the window.
\<close>

theorem check_rate_step:
  assumes "mem_inv t s"
  shows "\<exists>d s'. mem_check_rate s t k l w = (Ok d, s') \<and> mem_inv t s'
    \<and> allowed d = (length (in_window w t (mem_hits s k)) < l)
    \<and> remaining d = l - length (in_window w t (mem_hits s k)) - 1
    \<and> reset_after d \<le> w
    \<and> mem_hits s' k = in_window w t (mem_hits s k) @ (if allowed d then [t] else [])
    \<and> (\<forall>k'. k' \<noteq> k \<longrightarrow> mem_hits s' k' = mem_hits s k')
    \<and> mem_kv s' = mem_kv s \<and> mem_used s' = mem_used s \<and> mem_queue s' = mem_queue s"
  using assms by (rule mem_rate_step)

theorem check_rate_step_witness:
  "mem_inv 7 mem_new
   \<and> (\<exists>d s'. mem_check_rate mem_new 7 ''k'' 1 5 = (Ok d, s') \<and> allowed d \<and> mem_hits s' ''k'' = [7])"
  using check_rate_step [of 7 mem_new "''k''" 1 5]
  by (auto simp: in_window_def mem_hits_def [of mem_new])

text \<open>
  C22. Quota enforcement: as long as \<open>now + period\<close> stays inside the instant range and
  fewer than \<open>2^64\<close> requests arrive, a run of \<open>check_quota\<close> calls of one key on a
  memory store decides exactly as the fixed-period specification does, and when all calls
  fall into one period exactly the first \<open>m\<close> of them are granted.
\<close>

theorem check_quota_fixed_period:
  assumes "sorted ts" and "\<forall>t \<in> set ts. t + p < instant_limit" and "length ts \<le> u64_max"
  shows "\<exists>bs. quota_run memory_ops mem_new k m p ts = Some bs
    \<and> bs = quota_spec m p None ts
    \<and> (ts \<noteq> [] \<longrightarrow> 0 < p \<longrightarrow> (\<forall>t \<in> set ts. t < hd ts + p) \<longrightarrow> granted bs = min (length ts) m)"
proof -
  have total: "\<exists>bs. quota_run memory_ops s k m p ts = Some bs"
    if "\<forall>t \<in> set ts. t + p < instant_limit" for s ts
    using that
  proof (induction ts arbitrary: s)
    case (Cons t ts)
    then have "\<exists>d s'. mem_check_quota s t k m p = (Ok d, s')"
      by (simp add: mem_check_quota_def Let_def instant_add_def)
    with Cons show ?case by fastforce
  qed simp
  then obtain bs where bs: "quota_run memory_ops mem_new k m p ts = Some bs"
    using assms(2) by blast
  have spec: "bs = quota_spec m p None ts"
    using memquota.quota_run_refines [where start = 0 and s = mem_new and k = k, OF assms(1) _ _ _ bs]
      assms(3)
    by (simp add: mem_used_def)
  have "granted bs = min (length ts) m"
    if "ts \<noteq> []" and "0 < p" and "\<forall>t \<in> set ts. t < hd ts + p"
  proof -
    from that(1) obtain t us where ts: "ts = t # us" by (cases ts) auto
    with that(3) have "quota_spec m p (Some (1, t + p)) us
        = map (\<lambda>i. 1 + Suc i \<le> m) [0 ..< length us]"
      by (intro quota_spec_open_period) auto
    then show ?thesis
      using granted_prefix [of 1 m "length us"] by (auto simp: spec ts granted_def)
  qed
  with bs spec show ?thesis by blast
qed

theorem check_quota_fixed_period_witness:
  "quota_run memory_ops mem_new ''k'' 2 10 [0, 1, 2, 9, 10] = Some [True, True, False, False, True]"
  using check_quota_fixed_period [of "[0, 1, 2, 9, 10]" 10 "''k''" 2]
  by (simp add: instant_limit_def ns_per_sec_def u64_max_def)

text \<open>
  Round trip of values: after a successful \<open>set\<close>, a \<open>get\<close> before the expiry
  returns the stored value and leaves every other key's live value as it was; a \<open>get\<close> at or
  after the expiry returns nothing.
\<close>

theorem set_get_roundtrip:
  assumes "mem_inv t s" and "mem_set s t k v ttl = (Ok (), s')" and "t \<le> u"
  shows "fst (mem_get s' u k') =
    Ok (if k' = k then (case ttl of None \<Rightarrow> Some v | Some d \<Rightarrow> if u < t + d then Some v else None)
        else mem_kv s u k')"
proof -
  obtain r s'' where g: "mem_get s' u k' = (Ok r, s'')"
    using mem_get_total by blast
  have "mem_inv u s'"
    using assms memkv.set_inv [of t s k v ttl] mem_inv_later [of t s' u] by simp
  then have "r = mem_kv s' u k'"
    using memkv.get_val [of u s' k' r s''] g by simp
  with g mem_kv_set [OF assms(2)] show ?thesis by simp
qed

theorem set_get_roundtrip_witness:
  "fst (mem_get (snd (mem_set mem_new 5 ''a'' ''v'' (Some 10))) 14 ''a'') = Ok (Some ''v'')
   \<and> fst (mem_get (snd (mem_set mem_new 5 ''a'' ''v'' (Some 10))) 15 ''a'') = Ok None"
proof -
  have s: "mem_set mem_new 5 ''a'' ''v'' (Some 10) =
      (Ok (), snd (mem_set mem_new 5 ''a'' ''v'' (Some 10)))"
    by (simp add: mem_set_def instant_add_def instant_limit_def ns_per_sec_def)
  show ?thesis
    using set_get_roundtrip [OF mem_inv_new s, of 14 "''a''"]
      set_get_roundtrip [OF mem_inv_new s, of 15 "''a''"] by simp
qed

text \<open>
  Queue semantics of the lists: an append followed by a drain hands back, oldest first,
  at most \<open>n\<close> of the newest \<open>m\<close> elements, and what is left is the rest of them; other
  lists are untouched.
\<close>

theorem list_append_drain_fifo:
  assumes "vs \<noteq> []"
  shows "\<exists>s1 s2. mem_list_append s t k vs (Some m) = (Ok (), s1)
    \<and> mem_queue s1 k = (let q = mem_queue s k @ vs in drop (length q - m) q)
    \<and> mem_list_drain s1 u k n = (Ok (take n (mem_queue s1 k)), s2)
    \<and> mem_queue s2 k = drop n (mem_queue s1 k)
    \<and> length (mem_queue s1 k) \<le> m
    \<and> (\<forall>k'. k' \<noteq> k \<longrightarrow> mem_queue s2 k' = mem_queue s k')"
proof -
  obtain s1 where a: "mem_list_append s t k vs (Some m) = (Ok (), s1)"
    using assms by (simp add: mem_list_append_def Let_def)
  obtain r s2 where d: "mem_list_drain s1 u k n = (r, s2)" by fastforce
  note q1 = mem_list_append_queue [OF assms a] and q2 = mem_list_drain_queue [OF d]
  have "length (mem_queue s1 k) \<le> m" using q1 [of k] by (simp add: Let_def)
  with a d q1 q2 show ?thesis by (intro exI [of _ s1] exI [of _ s2]) simp
qed

theorem list_append_drain_fifo_witness:
  "fst (mem_list_drain (snd (mem_list_append mem_new 0 ''q'' [''a'', ''b'', ''c''] (Some 2))) 1 ''q'' 5)
   = Ok [''b'', ''c'']"
  using list_append_drain_fifo [of "[''a'', ''b'', ''c'']" mem_new 0 "''q''" 2 1 5]
  by (auto simp: mem_queue_def [of mem_new])

text \<open>
  Lazy eviction is safe under interleaving: \<open>get\<close> reads under the read lock at
  \<open>t\<close> and evicts later under the write lock. Whatever store \<open>s'\<close> the write lock finds,
  the eviction removes no value that is live at \<open>t\<close> or later, so a value stored by another
  task between the two locks survives.
\<close>

theorem evict_keeps_live_values:
  assumes "mem_inv t' s'" and "t \<le> u"
  shows "mem_kv (mem_get_evict s' t k) u = mem_kv s' u \<and> mem_inv t' (mem_get_evict s' t k)"
proof
  show "mem_kv (mem_get_evict s' t k) u = mem_kv s' u"
    using assms(2) by (rule mem_kv_evict)
  show "mem_inv t' (mem_get_evict s' t k)"
    using assms(1) by (auto simp: mem_get_evict_def mem_inv_def mem_hits_def split: option.splits)
qed

theorem evict_keeps_live_values_witness:
  "mem_kv (mem_get_evict (snd (mem_set mem_new 6 ''a'' ''new'' None)) 5 ''a'') 7 ''a'' = Some ''new''"
  using evict_keeps_live_values [of 6 "snd (mem_set mem_new 6 ''a'' ''new'' None)" 5 7 "''a''"]
    memkv.set_inv [of 6 mem_new "''a''" "''new''" None]
  by (simp add: mem_set_def mem_kv_def is_expired_def)

end
