(* ===== verification/Spike_Guard.thy ===== *)
theory Spike_Guard
  imports Prelude
begin

text \<open>
  The pod-local spike guard of \<open>g2-middleware/src/spike.rs\<close>: a fixed array of token
  buckets, each a 64-bit word packing the second of the last refill and the tokens left.
  The hasher that assigns identities to buckets is seeded randomly by the standard library
  and is a parameter.
\<close>

section \<open>Packed buckets\<close>

definition sg_pack :: "u32 \<Rightarrow> u32 \<Rightarrow> u64" where
  "sg_pack last_refill_secs tokens = push_bit 32 (ucast last_refill_secs) OR ucast tokens"

definition sg_unpack :: "u64 \<Rightarrow> u32 \<times> u32" where
  "sg_unpack packed = (ucast (drop_bit 32 packed), ucast packed)"

section \<open>State and operations\<close>

definition SHARDS :: nat where "SHARDS = 4096"

record spike_guard_config =
  sgc_capacity :: u32
  sgc_refill_per_sec :: u32

record spike_guard =
  sg_epoch :: instant
  sg_capacity :: u32
  sg_refill_per_sec :: u32
  sg_buckets :: "u64 list"

definition spike_new :: "spike_guard_config \<Rightarrow> instant \<Rightarrow> spike_guard" where
  "spike_new cfg now =
     \<lparr>sg_epoch = now, sg_capacity = sgc_capacity cfg, sg_refill_per_sec = sgc_refill_per_sec cfg,
      sg_buckets = replicate SHARDS (sg_pack 0 (sgc_capacity cfg))\<rparr>"

definition shard :: "(string \<Rightarrow> u64) \<Rightarrow> spike_guard \<Rightarrow> string \<Rightarrow> nat" where
  "shard hash_one g identity = unat (hash_one identity) mod length (sg_buckets g)"

text \<open>
  One turn of the loop: the refill credited at whole seconds, then \<open>None\<close> for an empty
  bucket or the word to exchange in. \<open>u64\<close> arithmetic is kept at its width.
\<close>

definition refilled :: "u32 \<Rightarrow> u32 \<Rightarrow> u32 \<Rightarrow> u64" where
  "refilled refill_per_sec tokens elapsed = ucast tokens + ucast elapsed * ucast refill_per_sec"

definition bucket_next :: "u32 \<Rightarrow> u32 \<Rightarrow> u64 \<Rightarrow> u32 \<Rightarrow> u64 option" where
  "bucket_next capacity refill_per_sec current now_secs =
     (let (last_refill, tokens) = sg_unpack current;
          elapsed = (if now_secs < last_refill then 0 else now_secs - last_refill);
          (new_last, available) =
            (if 0 < elapsed then
               (now_secs,
                min (word_of_nat (sat_u32 (unat (refilled refill_per_sec tokens elapsed)))) capacity)
             else (last_refill, tokens))
      in if available = 0 then None else Some (sg_pack new_last (available - 1)))"

definition spike_try_acquire_at :: "(string \<Rightarrow> u64) \<Rightarrow> spike_guard \<Rightarrow> string \<Rightarrow> u32 \<Rightarrow>
    bool \<times> spike_guard" where
  "spike_try_acquire_at hash_one g identity now_secs =
     (let i = shard hash_one g identity
      in case bucket_next (sg_capacity g) (sg_refill_per_sec g) (sg_buckets g ! i) now_secs of
           None \<Rightarrow> (False, g)
         | Some nxt \<Rightarrow> (True, g\<lparr>sg_buckets := (sg_buckets g)[i := nxt]\<rparr>))"

definition spike_try_acquire :: "(string \<Rightarrow> u64) \<Rightarrow> spike_guard \<Rightarrow> instant \<Rightarrow> string \<Rightarrow>
    bool \<times> spike_guard" where
  "spike_try_acquire hash_one g now identity =
     spike_try_acquire_at hash_one g identity
       (word_of_nat (sat_u32 ((now - sg_epoch g) div ns_per_sec)))"

section \<open>The loop as interleaved atomic steps\<close>

datatype sg_pc = SgIdle | SgLoad u32 | SgTry u32 u64 | SgDone bool

text \<open>
  One bucket, a point per thread, and a count of the requests admitted so far. A weak
  compare-exchange may fail even when the word matches.
\<close>

inductive sg_step :: "u32 \<Rightarrow> u32 \<Rightarrow> nat \<Rightarrow>
    u64 \<times> (nat \<Rightarrow> sg_pc) \<times> nat \<Rightarrow> u64 \<times> (nat \<Rightarrow> sg_pc) \<times> nat \<Rightarrow> bool"
  for capacity refill_per_sec horizon where
  call: "unat now \<le> horizon \<Longrightarrow>
     sg_step capacity refill_per_sec horizon (w, pcs, k) (w, pcs(i := SgLoad now), k)"
| load: "pcs i = SgLoad now \<Longrightarrow>
     sg_step capacity refill_per_sec horizon (w, pcs, k) (w, pcs(i := SgTry now w), k)"
| reject: "pcs i = SgTry now c \<Longrightarrow> bucket_next capacity refill_per_sec c now = None \<Longrightarrow>
     sg_step capacity refill_per_sec horizon (w, pcs, k) (w, pcs(i := SgDone False), k)"
| cas: "pcs i = SgTry now w \<Longrightarrow> bucket_next capacity refill_per_sec w now = Some w' \<Longrightarrow>
     sg_step capacity refill_per_sec horizon (w, pcs, k) (w', pcs(i := SgDone True), Suc k)"
| retry: "pcs i = SgTry now c \<Longrightarrow> bucket_next capacity refill_per_sec c now = Some w' \<Longrightarrow>
     sg_step capacity refill_per_sec horizon (w, pcs, k) (w, pcs(i := SgTry now w), k)"

inductive sg_reachable :: "u32 \<Rightarrow> u32 \<Rightarrow> nat \<Rightarrow> u64 \<times> (nat \<Rightarrow> sg_pc) \<times> nat \<Rightarrow> bool"
  for capacity refill_per_sec horizon where
  start: "sg_reachable capacity refill_per_sec horizon (sg_pack 0 capacity, \<lambda>_. SgIdle, 0)"
| step: "sg_reachable capacity refill_per_sec horizon s \<Longrightarrow>
     sg_step capacity refill_per_sec horizon s s' \<Longrightarrow>
     sg_reachable capacity refill_per_sec horizon s'"

section \<open>Lemmas\<close>

lemma sg_unpack_pack [simp]: "sg_unpack (sg_pack l t) = (l, t)"
proof -
  have low: "ucast (push_bit 32 (ucast l :: u64) OR ucast t :: u64) = t"
    by (rule bit_word_eqI) (auto simp: bit_simps)
  have high: "ucast (drop_bit 32 (push_bit 32 (ucast l :: u64) OR ucast t :: u64)) = l"
    by (rule bit_word_eqI) (auto simp: bit_simps dest: bit_imp_le_length)
  from low high show ?thesis
    by (simp add: sg_unpack_def sg_pack_def)
qed

lemma unat_u32_less: "unat (w :: u32) < 4294967296"
  using unsigned_less [of w] by simp

lemma unat_up: "unat (ucast (w :: u32) :: u64) = unat w"
proof -
  have "unat w < 2 ^ 64" using unat_u32_less [of w] by simp
  then show ?thesis by (simp add: unsigned_ucast_eq take_bit_nat_eq_self)
qed

lemma unat_refilled: "unat (refilled r t e) = unat t + unat e * unat r"
proof -
  have "unat e * unat r \<le> 4294967295 * 4294967295"
    using unat_u32_less [of e] unat_u32_less [of r] by (intro mult_mono) auto
  then have "unat t + unat e * unat r < 2 ^ 64"
    using unat_u32_less [of t] by simp
  then show ?thesis
    by (simp add: refilled_def unat_word_ariths unat_up)
qed

text \<open>What a bucket still owes: its tokens and the refill up to the horizon.\<close>

definition tokens_of :: "u64 \<Rightarrow> nat" where
  "tokens_of w = unat (snd (sg_unpack w))"

definition last_of :: "u64 \<Rightarrow> nat" where
  "last_of w = unat (fst (sg_unpack w))"

definition credit :: "u32 \<Rightarrow> nat \<Rightarrow> u64 \<Rightarrow> nat" where
  "credit refill_per_sec horizon w = tokens_of w + unat refill_per_sec * (horizon - last_of w)"

lemma tokens_of_pack [simp]: "tokens_of (sg_pack l t) = unat t" "last_of (sg_pack l t) = unat l"
  by (simp_all add: tokens_of_def last_of_def)

text \<open>One turn, read on natural numbers.\<close>

lemma bucket_next_nat:
  "bucket_next cap r w now =
     (let el = unat now - last_of w;
          av = (if 0 < el then min (tokens_of w + el * unat r) (unat cap) else tokens_of w)
      in if av = 0 then None
         else Some (sg_pack (if 0 < el then now else fst (sg_unpack w)) (word_of_nat (av - 1))))"
proof -
  obtain l t where w: "sg_unpack w = (l, t)" by fastforce
  let ?e = "if now < l then 0 else now - l"
  have e: "unat ?e = unat now - unat l"
    by (auto simp: word_less_nat_alt unat_sub word_le_nat_alt)
  have pos: "0 < ?e \<longleftrightarrow> 0 < unat now - unat l"
    using e by (auto simp: word_less_nat_alt)
  have mn: "unat (min (word_of_nat (sat_u32 n)) cap) = min n (unat cap)" for n
    using unat_u32_less [of cap]
    by (auto simp: sat_u32_def u32_max_def min_def word_le_nat_alt unat_of_nat take_bit_nat_eq_self
        unsigned_of_nat)
  have dec: "a - 1 = word_of_nat (unat a - 1)" if "a \<noteq> 0" for a :: u32
    using that by (simp add: of_nat_diff Suc_le_eq unat_gt_0)
  have gen: "(if a = 0 then None else Some (sg_pack L (a - 1))) =
      (if unat a = 0 then None else Some (sg_pack L (word_of_nat (unat a - 1))))" for a L :: u32
  proof (cases "a = 0")
    case True
    then show ?thesis by simp
  next
    case False
    then have "unat a \<noteq> 0" by (simp add: unat_eq_zero)
    with False show ?thesis by (simp only: dec [OF False] if_False)
  qed
  let ?a = "if 0 < ?e then min (word_of_nat (sat_u32 (unat (refilled r t ?e)))) cap else t"
  have a: "unat ?a = (if 0 < unat now - unat l then min (unat t + (unat now - unat l) * unat r) (unat cap)
      else unat t)"
    using pos mn [of "unat t + unat ?e * unat r"] by (simp add: unat_refilled e del: unat_sub_if')
  have "bucket_next cap r w now =
      (if ?a = 0 then None else Some (sg_pack (if 0 < ?e then now else l) (?a - 1)))"
    by (simp add: bucket_next_def w Let_def)
  also have "\<dots> = (if unat ?a = 0 then None
      else Some (sg_pack (if 0 < unat now - unat l then now else l) (word_of_nat (unat ?a - 1))))"
    unfolding pos [symmetric] by (rule gen)
  finally show ?thesis
    unfolding a by (simp only: Let_def tokens_of_def last_of_def w fst_conv snd_conv)
qed

lemma bucket_next_Some:
  assumes "bucket_next cap r w now = Some w'" and "tokens_of w \<le> unat cap" and "unat now \<le> T"
  shows "tokens_of w' < unat cap \<and> Suc (credit r T w') \<le> credit r T w"
proof -
  let ?el = "unat now - last_of w"
  let ?av = "if 0 < ?el then min (tokens_of w + ?el * unat r) (unat cap) else tokens_of w"
  from assms(1) have pos: "0 < ?av"
    and w': "w' = sg_pack (if 0 < ?el then now else fst (sg_unpack w)) (word_of_nat (?av - 1))"
    by (simp_all add: bucket_next_nat Let_def del: of_nat_diff split: if_splits)
  have bound: "?av \<le> unat cap" using assms(2) by auto
  then have "?av - 1 < 2 ^ 32"
    using unat_u32_less [of cap] by simp
  then have t': "tokens_of w' = ?av - 1"
    using w' by (simp add: unat_of_nat take_bit_nat_eq_self unsigned_of_nat)
  have l': "last_of w' = (if 0 < ?el then unat now else last_of w)"
    using w' by (simp add: last_of_def)
  have "Suc (credit r T w') \<le> credit r T w"
  proof (cases "0 < ?el")
    case False
    with t' l' pos show ?thesis by (simp add: credit_def)
  next
    case True
    then have split: "T - last_of w = (T - unat now) + ?el" using assms(3) by simp
    have "?av \<le> tokens_of w + ?el * unat r" using True by simp
    moreover have "unat r * (T - last_of w) = unat r * (T - unat now) + ?el * unat r"
      unfolding split by (simp add: algebra_simps)
    moreover have "last_of w' = unat now" using l' True by simp
    ultimately show ?thesis
      using t' pos by (simp add: credit_def)
  qed
  moreover have "tokens_of w' < unat cap"
    using t' bound pos by linarith
  ultimately show ?thesis by simp
qed

lemma sg_reachable_credit:
  assumes "sg_reachable cap r T (w, pcs, k)"
  shows "tokens_of w \<le> unat cap \<and> k + credit r T w \<le> unat cap + unat r * T
    \<and> (\<forall>i now c. pcs i = SgLoad now \<or> pcs i = SgTry now c \<longrightarrow> unat now \<le> T)"
  using assms
proof (induction "(w, pcs, k)" arbitrary: w pcs k rule: sg_reachable.induct)
  case start
  show ?case by (simp add: credit_def)
next
  case (step s w' pcs' k')
  obtain w pcs k where s: "s = (w, pcs, k)" by (cases s)
  note IH = step.hyps(2) [OF s]
  from step.hyps(3) [unfolded s] show ?case
  proof cases
    case (cas i now)
    with IH have "unat now \<le> T" by blast
    with IH cas bucket_next_Some [of cap r w now w' T] show ?thesis
      by (auto simp: fun_upd_apply split: if_splits)
  next
    case (call now i)
    with IH show ?thesis by (auto split: if_splits)
  next
    case (load i now)
    with IH show ?thesis by (auto split: if_splits)
  next
    case (reject i now c)
    with IH show ?thesis by (auto split: if_splits)
  next
    case (retry i now c)
    with IH show ?thesis by (auto split: if_splits)
  qed
qed

section \<open>Properties\<close>

text \<open>
  C21. The token bucket bounds admissions under any interleaving: whatever threads run
  \<open>try_acquire\<close> on one bucket and however their loads and (weak) compare-exchanges
  interleave, while no clock reading exceeds \<open>T\<close> seconds since the guard was built, at
  most \<open>capacity + refill_per_sec * T\<close> requests have been admitted and the bucket never
  holds more than \<open>capacity\<close> tokens.
\<close>

theorem spike_admission_bound:
  assumes "sg_reachable capacity refill T (w, pcs, k)"
  shows "k \<le> unat capacity + unat refill * T \<and> tokens_of w \<le> unat capacity"
  using sg_reachable_credit [OF assms] by simp

theorem spike_admission_bound_witness:
  "\<exists>w pcs. sg_reachable 1 1 0 (w, pcs, 1) \<and> 1 \<le> unat (1 :: u32) + unat (1 :: u32) * 0
   \<and> tokens_of w \<le> unat (1 :: u32)"
proof -
  let ?w = "sg_pack 0 1" and ?p = "\<lambda>_ :: nat. SgIdle"
  have n: "bucket_next 1 1 ?w 0 = Some (sg_pack 0 0)"
    by (simp add: bucket_next_def Let_def)
  have "sg_reachable 1 1 0 (?w, ?p, 0)" by (rule sg_reachable.start)
  then have "sg_reachable 1 1 0 (?w, ?p(0 := SgLoad 0), 0)"
    by (rule sg_reachable.step) (rule sg_step.call, simp)
  then have "sg_reachable 1 1 0 (?w, (?p(0 := SgLoad 0))(0 := SgTry 0 ?w), 0)"
    by (rule sg_reachable.step) (rule sg_step.load, simp)
  then have "sg_reachable 1 1 0
      (sg_pack 0 0, ((?p(0 := SgLoad 0))(0 := SgTry 0 ?w))(0 := SgDone True), Suc 0)"
    by (rule sg_reachable.step) (rule sg_step.cas [OF _ n], simp)
  then have r: "sg_reachable 1 1 0
      (sg_pack 0 0, ((?p(0 := SgLoad 0))(0 := SgTry 0 ?w))(0 := SgDone True), 1)"
    by simp
  from spike_admission_bound [OF r] r show ?thesis by blast
qed

text \<open>
  The guard never starves an identity: with a positive capacity and refill rate, a
  request at least one second after the bucket's last credit is admitted whatever the
  bucket holds, a request with a token available is admitted at once and takes exactly one
  token, and a rejection leaves the bucket unchanged. The intermediate \<open>u64\<close> sum of the
  refill never overflows.
\<close>

theorem spike_admits_when_credited:
  assumes "0 < capacity" and "0 < refill"
  shows "(last_of w < unat now \<longrightarrow> (\<exists>w'. bucket_next capacity refill w now = Some w'
            \<and> last_of w' = unat now
            \<and> Suc (tokens_of w') = min (tokens_of w + (unat now - last_of w) * unat refill) (unat capacity)))
    \<and> (unat now \<le> last_of w \<and> 0 < tokens_of w \<longrightarrow> (\<exists>w'. bucket_next capacity refill w now = Some w'
            \<and> last_of w' = last_of w \<and> Suc (tokens_of w') = tokens_of w))
    \<and> (bucket_next capacity refill w now = None \<longleftrightarrow> unat now \<le> last_of w \<and> tokens_of w = 0)
    \<and> unat (refilled refill t e) = unat t + unat e * unat refill"
proof -
  have c: "0 < unat capacity" and r: "0 < unat refill"
    using assms by (simp_all add: word_less_nat_alt)
  have fit: "unat (word_of_nat (min n (unat capacity) - 1) :: u32) = min n (unat capacity) - 1" for n
    using unat_u32_less [of capacity]
    by (simp add: unat_of_nat take_bit_nat_eq_self unsigned_of_nat)
  have fit': "unat (word_of_nat (tokens_of w - 1) :: u32) = tokens_of w - 1"
    using unat_u32_less [of "snd (sg_unpack w)"]
    by (simp add: tokens_of_def unat_of_nat take_bit_nat_eq_self unsigned_of_nat)
  let ?n = "tokens_of w + (unat now - last_of w) * unat refill"
  have some: "0 < min ?n (unat capacity)" if "last_of w < unat now"
    using that c r by simp
  show ?thesis
  proof (intro conjI impI)
    assume "last_of w < unat now"
    with some fit [of ?n] show "\<exists>w'. bucket_next capacity refill w now = Some w'
        \<and> last_of w' = unat now \<and> Suc (tokens_of w') = min ?n (unat capacity)"
      by (simp add: bucket_next_nat Let_def del: of_nat_diff)
  next
    assume "unat now \<le> last_of w \<and> 0 < tokens_of w"
    with fit' show "\<exists>w'. bucket_next capacity refill w now = Some w'
        \<and> last_of w' = last_of w \<and> Suc (tokens_of w') = tokens_of w"
      by (simp add: bucket_next_nat Let_def last_of_def del: of_nat_diff)
  next
    show "bucket_next capacity refill w now = None \<longleftrightarrow> unat now \<le> last_of w \<and> tokens_of w = 0"
      using some by (auto simp: bucket_next_nat Let_def)
  next
    show "unat (refilled refill t e) = unat t + unat e * unat refill"
      by (rule unat_refilled)
  qed
qed

theorem spike_admits_when_credited_witness:
  "\<exists>w'. bucket_next 5 2 (sg_pack 0 0) 1 = Some w' \<and> tokens_of w' = 1"
  using spike_admits_when_credited [of 5 2 "sg_pack 0 0" 1]
  by auto

text \<open>
  Requests of one identity only ever touch that identity's bucket: an acquire changes
  no other bucket, keeps the number of buckets, and its answer depends on no other bucket.
\<close>

theorem spike_buckets_independent:
  assumes "sg_buckets g \<noteq> []" and "spike_try_acquire_at hash_one g identity now = (ok, g')"
  shows "length (sg_buckets g') = length (sg_buckets g)
    \<and> shard hash_one g identity < length (sg_buckets g)
    \<and> (\<forall>j. j \<noteq> shard hash_one g identity \<longrightarrow> sg_buckets g' ! j = sg_buckets g ! j)
    \<and> ok = (bucket_next (sg_capacity g) (sg_refill_per_sec g)
              (sg_buckets g ! shard hash_one g identity) now \<noteq> None)
    \<and> sg_capacity g' = sg_capacity g \<and> sg_refill_per_sec g' = sg_refill_per_sec g"
  using assms
  by (auto simp: spike_try_acquire_at_def Let_def shard_def split: option.splits)

theorem spike_buckets_independent_witness:
  "\<exists>ok g'. spike_try_acquire_at (\<lambda>_. 7) (spike_new \<lparr>sgc_capacity = 1, sgc_refill_per_sec = 1\<rparr> 0) ''k'' 0
     = (ok, g') \<and> length (sg_buckets g') = 4096"
proof -
  let ?g = "spike_new \<lparr>sgc_capacity = 1, sgc_refill_per_sec = 1\<rparr> 0"
  obtain ok g' where e: "spike_try_acquire_at (\<lambda>_. 7) ?g ''k'' 0 = (ok, g')" by fastforce
  have "sg_buckets ?g \<noteq> []" by (simp add: spike_new_def SHARDS_def)
  from spike_buckets_independent [OF this e] e show ?thesis
    by (simp add: spike_new_def SHARDS_def)
qed

end
