(* ===== verification/Rate_Limit.thy ===== *)
theory Rate_Limit
  imports Endpoints Memory_Storage Spike_Guard
begin

text \<open>
  Rate and quota enforcement: \<open>g2-middleware/src/rate_limit.rs\<close>. \<open>enforce\<close> runs the checks
  in the order of the code over any store (a \<open>storage_ops\<close> record) and the process-wide
  spike guard; the properties instantiate the in-memory store and draw on its contracts.
  A request reads several clocks; \<open>rl_clock\<close> holds the reading of each.
\<close>

section \<open>Compiled endpoint limits\<close>

record 'r compiled_endpoint_limit =
  el_regex :: 'r
  el_methods :: "string list"
  el_requests :: nat
  el_window :: duration
  el_storage_key :: string

definition endpoint_limit_matches :: "'r regex_ext \<Rightarrow> 'r compiled_endpoint_limit \<Rightarrow> string \<Rightarrow> string \<Rightarrow> bool"
where
  "endpoint_limit_matches R l method path = rule_matches R (el_regex l) (el_methods l) method path"

definition compile_endpoint_limit :: "'h http_ext \<Rightarrow> 'r regex_ext \<Rightarrow> string \<Rightarrow> string \<Rightarrow> string \<Rightarrow>
    nat \<times> endpoint_rate_limit \<Rightarrow> (error, 'r compiled_endpoint_limit) res" where
  "compile_endpoint_limit X R api_id org_id scope ir =
     (let (index, rule) = ir in
      bind_res (compile_regex R ''endpoint rate-limit'' api_id (er_pattern rule)) (\<lambda>regex.
      bind_res (compile_methods X ''endpoint rate-limit'' api_id (er_methods rule)) (\<lambda>methods.
        Ok \<lparr>el_regex = regex, el_methods = methods, el_requests = rl_requests (er_rate rule),
            el_window = from_secs (rl_per_seconds (er_rate rule)),
            el_storage_key = endpoint_rate_limit_storage_key org_id scope index\<rparr>)))"

definition endpoint_limits_from_config :: "'h http_ext \<Rightarrow> 'r regex_ext \<Rightarrow> endpoint_rate_limit list \<Rightarrow>
    string \<Rightarrow> string \<Rightarrow> string \<Rightarrow> (error, 'r compiled_endpoint_limit list option) res" where
  "endpoint_limits_from_config X R rules api_id org_id scope =
     (if rules = [] then Ok None
      else bind_res (traverse (compile_endpoint_limit X R api_id org_id scope)
                       (List.enumerate 0 rules)) (\<lambda>ls. Ok (Some ls)))"

definition first_match :: "'r regex_ext \<Rightarrow> 'r compiled_endpoint_limit list \<Rightarrow> string \<Rightarrow> string \<Rightarrow>
    'r compiled_endpoint_limit option" where
  "first_match R rules method path = find (\<lambda>r. endpoint_limit_matches R r method path) rules"

section \<open>Denials\<close>

definition reset_secs :: "duration \<Rightarrow> nat" where
  "reset_secs d = max 1 (sat_u64 (div_ceil (as_millis d) 1000))"

text \<open>\<open>None\<close> is the panic of \<open>expect(\"integer header value\")\<close>.\<close>

definition limit_response :: "'h http_ext \<Rightarrow> nat \<Rightarrow> nat \<Rightarrow> string \<Rightarrow> nat \<Rightarrow> limit_decision \<Rightarrow>
    'h response option" where
  "limit_response X unix status message limit d =
     (let rs = reset_secs (reset_after d);
          resp = json_error X status message;
          num = (\<lambda>v. hv_from_str X (show_nat v))
      in case (num limit, num (remaining d), num (sat_u64 (unix + rs)), num rs) of
           (Some l, Some rem, Some at, Some after) \<Rightarrow>
             Some (resp\<lparr>rs_headers := hm_insert X (hm_insert X (hm_insert X (hm_insert X (rs_headers resp)
                ''x-ratelimit-limit'' l) ''x-ratelimit-remaining'' rem) ''x-ratelimit-reset'' at)
                ''retry-after'' after\<rparr>)
         | _ \<Rightarrow> None)"

section \<open>Enforcement\<close>

record rl_clock =
  ck_endpoint :: instant
  ck_guard :: instant
  ck_rate :: instant
  ck_quota :: instant
  ck_unix :: nat

record ('s, 'r) rate_limit_state =
  rs_api_id :: string
  rs_ops :: "'s storage_ops"
  rs_endpoint_limits :: "'r compiled_endpoint_limit list option"

text \<open>
  The verdict on one decision: \<open>Ok\<close> passes (also on a storage error: fail open), \<open>Err\<close> is
  the rejection, a panic stays one.
\<close>

definition verdict :: "'h http_ext \<Rightarrow> nat \<Rightarrow> nat \<Rightarrow> string \<Rightarrow> nat \<Rightarrow> (storage_error, limit_decision) res \<Rightarrow>
    ('h response, unit) res" where
  "verdict X unix status message limit r =
     (case r of
        Ok d \<Rightarrow> (if \<not> allowed d then
                   (case limit_response X unix status message limit d of
                      Some resp \<Rightarrow> Err resp
                    | None \<Rightarrow> Panic)
                 else Ok ())
      | Err e \<Rightarrow> Ok ()
      | Panic \<Rightarrow> Panic)"

definition check_endpoint :: "'h http_ext \<Rightarrow> 'r regex_ext \<Rightarrow> ('s, 'r) rate_limit_state \<Rightarrow> rl_clock \<Rightarrow>
    'h request \<Rightarrow> 's \<Rightarrow> ('h response, unit) res \<times> 's" where
  "check_endpoint X R st ck req s =
     (case Option.bind (rs_endpoint_limits st) (\<lambda>ls. first_match R ls (rq_method req) (rq_path req)) of
        Some rule \<Rightarrow>
          (let (r, s') = st_check_rate (rs_ops st) s (ck_endpoint ck) (el_storage_key rule)
                           (el_requests rule) (el_window rule)
           in (verdict X (ck_unix ck) 429 ''rate limit exceeded'' (el_requests rule) r, s'))
      | None \<Rightarrow> (Ok (), s))"

definition check_guard :: "'h http_ext \<Rightarrow> (string \<Rightarrow> u64) \<Rightarrow> rl_clock \<Rightarrow> session_context \<Rightarrow>
    spike_guard option \<Rightarrow> ('h response, unit) res \<times> spike_guard option" where
  "check_guard X hash_one ck ctx g =
     (case g of
        Some guard \<Rightarrow>
          (let (ok, guard') = spike_try_acquire hash_one guard (ck_guard ck) (sc_key_hash ctx)
           in if ok then (Ok (), Some guard')
              else let limit = (case ks_rate (sc_session ctx) of
                                  Some r \<Rightarrow> rl_requests r
                                | None \<Rightarrow> (case ks_quota (sc_session ctx) of Some q \<Rightarrow> qt_max q | None \<Rightarrow> 0));
                       d = \<lparr>allowed = False, remaining = 0, reset_after = from_secs 1\<rparr>
                   in (verdict X (ck_unix ck) 429 ''rate limit exceeded'' limit (Ok d), Some guard'))
      | None \<Rightarrow> (Ok (), None))"

definition check_session_rate :: "'h http_ext \<Rightarrow> 's storage_ops \<Rightarrow> rl_clock \<Rightarrow> session_context \<Rightarrow> 's \<Rightarrow>
    ('h response, unit) res \<times> 's" where
  "check_session_rate X S ck ctx s =
     (case ks_rate (sc_session ctx) of
        Some rate \<Rightarrow>
          (let (r, s') = st_check_rate S s (ck_rate ck)
                           (rate_limit_storage_key (ks_org_id (sc_session ctx)) (sc_key_hash ctx))
                           (rl_requests rate) (from_secs (rl_per_seconds rate))
           in (verdict X (ck_unix ck) 429 ''rate limit exceeded'' (rl_requests rate) r, s'))
      | None \<Rightarrow> (Ok (), s))"

definition check_session_quota :: "'h http_ext \<Rightarrow> 's storage_ops \<Rightarrow> rl_clock \<Rightarrow> session_context \<Rightarrow> 's \<Rightarrow>
    ('h response, unit) res \<times> 's" where
  "check_session_quota X S ck ctx s =
     (case ks_quota (sc_session ctx) of
        Some quota \<Rightarrow>
          (let (r, s') = st_check_quota S s (ck_quota ck)
                           (quota_storage_key (ks_org_id (sc_session ctx)) (sc_key_hash ctx))
                           (qt_max quota) (from_secs (qt_renewal_rate_secs quota))
           in (verdict X (ck_unix ck) 403 ''quota exceeded'' (qt_max quota) r, s'))
      | None \<Rightarrow> (Ok (), s))"

definition enforce :: "'h http_ext \<Rightarrow> 'r regex_ext \<Rightarrow> (string \<Rightarrow> u64) \<Rightarrow> ('s, 'r) rate_limit_state \<Rightarrow>
    rl_clock \<Rightarrow> 'h request \<Rightarrow> 's \<times> spike_guard option \<Rightarrow>
    ('h response, unit) res \<times> 's \<times> spike_guard option" where
  "enforce X R hash_one st ck req sg =
     (let (s, g) = sg;
          (v0, s0) = check_endpoint X R st ck req s
      in if v0 \<noteq> Ok () then (v0, s0, g)
         else case rq_session req of
           None \<Rightarrow> (Ok (), s0, g)
         | Some ctx \<Rightarrow>
             if ks_rate (sc_session ctx) = None \<and> ks_quota (sc_session ctx) = None then (Ok (), s0, g)
             else let (v1, g1) = check_guard X hash_one ck ctx g
                  in if v1 \<noteq> Ok () then (v1, s0, g1)
                     else let (v2, s2) = check_session_rate X (rs_ops st) ck ctx s0
                          in if v2 \<noteq> Ok () then (v2, s2, g1)
                             else let (v3, s3) = check_session_quota X (rs_ops st) ck ctx s2
                                  in (v3, s3, g1))"

text \<open>The shared state a chain runs over: the store, the guard, and what the layers below use.\<close>

record ('s, 'e) world =
  wd_store :: 's
  wd_guard :: "spike_guard option"
  wd_env :: 'e

definition rate_limit_layer :: "'h http_ext \<Rightarrow> 'r regex_ext \<Rightarrow> (string \<Rightarrow> u64) \<Rightarrow> ('s, 'r) rate_limit_state \<Rightarrow>
    (('s, 'e) world \<Rightarrow> rl_clock) \<Rightarrow> ('h, ('s, 'e) world) service \<Rightarrow> ('h, ('s, 'e) world) service" where
  "rate_limit_layer X R hash_one st clock inner req w =
     (let (v, s, g) = enforce X R hash_one st (clock w) req (wd_store w, wd_guard w);
          w' = w\<lparr>wd_store := s, wd_guard := g\<rparr>
      in case v of
           Ok _ \<Rightarrow> inner req w'
         | Err resp \<Rightarrow> (Some resp, w')
         | Panic \<Rightarrow> (None, w'))"

section \<open>Lemmas\<close>

lemma is_digit_digit_char [simp]: "d < 10 \<Longrightarrow> is_digit (digit_char d)"
  by (simp add: is_digit_def digit_char_def)

lemma show_nat_digits [simp]: "list_all is_digit (show_nat n)"
proof (induction n rule: show_nat.induct)
  case (1 n)
  then show ?case by (subst show_nat.simps) simp
qed

lemma verdict_Ok: "verdict X unix status message limit r = Ok () \<longleftrightarrow>
    (case r of Ok d \<Rightarrow> allowed d | Err _ \<Rightarrow> True | Panic \<Rightarrow> False)"
  by (auto simp: verdict_def split: res.splits option.splits)

context header_map
begin

lemma limit_response_some:
  "limit_response X unix status message limit d =
     (let rs = reset_secs (reset_after d); resp = json_error X status message
      in Some (resp\<lparr>rs_headers := hm_insert X (hm_insert X (hm_insert X (hm_insert X (rs_headers resp)
           ''x-ratelimit-limit'' (show_nat limit)) ''x-ratelimit-remaining'' (show_nat (remaining d)))
           ''x-ratelimit-reset'' (show_nat (sat_u64 (unix + rs))))
           ''retry-after'' (show_nat rs)\<rparr>))"
  by (simp add: limit_response_def from_str_digits Let_def)

lemma verdict_not_Panic: "r \<noteq> Panic \<Longrightarrow> verdict X unix status message limit r \<noteq> Panic"
  by (auto simp: verdict_def limit_response_some Let_def split: res.splits)

lemma verdict_Err_status:
  "verdict X unix status message limit r = Err resp \<Longrightarrow> rs_status resp = status"
  by (auto simp: verdict_def limit_response_some json_error_def Let_def split: res.splits if_splits)

end

lemma mem_check_quota_cases:
  "mem_check_quota s now k m p = (Panic, s) \<or> (\<exists>d s'. mem_check_quota s now k m p = (Ok d, s'))"
  by (auto simp: mem_check_quota_def Let_def split: option.splits)

text \<open>
  The traffic of a gateway: requests of any sessions through the limiters of any APIs, which
  share the store and the guard; the verdict on each.
\<close>

fun enforce_traffic :: "'h http_ext \<Rightarrow> 'r regex_ext \<Rightarrow> (string \<Rightarrow> u64) \<Rightarrow> 's \<times> spike_guard option \<Rightarrow>
    (('s, 'r) rate_limit_state \<times> rl_clock \<times> 'h request) list \<Rightarrow> ('h response, unit) res list" where
  "enforce_traffic X R hash_one sg [] = []"
| "enforce_traffic X R hash_one sg ((st, ck, req) # rest) =
     (case enforce X R hash_one st ck req sg of (v, sg') \<Rightarrow> v # enforce_traffic X R hash_one sg' rest)"

definition rate_keyed :: "string \<Rightarrow> 'h request \<Rightarrow> bool" where
  "rate_keyed k req \<longleftrightarrow>
     (case rq_session req of
        Some ctx \<Rightarrow> rate_limit_storage_key (ks_org_id (sc_session ctx)) (sc_key_hash ctx) = k
      | None \<Rightarrow> False)"

text \<open>When the requests of one rate key were let through, and when they came.\<close>

fun passed_at :: "string \<Rightarrow> (('s, 'r) rate_limit_state \<times> rl_clock \<times> 'h request) list \<Rightarrow> ('h response, unit) res list \<Rightarrow> instant list" where
  "passed_at k ((st, ck, req) # rest) (v # vs) = (if rate_keyed k req \<and> v = Ok () then [ck_rate ck] else []) @ passed_at k rest vs"
| "passed_at k _ _ = []"

definition came_at :: "string \<Rightarrow> (('s, 'r) rate_limit_state \<times> rl_clock \<times> 'h request) list \<Rightarrow> instant list" where
  "came_at k traffic = map (\<lambda>(st, ck, req). ck_rate ck) (filter (\<lambda>(st, ck, req). rate_keyed k req) traffic)"

text \<open>One after the other: the clock readings of each request, and of the requests in turn, do not decrease.\<close>

definition in_turn :: "(('s, 'r) rate_limit_state \<times> rl_clock \<times> 'h request) list \<Rightarrow> bool" where
  "in_turn traffic \<longleftrightarrow> sorted (concat (map (\<lambda>(st, ck, req). [ck_endpoint ck, ck_rate ck, ck_quota ck]) traffic))"

text \<open>A request whose limiter has only the session's rate to enforce.\<close>

definition rate_only :: "('s, 'r) rate_limit_state \<Rightarrow> 'h request \<Rightarrow> bool" where
  "rate_only st req \<longleftrightarrow> rs_endpoint_limits st = None
     \<and> (case rq_session req of Some ctx \<Rightarrow> ks_quota (sc_session ctx) = None | None \<Rightarrow> True)"

text \<open>No endpoint rule counts under the key.\<close>

definition endpoint_keys_apart :: "string \<Rightarrow> ('s, 'r) rate_limit_state \<Rightarrow> bool" where
  "endpoint_keys_apart k st \<longleftrightarrow> (case rs_endpoint_limits st of Some ls \<Rightarrow> k \<notin> el_storage_key ` set ls | None \<Rightarrow> True)"

text \<open>What one request does to the log of a rate key.\<close>

lemma check_endpoint_log:
  assumes "rs_ops st = memory_ops" and "mem_inv (ck_endpoint ck) s"
    and "endpoint_keys_apart k st"
    and "check_endpoint X R st ck req s = (v, s')"
  shows "mem_inv (ck_endpoint ck) s' \<and> mem_hits s' k = mem_hits s k"
proof (cases "Option.bind (rs_endpoint_limits st) (\<lambda>ls. first_match R ls (rq_method req) (rq_path req))")
  case None
  with assms show ?thesis by (simp add: check_endpoint_def)
next
  case (Some rule)
  then have "el_storage_key rule \<noteq> k"
    using assms(3) by (auto simp: endpoint_keys_apart_def first_match_def find_Some_iff bind_eq_Some_conv)
  moreover have "s' = snd (mem_check_rate s (ck_endpoint ck) (el_storage_key rule) (el_requests rule) (el_window rule))"
    using assms(1,4) Some by (auto simp: check_endpoint_def split: prod.splits)
  ultimately show ?thesis
    using assms(2) memrate.rate_other [OF assms(2), of k "el_storage_key rule"] by (simp add: mem_inv_check_rate)
qed

lemma check_session_rate_log:
  assumes "header_map X" and "mem_inv (ck_rate ck) s" and "check_session_rate X memory_ops ck ctx s = (v, s')"
    and "rate_limit_storage_key (ks_org_id (sc_session ctx)) (sc_key_hash ctx) = k \<Longrightarrow> ks_rate (sc_session ctx) = Some rate"
  shows "mem_inv (ck_rate ck) s'
    \<and> (if rate_limit_storage_key (ks_org_id (sc_session ctx)) (sc_key_hash ctx) = k
       then (v = Ok () \<longleftrightarrow> length (in_window (from_secs (rl_per_seconds rate)) (ck_rate ck) (mem_hits s k)) < rl_requests rate)
         \<and> mem_hits s' k = in_window (from_secs (rl_per_seconds rate)) (ck_rate ck) (mem_hits s k) @ (if v = Ok () then [ck_rate ck] else [])
       else mem_hits s' k = mem_hits s k)"
proof (cases "ks_rate (sc_session ctx)")
  case None
  with assms show ?thesis by (auto simp: check_session_rate_def)
next
  case (Some r)
  let ?k = "rate_limit_storage_key (ks_org_id (sc_session ctx)) (sc_key_hash ctx)"
  obtain d where d: "mem_check_rate s (ck_rate ck) ?k (rl_requests r) (from_secs (rl_per_seconds r)) = (Ok d, s')"
    and v: "v = Ok () \<longleftrightarrow> allowed d"
    using mem_check_rate_total [of s "ck_rate ck" ?k "rl_requests r" "from_secs (rl_per_seconds r)"] assms(3) Some
    by (auto simp: check_session_rate_def verdict_Ok)
  have "mem_inv (ck_rate ck) s'" using mem_inv_check_rate [OF assms(2)] d by (metis snd_conv)
  moreover have "r = rate" if "?k = k" using assms(4) [OF that] Some by simp
  moreover have "mem_hits s' k = mem_hits s k" if "?k \<noteq> k"
    using memrate.rate_other [OF assms(2) that [symmetric], of "rl_requests r" "from_secs (rl_per_seconds r)"] d by simp
  ultimately show ?thesis
    using memrate.rate_allowed [OF assms(2)] memrate.rate_hits [OF assms(2)] d v by auto
qed

lemma check_session_quota_log:
  "check_session_quota X memory_ops ck ctx s = (v, s') \<Longrightarrow> mem_inv (ck_quota ck) s \<Longrightarrow>
     mem_inv (ck_quota ck) s' \<and> mem_hits s' k = mem_hits s k"
  by (auto simp: check_session_quota_def mem_inv_check_quota mem_hits_def split: option.splits prod.splits
      dest!: arg_cong [where f = snd])

lemma enforce_log:
  assumes "header_map X" and "rs_ops st = memory_ops" and "mem_inv (ck_endpoint ck) s"
    and "ck_endpoint ck \<le> ck_rate ck" "ck_rate ck \<le> ck_quota ck"
    and "endpoint_keys_apart k st"
    and "\<And>ctx. rq_session req = Some ctx \<Longrightarrow> rate_keyed k req \<Longrightarrow> ks_rate (sc_session ctx) = Some rate"
    and "enforce X R hash_one st ck req (s, g) = (v, s', g')"
  defines "w \<equiv> in_window (from_secs (rl_per_seconds rate)) (ck_rate ck) (mem_hits s k)"
  shows "mem_inv (ck_quota ck) s'
    \<and> (mem_hits s' k = mem_hits s k \<and> \<not> (rate_keyed k req \<and> (v = Ok () \<or> rate_only st req \<and> g = None))
       \<or> rate_keyed k req \<and> mem_hits s' k = w @ (if length w < rl_requests rate then [ck_rate ck] else [])
         \<and> (v = Ok () \<longrightarrow> length w < rl_requests rate) \<and> (rate_only st req \<longrightarrow> (v = Ok () \<longleftrightarrow> length w < rl_requests rate)))
    \<and> (g = None \<longrightarrow> g' = None)"
proof -
  obtain v0 s0 where e: "check_endpoint X R st ck req s = (v0, s0)" by fastforce
  note e0 = check_endpoint_log [OF assms(2,3,6) e]
  have later: "mem_inv (ck_rate ck) s0" "mem_inv (ck_quota ck) s0"
    using mem_inv_later [OF e0 [THEN conjunct1]] assms(4,5) by simp_all
  have only: "rate_only st req \<Longrightarrow> v0 = Ok ()" using e by (auto simp: rate_only_def check_endpoint_def)
  have unkeyed: "rq_session req = None \<Longrightarrow> \<not> rate_keyed k req" by (simp add: rate_keyed_def)
  show ?thesis
  proof (cases "v0 = Ok () \<and> rq_session req \<noteq> None")
    case False
    then have "s' = s0 \<and> g' = g \<and> (v0 \<noteq> Ok () \<longrightarrow> v = v0)"
      using assms(8) e by (auto simp: enforce_def split: if_splits option.splits)
    with False e0 later only unkeyed show ?thesis by auto
  next
    case True
    then obtain ctx where ctx: "v0 = Ok ()" "rq_session req = Some ctx" by blast
    have keyed: "rate_keyed k req \<longleftrightarrow> rate_limit_storage_key (ks_org_id (sc_session ctx)) (sc_key_hash ctx) = k"
      by (simp add: rate_keyed_def ctx(2))
    obtain v1 g1 where g1: "check_guard X hash_one ck ctx g = (v1, g1)" by fastforce
    have gn: "g = None \<Longrightarrow> v1 = Ok () \<and> g1 = None" using g1 by (simp add: check_guard_def)
    obtain v2 s2 where r: "check_session_rate X memory_ops ck ctx s0 = (v2, s2)" by fastforce
    note r0 = check_session_rate_log [OF assms(1) later(1) r, of k rate]
    obtain v3 s3 where q: "check_session_quota X memory_ops ck ctx s2 = (v3, s3)" by fastforce
    have q3: "rate_only st req \<Longrightarrow> v3 = Ok ()" using q by (auto simp: rate_only_def ctx(2) check_session_quota_def)
    consider "ks_rate (sc_session ctx) = None" "ks_quota (sc_session ctx) = None" "s' = s0" "g' = g" "v = Ok ()"
      | "v1 \<noteq> Ok ()" "s' = s0" "g' = g1" "v = v1"
      | "v1 = Ok ()" "v2 \<noteq> Ok ()" "s' = s2" "g' = g1" "v = v2"
      | "v1 = Ok ()" "v2 = Ok ()" "s' = s3" "g' = g1" "v = v3"
      using assms(8) e ctx g1 r q by (auto simp: enforce_def assms(2) split: if_splits)
    then show ?thesis
    proof cases
      case 1
      with assms(7) [OF ctx(2)] e0 later show ?thesis by auto
    next
      case 2
      with e0 later gn show ?thesis by auto
    next
      case 3
      have "mem_inv (ck_rate ck) s2" using r0 assms(7) [OF ctx(2)] keyed by blast
      then have "mem_inv (ck_quota ck) s2" using mem_inv_later assms(5) by blast
      with 3 r0 assms(7) [OF ctx(2)] keyed e0 gn show ?thesis by (auto simp: w_def)
    next
      case 4
      have "mem_inv (ck_rate ck) s2" using r0 assms(7) [OF ctx(2)] keyed by blast
      then have "mem_inv (ck_quota ck) s2" using mem_inv_later assms(5) by blast
      note q0 = check_session_quota_log [OF q this, of k]
      show ?thesis using 4 r0 assms(7) [OF ctx(2)] keyed e0 gn q0 q3 by (auto simp: w_def)
    qed
  qed
qed

text \<open>What the traffic must keep to: the in-memory store, no foreign rule under the key, one rate for its session.\<close>

definition one_rate :: "string \<Rightarrow> rate_limit \<Rightarrow> ((memory_storage, 'r) rate_limit_state \<times> rl_clock \<times> 'h request) list \<Rightarrow> bool" where
  "one_rate k rate traffic \<longleftrightarrow>
     (\<forall>(st, ck, req) \<in> set traffic. rs_ops st = memory_ops \<and> endpoint_keys_apart k st
        \<and> (\<forall>ctx. rq_session req = Some ctx \<longrightarrow> rate_keyed k req \<longrightarrow> ks_rate (sc_session ctx) = Some rate))"

lemma window_load_Nil [simp]: "window_load w t [] = 0"
  by (simp add: window_load_def)

lemma window_load_next:
  assumes "\<forall>u \<in> set h. u \<le> t0" and "\<And>t. window_load w t h \<le> l" and "length (in_window w t0 h) < l"
  shows "window_load w t (h @ [t0]) \<le> l"
proof (cases "t0 \<le> t")
  case True
  then have "window_load w t h \<le> length (in_window w t0 h)" using assms(1) by (intro window_load_mono_in_window) auto
  with assms(3) show ?thesis by (simp add: window_load_def)
next
  case False
  then have "window_load w t [t0] = 0" by (simp add: window_load_def)
  with assms(2) [of t] show ?thesis by simp
qed

lemma traffic_bound:
  assumes "header_map X" and "one_rate k rate traffic" and "in_turn traffic"
    and "\<And>st ck req. (st, ck, req) \<in> set traffic \<Longrightarrow> start \<le> ck_endpoint ck" and "mem_inv start s"
    and "\<And>u. start \<le> u \<Longrightarrow> in_window (from_secs (rl_per_seconds rate)) u (mem_hits s k) = in_window (from_secs (rl_per_seconds rate)) u h"
    and "\<forall>u \<in> set h. u \<le> start" and "\<And>t. window_load (from_secs (rl_per_seconds rate)) t h \<le> rl_requests rate"
  defines "w \<equiv> from_secs (rl_per_seconds rate)" and "l \<equiv> rl_requests rate"
  shows "window_load w t (h @ passed_at k traffic (enforce_traffic X R hash_one (s, g) traffic)) \<le> l
    \<and> (g = None \<longrightarrow> (\<forall>(st, ck, req) \<in> set traffic. rate_keyed k req \<longrightarrow> rate_only st req) \<longrightarrow>
         passed_at k traffic (enforce_traffic X R hash_one (s, g) traffic) = admitted (came_at k traffic) (sliding_spec l w h (came_at k traffic)))"
  using assms(2-8)
proof (induction traffic arbitrary: s g h start)
  case Nil
  then show ?case by (simp add: came_at_def w_def l_def)
next
  case (Cons a traffic)
  obtain st ck req where a: "a = (st, ck, req)" by (cases a)
  obtain v s' g' where e: "enforce X R hash_one st ck req (s, g) = (v, s', g')" by (metis surj_pair)
  have turn: "ck_endpoint ck \<le> ck_rate ck" "ck_rate ck \<le> ck_quota ck" "in_turn traffic"
    and after: "\<And>st' ck' req'. (st', ck', req') \<in> set traffic \<Longrightarrow> ck_quota ck \<le> ck_endpoint ck'"
    using Cons.prems(2) by (auto simp: in_turn_def a sorted_append)
  have one: "rs_ops st = memory_ops" "endpoint_keys_apart k st" "one_rate k rate traffic"
    and rate: "\<And>ctx. rq_session req = Some ctx \<Longrightarrow> rate_keyed k req \<Longrightarrow> ks_rate (sc_session ctx) = Some rate"
    using Cons.prems(1) by (auto simp: one_rate_def a)
  have start: "start \<le> ck_endpoint ck" using Cons.prems(3) [of st ck req] by (simp add: a)
  note step = enforce_log [OF assms(1) one(1) mem_inv_later [OF Cons.prems(4) start] turn(1,2) one(2) rate e, folded w_def l_def]
  have h: "in_window w (ck_rate ck) (mem_hits s k) = in_window w (ck_rate ck) h"
    using Cons.prems(5) start turn(1) by (simp add: w_def)
  let ?rest = "enforce_traffic X R hash_one (s', g') traffic"
  note IH = Cons.IH [OF one(3) turn(3), of "ck_quota ck" s' _ g', folded w_def l_def]
  have inv: "mem_inv (ck_quota ck) s'" and g': "g = None \<longrightarrow> g' = None" using step by auto
  have older: "\<forall>u \<in> set h. u \<le> ck_rate ck" using Cons.prems(6) start turn(1) by auto
  from step consider (skip) "mem_hits s' k = mem_hits s k" "\<not> (rate_keyed k req \<and> (v = Ok () \<or> rate_only st req \<and> g = None))"
    | (check) "rate_keyed k req" "mem_hits s' k = in_window w (ck_rate ck) h @ (if length (in_window w (ck_rate ck) h) < l then [ck_rate ck] else [])"
      "v = Ok () \<longrightarrow> length (in_window w (ck_rate ck) h) < l" "rate_only st req \<longrightarrow> (v = Ok () \<longleftrightarrow> length (in_window w (ck_rate ck) h) < l)"
    unfolding h by blast
  then show ?case
  proof cases
    case skip
    have "window_load w t (h @ passed_at k traffic ?rest) \<le> l
      \<and> (g' = None \<longrightarrow> (\<forall>(st, ck, req) \<in> set traffic. rate_keyed k req \<longrightarrow> rate_only st req) \<longrightarrow>
           passed_at k traffic ?rest = admitted (came_at k traffic) (sliding_spec l w h (came_at k traffic)))"
      by (rule IH) (use after inv Cons.prems(5,7) older turn start skip(1) in \<open>auto simp: w_def l_def\<close>)
    moreover have "passed_at k (a # traffic) (enforce_traffic X R hash_one (s, g) (a # traffic)) = passed_at k traffic ?rest"
      using skip(2) by (auto simp: a e)
    moreover have "came_at k (a # traffic) = came_at k traffic" if "rate_keyed k req \<longrightarrow> rate_only st req" "g = None"
      using skip(2) that by (auto simp: a came_at_def)
    ultimately show ?thesis using g' by (simp only: a) auto
  next
    case check
    let ?h = "h @ (if length (in_window w (ck_rate ck) h) < l then [ck_rate ck] else [])"
    have "in_window w u (mem_hits s' k) = in_window w u ?h" if "ck_quota ck \<le> u" for u
      using check(2) that turn(2) by (simp add: in_window_twice)
    moreover have "window_load w t ?h \<le> l" for t
      using window_load_next [OF older, of w l] Cons.prems(7) by (auto simp: w_def l_def)
    ultimately have "window_load w t (?h @ passed_at k traffic ?rest) \<le> l
      \<and> (g' = None \<longrightarrow> (\<forall>(st, ck, req) \<in> set traffic. rate_keyed k req \<longrightarrow> rate_only st req) \<longrightarrow>
           passed_at k traffic ?rest = admitted (came_at k traffic) (sliding_spec l w ?h (came_at k traffic)))"
      using after inv older turn by (intro IH) (auto split: if_splits intro: order_trans)
    note IH = this
    have p: "passed_at k (a # traffic) (enforce_traffic X R hash_one (s, g) (a # traffic)) = (if v = Ok () then [ck_rate ck] else []) @ passed_at k traffic ?rest"
      "came_at k (a # traffic) = ck_rate ck # came_at k traffic"
      using check(1) by (auto simp: a e came_at_def)
    have "window_load w t (h @ passed_at k (a # traffic) (enforce_traffic X R hash_one (s, g) (a # traffic)))
        \<le> window_load w t (?h @ passed_at k traffic ?rest)"
      unfolding p(1) window_load_append using check(3) by (auto simp: window_load_def)
    with IH have "window_load w t (h @ passed_at k (a # traffic) (enforce_traffic X R hash_one (s, g) (a # traffic))) \<le> l" by linarith
    then show ?thesis using IH check(1,4) g' unfolding p by (auto simp: a)
  qed
qed

lemma check_endpoint_memory:
  assumes "header_map X" and "rs_ops st = memory_ops" and "check_endpoint X R st ck req s = (v, s')"
  shows "ms_quotas s' = ms_quotas s \<and> (v = Err resp \<longrightarrow> rs_status resp = 429)"
  using assms header_map.verdict_Err_status [OF assms(1), of "ck_unix ck" 429]
  by (auto simp: check_endpoint_def split: option.splits prod.splits dest!: arg_cong [where f = snd])

lemma div_ceil_bounds: "0 < b \<Longrightarrow> a \<le> b * div_ceil a b \<and> b * div_ceil a b < a + b"
proof -
  assume b: "0 < b"
  have "b * div_ceil a b + (a + b - 1) mod b = a + b - 1"
    by (simp add: div_ceil_def)
  moreover have "(a + b - 1) mod b < b" using b by simp
  ultimately show ?thesis using b by linarith
qed

lemma as_millis_bounds: "as_millis d * ns_per_milli \<le> d \<and> d < as_millis d * ns_per_milli + ns_per_milli"
proof -
  have "as_millis d * ns_per_milli + d mod ns_per_milli = d"
    by (simp add: as_millis_def)
  moreover have "d mod ns_per_milli < ns_per_milli" by (simp add: ns_per_milli_def)
  ultimately show ?thesis by linarith
qed

lemma from_secs_millis: "from_secs s = 1000 * s * ns_per_milli"
  by (simp add: from_secs_def ns_per_sec_def ns_per_milli_def)

lemma reset_secs_lower:
  assumes "as_millis d \<le> 1000 * u64_max"
  shows "d < from_secs (reset_secs d) + ns_per_milli"
proof -
  have c: "as_millis d \<le> 1000 * div_ceil (as_millis d) 1000"
    "1000 * div_ceil (as_millis d) 1000 < as_millis d + 1000"
    using div_ceil_bounds [of 1000 "as_millis d"] by auto
  with assms have "div_ceil (as_millis d) 1000 \<le> u64_max" by linarith
  then have "div_ceil (as_millis d) 1000 \<le> reset_secs d"
    by (simp add: reset_secs_def sat_u64_def)
  with c have "as_millis d \<le> 1000 * reset_secs d" by linarith
  then have "as_millis d * ns_per_milli \<le> from_secs (reset_secs d)"
    unfolding from_secs_millis by (rule mult_le_mono1)
  with as_millis_bounds [of d] show ?thesis by linarith
qed

lemma reset_secs_upper: "reset_secs d = 1 \<or> from_secs (reset_secs d) < d + ns_per_sec"
proof (cases "reset_secs d = 1")
  case False
  then have "reset_secs d \<le> div_ceil (as_millis d) 1000"
    by (auto simp: reset_secs_def sat_u64_def max_def split: if_splits)
  with div_ceil_bounds [of 1000 "as_millis d"] have "1000 * reset_secs d < as_millis d + 1000"
    by linarith
  then have "from_secs (reset_secs d) < (as_millis d + 1000) * ns_per_milli"
    unfolding from_secs_millis by (intro mult_less_mono1) (simp_all add: ns_per_milli_def)
  also have "\<dots> \<le> d + ns_per_sec"
    using as_millis_bounds [of d] by (simp add: add_mult_distrib ns_per_sec_def ns_per_milli_def)
  finally show ?thesis ..
qed simp

section \<open>Properties\<close>


definition sample_session :: "rate_limit option \<Rightarrow> quota option \<Rightarrow> session_context" where
  "sample_session r q = \<lparr>sc_session = session_default\<lparr>ks_rate := r, ks_quota := q\<rparr>, sc_key_hash = ''ab''\<rparr>"

definition sample_clock :: "nat \<Rightarrow> rl_clock" where
  "sample_clock t = \<lparr>ck_endpoint = from_secs t, ck_guard = from_secs t, ck_rate = from_secs t,
     ck_quota = from_secs t, ck_unix = t\<rparr>"

definition sample_state :: "'s storage_ops \<Rightarrow> string compiled_endpoint_limit list option \<Rightarrow>
    ('s, string) rate_limit_state" where
  "sample_state S ls = \<lparr>rs_api_id = ''api'', rs_ops = S, rs_endpoint_limits = ls\<rparr>"

text \<open>Two sessions through an API with an endpoint limit; the first has a rate of one request in ten seconds.\<close>

definition sample_traffic :: "((memory_storage, string) rate_limit_state \<times> rl_clock \<times> alist_headers request) list" where
  "sample_traffic =
     (let st = sample_state memory_ops (Some [\<lparr>el_regex = ''/a'', el_methods = [], el_requests = 5, el_window = 5, el_storage_key = ''e''\<rparr>]);
          first = (sample_request ''GET'' ''/a'')\<lparr>rq_session := Some (sample_session (Some \<lparr>rl_requests = 1, rl_per_seconds = 10\<rparr>) None)\<rparr>;
          other = (sample_request ''GET'' ''/a'')\<lparr>rq_session := Some ((sample_session None (Some \<lparr>qt_max = 1, qt_renewal_rate_secs = 9\<rparr>))\<lparr>sc_key_hash := ''cd''\<rparr>)\<rparr>
      in [(st, sample_clock 0, first), (st, sample_clock 1, other), (st, sample_clock 2, first), (st, sample_clock 10, first)])"


text \<open>
  A request an endpoint limit denies spends nothing: on a memory store, when the first
  matching rule's window is full, \<open>enforce\<close> answers 429 whatever session the request has,
  the spike guard keeps its tokens, no quota counter and no stored value changes, no other
  key's rate log changes, and the rule's own log gains no entry.
\<close>

theorem endpoint_denial_spends_nothing:
  assumes "header_map X" and "rs_ops st = memory_ops" and "mem_inv (ck_endpoint ck) s"
    and "rs_endpoint_limits st = Some ls" and "first_match R ls (rq_method req) (rq_path req) = Some rule"
    and "el_requests rule \<le> length (in_window (el_window rule) (ck_endpoint ck) (mem_hits s (el_storage_key rule)))"
  shows "\<exists>resp s'. enforce X R hash_one st ck req (s, g) = (Err resp, s', g) \<and> rs_status resp = 429
    \<and> mem_used s' = mem_used s \<and> mem_kv s' = mem_kv s
    \<and> (\<forall>k. k \<noteq> el_storage_key rule \<longrightarrow> mem_hits s' k = mem_hits s k)
    \<and> mem_hits s' (el_storage_key rule)
        = in_window (el_window rule) (ck_endpoint ck) (mem_hits s (el_storage_key rule))"
proof -
  obtain d s' where d: "mem_check_rate s (ck_endpoint ck) (el_storage_key rule) (el_requests rule)
      (el_window rule) = (Ok d, s')" "\<not> allowed d"
    "mem_hits s' (el_storage_key rule) = in_window (el_window rule) (ck_endpoint ck) (mem_hits s (el_storage_key rule))"
    "\<forall>k. k \<noteq> el_storage_key rule \<longrightarrow> mem_hits s' k = mem_hits s k"
    "mem_kv s' = mem_kv s" "mem_used s' = mem_used s"
    using mem_rate_step [OF assms(3), of "el_storage_key rule" "el_requests rule" "el_window rule"] assms(6)
    by auto
  define v where "v = verdict X (ck_unix ck) 429 ''rate limit exceeded'' (el_requests rule) (Ok d)"
  have "v \<noteq> Panic" "v \<noteq> Ok ()"
    using header_map.verdict_not_Panic [OF assms(1)] d(2) by (simp_all add: v_def verdict_Ok)
  then obtain resp where v: "v = Err resp" by (cases v) auto
  have "rs_status resp = 429"
    using header_map.verdict_Err_status [OF assms(1) v [unfolded v_def]] .
  moreover have "enforce X R hash_one st ck req (s, g) = (Err resp, s', g)"
    using assms(2,4,5) d(1) v by (simp add: enforce_def check_endpoint_def v_def)
  ultimately show ?thesis using d(3-6) by blast
qed

theorem endpoint_denial_spends_nothing_witness:
  "\<exists>resp s'. enforce alist_ext literal_ext (\<lambda>_. 0)
     (sample_state memory_ops (Some [\<lparr>el_regex = ''/a'', el_methods = [], el_requests = 0,
        el_window = 5, el_storage_key = ''k''\<rparr>]))
     (sample_clock 3) (sample_request ''GET'' ''/a'') (mem_new, None) = (Err resp, s', None)
     \<and> rs_status resp = 429 \<and> mem_used s' = mem_used mem_new"
proof -
  let ?r = "\<lparr>el_regex = ''/a'', el_methods = [], el_requests = 0, el_window = 5, el_storage_key = ''k''\<rparr>"
  have "first_match literal_ext [?r] ''GET'' ''/a'' = Some ?r"
    by (simp add: first_match_def endpoint_limit_matches_def rule_matches_def literal_ext_def)
  then show ?thesis
    using endpoint_denial_spends_nothing [OF alist.header_map_axioms,
        of "sample_state memory_ops (Some [?r])" "sample_clock 3" mem_new "[?r]" literal_ext
        "sample_request ''GET'' ''/a''" ?r "\<lambda>_. 0" None]
    by (auto simp: sample_state_def sample_request_def)
qed

text \<open>
  A rate-denied request never consumes quota: on a memory store, whenever \<open>enforce\<close>
  rejects, the status is 429 or 403, and with 429 (endpoint limit, spike guard or session
  rate) every quota counter is as before.
\<close>

theorem rate_denial_keeps_quota:
  assumes "header_map X" and "rs_ops st = memory_ops"
    and "enforce X R hash_one st ck req (s, g) = (Err resp, s', g')"
  shows "rs_status resp \<in> {429, 403} \<and> (rs_status resp = 429 \<longrightarrow> mem_used s' = mem_used s)"
proof -
  note err = header_map.verdict_Err_status [OF assms(1)]
  obtain v0 s0 where e: "check_endpoint X R st ck req s = (v0, s0)" by fastforce
  have s0: "ms_quotas s0 = ms_quotas s" and st0: "v0 = Err resp \<Longrightarrow> rs_status resp = 429"
    using check_endpoint_memory [OF assms(1,2) e] by auto
  have rate: "ms_quotas s2 = ms_quotas s0 \<and> (v2 = Err resp \<longrightarrow> rs_status resp = 429)"
    if "check_session_rate X memory_ops ck ctx s0 = (v2, s2)" for ctx v2 s2
    using that err
    by (auto simp: check_session_rate_def split: option.splits prod.splits dest!: arg_cong [where f = snd])
  have guard: "v1 = Err resp \<longrightarrow> rs_status resp = 429"
    if "check_guard X hash_one ck ctx g = (v1, g1)" for ctx v1 g1
    using that err by (auto simp: check_guard_def Let_def split: option.splits prod.splits if_splits)
  have quota: "v3 = Err resp \<longrightarrow> rs_status resp = 403"
    if "check_session_quota X memory_ops ck ctx s2 = (v3, s3)" for ctx s2 v3 s3
    using that err by (auto simp: check_session_quota_def split: option.splits prod.splits)
  have "rs_status resp = 429 \<and> ms_quotas s' = ms_quotas s \<or> rs_status resp = 403"
    using assms(3) e s0 st0
    by (auto simp: enforce_def assms(2) split: option.splits prod.splits if_splits
        dest!: rate guard quota)
  then show ?thesis by (auto simp: mem_used_def fun_eq_iff)
qed

theorem rate_denial_keeps_quota_witness:
  "\<exists>resp s'. enforce alist_ext literal_ext (\<lambda>_. 0) (sample_state memory_ops None) (sample_clock 3)
     ((sample_request ''GET'' ''/'')\<lparr>rq_session :=
        Some (sample_session (Some \<lparr>rl_requests = 0, rl_per_seconds = 1\<rparr>)
                             (Some \<lparr>qt_max = 1, qt_renewal_rate_secs = 1\<rparr>))\<rparr>)
     (mem_new, None) = (Err resp, s', None) \<and> rs_status resp = 429 \<and> mem_used s' = mem_used mem_new"
proof -
  let ?req = "(sample_request ''GET'' ''/'')\<lparr>rq_session :=
        Some (sample_session (Some \<lparr>rl_requests = 0, rl_per_seconds = 1\<rparr>)
                             (Some \<lparr>qt_max = 1, qt_renewal_rate_secs = 1\<rparr>))\<rparr>"
  obtain resp s' where e: "enforce alist_ext literal_ext (\<lambda>_. 0) (sample_state memory_ops None) (sample_clock 3)
      ?req (mem_new, None) = (Err resp, s', None)" and st: "rs_status resp = 429"
    by (simp add: enforce_def check_endpoint_def sample_state_def check_guard_def sample_session_def
        check_session_rate_def mem_check_rate_def verdict_def alist.limit_response_some json_error_def
        slide_log_def Let_def)
  have "mem_used s' = mem_used mem_new"
    using rate_denial_keeps_quota [OF alist.header_map_axioms _ e] st by (simp add: sample_state_def)
  with e st show ?thesis by blast
qed

text \<open>
  Fail open: when the store answers every limit check with an error and the spike guard
  is absent or has a token, \<open>enforce\<close> lets the request through, whatever its limits.
\<close>

theorem enforce_fails_open:
  assumes "\<And>s t k l w. \<exists>e s'. st_check_rate (rs_ops st) s t k l w = (Err e, s')"
    and "\<And>s t k m p. \<exists>e s'. st_check_quota (rs_ops st) s t k m p = (Err e, s')"
    and "\<And>guard ctx. g = Some guard \<Longrightarrow> rq_session req = Some ctx \<Longrightarrow>
      fst (spike_try_acquire hash_one guard (ck_guard ck) (sc_key_hash ctx))"
  shows "fst (enforce X R hash_one st ck req (s, g)) = Ok ()"
proof -
  have r: "verdict X u c m n (fst (st_check_rate (rs_ops st) s t k l w)) = Ok ()" for u c m n s t k l w
    using assms(1) [of s t k l w] by (auto simp: verdict_Ok)
  have q: "verdict X u c m n (fst (st_check_quota (rs_ops st) s t k l w)) = Ok ()" for u c m n s t k l w
    using assms(2) [of s t k l w] by (auto simp: verdict_Ok)
  have e: "fst (check_endpoint X R st ck req s) = Ok ()"
    by (simp add: check_endpoint_def case_prod_beta r split: option.splits)
  have g: "fst (check_guard X hash_one ck ctx g) = Ok ()" if "rq_session req = Some ctx" for ctx
    using assms(3) that by (auto simp: check_guard_def case_prod_beta split: option.splits)
  have sr: "fst (check_session_rate X (rs_ops st) ck ctx s0) = Ok ()" for ctx s0
    by (simp add: check_session_rate_def case_prod_beta r split: option.splits)
  have sq: "fst (check_session_quota X (rs_ops st) ck ctx s0) = Ok ()" for ctx s0
    by (simp add: check_session_quota_def case_prod_beta q split: option.splits)
  show ?thesis
    by (simp add: enforce_def case_prod_beta Let_def e g sr sq split: option.splits)
qed

definition failing_ops :: "unit storage_ops" where
  "failing_ops =
     \<lparr>st_get = (\<lambda>s t k. (Err (Backend ''down''), s)), st_set = (\<lambda>s t k v d. (Err (Backend ''down''), s)),
      st_delete = (\<lambda>s t k. (Err (Backend ''down''), s)), st_scan_prefix = (\<lambda>s t p. (Err (Backend ''down''), s)),
      st_list_append = (\<lambda>s t k v m. (Err (Backend ''down''), s)),
      st_list_drain = (\<lambda>s t k n. (Err (Backend ''down''), s)),
      st_check_rate = (\<lambda>s t k l w. (Err (Backend ''down''), s)),
      st_check_quota = (\<lambda>s t k m p. (Err (Backend ''down''), s))\<rparr>"

theorem enforce_fails_open_witness:
  "fst (enforce alist_ext literal_ext (\<lambda>_. 0) (sample_state failing_ops None) (sample_clock 3)
     ((sample_request ''GET'' ''/'')\<lparr>rq_session :=
        Some (sample_session (Some \<lparr>rl_requests = 0, rl_per_seconds = 1\<rparr>) None)\<rparr>) ((), None)) = Ok ()"
  by (rule enforce_fails_open) (simp_all add: sample_state_def failing_ops_def)

text \<open>
  \<open>Retry-After\<close> is at least one second, at most one second longer than the wait (or the
  one-second floor), and at most just under a millisecond too short: the wait is truncated
  to milliseconds before it is rounded up, so it can be an underestimate, as it is for a
  wait of 1000.5 milliseconds.
\<close>

theorem retry_after_rounding:
  "1 \<le> reset_secs d
   \<and> (as_millis d \<le> 1000 * u64_max \<longrightarrow> d < from_secs (reset_secs d) + ns_per_milli)
   \<and> (reset_secs d = 1 \<or> from_secs (reset_secs d) < d + ns_per_sec)
   \<and> from_secs (reset_secs 1000500000) < 1000500000"
proof -
  have "from_secs (reset_secs 1000500000) < 1000500000"
    by (simp add: from_secs_def reset_secs_def as_millis_def ns_per_milli_def div_ceil_def sat_u64_def
        u64_max_def ns_per_sec_def)
  moreover have "1 \<le> reset_secs d" by (simp add: reset_secs_def)
  ultimately show ?thesis using reset_secs_lower [of d] reset_secs_upper [of d] by blast
qed

theorem retry_after_rounding_witness: "1 \<le> reset_secs 5 \<and> (5 :: nat) < from_secs (reset_secs 5) + ns_per_milli"
  using retry_after_rounding [of 5] by (simp add: as_millis_def ns_per_milli_def)

end
