(* ===== verification/Breaker.thy ===== *)
theory Breaker
  imports Prelude
begin

text \<open>
  The per-route circuit breaker of \<open>g2-proxy/src/breaker.rs\<close>: a state tag and a
  transition timestamp packed into one atomic 64-bit word, and a separate failure counter.
  The methods are modelled twice: as atomic operations, and as the sequences of atomic
  loads, stores and compare-exchanges any number of threads interleave. The second is shown
  to refine the three-state machine the first implements.
\<close>

section \<open>The packed word\<close>

definition CLOSED :: u64 where "CLOSED = 0"
definition OPEN :: u64 where "OPEN = 1"
definition HALF_OPEN :: u64 where "HALF_OPEN = 2"

definition SINCE_BITS :: nat where "SINCE_BITS = 62"
definition SINCE_MASK :: u64 where "SINCE_MASK = push_bit SINCE_BITS 1 - 1"

definition pack :: "u64 \<Rightarrow> u64 \<Rightarrow> u64" where
  "pack st since_ms = push_bit SINCE_BITS st OR (since_ms AND SINCE_MASK)"

definition unpack :: "u64 \<Rightarrow> u64 \<times> u64" where
  "unpack word = (drop_bit SINCE_BITS word, word AND SINCE_MASK)"

definition saturating_add :: "('a::len) word \<Rightarrow> 'a word \<Rightarrow> 'a word" where
  "saturating_add a b = (if unat a + unat b < 2 ^ LENGTH('a) then a + b else - 1)"

section \<open>State and atomic operations\<close>

record circuit_breaker_config =
  failure_threshold :: u32
  cooldown_ms :: u64

record circuit_breaker =
  cb_state :: u64
  cb_failures :: u32
  cb_threshold :: u32
  cb_cooldown_ms :: u64
  cb_epoch :: instant
  cb_api_id :: string

definition breaker_new :: "circuit_breaker_config \<Rightarrow> string \<Rightarrow> instant \<Rightarrow> circuit_breaker" where
  "breaker_new cfg api_id now =
     \<lparr>cb_state = pack CLOSED 0, cb_failures = 0, cb_threshold = failure_threshold cfg,
      cb_cooldown_ms = cooldown_ms cfg, cb_epoch = now, cb_api_id = api_id\<rparr>"

definition now_ms :: "circuit_breaker \<Rightarrow> instant \<Rightarrow> u64" where
  "now_ms cb now = word_of_nat (sat_u64 (as_millis (now - cb_epoch cb))) AND SINCE_MASK"

text \<open>Without interference the compare-exchange of the loop succeeds on its first turn.\<close>

definition try_acquire_at :: "circuit_breaker \<Rightarrow> u64 \<Rightarrow> bool \<times> circuit_breaker" where
  "try_acquire_at cb now =
     (case unpack (cb_state cb) of (st, since) \<Rightarrow>
        if st = CLOSED then (True, cb)
        else if now < saturating_add since (cb_cooldown_ms cb) then (False, cb)
        else (True, cb\<lparr>cb_state := pack HALF_OPEN now\<rparr>))"

definition record_success :: "circuit_breaker \<Rightarrow> circuit_breaker" where
  "record_success cb =
     (let cb1 = cb\<lparr>cb_failures := 0\<rparr>
      in if fst (unpack (cb_state cb1)) = HALF_OPEN
         then cb1\<lparr>cb_state := pack CLOSED 0\<rparr> else cb1)"

definition record_failure_at :: "circuit_breaker \<Rightarrow> u64 \<Rightarrow> circuit_breaker" where
  "record_failure_at cb now =
     (let st = fst (unpack (cb_state cb))
      in if st = HALF_OPEN then cb\<lparr>cb_state := pack OPEN now\<rparr>
         else if st = CLOSED then
           (let failures = saturating_add (cb_failures cb) 1;
                cb1 = cb\<lparr>cb_failures := cb_failures cb + 1\<rparr>
            in if failures \<ge> cb_threshold cb
               then cb1\<lparr>cb_state := pack OPEN now, cb_failures := 0\<rparr> else cb1)
         else cb)"

definition try_acquire :: "circuit_breaker \<Rightarrow> instant \<Rightarrow> bool \<times> circuit_breaker" where
  "try_acquire cb now = try_acquire_at cb (now_ms cb now)"

definition record_failure :: "circuit_breaker \<Rightarrow> instant \<Rightarrow> circuit_breaker" where
  "record_failure cb now = record_failure_at cb (now_ms cb now)"

definition state_name :: "circuit_breaker \<Rightarrow> string" where
  "state_name cb =
     (let st = fst (unpack (cb_state cb))
      in if st = OPEN then ''open'' else if st = HALF_OPEN then ''half_open'' else ''closed'')"

section \<open>The methods as interleaved atomic steps\<close>

text \<open>
  One value per point of a method between two atomic accesses: \<open>TryLoad n\<close> is about to
  load the word, \<open>TryCas n w\<close> about to compare-exchange the word \<open>w\<close> it saw, and so on.
\<close>

datatype cb_pc =
    TryLoad u64 | TryCas u64 u64 | TryDone bool
  | SuccStore | SuccLoad | SuccCas u64 | SuccDone
  | FailLoad u64 | FailCasHalf u64 u64 | FailAdd u64 u64 | FailCasClosed u64 u64
  | FailReset | FailDone

definition tag_of :: "u64 \<Rightarrow> u64" where
  "tag_of w = fst (unpack w)"

fun micro_step :: "circuit_breaker \<Rightarrow> cb_pc \<Rightarrow> circuit_breaker \<times> cb_pc" where
  "micro_step cb (TryLoad n) =
     (let w = cb_state cb; (st, since) = unpack w
      in if st = CLOSED then (cb, TryDone True)
         else if n < saturating_add since (cb_cooldown_ms cb) then (cb, TryDone False)
         else (cb, TryCas n w))"
| "micro_step cb (TryCas n w) =
     (if cb_state cb = w then (cb\<lparr>cb_state := pack HALF_OPEN n\<rparr>, TryDone True)
      else (cb, TryLoad n))"
| "micro_step cb SuccStore = (cb\<lparr>cb_failures := 0\<rparr>, SuccLoad)"
| "micro_step cb SuccLoad =
     (if tag_of (cb_state cb) = HALF_OPEN then (cb, SuccCas (cb_state cb)) else (cb, SuccDone))"
| "micro_step cb (SuccCas w) =
     (if cb_state cb = w then (cb\<lparr>cb_state := pack CLOSED 0\<rparr>, SuccDone) else (cb, SuccDone))"
| "micro_step cb (FailLoad n) =
     (let w = cb_state cb
      in if tag_of w = HALF_OPEN then (cb, FailCasHalf n w)
         else if tag_of w = CLOSED then (cb, FailAdd n w)
         else (cb, FailDone))"
| "micro_step cb (FailCasHalf n w) =
     (if cb_state cb = w then (cb\<lparr>cb_state := pack OPEN n\<rparr>, FailDone) else (cb, FailDone))"
| "micro_step cb (FailAdd n w) =
     (let failures = saturating_add (cb_failures cb) 1
      in (cb\<lparr>cb_failures := cb_failures cb + 1\<rparr>,
          if failures \<ge> cb_threshold cb then FailCasClosed n w else FailDone))"
| "micro_step cb (FailCasClosed n w) =
     (if cb_state cb = w then (cb\<lparr>cb_state := pack OPEN n\<rparr>, FailReset) else (cb, FailDone))"
| "micro_step cb FailReset = (cb\<lparr>cb_failures := 0\<rparr>, FailDone)"
| "micro_step cb pc = (cb, pc)"

text \<open>
  The system: one shared breaker and a point per thread. A thread may start a call with any
  clock reading its \<open>now_ms\<close> can return, and takes its atomic steps one at a time.
\<close>

inductive cb_step :: "circuit_breaker \<times> (nat \<Rightarrow> cb_pc) \<Rightarrow> circuit_breaker \<times> (nat \<Rightarrow> cb_pc) \<Rightarrow> bool"
where
  call: "pc \<in> {TryLoad n, SuccStore, FailLoad n} \<Longrightarrow> n AND SINCE_MASK = n \<Longrightarrow>
     cb_step (cb, pcs) (cb, pcs(i := pc))"
| micro: "micro_step cb (pcs i) = (cb', pc') \<Longrightarrow> cb_step (cb, pcs) (cb', pcs(i := pc'))"

inductive cb_reachable :: "circuit_breaker \<times> (nat \<Rightarrow> cb_pc) \<Rightarrow> bool" where
  start: "cb_reachable (breaker_new cfg api now, \<lambda>_. FailDone)"
| step: "cb_reachable s \<Longrightarrow> cb_step s s' \<Longrightarrow> cb_reachable s'"

section \<open>The abstract three-state machine\<close>

datatype circuit = Closed | Opened u64 | HalfOpened u64

definition circuit_of :: "u64 \<Rightarrow> circuit" where
  "circuit_of w =
     (let (st, since) = unpack w
      in if st = OPEN then Opened since else if st = HALF_OPEN then HalfOpened since else Closed)"

inductive circuit_step :: "u64 \<Rightarrow> circuit \<Rightarrow> circuit \<Rightarrow> bool" where
  trip: "circuit_step cd Closed (Opened n)"
| trial: "saturating_add t cd \<le> n \<Longrightarrow> circuit_step cd (Opened t) (HalfOpened n)"
| retrial: "saturating_add t cd \<le> n \<Longrightarrow> circuit_step cd (HalfOpened t) (HalfOpened n)"
| recover: "circuit_step cd (HalfOpened t) Closed"
| reopen: "circuit_step cd (HalfOpened t) (Opened n)"

inductive_cases circuit_step_OpenedE: "circuit_step cd (Opened t) c"
inductive_cases circuit_step_ClosedE: "circuit_step cd Closed c"

section \<open>Lemmas\<close>

lemma unat_lt_2p_u32: "unat (w :: u32) < 2 ^ 32"
  using unsigned_less [of w] by simp

lemma SINCE_MASK_mask: "SINCE_MASK = mask 62"
  by (simp add: SINCE_MASK_def SINCE_BITS_def mask_eq_exp_minus_1)

lemma and_since_mask: "w AND SINCE_MASK = take_bit 62 w"
  by (simp add: SINCE_MASK_mask take_bit_eq_mask)

lemma tags_distinct [simp]:
  "CLOSED \<noteq> OPEN" "OPEN \<noteq> CLOSED" "CLOSED \<noteq> HALF_OPEN" "HALF_OPEN \<noteq> CLOSED"
  "OPEN \<noteq> HALF_OPEN" "HALF_OPEN \<noteq> OPEN"
  by (simp_all add: CLOSED_def OPEN_def HALF_OPEN_def)

lemma since_of_pack: "snd (unpack (pack st n)) = n AND SINCE_MASK"
  by (simp add: unpack_def pack_def SINCE_BITS_def and_since_mask take_bit_or take_bit_push_bit)

lemma tag_of_pack:
  assumes "st \<in> {CLOSED, OPEN, HALF_OPEN}"
  shows "fst (unpack (pack st n)) = st"
proof -
  have "drop_bit 62 (push_bit 62 st) = st"
    using assms by (auto simp: CLOSED_def OPEN_def HALF_OPEN_def)
  then show ?thesis
    by (simp add: unpack_def pack_def SINCE_BITS_def and_since_mask drop_bit_take_bit)
qed

lemma unpack_pack [simp]:
  "unpack (pack CLOSED n) = (CLOSED, n AND SINCE_MASK)"
  "unpack (pack OPEN n) = (OPEN, n AND SINCE_MASK)"
  "unpack (pack HALF_OPEN n) = (HALF_OPEN, n AND SINCE_MASK)"
  by (simp_all add: prod_eq_iff tag_of_pack since_of_pack)

lemma circuit_of_pack [simp]:
  "circuit_of (pack CLOSED n) = Closed"
  "circuit_of (pack OPEN n) = Opened (n AND SINCE_MASK)"
  "circuit_of (pack HALF_OPEN n) = HalfOpened (n AND SINCE_MASK)"
  by (simp_all add: circuit_of_def)

lemma now_ms_masked: "now_ms cb now AND SINCE_MASK = now_ms cb now"
  by (simp add: now_ms_def and.assoc)

subsection \<open>What the threads know\<close>

definition tag_ok :: "u64 \<Rightarrow> bool" where
  "tag_ok w \<longleftrightarrow> tag_of w \<in> {CLOSED, OPEN, HALF_OPEN}"

text \<open>
  The facts a thread has established about the word it is about to compare-exchange. They
  speak of that word, not of the shared one, so no other thread can break them.
\<close>

fun pc_ok :: "u64 \<Rightarrow> cb_pc \<Rightarrow> bool" where
  "pc_ok cd (TryLoad n) = (n AND SINCE_MASK = n)"
| "pc_ok cd (TryCas n w) =
     (n AND SINCE_MASK = n \<and> tag_of w \<in> {OPEN, HALF_OPEN} \<and> saturating_add (snd (unpack w)) cd \<le> n)"
| "pc_ok cd (SuccCas w) = (tag_of w = HALF_OPEN)"
| "pc_ok cd (FailLoad n) = (n AND SINCE_MASK = n)"
| "pc_ok cd (FailCasHalf n w) = (n AND SINCE_MASK = n \<and> tag_of w = HALF_OPEN)"
| "pc_ok cd (FailAdd n w) = (n AND SINCE_MASK = n \<and> tag_of w = CLOSED)"
| "pc_ok cd (FailCasClosed n w) = (n AND SINCE_MASK = n \<and> tag_of w = CLOSED)"
| "pc_ok cd _ = True"

definition sys_ok :: "circuit_breaker \<times> (nat \<Rightarrow> cb_pc) \<Rightarrow> bool" where
  "sys_ok s \<longleftrightarrow> tag_ok (cb_state (fst s)) \<and> (\<forall>i. pc_ok (cb_cooldown_ms (fst s)) (snd s i))"

lemma micro_step_cooldown [simp]: "cb_cooldown_ms (fst (micro_step cb pc)) = cb_cooldown_ms cb"
  by (cases pc) (auto simp: Let_def split: prod.splits)

lemma tag_of_pack_simps [simp]:
  "tag_of (pack CLOSED n) = CLOSED" "tag_of (pack OPEN n) = OPEN" "tag_of (pack HALF_OPEN n) = HALF_OPEN"
  by (simp_all add: tag_of_def)

lemma micro_step_ok:
  assumes "tag_ok (cb_state cb)" and "pc_ok (cb_cooldown_ms cb) pc"
  shows "tag_ok (cb_state (fst (micro_step cb pc)))
    \<and> pc_ok (cb_cooldown_ms cb) (snd (micro_step cb pc))"
  using assms
  by (cases pc) (auto simp: Let_def tag_ok_def tag_of_def split: prod.splits)

lemma micro_step_circuit:
  assumes "tag_ok (cb_state cb)" and "pc_ok (cb_cooldown_ms cb) pc"
  shows "circuit_of (cb_state (fst (micro_step cb pc))) = circuit_of (cb_state cb)
    \<or> circuit_step (cb_cooldown_ms cb) (circuit_of (cb_state cb))
        (circuit_of (cb_state (fst (micro_step cb pc))))"
  using assms
  by (cases pc)
     (auto simp: Let_def circuit_of_def [of "cb_state cb"] tag_of_def intro: circuit_step.intros
      split: prod.splits)

lemma sys_ok_step: "cb_step s s' \<Longrightarrow> sys_ok s \<Longrightarrow> sys_ok s'"
proof (induction rule: cb_step.induct)
  case (call pc n cb pcs i)
  then show ?case by (auto simp: sys_ok_def)
next
  case (micro cb pcs i cb' pc')
  then show ?case
    using micro_step_ok [of cb "pcs i"] micro_step_cooldown [of cb "pcs i"]
    by (auto simp: sys_ok_def)
qed

lemma cb_reachable_ok: "cb_reachable s \<Longrightarrow> sys_ok s"
proof (induction rule: cb_reachable.induct)
  case (start cfg api now)
  show ?case by (simp add: sys_ok_def tag_ok_def breaker_new_def)
next
  case (step s s')
  then show ?case by (blast intro: sys_ok_step)
qed

section \<open>Properties\<close>

text \<open>
  C5. Lock-free refinement: in every reachable state of any number of threads running
  \<open>try_acquire\<close>, \<open>record_success\<close> and \<open>record_failure\<close> with their atomic accesses
  interleaved arbitrarily, the next step either leaves the circuit as it is or is one
  transition of the three-state machine: closed to open, open or half-open to half-open
  once the cooldown since the recorded timestamp is over, half-open to closed or open.
  An open circuit is never closed directly and a trial is never granted early.
\<close>

theorem breaker_interleaving_refines_circuit:
  assumes "cb_reachable (cb, pcs)" and "cb_step (cb, pcs) (cb', pcs')"
  shows "circuit_of (cb_state cb') = circuit_of (cb_state cb)
    \<or> circuit_step (cb_cooldown_ms cb) (circuit_of (cb_state cb)) (circuit_of (cb_state cb'))"
proof -
  from assms(1) have ok: "sys_ok (cb, pcs)" by (rule cb_reachable_ok)
  from assms(2) show ?thesis
  proof cases
    case (call pc n i)
    then show ?thesis by simp
  next
    case (micro i pc')
    with ok micro_step_circuit [of cb "pcs i"] show ?thesis
      by (simp add: sys_ok_def)
  qed
qed

theorem breaker_interleaving_refines_circuit_witness:
  "\<exists>cb pcs. cb_reachable (cb, pcs) \<and> cb_step (cb, pcs) (cb, pcs(0 := FailLoad 0))
   \<and> circuit_of (cb_state cb) = Closed"
proof (intro exI conjI)
  let ?cb = "breaker_new \<lparr>failure_threshold = 1, cooldown_ms = 5\<rparr> ''api'' 0"
  show r: "cb_reachable (?cb, \<lambda>_. FailDone)" by (rule cb_reachable.start)
  show s: "cb_step (?cb, \<lambda>_. FailDone) (?cb, (\<lambda>_. FailDone)(0 := FailLoad 0))"
    by (rule cb_step.call [where n = 0]) auto
  show "circuit_of (cb_state ?cb) = Closed"
    using breaker_interleaving_refines_circuit [OF r s] by (simp add: breaker_new_def)
qed

text \<open>
  The breaker trips after exactly \<open>failure_threshold\<close> consecutive failures: starting
  closed with a zero counter, while fewer failures have been recorded it stays closed and
  admits every request; the failure that reaches the threshold opens it at that failure's
  timestamp and resets the counter.
\<close>

definition record_failures :: "circuit_breaker \<Rightarrow> u64 list \<Rightarrow> circuit_breaker" where
  "record_failures cb ns = foldl record_failure_at cb ns"

lemma record_failure_closed:
  assumes "circuit_of (cb_state cb) = Closed" and "tag_ok (cb_state cb)"
    and "unat (cb_failures cb) + 1 < unat (cb_threshold cb)"
  shows "record_failure_at cb n = cb\<lparr>cb_failures := cb_failures cb + 1\<rparr>
    \<and> unat (cb_failures cb + 1) = unat (cb_failures cb) + 1"
proof -
  have small: "unat (cb_failures cb) + 1 < 2 ^ 32"
    using assms(3) unat_lt_2p_u32 [of "cb_threshold cb"] by simp
  then have suc: "unat (cb_failures cb + 1) = unat (cb_failures cb) + 1"
    by (simp add: unat_word_ariths)
  then have "\<not> cb_threshold cb \<le> cb_failures cb + 1"
    using assms(3) by (simp add: word_le_nat_alt)
  moreover have "fst (unpack (cb_state cb)) = CLOSED"
    using assms(1,2) by (auto simp: circuit_of_def tag_ok_def tag_of_def split: prod.splits if_splits)
  ultimately show ?thesis
    using small suc by (simp add: record_failure_at_def saturating_add_def Let_def)
qed

lemma record_failures_closed:
  assumes "circuit_of (cb_state cb) = Closed" and "tag_ok (cb_state cb)"
    and "unat (cb_failures cb) + length ns < unat (cb_threshold cb)"
  shows "cb_state (record_failures cb ns) = cb_state cb
    \<and> cb_threshold (record_failures cb ns) = cb_threshold cb
    \<and> unat (cb_failures (record_failures cb ns)) = unat (cb_failures cb) + length ns"
  using assms
proof (induction ns arbitrary: cb)
  case Nil
  then show ?case by (simp add: record_failures_def)
next
  case (Cons n ns)
  then have "record_failure_at cb n = cb\<lparr>cb_failures := cb_failures cb + 1\<rparr>"
    and "unat (cb_failures cb + 1) = unat (cb_failures cb) + 1"
    using record_failure_closed [of cb n] by auto
  with Cons.IH [of "cb\<lparr>cb_failures := cb_failures cb + 1\<rparr>"] Cons.prems show ?case
    by (simp add: record_failures_def)
qed

theorem breaker_trips_at_threshold:
  fixes cfg :: circuit_breaker_config and api :: string and start :: instant and m n :: u64
  assumes "0 < failure_threshold cfg" and "length ns < unat (failure_threshold cfg)"
  defines "cb \<equiv> record_failures (breaker_new cfg api start) ns"
  shows "state_name cb = ''closed'' \<and> try_acquire_at cb m = (True, cb)
    \<and> (Suc (length ns) = unat (failure_threshold cfg) \<longrightarrow>
        circuit_of (cb_state (record_failure_at cb n)) = Opened (n AND SINCE_MASK)
        \<and> cb_failures (record_failure_at cb n) = 0)"
proof -
  let ?cb0 = "breaker_new cfg api start"
  have r: "cb_state cb = pack CLOSED 0 \<and> cb_threshold cb = failure_threshold cfg
      \<and> unat (cb_failures cb) = length ns"
    using record_failures_closed [of ?cb0 ns] assms(2)
    by (simp add: cb_def breaker_new_def tag_ok_def)
  have "record_failure_at cb n = cb\<lparr>cb_state := pack OPEN n, cb_failures := 0\<rparr>"
    if last: "Suc (length ns) = unat (failure_threshold cfg)"
  proof -
    have "unat (cb_failures cb) + 1 < 2 ^ 32"
      using r last unat_lt_2p_u32 [of "failure_threshold cfg"] by simp
    then have "unat (cb_failures cb + 1) = unat (failure_threshold cfg)"
      using r last by (simp add: unat_word_ariths)
    with r \<open>unat (cb_failures cb) + 1 < 2 ^ 32\<close> show ?thesis
      by (simp add: record_failure_at_def saturating_add_def Let_def word_le_nat_alt)
  qed
  with r show ?thesis
    by (simp add: state_name_def try_acquire_at_def)
qed

theorem breaker_trips_at_threshold_witness:
  "circuit_of (cb_state (record_failure_at (record_failures
      (breaker_new \<lparr>failure_threshold = 2, cooldown_ms = 5\<rparr> ''api'' 0) [10]) 11)) = Opened 11"
  using breaker_trips_at_threshold
    [of "\<lparr>failure_threshold = 2, cooldown_ms = 5\<rparr>" "[10]" "''api''" 0 0 11]
  by (simp add: SINCE_MASK_def SINCE_BITS_def)

text \<open>
  Shedding and recovery: an open circuit rejects every request before the cooldown has
  passed and changes nothing; the first request after it is admitted as the trial and moves
  the circuit to half-open, where further requests are rejected until another cooldown has
  passed; the trial's success closes the circuit, its failure re-opens it at the failure's
  timestamp; a success reported while the circuit is open never closes it.
\<close>

theorem breaker_cooldown_and_trial:
  assumes "circuit_of (cb_state cb) = Opened t" and "n AND SINCE_MASK = n"
  shows "(n < saturating_add t (cb_cooldown_ms cb) \<longrightarrow> try_acquire_at cb n = (False, cb))
    \<and> (saturating_add t (cb_cooldown_ms cb) \<le> n \<longrightarrow>
        (let (ok, cb') = try_acquire_at cb n
         in ok \<and> circuit_of (cb_state cb') = HalfOpened n
          \<and> (\<forall>m. m < saturating_add n (cb_cooldown_ms cb) \<longrightarrow> try_acquire_at cb' m = (False, cb'))
          \<and> circuit_of (cb_state (record_success cb')) = Closed
          \<and> cb_failures (record_success cb') = 0
          \<and> circuit_of (cb_state (record_failure_at cb' m')) = Opened (m' AND SINCE_MASK)))
    \<and> circuit_of (cb_state (record_success cb)) = Opened t
    \<and> record_failure_at cb m' = cb"
proof -
  from assms(1) have u: "unpack (cb_state cb) = (OPEN, t)"
    by (auto simp: circuit_of_def split: prod.splits if_splits)
  with assms show ?thesis
    by (auto simp: try_acquire_at_def record_success_def record_failure_at_def Let_def circuit_of_def)
qed

theorem breaker_cooldown_and_trial_witness:
  "fst (try_acquire_at (record_failure_at
      (breaker_new \<lparr>failure_threshold = 1, cooldown_ms = 5\<rparr> ''api'' 0) 10) 14) = False
   \<and> fst (try_acquire_at (record_failure_at
      (breaker_new \<lparr>failure_threshold = 1, cooldown_ms = 5\<rparr> ''api'' 0) 10) 15) = True"
proof -
  let ?cb = "record_failure_at (breaker_new \<lparr>failure_threshold = 1, cooldown_ms = 5\<rparr> ''api'' 0) 10"
  have o: "circuit_of (cb_state ?cb) = Opened 10" and c: "cb_cooldown_ms ?cb = 5"
    by (simp_all add: record_failure_at_def breaker_new_def saturating_add_def Let_def
        SINCE_MASK_def SINCE_BITS_def)
  have m: "(14 :: u64) AND SINCE_MASK = 14" "(15 :: u64) AND SINCE_MASK = 15"
    by (simp_all add: SINCE_MASK_def SINCE_BITS_def)
  show ?thesis
    using breaker_cooldown_and_trial [OF o m(1), of 0] breaker_cooldown_and_trial [OF o m(2), of 0]
    by (cases "try_acquire_at ?cb 15") (simp add: c saturating_add_def)
qed

text \<open>
  A late success of a request admitted before the trip also closes a half-open
  circuit: request A is admitted while closed, the circuit trips, the cooldown passes and B
  is admitted as the trial; when A then reports success the circuit closes although the
  trial B is still in flight. (The comment in \<open>record_success\<close> says that only the trial's
  success closes it.)
\<close>

theorem straggler_success_closes_half_open:
  "let cb0 = breaker_new \<lparr>failure_threshold = 1, cooldown_ms = 5\<rparr> ''api'' 0;
       (a, cb1) = try_acquire_at cb0 1;
       cb2 = record_failure_at cb1 2;
       (b, cb3) = try_acquire_at cb2 7;
       cb4 = record_success cb3
   in a \<and> b \<and> state_name cb2 = ''open'' \<and> state_name cb3 = ''half_open''
    \<and> state_name cb4 = ''closed'' \<and> fst (try_acquire_at cb4 7)"
  by (simp add: breaker_new_def try_acquire_at_def record_failure_at_def record_success_def
      state_name_def saturating_add_def Let_def SINCE_MASK_def SINCE_BITS_def)

end
