(* ===== verification/Api_Definition.thy ===== *)
theory Api_Definition
  imports Auth_Config Cors Rewrite Rate_Limit Breaker
begin

text \<open>
  API definitions: \<open>ApiDefinition\<close> and its settings (\<open>g2-core/src/api_definition.rs\<close>),
  versioning with the effective definition of each version (\<open>g2-core/src/versioning.rs\<close>),
  validation, and the precomputed upstream target (\<open>UpstreamTarget::build\<close> of
  \<open>g2-proxy/src/forward.rs\<close>). Body transforms, GraphQL and plugin settings are opaque here:
  \<open>config_ext\<close> carries their validators along with the URI parser.
\<close>

section \<open>Settings\<close>

record service_discovery_config =
  sd_endpoint :: string
  sd_data_path :: string
  sd_port_data_path :: "string option"
  sd_parent_data_path :: "string option"
  sd_scheme :: string
  sd_interval_ms :: nat
  sd_timeout_ms :: nat

record cache_config =
  ca_ttl_secs :: nat
  ca_max_body_bytes :: nat

datatype version_location = VLHeader | VLQueryParam

record ('b, 'g, 'p) version_overrides =
  vo_expires_at :: "nat option"
  vo_target_url :: "string option"
  vo_target_list :: "string list option"
  vo_upstream_timeout_ms :: "nat option"
  vo_transform_headers :: "header_transforms option"
  vo_transform_body :: "'b option"
  vo_url_rewrites :: "url_rewrite_rule list option"
  vo_transform_method :: "string option"
  vo_allow_paths :: "path_rule list option"
  vo_block_paths :: "path_rule list option"
  vo_ignore_auth_paths :: "path_rule list option"
  vo_mock_responses :: "mock_response list option"
  vo_endpoint_rate_limits :: "endpoint_rate_limit list option"
  vo_health_check :: "health_check_config option"
  vo_service_discovery :: "service_discovery_config option"
  vo_circuit_breaker :: "circuit_breaker_config option"
  vo_upstream_retries :: "nat option"
  vo_enable_upgrades :: "bool option"
  vo_upstream_http2 :: "bool option"
  vo_cache :: "cache_config option"
  vo_graphql :: "'g option"
  vo_plugins :: "'p option"

record ('b, 'g, 'p) versioning_config =
  vc_location :: version_location
  vc_key :: string
  vc_default_version :: "string option"
  vc_versions :: "(string \<times> ('b, 'g, 'p) version_overrides) list"

record ('b, 'g, 'p) api_definition =
  ad_api_id :: string
  ad_name :: string
  ad_org_id :: string
  ad_listen_path :: string
  ad_target_url :: string
  ad_target_list :: "string list"
  ad_strip_listen_path :: bool
  ad_preserve_host_header :: bool
  ad_upstream_timeout_ms :: nat
  ad_active :: bool
  ad_auth :: auth_config
  ad_transform_headers :: "header_transforms option"
  ad_transform_body :: "'b option"
  ad_url_rewrites :: "url_rewrite_rule list"
  ad_transform_method :: "string option"
  ad_allow_paths :: "path_rule list"
  ad_block_paths :: "path_rule list"
  ad_ignore_auth_paths :: "path_rule list"
  ad_mock_responses :: "mock_response list"
  ad_endpoint_rate_limits :: "endpoint_rate_limit list"
  ad_cors :: "cors_config option"
  ad_allow_ips :: "string list"
  ad_block_ips :: "string list"
  ad_max_request_body_bytes :: "nat option"
  ad_health_check :: "health_check_config option"
  ad_service_discovery :: "service_discovery_config option"
  ad_circuit_breaker :: "circuit_breaker_config option"
  ad_upstream_retries :: nat
  ad_enable_upgrades :: bool
  ad_upstream_http2 :: bool
  ad_cache :: "cache_config option"
  ad_versioning :: "('b, 'g, 'p) versioning_config option"
  ad_graphql :: "'g option"
  ad_plugins :: "'p option"

record ('b, 'g, 'p) config_ext =
  ce_parse_uri :: "string \<Rightarrow> string + uri_parts"
  ce_path_and_query_ok :: "string \<Rightarrow> bool"
  ce_body_validate :: "'b \<Rightarrow> string \<Rightarrow> (error, unit) res"
  ce_graphql_validate :: "'g \<Rightarrow> string \<Rightarrow> (error, unit) res"
  ce_graphql_subscriptions :: "'g \<Rightarrow> bool"
  ce_plugins_validate :: "'p \<Rightarrow> string \<Rightarrow> (error, unit) res"

section \<open>Storage keys\<close>

definition api_definition_key_prefix :: "string \<Rightarrow> string" where
  "api_definition_key_prefix org_id = ''g2:'' @ org_id @ '':apidef:''"

definition api_definition_storage_key :: "string \<Rightarrow> string \<Rightarrow> string" where
  "api_definition_storage_key org_id api_id = api_definition_key_prefix org_id @ api_id"

definition response_cache_key_prefix :: "string \<Rightarrow> string \<Rightarrow> string" where
  "response_cache_key_prefix org_id scope = ''g2:'' @ org_id @ '':cache:'' @ scope @ '':''"

section \<open>Validation\<close>

definition check_target_url :: "(string \<Rightarrow> string + uri_parts) \<Rightarrow> string \<Rightarrow> (string, unit) res" where
  "check_target_url parse_uri url =
     (case parse_uri url of
        Inl e \<Rightarrow> Err (''is not a valid URL: '' @ e)
      | Inr uri \<Rightarrow>
          if uri_scheme uri = Some ''http'' \<or> uri_scheme uri = Some ''https'' then
            (if uri_authority uri = None then Err ''must include a host'' else Ok ())
          else Err (''must use http or https, got `''
            @ (case uri_scheme uri of Some s \<Rightarrow> s | None \<Rightarrow> ''<none>'') @ ''`''))"

text \<open>A check whose failure reason the caller wraps into its own error.\<close>

definition wrap_err :: "('a \<Rightarrow> 'e) \<Rightarrow> ('a, unit) res \<Rightarrow> ('e, unit) res" where
  "wrap_err f r = (case r of Ok _ \<Rightarrow> Ok () | Err e \<Rightarrow> Err (f e) | Panic \<Rightarrow> Panic)"

definition health_check_validate :: "('b, 'g, 'p) config_ext \<Rightarrow> health_check_config \<Rightarrow> string \<Rightarrow> (error, unit) res"
where
  "health_check_validate E c api =
     (let fail = InvalidApiDefinition api in
      and_then (require (prefix ''/'' (hc_path c))
                 (fail (''`health_check.path` must start with '' @ [CHR 0x27, CHR ''/'', CHR 0x27]
                   @ '', got `'' @ hc_path c @ ''`'')))
     (and_then (require (ce_path_and_query_ok E (hc_path c))
                 (fail (''`health_check.path` is not a valid URL path: `'' @ hc_path c @ ''`'')))
     (and_then (require (hc_interval_ms c \<noteq> 0) (fail ''`health_check.interval_ms` must be greater than zero''))
     (and_then (require (hc_timeout_ms c \<noteq> 0) (fail ''`health_check.timeout_ms` must be greater than zero''))
     (and_then (require (hc_unhealthy_threshold c \<noteq> 0)
                 (fail ''`health_check.unhealthy_threshold` must be greater than zero''))
               (require (hc_healthy_threshold c \<noteq> 0)
                 (fail ''`health_check.healthy_threshold` must be greater than zero'')))))))"

definition check_data_path :: "string \<Rightarrow> (string, unit) res" where
  "check_data_path path =
     (if path \<noteq> [] \<and> list_ex (\<lambda>s. s = []) (split_on (CHR ''.'') path)
      then Err (''has an empty segment: `'' @ path @ ''`'') else Ok ())"

definition service_discovery_validate :: "('b, 'g, 'p) config_ext \<Rightarrow> service_discovery_config \<Rightarrow> string \<Rightarrow>
    (error, unit) res" where
  "service_discovery_validate E c api =
     (let fail = InvalidApiDefinition api;
          path = (\<lambda>name p. case p of
             None \<Rightarrow> Ok ()
           | Some s \<Rightarrow> wrap_err (\<lambda>reason. fail (''`service_discovery.'' @ name @ ''` '' @ reason)) (check_data_path s))
      in and_then (wrap_err (\<lambda>reason. fail (''`service_discovery.endpoint` '' @ reason))
                    (check_target_url (ce_parse_uri E) (sd_endpoint c)))
        (and_then (require (sd_scheme c = ''http'' \<or> sd_scheme c = ''https'')
                    (fail (''`service_discovery.scheme` must be `http` or `https`, got `'' @ sd_scheme c @ ''`'')))
        (and_then (require (sd_interval_ms c \<noteq> 0)
                    (fail ''`service_discovery.interval_ms` must be greater than zero''))
        (and_then (require (sd_timeout_ms c \<noteq> 0)
                    (fail ''`service_discovery.timeout_ms` must be greater than zero''))
        (and_then (path ''data_path'' (Some (sd_data_path c)))
        (and_then (path ''port_data_path'' (sd_port_data_path c))
                  (path ''parent_data_path'' (sd_parent_data_path c))))))))"

definition circuit_breaker_validate :: "circuit_breaker_config \<Rightarrow> string \<Rightarrow> (error, unit) res" where
  "circuit_breaker_validate c api =
     and_then (require (failure_threshold c \<noteq> 0)
                (InvalidApiDefinition api ''`circuit_breaker.failure_threshold` must be greater than zero''))
              (require (cooldown_ms c \<noteq> 0)
                (InvalidApiDefinition api ''`circuit_breaker.cooldown_ms` must be greater than zero''))"

definition cache_validate :: "cache_config \<Rightarrow> string \<Rightarrow> string \<Rightarrow> (error, unit) res" where
  "cache_validate c api field_prefix =
     and_then (require (ca_ttl_secs c \<noteq> 0)
                (InvalidApiDefinition api (''`'' @ field_prefix @ ''.ttl_secs` must be greater than zero'')))
              (require (ca_max_body_bytes c \<noteq> 0)
                (InvalidApiDefinition api (''`'' @ field_prefix @ ''.max_body_bytes` must be greater than zero'')))"

definition graphql_subscriptions_enabled :: "('b, 'g, 'p) config_ext \<Rightarrow> ('b, 'g, 'p) api_definition \<Rightarrow> bool" where
  "graphql_subscriptions_enabled E d =
     (case ad_graphql d of Some g \<Rightarrow> ce_graphql_subscriptions E g | None \<Rightarrow> False)"

text \<open>An optional part, and a list of parts validated with their index.\<close>

definition validate_opt :: "('a \<Rightarrow> (error, unit) res) \<Rightarrow> 'a option \<Rightarrow> (error, unit) res" where
  "validate_opt f x = (case x of Some v \<Rightarrow> f v | None \<Rightarrow> Ok ())"

fun validate_each :: "(nat \<Rightarrow> 'a \<Rightarrow> (error, unit) res) \<Rightarrow> nat \<Rightarrow> 'a list \<Rightarrow> (error, unit) res" where
  "validate_each f i [] = Ok ()"
| "validate_each f i (x # xs) = and_then (f i x) (validate_each f (i + 1) xs)"

text \<open>
  The checks of \<open>ApiDefinition::validate\<close> before versioning, in three stretches of the
  function: identity and target, traffic rules, and upstream behaviour.
\<close>

definition validate_identity :: "('b, 'g, 'p) config_ext \<Rightarrow> 'h http_ext \<Rightarrow> ('b, 'g, 'p) api_definition \<Rightarrow>
    (error, unit) res" where
  "validate_identity E X d =
     (let fail = InvalidApiDefinition (ad_api_id d) in
      and_then (require (\<not> is_blank (ad_api_id d)) (fail ''`api_id` must not be empty''))
     (and_then (require (\<not> is_blank (ad_name d)) (fail ''`name` must not be empty''))
     (and_then (require (\<not> is_blank (ad_org_id d)) (fail ''`org_id` must not be empty''))
     (and_then (require (prefix ''/'' (ad_listen_path d))
                 (fail (''`listen_path` must start with '' @ [CHR 0x27, CHR ''/'', CHR 0x27]
                   @ '', got `'' @ ad_listen_path d @ ''`'')))
     (and_then (require (ad_upstream_timeout_ms d \<noteq> 0) (fail ''`upstream_timeout_ms` must be greater than zero''))
     (and_then (wrap_err (\<lambda>reason. fail (''`target_url` '' @ reason))
                 (check_target_url (ce_parse_uri E) (ad_target_url d)))
     (and_then (validate_each (\<lambda>i url. wrap_err (\<lambda>reason. fail (''`target_list['' @ show_nat i @ '']` '' @ reason))
                   (check_target_url (ce_parse_uri E) url)) 0 (ad_target_list d))
               (auth_validate (ce_parse_uri E) X (ad_auth d) (ad_api_id d)))))))))"

definition validate_rules :: "('b, 'g, 'p) config_ext \<Rightarrow> 'h http_ext \<Rightarrow> 'r regex_ext \<Rightarrow> 'n ipnet_ext \<Rightarrow>
    ('b, 'g, 'p) api_definition \<Rightarrow> (error, unit) res" where
  "validate_rules E X R N d =
     (let api = ad_api_id d in
      and_then (validate_opt (\<lambda>t. header_transforms_validate X t api) (ad_transform_headers d))
     (and_then (validate_opt (\<lambda>t. ce_body_validate E t api) (ad_transform_body d))
     (and_then (validate_each (\<lambda>i r. url_rewrite_validate R r api i) 0 (ad_url_rewrites d))
     (and_then (validate_opt (\<lambda>m. validate_transform_method m api) (ad_transform_method d))
     (and_then (validate_each (\<lambda>i r. path_rule_validate R r api ''allow_paths'' i) 0 (ad_allow_paths d))
     (and_then (validate_each (\<lambda>i r. path_rule_validate R r api ''block_paths'' i) 0 (ad_block_paths d))
     (and_then (validate_each (\<lambda>i r. path_rule_validate R r api ''ignore_auth_paths'' i) 0 (ad_ignore_auth_paths d))
     (and_then (validate_each (\<lambda>i m. mock_response_validate X R m api i) 0 (ad_mock_responses d))
     (and_then (validate_each (\<lambda>i r. endpoint_rate_limit_validate R r api i) 0 (ad_endpoint_rate_limits d))
     (and_then (validate_opt (\<lambda>c. cors_validate (ce_parse_uri E) X c api) (ad_cors d))
     (and_then (validate_ip_list N (ad_allow_ips d) api ''allow_ips'')
               (validate_ip_list N (ad_block_ips d) api ''block_ips''))))))))))))"

definition validate_upstream :: "('b, 'g, 'p) config_ext \<Rightarrow> ('b, 'g, 'p) api_definition \<Rightarrow> (error, unit) res" where
  "validate_upstream E d =
     (let api = ad_api_id d; fail = InvalidApiDefinition api in
      and_then (require (ad_max_request_body_bytes d \<noteq> Some 0)
                 (fail ''`max_request_body_bytes` must be greater than zero (omit it for no limit)''))
     (and_then (validate_opt (\<lambda>c. health_check_validate E c api) (ad_health_check d))
     (and_then (validate_opt (\<lambda>c. service_discovery_validate E c api) (ad_service_discovery d))
     (and_then (validate_opt (\<lambda>c. circuit_breaker_validate c api) (ad_circuit_breaker d))
     (and_then (require (ad_upstream_retries d \<le> 10)
                 (fail (''`upstream_retries` must be at most 10, got '' @ show_nat (ad_upstream_retries d))))
     (and_then (require (\<not> (ad_upstream_http2 d \<and> ad_enable_upgrades d))
                 (fail (''`upstream_http2` cannot be combined with `enable_upgrades`: an HTTP/1.1 ''
                   @ ''`Connection: Upgrade` cannot cross an HTTP/2-only upstream connection'')))
     (and_then (require (\<not> (ad_upstream_http2 d \<and> graphql_subscriptions_enabled E d))
                 (fail (''`upstream_http2` cannot be combined with `graphql.subscriptions`: the ''
                   @ ''subscription WebSocket upgrade cannot cross an HTTP/2-only upstream ''
                   @ ''connection'')))
     (and_then (validate_opt (\<lambda>c. cache_validate c api ''cache'') (ad_cache d))
     (and_then (validate_opt (\<lambda>g. ce_graphql_validate E g api) (ad_graphql d))
               (validate_opt (\<lambda>p. ce_plugins_validate E p api) (ad_plugins d)))))))))))"

definition validate_base :: "('b, 'g, 'p) config_ext \<Rightarrow> 'h http_ext \<Rightarrow> 'r regex_ext \<Rightarrow> 'n ipnet_ext \<Rightarrow>
    ('b, 'g, 'p) api_definition \<Rightarrow> (error, unit) res" where
  "validate_base E X R N d =
     and_then (validate_identity E X d) (and_then (validate_rules E X R N d) (validate_upstream E d))"

section \<open>Versioning\<close>

definition override :: "'a option \<Rightarrow> 'a \<Rightarrow> 'a" where
  "override x base = (case x of Some v \<Rightarrow> v | None \<Rightarrow> base)"

definition override_opt :: "'a option \<Rightarrow> 'a option \<Rightarrow> 'a option" where
  "override_opt x base = (case x of Some v \<Rightarrow> Some v | None \<Rightarrow> base)"

definition versioning_apply :: "('b, 'g, 'p) versioning_config \<Rightarrow> ('b, 'g, 'p) api_definition \<Rightarrow> string \<Rightarrow>
    ('b, 'g, 'p) api_definition option" where
  "versioning_apply v base version =
     (case map_of (vc_versions v) version of
        None \<Rightarrow> None
      | Some ov \<Rightarrow>
          Some (base
           \<lparr>ad_versioning := None,
            ad_target_url := override (vo_target_url ov) (ad_target_url base),
            ad_target_list := override (vo_target_list ov) (ad_target_list base),
            ad_upstream_timeout_ms := override (vo_upstream_timeout_ms ov) (ad_upstream_timeout_ms base),
            ad_transform_headers := override_opt (vo_transform_headers ov) (ad_transform_headers base),
            ad_transform_body := override_opt (vo_transform_body ov) (ad_transform_body base),
            ad_url_rewrites := override (vo_url_rewrites ov) (ad_url_rewrites base),
            ad_transform_method := override_opt (vo_transform_method ov) (ad_transform_method base),
            ad_allow_paths := override (vo_allow_paths ov) (ad_allow_paths base),
            ad_block_paths := override (vo_block_paths ov) (ad_block_paths base),
            ad_ignore_auth_paths := override (vo_ignore_auth_paths ov) (ad_ignore_auth_paths base),
            ad_mock_responses := override (vo_mock_responses ov) (ad_mock_responses base),
            ad_endpoint_rate_limits := override (vo_endpoint_rate_limits ov) (ad_endpoint_rate_limits base),
            ad_health_check := override_opt (vo_health_check ov) (ad_health_check base),
            ad_service_discovery := override_opt (vo_service_discovery ov) (ad_service_discovery base),
            ad_circuit_breaker := override_opt (vo_circuit_breaker ov) (ad_circuit_breaker base),
            ad_upstream_retries := override (vo_upstream_retries ov) (ad_upstream_retries base),
            ad_enable_upgrades := override (vo_enable_upgrades ov) (ad_enable_upgrades base),
            ad_upstream_http2 := override (vo_upstream_http2 ov) (ad_upstream_http2 base),
            ad_cache := override_opt (vo_cache ov) (ad_cache base),
            ad_graphql := override_opt (vo_graphql ov) (ad_graphql base),
            ad_plugins := override_opt (vo_plugins ov) (ad_plugins base)\<rparr>))"

text \<open>
  The loop over the versions. \<open>effective.validate()\<close> runs on a definition whose versioning was
  removed, so it is \<open>validate_base\<close>; only an \<open>InvalidApiDefinition\<close> is taken up. A missing
  version is the panic of \<open>expect\<close>.
\<close>

fun versions_validate :: "('b, 'g, 'p) config_ext \<Rightarrow> 'h http_ext \<Rightarrow> 'r regex_ext \<Rightarrow> 'n ipnet_ext \<Rightarrow>
    ('b, 'g, 'p) versioning_config \<Rightarrow> ('b, 'g, 'p) api_definition \<Rightarrow>
    (string \<times> ('b, 'g, 'p) version_overrides) list \<Rightarrow> (error, unit) res" where
  "versions_validate E X R N v base [] = Ok ()"
| "versions_validate E X R N v base ((name, ov) # rest) =
     (case versioning_apply v base name of
        None \<Rightarrow> Panic
      | Some eff \<Rightarrow>
          if vo_target_url ov \<noteq> None \<and> ad_target_list eff \<noteq> [] then
            Err (InvalidApiDefinition (ad_api_id base)
              (''version `'' @ name @ ''`: the `target_url` override has no effect while the ''
               @ ''effective `target_list` is non-empty; override `target_list` instead''))
          else (case validate_base E X R N eff of
                  Err (InvalidApiDefinition api reason) \<Rightarrow>
                    Err (InvalidApiDefinition api (''version `'' @ name @ ''`: '' @ reason))
                | Panic \<Rightarrow> Panic
                | _ \<Rightarrow> versions_validate E X R N v base rest))"

definition versioning_validate :: "('b, 'g, 'p) config_ext \<Rightarrow> 'h http_ext \<Rightarrow> 'r regex_ext \<Rightarrow> 'n ipnet_ext \<Rightarrow>
    ('b, 'g, 'p) versioning_config \<Rightarrow> ('b, 'g, 'p) api_definition \<Rightarrow> (error, unit) res" where
  "versioning_validate E X R N v base =
     (let fail = InvalidApiDefinition (ad_api_id base) in
      and_then (case vc_location v of
                  VLHeader \<Rightarrow> require (hn_parse X (vc_key v) \<noteq> None)
                    (fail (''`versioning.key` is not a valid header name: `'' @ vc_key v @ ''`''))
                | VLQueryParam \<Rightarrow> require (\<not> is_blank (vc_key v)) (fail ''`versioning.key` must not be empty''))
     (and_then (require (vc_versions v \<noteq> []) (fail ''`versioning.versions` must define at least one version''))
     (and_then (first_failure (\<lambda>name. name \<noteq> [] \<and> trim name = name)
                 (\<lambda>name. fail (''version name `'' @ name @ ''` must be non-empty without surrounding whitespace''))
                 (map fst (vc_versions v)))
     (and_then (case vc_default_version v of
                  None \<Rightarrow> Ok ()
                | Some def \<Rightarrow> require (map_of (vc_versions v) def \<noteq> None)
                    (fail (''`versioning.default_version` (`'' @ def @ ''`) is not a configured version'')))
               (versions_validate E X R N v base (vc_versions v))))))"

definition api_validate :: "('b, 'g, 'p) config_ext \<Rightarrow> 'h http_ext \<Rightarrow> 'r regex_ext \<Rightarrow> 'n ipnet_ext \<Rightarrow>
    ('b, 'g, 'p) api_definition \<Rightarrow> (error, unit) res" where
  "api_validate E X R N d =
     and_then (validate_base E X R N d)
              (validate_opt (\<lambda>v. versioning_validate E X R N v d) (ad_versioning d))"

section \<open>The upstream target\<close>

record 'r built_target =
  bt_target :: "'r upstream_target"
  bt_addrs :: "upstream_addr list"
  bt_health_checked :: bool
  bt_breaker :: "circuit_breaker_config option"
  bt_discovery :: bool

definition upstream_target_build :: "('b, 'g, 'p) config_ext \<Rightarrow> 'h http_ext \<Rightarrow> 'r regex_ext \<Rightarrow> 'n ipnet_ext \<Rightarrow>
    ('b, 'g, 'p) api_definition \<Rightarrow> (error, 'r built_target) res" where
  "upstream_target_build E X R N d =
     bind_res (api_validate E X R N d) (\<lambda>_.
     bind_res (traverse (\<lambda>url. case from_url (ce_parse_uri E) url of Some a \<Rightarrow> Ok a | None \<Rightarrow> Panic)
                 (if ad_target_list d = [] then [ad_target_url d] else ad_target_list d)) (\<lambda>addrs.
     bind_res (traverse (compiled_rewrite_compile R (ad_api_id d)) (ad_url_rewrites d)) (\<lambda>rewrites.
     bind_res (case ad_transform_method d of
                 None \<Rightarrow> Ok None
               | Some m \<Rightarrow>
                   (case method_parse X (to_ascii_uppercase m) of
                      Some p \<Rightarrow> Ok (Some p)
                    | None \<Rightarrow> Err (InvalidApiDefinition (ad_api_id d)
                        (''`transform_method` is not a valid method: `'' @ m @ ''`'')))) (\<lambda>method_override.
       let forwards = (ad_versioning d = None)
       in Ok \<lparr>bt_target =
                \<lparr>tg_api_id = ad_api_id d,
                 tg_listen_prefix = trim_end_matches (CHR ''/'') (ad_listen_path d),
                 tg_strip_listen_path = ad_strip_listen_path d,
                 tg_preserve_host_header = ad_preserve_host_header d,
                 tg_timeout = from_millis (ad_upstream_timeout_ms d),
                 tg_rewrites = rewrites,
                 tg_method_override = method_override,
                 tg_retries = ad_upstream_retries d,
                 tg_upgrades_enabled = (ad_enable_upgrades d \<or> graphql_subscriptions_enabled E d),
                 tg_http2 = ad_upstream_http2 d\<rparr>,
              bt_addrs = addrs,
              bt_health_checked = (forwards \<and> ad_health_check d \<noteq> None),
              bt_breaker = (if forwards then ad_circuit_breaker d else None),
              bt_discovery = (forwards \<and> ad_service_discovery d \<noteq> None)\<rparr>))))"

section \<open>Lemmas: validated parts compile\<close>

lemma wrap_err_Ok [simp]: "wrap_err f r = Ok () \<longleftrightarrow> r = Ok ()"
  by (cases r) (simp_all add: wrap_err_def)

lemma validate_opt_Ok: "validate_opt f x = Ok () \<longleftrightarrow> (\<forall>v. x = Some v \<longrightarrow> f v = Ok ())"
  by (cases x) (simp_all add: validate_opt_def)

lemma validate_each_Ok:
  "validate_each f i xs = Ok () \<longleftrightarrow> (\<forall>j < length xs. f (i + j) (xs ! j) = Ok ())"
proof (induction xs arbitrary: i)
  case Nil
  then show ?case by simp
next
  case (Cons x xs)
  then show ?case by (auto simp: less_Suc_eq_0_disj)
qed

lemma validate_each_mem:
  "validate_each f i xs = Ok () \<Longrightarrow> x \<in> set xs \<Longrightarrow> \<exists>j. f j x = Ok ()"
  by (auto simp: validate_each_Ok in_set_conv_nth)

lemma path_rules_valid_each:
  "validate_each (\<lambda>i r. path_rule_validate R r api l i) 0 rules = Ok () \<Longrightarrow> path_rules_valid R api l rules"
  by (auto simp: path_rules_valid_def list_all_iff validate_each_Ok in_set_enumerate_eq)

text \<open>What the method and header-value parsers document, as far as route building relies on it.\<close>

definition parsers_documented :: "'h http_ext \<Rightarrow> bool" where
  "parsers_documented X \<longleftrightarrow>
     (\<forall>m \<in> set TRANSFORM_METHODS. method_parse X m = Some m)
     \<and> (\<forall>s. visible s \<longrightarrow> hv_from_str X s = Some s)
     \<and> (\<forall>n. hn_parse X n \<noteq> None \<longrightarrow> visible n)"

lemma visible_append [simp]: "visible (a @ b) \<longleftrightarrow> visible a \<and> visible b"
  by (simp add: visible_def)

lemma documented_methods:
  "parsers_documented X \<Longrightarrow> validate_methods ms api l i = Ok () \<Longrightarrow> \<exists>ys. compile_methods X what api ms = Ok ys"
  by (rule compile_methods_validated) (simp_all add: parsers_documented_def)

lemma visible_join: "\<forall>x \<in> set xs. visible x \<Longrightarrow> visible sep \<Longrightarrow> visible (join_strings sep xs)"
  by (auto simp: join_strings_def visible_def list_all_iff split: list.splits)

lemma visible_transform_method: "m \<in> set TRANSFORM_METHODS \<Longrightarrow> visible m"
  by (auto simp: TRANSFORM_METHODS_def visible_def)

lemma visible_show_nat [simp]: "visible (show_nat n)"
proof -
  have "is_digit c \<Longrightarrow> 32 \<le> (of_char c :: nat) \<and> (of_char c :: nat) < 127" for c
    by (simp add: is_digit_def)
  then show ?thesis using show_nat_digits [of n] by (auto simp: visible_def list_all_iff)
qed

lemma mock_headers_validate_Ok:
  "mock_headers_validate X fail i nvs = Ok () \<Longrightarrow> (n, v) \<in> set nvs \<Longrightarrow> hn_parse X n \<noteq> None \<and> hv_from_str X v \<noteq> None"
  by (induction X fail i nvs rule: mock_headers_validate.induct) (auto split: if_splits)

lemma compile_regex_validated:
  "validate_pattern R p api l i = Ok () \<Longrightarrow> \<exists>r. compile_regex R what api p = Ok r"
  by (simp add: validate_pattern_Ok compile_regex_Ok)

lemma mock_validated:
  assumes "parsers_documented X" and "mock_response_validate X R m api i = Ok ()"
  shows "\<exists>c. compiled_mock_compile X R api m = Ok c"
proof -
  have v: "validate_pattern R (mr_pattern m) api ''mock_responses'' i = Ok ()"
    "validate_methods (mr_methods m) api ''mock_responses'' i = Ok ()" "status_from_u16 (mr_status m) \<noteq> None"
    "mock_headers_validate X (InvalidApiDefinition api) i (mr_headers m) = Ok ()"
    using assms(2) by (simp_all add: mock_response_validate_def)
  obtain g where "compile_regex R ''mock'' api (mr_pattern m) = Ok g"
    using compile_regex_validated [OF v(1)] by blast
  moreover obtain ms where "compile_methods X ''mock'' api (mr_methods m) = Ok ms"
    using documented_methods [OF assms(1) v(2)] by blast
  moreover have "\<exists>hs. traverse (\<lambda>(name, v).
         case hn_parse X name of
           None \<Rightarrow> Err (InvalidApiDefinition api (''invalid mock header name `'' @ name @ ''`''))
         | Some n \<Rightarrow>
             (case hv_from_str X v of
                None \<Rightarrow> Err (InvalidApiDefinition api (''invalid mock header value for `'' @ name @ ''`''))
              | Some w \<Rightarrow> Ok (n, w))) (mr_headers m) = Ok hs"
    using mock_headers_validate_Ok [OF v(4)] by (intro traverse_total) fastforce
  ultimately show ?thesis
    using v(3) by (auto simp: compiled_mock_compile_def bind_res_def)
qed

lemma endpoint_limit_validated:
  assumes "parsers_documented X" and "endpoint_rate_limit_validate R r api i = Ok ()"
  shows "\<exists>c. compile_endpoint_limit X R api org scope (k, r) = Ok c"
proof -
  have v: "validate_pattern R (er_pattern r) api ''endpoint_rate_limits'' i = Ok ()"
    "validate_methods (er_methods r) api ''endpoint_rate_limits'' i = Ok ()"
    using assms(2) by (simp_all add: endpoint_rate_limit_validate_def Let_def)
  obtain g ms where "compile_regex R ''endpoint rate-limit'' api (er_pattern r) = Ok g"
    "compile_methods X ''endpoint rate-limit'' api (er_methods r) = Ok ms"
    using compile_regex_validated [OF v(1)] documented_methods [OF assms(1) v(2)] by blast
  then show ?thesis by (simp add: compile_endpoint_limit_def bind_res_def)
qed

lemma ip_list_validated: "validate_ip_list N xs api f = Ok () \<Longrightarrow> \<exists>ys. parse_ip_list N api g xs = Ok ys"
  unfolding parse_ip_list_def
proof (rule traverse_total)
  fix x
  assume "validate_ip_list N xs api f = Ok ()" "x \<in> set xs"
  then have "parse_ip_entry N x \<noteq> None"
    by (induction xs) (auto split: if_splits)
  then show "\<exists>y. (case parse_ip_entry N x of Some net \<Rightarrow> Ok net
      | None \<Rightarrow> Err (InvalidApiDefinition api
                   (''`'' @ g @ ''` entry is not an IP or CIDR: `'' @ x @ ''`''))) = Ok y" by auto
qed

lemma from_url_checked: "check_target_url p url = Ok () \<Longrightarrow> \<exists>a. from_url p url = Some a"
  by (auto simp: check_target_url_def from_url_def try_from_url_def split: sum.splits option.splits if_splits)

lemma rewrite_validated:
  "url_rewrite_validate R r api i = Ok () \<Longrightarrow> \<exists>c. compiled_rewrite_compile R api r = Ok c"
  by (auto simp: url_rewrite_validate_def compiled_rewrite_compile_def split: sum.splits)

lemma cors_methods_validated:
  "list_all (\<lambda>m. list_ex (\<lambda>t. eq_ignore_ascii_case t m) TRANSFORM_METHODS) ms \<Longrightarrow> validate_methods ms api l i = Ok ()"
  by (auto simp: validate_methods_Ok list_all_iff list_ex_iff)

lemma compile_methods_visible:
  assumes "parsers_documented X" and "validate_methods ms api l i = Ok ()" and "compile_methods X what api ms = Ok ys"
  shows "\<forall>y \<in> set ys. visible y"
proof
  fix y
  assume "y \<in> set ys"
  with assms(3) obtain m where "m \<in> set ms" and p: "method_parse X (to_ascii_uppercase m) = Some y"
    by (fastforce simp: compile_methods_def traverse_Ok list_all2_conv_all_nth in_set_conv_nth split: option.splits)
  with assms(2) obtain t where t: "t \<in> set TRANSFORM_METHODS" "eq_ignore_ascii_case t m"
    by (auto simp: validate_methods_Ok)
  then have "to_ascii_uppercase m = t" using eq_ignore_upper transform_methods_upper by metis
  with p t assms(1) have "y = t" by (auto simp: parsers_documented_def)
  with t show "visible y" by (simp add: visible_transform_method)
qed

lemma cors_validated:
  assumes "parsers_documented X" and "cors_validate p X c api = Ok ()"
  shows "\<exists>st. cors_from_config X c api = Ok st"
proof -
  have v: "validate_methods (cc_allowed_methods c) api l i = Ok ()" for l i
    using assms(2) by (intro cors_methods_validated) (simp add: cors_validate_def Let_def)
  obtain ms where ms: "compile_methods X ''CORS'' api (cc_allowed_methods c) = Ok ms"
    using documented_methods [OF assms(1) v [of "[]" 0]] by blast
  have vis: "\<forall>x \<in> set ms. visible x"
    using compile_methods_visible [OF assms(1) v [of "[]" 0] ms] .
  have hs: "\<forall>n \<in> set (cc_allowed_headers c). visible n" "\<forall>n \<in> set (cc_exposed_headers c). visible n"
    using assms by (auto simp: cors_validate_def Let_def list_all_iff parsers_documented_def)
  have join: "\<forall>x \<in> set xs. visible x \<Longrightarrow> hv_from_str X (join_strings '', '' xs) = Some (join_strings '', '' xs)" for xs
    using assms(1) visible_join [of xs "'', ''"] by (simp add: parsers_documented_def visible_def [of "'', ''"])
  have num: "hv_from_str X (show_nat n) = Some (show_nat n)" for n
    using assms(1) by (simp add: parsers_documented_def)
  show ?thesis
    using join [OF vis] join [OF hs(1)] join [OF hs(2)] num
    by (simp add: cors_from_config_def ms bind_res_def cors_join_def cors_join_opt_def cors_max_age_def
        split: option.splits)
qed

lemma target_validated:
  assumes "parsers_documented X" and "api_validate E X R N d = Ok ()"
  shows "\<exists>t. upstream_target_build E X R N d = Ok t"
proof -
  have i: "validate_identity E X d = Ok ()" and r: "validate_rules E X R N d = Ok ()"
    using assms(2) by (simp_all add: api_validate_def validate_base_def)
  have "check_target_url (ce_parse_uri E) url = Ok ()"
    if "url \<in> set (if ad_target_list d = [] then [ad_target_url d] else ad_target_list d)" for url
    using i that by (auto simp: validate_identity_def Let_def dest: validate_each_mem split: if_splits)
  then obtain as where as: "traverse (\<lambda>url. case from_url (ce_parse_uri E) url of Some a \<Rightarrow> Ok a | None \<Rightarrow> (Panic :: (error, upstream_addr) res))
      (if ad_target_list d = [] then [ad_target_url d] else ad_target_list d) = Ok as"
    using traverse_total [of "if ad_target_list d = [] then [ad_target_url d] else ad_target_list d"
        "\<lambda>url. case from_url (ce_parse_uri E) url of Some a \<Rightarrow> Ok a | None \<Rightarrow> (Panic :: (error, upstream_addr) res)"]
    by (metis from_url_checked option.simps(5))
  have "\<exists>ws. traverse (compiled_rewrite_compile R (ad_api_id d)) (ad_url_rewrites d) = Ok ws"
    using r by (intro traverse_total) (auto simp: validate_rules_def Let_def dest!: validate_each_mem rewrite_validated)
  then obtain ws where ws: "traverse (compiled_rewrite_compile R (ad_api_id d)) (ad_url_rewrites d) = Ok ws" ..
  have mo: "method_parse X (to_ascii_uppercase m) \<noteq> None" if "ad_transform_method d = Some m" for m
  proof -
    have "validate_transform_method m (ad_api_id d) = Ok ()"
      using r that by (simp add: validate_rules_def Let_def validate_opt_Ok)
    then obtain t where t: "t \<in> set TRANSFORM_METHODS" "eq_ignore_ascii_case t m"
      by (auto simp: validate_transform_method_def list_ex_iff split: if_splits)
    then have "to_ascii_uppercase m = t" using eq_ignore_upper transform_methods_upper by metis
    with t assms(1) show ?thesis by (simp add: parsers_documented_def)
  qed
  show ?thesis
    unfolding upstream_target_build_def as ws assms(2) bind_res_def res.case
    using mo by (cases "ad_transform_method d") (auto simp: Let_def)
qed

section \<open>Lemmas: validation only reports invalid definitions\<close>

definition only_invalid :: "(error, unit) res \<Rightarrow> bool" where
  "only_invalid r \<longleftrightarrow> (\<forall>e. r = Err e \<longrightarrow> (\<exists>a m. e = InvalidApiDefinition a m))"

lemma only_invalid_simps [simp]:
  "only_invalid (Ok ())" "only_invalid (Err (InvalidApiDefinition a m))"
  "only_invalid (require b (InvalidApiDefinition a m))"
  by (auto simp: only_invalid_def require_def)

lemma only_invalid_and_then [intro!]: "only_invalid r \<Longrightarrow> only_invalid k \<Longrightarrow> only_invalid (and_then r k)"
  by (auto simp: only_invalid_def and_then_def split: res.splits)

lemma only_invalid_opt [intro!]: "(\<And>v. only_invalid (f v)) \<Longrightarrow> only_invalid (validate_opt f x)"
  by (auto simp: validate_opt_def split: option.splits)

lemma only_invalid_each [intro!]: "(\<And>i v. only_invalid (f i v)) \<Longrightarrow> only_invalid (validate_each f i xs)"
  by (induction xs arbitrary: i) auto

lemma only_invalid_wrap [intro!]: "(\<And>x. \<exists>a m. f x = InvalidApiDefinition a m) \<Longrightarrow> only_invalid (wrap_err f r)"
  by (auto simp: wrap_err_def only_invalid_def split: res.splits)

lemma only_invalid_failure [intro!]:
  "(\<And>x. \<exists>a m. f x = InvalidApiDefinition a m) \<Longrightarrow> only_invalid (first_failure ok f xs)"
  by (induction xs) (auto simp: only_invalid_def)

text \<open>The opaque validators report their failures the same way.\<close>

definition config_documented :: "('b, 'g, 'p) config_ext \<Rightarrow> bool" where
  "config_documented E \<longleftrightarrow>
     (\<forall>b api. only_invalid (ce_body_validate E b api)) \<and> (\<forall>g api. only_invalid (ce_graphql_validate E g api))
     \<and> (\<forall>p api. only_invalid (ce_plugins_validate E p api))"

lemma only_invalid_pattern [simp]: "only_invalid (validate_pattern R p api l i)"
  by (auto simp: validate_pattern_def split: sum.splits)

lemma only_invalid_methods [simp]: "only_invalid (validate_methods ms api l i)"
  by (induction ms) auto

lemma only_invalid_mock_headers [simp]: "only_invalid (mock_headers_validate X (InvalidApiDefinition api) i nvs)"
  by (induction nvs) auto

lemma only_invalid_header_rules [simp]:
  "only_invalid (add_rules_validate X api dir nvs)" "only_invalid (remove_rules_validate X api dir ns)"
  by (induction nvs, auto) (induction ns, auto)

lemma only_invalid_ip_list [simp]: "only_invalid (validate_ip_list N xs api f)"
  by (induction xs) auto

lemma only_invalid_auth [simp]: "only_invalid (auth_validate p X a api)"
  by (auto simp: auth_validate_def auth_token_validate_def jwt_validate_def jwt_key_validate_def oidc_validate_def
      basic_auth_validate_def hmac_validate_def header_name_check_def jwks_url_check_def Let_def
      split: auth_config.splits jwt_signing_method.splits option.splits)

lemma only_invalid_identity: "only_invalid (validate_identity E X d)"
  by (auto simp: validate_identity_def Let_def)

lemma only_invalid_rules: "config_documented E \<Longrightarrow> only_invalid (validate_rules E X R N d)"
  unfolding validate_rules_def Let_def
  by (auto simp: config_documented_def header_transforms_validate_def header_transform_validate_def
      url_rewrite_validate_def validate_transform_method_def path_rule_validate_def mock_response_validate_def
      endpoint_rate_limit_validate_def cors_validate_def Let_def split: sum.splits)

lemma only_invalid_upstream: "config_documented E \<Longrightarrow> only_invalid (validate_upstream E d)"
  unfolding validate_upstream_def Let_def
  by (auto simp: config_documented_def health_check_validate_def service_discovery_validate_def
      circuit_breaker_validate_def cache_validate_def Let_def split: option.splits)

lemma only_invalid_base: "config_documented E \<Longrightarrow> only_invalid (validate_base E X R N d)"
  unfolding validate_base_def using only_invalid_identity only_invalid_rules only_invalid_upstream by blast

lemma versions_validate_mem:
  assumes "config_documented E" and "versions_validate E X R N v d vs = Ok ()" and "name \<in> fst ` set vs"
  shows "\<exists>eff. versioning_apply v d name = Some eff \<and> validate_base E X R N eff = Ok ()"
  using assms(2,3)
proof (induction vs)
  case Nil
  then show ?case by simp
next
  case (Cons nov rest)
  obtain n ov where nov: "nov = (n, ov)" by fastforce
  from Cons.prems(1) nov obtain eff where eff: "versioning_apply v d n = Some eff"
    by (auto split: option.splits)
  have "validate_base E X R N eff = Ok () \<and> versions_validate E X R N v d rest = Ok ()"
    using Cons.prems(1) nov eff only_invalid_base [OF assms(1), of X R N eff]
    by (auto simp: only_invalid_def split: if_splits res.splits error.splits)
  then show ?case using Cons nov eff by auto
qed

text \<open>
  A validated definition builds: when \<open>ApiDefinition::validate\<close> accepts it and the
  method and header parsers behave as documented, the upstream target, the path policy, the
  mock rules, the endpoint limits (under any scope), the address filter, the header
  transforms and the CORS policy all compile; none fails and no \<open>expect\<close> panics.
\<close>

lemma validated_definition_builds:
  assumes "parsers_documented X" and "api_validate E X R N d = Ok ()"
  shows "(\<exists>t. upstream_target_build E X R N d = Ok t)
    \<and> (\<exists>p. path_policy_from_config X R (ad_allow_paths d) (ad_block_paths d) (ad_ignore_auth_paths d) (ad_api_id d) = Ok p)
    \<and> (\<exists>m. mock_from_config X R (ad_mock_responses d) (ad_api_id d) = Ok m)
    \<and> (\<exists>l. endpoint_limits_from_config X R (ad_endpoint_rate_limits d) (ad_api_id d) (ad_org_id d) scope = Ok l)
    \<and> (\<exists>f. ip_filter_from_config N (ad_allow_ips d) (ad_block_ips d) (ad_api_id d) = Ok f)
    \<and> (\<forall>t. ad_transform_headers d = Some t \<longrightarrow> (\<exists>r. header_transform_from_config X t (ad_api_id d) = Ok r))
    \<and> (\<forall>c. ad_cors d = Some c \<longrightarrow> (\<exists>st. cors_from_config X c (ad_api_id d) = Ok st))"
proof (intro conjI)
  have r: "validate_rules E X R N d = Ok ()"
    using assms(2) by (simp add: api_validate_def validate_base_def)
  show "\<exists>t. upstream_target_build E X R N d = Ok t" by (rule target_validated [OF assms])
  have "path_rules_valid R (ad_api_id d) ''allow_paths'' (ad_allow_paths d)"
    "path_rules_valid R (ad_api_id d) ''block_paths'' (ad_block_paths d)"
    "path_rules_valid R (ad_api_id d) ''ignore_auth_paths'' (ad_ignore_auth_paths d)"
    using r by (auto simp: validate_rules_def Let_def intro: path_rules_valid_each)
  from path_policy_validated [OF this, of X] assms(1)
  show "\<exists>p. path_policy_from_config X R (ad_allow_paths d) (ad_block_paths d) (ad_ignore_auth_paths d) (ad_api_id d) = Ok p"
    by (auto simp: parsers_documented_def)
  have "\<exists>ms. traverse (compiled_mock_compile X R (ad_api_id d)) (ad_mock_responses d) = Ok ms"
    using r by (intro traverse_total)
      (auto simp: validate_rules_def Let_def dest!: validate_each_mem intro: mock_validated [OF assms(1)])
  then show "\<exists>m. mock_from_config X R (ad_mock_responses d) (ad_api_id d) = Ok m"
    by (auto simp: mock_from_config_def bind_res_def)
  have "\<exists>ls. traverse (compile_endpoint_limit X R (ad_api_id d) (ad_org_id d) scope)
      (List.enumerate 0 (ad_endpoint_rate_limits d)) = Ok ls"
  proof (rule traverse_total)
    fix ir
    assume "ir \<in> set (List.enumerate 0 (ad_endpoint_rate_limits d))"
    then have "fst ir < length (ad_endpoint_rate_limits d)" "ad_endpoint_rate_limits d ! fst ir = snd ir"
      by (simp_all add: in_set_enumerate_eq)
    then have "snd ir \<in> set (ad_endpoint_rate_limits d)" by (metis nth_mem)
    then obtain k rule where ir: "ir = (k, rule)" "rule \<in> set (ad_endpoint_rate_limits d)"
      by (cases "(fst ir, snd ir)") auto
    then obtain i where "endpoint_rate_limit_validate R rule (ad_api_id d) i = Ok ()"
      using r by (auto simp: validate_rules_def Let_def dest: validate_each_mem)
    then show "\<exists>y. compile_endpoint_limit X R (ad_api_id d) (ad_org_id d) scope ir = Ok y"
      using ir(1) endpoint_limit_validated [OF assms(1)] by blast
  qed
  then show "\<exists>l. endpoint_limits_from_config X R (ad_endpoint_rate_limits d) (ad_api_id d) (ad_org_id d) scope = Ok l"
    by (auto simp: endpoint_limits_from_config_def bind_res_def)
  have "validate_ip_list N (ad_allow_ips d) (ad_api_id d) ''allow_ips'' = Ok ()"
    "validate_ip_list N (ad_block_ips d) (ad_api_id d) ''block_ips'' = Ok ()"
    using r by (simp_all add: validate_rules_def Let_def)
  then obtain a b where "parse_ip_list N (ad_api_id d) ''allow_ips'' (ad_allow_ips d) = Ok a"
    "parse_ip_list N (ad_api_id d) ''block_ips'' (ad_block_ips d) = Ok b"
    using ip_list_validated by blast
  then show "\<exists>f. ip_filter_from_config N (ad_allow_ips d) (ad_block_ips d) (ad_api_id d) = Ok f"
    by (simp add: ip_filter_from_config_def bind_res_def)
  show "\<forall>t. ad_transform_headers d = Some t \<longrightarrow> (\<exists>r. header_transform_from_config X t (ad_api_id d) = Ok r)"
  proof (intro allI impI)
    fix t
    assume "ad_transform_headers d = Some t"
    with r have "header_transform_validate X (hts_request t) (ad_api_id d) ''request'' = Ok ()"
      "header_transform_validate X (hts_response t) (ad_api_id d) ''response'' = Ok ()"
      by (simp_all add: validate_rules_def Let_def validate_opt_Ok header_transforms_validate_def)
    then obtain q s where "compiled_rules_compile X (ad_api_id d) (hts_request t) = Ok q"
      "compiled_rules_compile X (ad_api_id d) (hts_response t) = Ok s"
      using compiled_rules_validated by metis
    then show "\<exists>r. header_transform_from_config X t (ad_api_id d) = Ok r"
      by (simp add: header_transform_from_config_def bind_res_def)
  qed
  show "\<forall>c. ad_cors d = Some c \<longrightarrow> (\<exists>st. cors_from_config X c (ad_api_id d) = Ok st)"
    using r cors_validated [OF assms(1)] by (auto simp: validate_rules_def Let_def validate_opt_Ok)
qed

definition sample_config :: "(unit, unit, unit) config_ext" where
  "sample_config = \<lparr>ce_parse_uri = sample_parse_uri, ce_path_and_query_ok = (\<lambda>p. visible p),
     ce_body_validate = (\<lambda>b api. Ok ()), ce_graphql_validate = (\<lambda>g api. Ok ()),
     ce_graphql_subscriptions = (\<lambda>g. False), ce_plugins_validate = (\<lambda>p api. Ok ())\<rparr>"

definition sample_definition :: "(unit, unit, unit) api_definition" where
  "sample_definition = \<lparr>ad_api_id = ''users'', ad_name = ''Users'', ad_org_id = ''default'',
     ad_listen_path = ''/users/'', ad_target_url = ''http://h/v1'', ad_target_list = [],
     ad_strip_listen_path = True, ad_preserve_host_header = False, ad_upstream_timeout_ms = 1,
     ad_active = True, ad_auth = Keyless, ad_transform_headers = None, ad_transform_body = None,
     ad_url_rewrites = [], ad_transform_method = None, ad_allow_paths = [],
     ad_block_paths = [\<lparr>pr_pattern = ''/x'', pr_methods = []\<rparr>], ad_ignore_auth_paths = [],
     ad_mock_responses = [], ad_endpoint_rate_limits = [], ad_cors = None, ad_allow_ips = [], ad_block_ips = [],
     ad_max_request_body_bytes = Some 5, ad_health_check = None, ad_service_discovery = None,
     ad_circuit_breaker = None, ad_upstream_retries = 2, ad_enable_upgrades = False, ad_upstream_http2 = False,
     ad_cache = None, ad_versioning = None, ad_graphql = None, ad_plugins = None\<rparr>"

lemma alist_documented: "parsers_documented alist_ext"
proof -
  have "method_parse alist_ext m = Some m" if "m \<in> set TRANSFORM_METHODS" for m
    using that by (auto simp: TRANSFORM_METHODS_def alist_ext_def token_def graphic_def)
  moreover have "visible n" if "token n" for n
    using that unfolding token_def visible_def graphic_def by (auto elim!: list.pred_mono_strong)
  ultimately show ?thesis
    unfolding parsers_documented_def by (simp add: alist_ext_def)
qed

lemma sample_url_ok: "check_target_url sample_parse_uri ''http://h/v1'' = Ok ()"
  by code_simp

lemma sample_definition_sel:
  "ad_api_id sample_definition = ''users''" "ad_name sample_definition = ''Users''"
  "ad_org_id sample_definition = ''default''" "ad_listen_path sample_definition = ''/users/''"
  "ad_target_url sample_definition = ''http://h/v1''" "ad_target_list sample_definition = []"
  "ad_upstream_timeout_ms sample_definition = 1" "ad_auth sample_definition = Keyless"
  "ad_transform_headers sample_definition = None" "ad_transform_body sample_definition = None"
  "ad_url_rewrites sample_definition = []" "ad_transform_method sample_definition = None"
  "ad_allow_paths sample_definition = []" "ad_block_paths sample_definition = [\<lparr>pr_pattern = ''/x'', pr_methods = []\<rparr>]"
  "ad_ignore_auth_paths sample_definition = []" "ad_mock_responses sample_definition = []"
  "ad_endpoint_rate_limits sample_definition = []" "ad_cors sample_definition = None"
  "ad_allow_ips sample_definition = []" "ad_block_ips sample_definition = []"
  "ad_max_request_body_bytes sample_definition = Some 5" "ad_health_check sample_definition = None"
  "ad_service_discovery sample_definition = None" "ad_circuit_breaker sample_definition = None"
  "ad_upstream_retries sample_definition = 2" "ad_enable_upgrades sample_definition = False"
  "ad_upstream_http2 sample_definition = False" "ad_cache sample_definition = None"
  "ad_versioning sample_definition = None" "ad_graphql sample_definition = None" "ad_plugins sample_definition = None"
  by (simp_all add: sample_definition_def)

lemmas validate_unfold = validate_identity_def validate_rules_def validate_upstream_def Let_def
  and_then_Ok require_Ok wrap_err_Ok validate_opt_def

lemma sample_definition_valid: "validate_base sample_config alist_ext literal_ext sample_net sample_definition = Ok ()"
  unfolding validate_base_def validate_unfold sample_definition_sel
  by (simp add: sample_config_def sample_url_ok auth_validate_def graphic_def path_rule_validate_def
      validate_pattern_def literal_ext_def)

text \<open>Every version of a validated definition has an effective definition, which is valid on its own.\<close>

lemma versions_effective:
  assumes "config_documented E" and "api_validate E X R N d = Ok ()" and "ad_versioning d = Some v"
    and "name \<in> fst ` set (vc_versions v)"
  shows "\<exists>eff. versioning_apply v d name = Some eff \<and> ad_versioning eff = None
    \<and> api_validate E X R N eff = Ok ()
    \<and> (\<forall>dv. vc_default_version v = Some dv \<longrightarrow> versioning_apply v d dv \<noteq> None)
    \<and> ad_api_id eff = ad_api_id d \<and> ad_org_id eff = ad_org_id d \<and> ad_listen_path eff = ad_listen_path d
    \<and> ad_auth eff = ad_auth d \<and> ad_allow_ips eff = ad_allow_ips d \<and> ad_block_ips eff = ad_block_ips d
    \<and> ad_cors eff = ad_cors d \<and> ad_max_request_body_bytes eff = ad_max_request_body_bytes d"
proof -
  have v: "versioning_validate E X R N v d = Ok ()"
    using assms(2,3) by (simp add: api_validate_def validate_opt_Ok)
  obtain eff where eff: "versioning_apply v d name = Some eff" "validate_base E X R N eff = Ok ()"
    using versions_validate_mem [OF assms(1) _ assms(4), of X R N v d] v
    by (auto simp: versioning_validate_def Let_def)
  have "versioning_apply v d dv \<noteq> None" if "vc_default_version v = Some dv" for dv
    using v that by (auto simp: versioning_validate_def versioning_apply_def Let_def)
  moreover have "ad_versioning eff = None \<and> ad_api_id eff = ad_api_id d \<and> ad_org_id eff = ad_org_id d
    \<and> ad_listen_path eff = ad_listen_path d \<and> ad_auth eff = ad_auth d \<and> ad_allow_ips eff = ad_allow_ips d
    \<and> ad_block_ips eff = ad_block_ips d \<and> ad_cors eff = ad_cors d
    \<and> ad_max_request_body_bytes eff = ad_max_request_body_bytes d"
    using eff(1) by (auto simp: versioning_apply_def split: option.splits)
  ultimately show ?thesis
    using eff by (simp add: api_validate_def validate_opt_def)
qed

section \<open>Properties\<close>

text \<open>
  C33. Versions of a validated definition: every configured version has an effective
  definition, which passes the whole validation on its own; the default version, if any, is
  a configured one; and whatever a version overrides, its effective definition keeps the
  API's identity, organization, listen path, authentication, address lists, CORS policy and
  body limit, and has no versioning of its own.
\<close>

theorem versions_effective_valid:
  assumes "config_documented E" and "api_validate E X R N d = Ok ()" and "ad_versioning d = Some v"
    and "name \<in> fst ` set (vc_versions v)"
  shows "\<exists>eff. versioning_apply v d name = Some eff \<and> ad_versioning eff = None
    \<and> api_validate E X R N eff = Ok ()
    \<and> (\<forall>dv. vc_default_version v = Some dv \<longrightarrow> versioning_apply v d dv \<noteq> None)
    \<and> ad_api_id eff = ad_api_id d \<and> ad_org_id eff = ad_org_id d \<and> ad_listen_path eff = ad_listen_path d
    \<and> ad_auth eff = ad_auth d \<and> ad_allow_ips eff = ad_allow_ips d \<and> ad_block_ips eff = ad_block_ips d
    \<and> ad_cors eff = ad_cors d \<and> ad_max_request_body_bytes eff = ad_max_request_body_bytes d"
  by (rule versions_effective [OF assms])

definition no_overrides :: "(unit, unit, unit) version_overrides" where
  "no_overrides = \<lparr>vo_expires_at = None, vo_target_url = None, vo_target_list = None, vo_upstream_timeout_ms = None,
     vo_transform_headers = None, vo_transform_body = None, vo_url_rewrites = None, vo_transform_method = None,
     vo_allow_paths = None, vo_block_paths = None, vo_ignore_auth_paths = None, vo_mock_responses = None,
     vo_endpoint_rate_limits = None, vo_health_check = None, vo_service_discovery = None, vo_circuit_breaker = None,
     vo_upstream_retries = None, vo_enable_upgrades = None, vo_upstream_http2 = None, vo_cache = None,
     vo_graphql = None, vo_plugins = None\<rparr>"

definition sample_versioning :: "(unit, unit, unit) versioning_config" where
  "sample_versioning = \<lparr>vc_location = VLQueryParam, vc_key = ''v'', vc_default_version = None,
     vc_versions = [(''a'', no_overrides)]\<rparr>"

lemma sample_versioning_sel:
  "vc_location sample_versioning = VLQueryParam" "vc_key sample_versioning = ''v''"
  "vc_default_version sample_versioning = None" "vc_versions sample_versioning = [(''a'', no_overrides)]"
  by (simp_all add: sample_versioning_def)

lemma trim_one: "trim ''a'' = ''a''"
  by code_simp

lemma no_overrides_apply: "versioning_apply sample_versioning (d\<lparr>ad_versioning := x\<rparr>) ''a'' = Some (d\<lparr>ad_versioning := None\<rparr>)"
  by (simp add: versioning_apply_def sample_versioning_def no_overrides_def override_def override_opt_def)

theorem versions_effective_valid_witness:
  "\<exists>eff. versioning_apply sample_versioning (sample_definition\<lparr>ad_versioning := Some sample_versioning\<rparr>) ''a'' = Some eff
    \<and> api_validate sample_config alist_ext literal_ext sample_net eff = Ok ()"
proof -
  let ?d = "sample_definition\<lparr>ad_versioning := Some sample_versioning\<rparr>"
  have b: "validate_base sample_config alist_ext literal_ext sample_net (sample_definition\<lparr>ad_versioning := x\<rparr>) = Ok ()" for x
    using sample_definition_valid
    by (simp add: validate_base_def validate_identity_def validate_rules_def validate_upstream_def
        graphql_subscriptions_enabled_def Let_def)
  have "versioning_validate sample_config alist_ext literal_ext sample_net sample_versioning ?d = Ok ()"
    unfolding versioning_validate_def Let_def and_then_Ok sample_versioning_sel
    using b [of None] no_overrides_apply [where d = sample_definition and x = "Some sample_versioning"]
    by (simp add: no_overrides_def graphic_def trim_one)
  with b have "api_validate sample_config alist_ext literal_ext sample_net ?d = Ok ()"
    by (simp add: api_validate_def validate_opt_def)
  moreover have "config_documented sample_config"
    by (simp add: config_documented_def sample_config_def)
  ultimately show ?thesis
    using versions_effective_valid [of sample_config alist_ext literal_ext sample_net ?d sample_versioning "''a''"]
    by (auto simp: sample_versioning_sel)
qed

end
