(* ===== verification/Router.thy ===== *)
theory Router
  imports Api_Definition "HOL-Library.Product_Lexorder" "HOL-Library.Multiset"
begin

text \<open>
  Where definitions come from and how requests find their API: the file loader and the merge
  of sources (\<open>g2-core/src/loader.rs\<close>), the storage loader (\<open>g2-storage/src/defs.rs\<close>), the
  route table (\<open>g2-proxy/src/router.rs\<close>) and the gateway's entry point (\<open>gateway.rs\<close>,
  \<open>response.rs\<close>). The file system and the document parsers are parameters.
\<close>

section \<open>Loading\<close>

text \<open>A directory entry: its path, its extension if it has a UTF-8 one, and what reading it gives.\<close>

datatype dir_entry = BadEntry string | FileEntry string "string option" "string + string"

fun load_entries :: "(string \<Rightarrow> string + ('b, 'g, 'p) api_definition) \<Rightarrow>
    (('b, 'g, 'p) api_definition \<Rightarrow> (error, unit) res) \<Rightarrow> string \<Rightarrow> dir_entry list \<Rightarrow>
    (error, ('b, 'g, 'p) api_definition list) res" where
  "load_entries parse validate dir [] = Ok []"
| "load_entries parse validate dir (BadEntry e # es) = Err (IoError dir e)"
| "load_entries parse validate dir (FileEntry path ext content # es) =
     (if (case ext of Some x \<Rightarrow> x \<in> {''json'', ''yaml'', ''yml''} | None \<Rightarrow> False) then
        (case content of
           Inl e \<Rightarrow> Err (IoError path e)
         | Inr raw \<Rightarrow>
             (case parse raw of
                Inl e \<Rightarrow> Err (ParseError path e)
              | Inr d \<Rightarrow>
                  bind_res (validate d) (\<lambda>_.
                  bind_res (load_entries parse validate dir es) (\<lambda>ds. Ok (d # ds)))))
      else load_entries parse validate dir es)"

definition normalized_path :: "('b, 'g, 'p) api_definition \<Rightarrow> string" where
  "normalized_path d = trim_end_matches (CHR ''/'') (ad_listen_path d)"

fun conflicts_from :: "string list \<Rightarrow> string list \<Rightarrow> ('b, 'g, 'p) api_definition list \<Rightarrow> (error, unit) res" where
  "conflicts_from ids paths [] = Ok ()"
| "conflicts_from ids paths (d # ds) =
     (if ad_api_id d \<in> set ids then
        Err (ConflictingApiDefinitions (''duplicate api_id `'' @ ad_api_id d @ ''`''))
      else if normalized_path d \<in> set paths then
        Err (ConflictingApiDefinitions (''duplicate listen_path `'' @ ad_listen_path d @ ''`''))
      else conflicts_from (ad_api_id d # ids) (normalized_path d # paths) ds)"

definition check_conflicts :: "('b, 'g, 'p) api_definition list \<Rightarrow> (error, unit) res" where
  "check_conflicts ds = conflicts_from [] [] ds"

definition load_dir :: "(string \<Rightarrow> string + dir_entry list) \<Rightarrow> (string \<Rightarrow> string + ('b, 'g, 'p) api_definition) \<Rightarrow>
    (('b, 'g, 'p) api_definition \<Rightarrow> (error, unit) res) \<Rightarrow> string \<Rightarrow> (error, ('b, 'g, 'p) api_definition list) res" where
  "load_dir read_dir parse validate dir =
     (case read_dir dir of
        Inl e \<Rightarrow> Err (IoError dir e)
      | Inr entries \<Rightarrow>
          bind_res (load_entries parse validate dir entries) (\<lambda>ds.
          bind_res (check_conflicts ds) (\<lambda>_. Ok (sort_key ad_api_id ds))))"

fun merge_from :: "(string \<times> string) list \<Rightarrow> (string \<times> string) list \<Rightarrow>
    (('b, 'g, 'p) api_definition \<times> string) list \<Rightarrow> (error, unit) res" where
  "merge_from ids paths [] = Ok ()"
| "merge_from ids paths ((d, source) # ds) =
     (case map_of ids (ad_api_id d) of
        Some prev \<Rightarrow> Err (ConflictingApiDefinitions
          (''duplicate api_id `'' @ ad_api_id d @ ''` ('' @ prev @ '' source and '' @ source @ '' source)''))
      | None \<Rightarrow>
          (case map_of paths (normalized_path d) of
             Some prev \<Rightarrow> Err (ConflictingApiDefinitions
               (''duplicate listen_path `'' @ ad_listen_path d @ ''` ('' @ prev @ '' source and '' @ source @ '' source)''))
           | None \<Rightarrow> merge_from ((ad_api_id d, source) # ids) ((normalized_path d, source) # paths) ds))"

definition merge_sources :: "('b, 'g, 'p) api_definition list \<Rightarrow> ('b, 'g, 'p) api_definition list \<Rightarrow>
    (error, ('b, 'g, 'p) api_definition list) res" where
  "merge_sources file_defs storage_defs =
     bind_res (merge_from [] [] (map (\<lambda>d. (d, ''file'')) file_defs @ map (\<lambda>d. (d, ''storage'')) storage_defs))
       (\<lambda>_. Ok (sort_key ad_api_id (file_defs @ storage_defs)))"

section \<open>Definitions in storage\<close>

datatype definition_load_error = LoadStorage storage_error | LoadRecord string string

text \<open>One read per key; \<open>show_error\<close> renders a validation error. The clock gives each read's instant.\<close>

fun load_records :: "'s storage_ops \<Rightarrow> (string \<Rightarrow> string + ('b, 'g, 'p) api_definition) \<Rightarrow>
    (('b, 'g, 'p) api_definition \<Rightarrow> (error, unit) res) \<Rightarrow> (error \<Rightarrow> string) \<Rightarrow> instant \<Rightarrow> 's \<Rightarrow> string list \<Rightarrow>
    (definition_load_error, ('b, 'g, 'p) api_definition list) res \<times> 's" where
  "load_records S parse validate show_error t s [] = (Ok [], s)"
| "load_records S parse validate show_error t s (key # keys) =
     (case st_get S s t key of
        (Err e, s') \<Rightarrow> (Err (LoadStorage e), s')
      | (Panic, s') \<Rightarrow> (Panic, s')
      | (Ok None, s') \<Rightarrow> load_records S parse validate show_error t s' keys
      | (Ok (Some raw), s') \<Rightarrow>
          (case parse raw of
             Inl e \<Rightarrow> (Err (LoadRecord key e), s')
           | Inr d \<Rightarrow>
               (case validate d of
                  Err e \<Rightarrow> (Err (LoadRecord key (show_error e)), s')
                | Panic \<Rightarrow> (Panic, s')
                | Ok _ \<Rightarrow>
                    if api_definition_storage_key (ad_org_id d) (ad_api_id d) \<noteq> key then
                      (Err (LoadRecord key (''record'' @ [CHR 0x27] @ ''s org_id `'' @ ad_org_id d @ ''` / api_id `''
                         @ ad_api_id d @ ''` do not match its storage key'')), s')
                    else (case load_records S parse validate show_error t s' keys of
                            (Ok ds, s'') \<Rightarrow> (Ok (d # ds), s'')
                          | r \<Rightarrow> r))))"

definition load_api_definitions :: "'s storage_ops \<Rightarrow> (string \<Rightarrow> string + ('b, 'g, 'p) api_definition) \<Rightarrow>
    (('b, 'g, 'p) api_definition \<Rightarrow> (error, unit) res) \<Rightarrow> (error \<Rightarrow> string) \<Rightarrow> instant \<Rightarrow> 's \<Rightarrow> string \<Rightarrow>
    (definition_load_error, ('b, 'g, 'p) api_definition list) res \<times> 's" where
  "load_api_definitions S parse validate show_error t s org_id =
     (case st_scan_prefix S s t (api_definition_key_prefix org_id) of
        (Err e, s') \<Rightarrow> (Err (LoadStorage e), s')
      | (Panic, s') \<Rightarrow> (Panic, s')
      | (Ok keys, s') \<Rightarrow>
          (case load_records S parse validate show_error t s' keys of
             (Ok ds, s'') \<Rightarrow> (Ok (sort_key ad_api_id ds), s'')
           | r \<Rightarrow> r))"

section \<open>The route table\<close>

record ('d, 'h, 'w) route =
  rt_def :: 'd
  rt_listen_prefix :: string
  rt_chain :: "('h, 'w) service"

definition route_matches :: "('d, 'h, 'w) route \<Rightarrow> string \<Rightarrow> bool" where
  "route_matches r path =
     (if rt_listen_prefix r = [] then True
      else case strip_prefix (rt_listen_prefix r) path of
             Some rest \<Rightarrow> rest = [] \<or> prefix ''/'' rest
           | None \<Rightarrow> False)"

fun build_routes :: "('d \<Rightarrow> (error, ('d, 'h, 'w) route) res) \<Rightarrow> ('d \<Rightarrow> bool) \<Rightarrow> 'd list \<Rightarrow>
    (error, ('d, 'h, 'w) route list) res" where
  "build_routes build active [] = Ok []"
| "build_routes build active (d # ds) =
     bind_res (build d) (\<lambda>r.
     bind_res (build_routes build active ds) (\<lambda>rs. Ok (if active d then r # rs else rs)))"

definition route_key :: "('d, 'h, 'w) route \<Rightarrow> int \<times> string" where
  "route_key r = (- int (length (rt_listen_prefix r)), rt_listen_prefix r)"

definition route_table_build :: "('d \<Rightarrow> (error, ('d, 'h, 'w) route) res) \<Rightarrow> ('d \<Rightarrow> bool) \<Rightarrow> 'd list \<Rightarrow>
    (error, ('d, 'h, 'w) route list) res" where
  "route_table_build build active ds =
     bind_res (build_routes build active ds) (\<lambda>rs. Ok (sort_key route_key rs))"

definition match_path :: "('d, 'h, 'w) route list \<Rightarrow> string \<Rightarrow> ('d, 'h, 'w) route option" where
  "match_path table path = find (\<lambda>r. route_matches r path) table"

section \<open>The gateway\<close>

definition health_response :: "'h http_ext \<Rightarrow> ((string \<times> string) list \<Rightarrow> string) \<Rightarrow> string \<Rightarrow> 'h response" where
  "health_response X json_obj version =
     (let resp = response_new X (body_full (json_obj
            [(''status'', ''pass''), (''version'', version), (''description'', ''g2way API gateway'')]))
      in resp\<lparr>rs_headers := hm_insert X (rs_headers resp) ''content-type'' ''application/json''\<rparr>)"

definition gateway_handle :: "'h http_ext \<Rightarrow> ((string \<times> string) list \<Rightarrow> string) \<Rightarrow> string \<Rightarrow>
    ('d, 'h, 'w) route list \<Rightarrow> 'h request \<Rightarrow> ip_addr \<Rightarrow> connection_info \<Rightarrow> 'w \<Rightarrow> 'h response option \<times> 'w" where
  "gateway_handle X json_obj version table req remote conn w =
     (if rq_path req = ''/hello'' \<or> rq_path req = ''/ready'' then (Some (health_response X json_obj version), w)
      else case match_path table (rq_path req) of
             None \<Rightarrow> (Some (json_error X 404 ''no API found for path''), w)
           | Some r \<Rightarrow> rt_chain r (req\<lparr>rq_client_addr := Some remote, rq_conn := Some conn\<rparr>) w)"

section \<open>Lemmas\<close>

lemma conflicts_from_Ok:
  "conflicts_from ids paths ds = Ok () \<longleftrightarrow>
     distinct (map ad_api_id ds) \<and> distinct (map normalized_path ds)
     \<and> set ids \<inter> ad_api_id ` set ds = {} \<and> set paths \<inter> normalized_path ` set ds = {}"
  by (induction ds arbitrary: ids paths) auto

lemma merge_from_Ok:
  "merge_from ids paths ds = Ok () \<longleftrightarrow>
     distinct (map (ad_api_id \<circ> fst) ds) \<and> distinct (map (normalized_path \<circ> fst) ds)
     \<and> fst ` set ids \<inter> (ad_api_id \<circ> fst) ` set ds = {} \<and> fst ` set paths \<inter> (normalized_path \<circ> fst) ` set ds = {}"
proof (induction ds arbitrary: ids paths)
  case Nil
  then show ?case by simp
next
  case (Cons p ds)
  obtain d source where p: "p = (d, source)" by fastforce
  have dom: "(\<exists>v. map_of m k = Some v) \<longleftrightarrow> k \<in> fst ` set m" for m :: "(string \<times> string) list" and k
    using map_of_eq_None_iff [of m k] by auto
  note IH = Cons.IH [of "(ad_api_id d, source) # ids" "(normalized_path d, source) # paths"]
  show ?case
  proof (cases "ad_api_id d \<in> fst ` set ids \<or> normalized_path d \<in> fst ` set paths")
    case True
    then have "merge_from ids paths (p # ds) \<noteq> Ok ()"
      using dom [of ids "ad_api_id d"] dom [of paths "normalized_path d"] by (auto simp: p split: option.splits)
    with True show ?thesis by (auto simp: p)
  next
    case False
    then have "map_of ids (ad_api_id d) = None" "map_of paths (normalized_path d) = None"
      by (simp_all add: map_of_eq_None_iff)
    then show ?thesis using IH False by (auto simp: p)
  qed
qed

lemma route_matches_iff:
  "route_matches r path \<longleftrightarrow>
     rt_listen_prefix r = [] \<or> path = rt_listen_prefix r \<or> (\<exists>rest. path = rt_listen_prefix r @ CHR ''/'' # rest)"
  by (auto simp: route_matches_def strip_prefix_def prefix_def split: if_splits)

lemma find_sorted_least:
  assumes "find P (sort_key f xs) = Some x"
  shows "x \<in> set xs \<and> P x \<and> (\<forall>y \<in> set xs. P y \<longrightarrow> f x \<le> f y)"
proof -
  obtain i where i: "i < length xs" "P (sort_key f xs ! i)" "x = sort_key f xs ! i"
    "\<forall>j < i. \<not> P (sort_key f xs ! j)"
    using assms by (auto simp: find_Some_iff)
  have "f x \<le> f y" if "y \<in> set xs" "P y" for y
  proof -
    obtain j where j: "j < length xs" "y = sort_key f xs ! j"
      using \<open>y \<in> set xs\<close> by (metis in_set_conv_nth length_sort set_sort)
    with i(4) \<open>P y\<close> have "i \<le> j" by (meson not_le_imp_less)
    with sorted_nth_mono [OF sorted_sort_key [of f xs], of i j] i j show ?thesis by simp
  qed
  with i show ?thesis by (metis length_sort nth_mem set_sort)
qed

lemma build_routes_Ok:
  "build_routes build active ds = Ok rs \<Longrightarrow>
   set rs = {r. \<exists>d \<in> set ds. active d \<and> build d = Ok r} \<and> (\<forall>d \<in> set ds. \<exists>r. build d = Ok r)"
  by (induction ds arbitrary: rs) (auto split: if_splits)

lemma route_key_le: "route_key r \<le> route_key r' \<Longrightarrow> length (rt_listen_prefix r') \<le> length (rt_listen_prefix r)"
  by (auto simp: route_key_def less_eq_prod_def)

lemma route_matches_same_length:
  assumes "route_matches r path" and "route_matches r' path"
    and "length (rt_listen_prefix r) = length (rt_listen_prefix r')"
  shows "rt_listen_prefix r = rt_listen_prefix r'"
  using assms by (auto simp: route_matches_iff append_eq_append_conv dest: arg_cong [where f = length])

section \<open>Properties\<close>

text \<open>
  C27. Routing picks the most specific API: in a table built from any list of definitions, a
  path is matched exactly when it falls under the listen prefix of some active definition
  (equal to it, or continued by a slash), the match is one of those with the longest prefix,
  and with distinct listen prefixes it is the only such route, so it does not depend on the
  order of the definitions. Inactive definitions never match, but they must build.
\<close>

theorem match_path_most_specific:
  assumes "route_table_build build active ds = Ok table"
  shows "(match_path table path = None \<longleftrightarrow>
      (\<forall>d \<in> set ds. \<forall>r. active d \<and> build d = Ok r \<longrightarrow> \<not> route_matches r path))
    \<and> (\<forall>r. match_path table path = Some r \<longrightarrow>
         (\<exists>d \<in> set ds. active d \<and> build d = Ok r) \<and> route_matches r path
         \<and> (\<forall>d' \<in> set ds. \<forall>r'. active d' \<and> build d' = Ok r' \<and> route_matches r' path \<longrightarrow>
              length (rt_listen_prefix r') < length (rt_listen_prefix r)
              \<or> rt_listen_prefix r' = rt_listen_prefix r))
    \<and> (\<forall>d \<in> set ds. \<exists>r. build d = Ok r)"
proof -
  obtain rs where rs: "build_routes build active ds = Ok rs" and t: "table = sort_key route_key rs"
    using assms by (auto simp: route_table_build_def)
  note b = build_routes_Ok [OF rs]
  have "(\<exists>d \<in> set ds. active d \<and> build d = Ok r) \<and> route_matches r path
      \<and> (\<forall>d' \<in> set ds. \<forall>r'. active d' \<and> build d' = Ok r' \<and> route_matches r' path \<longrightarrow>
           length (rt_listen_prefix r') < length (rt_listen_prefix r)
           \<or> rt_listen_prefix r' = rt_listen_prefix r)"
    if m: "match_path table path = Some r" for r
  proof -
    have least: "r \<in> set rs" "route_matches r path" "\<And>y. y \<in> set rs \<Longrightarrow> route_matches y path \<Longrightarrow> route_key r \<le> route_key y"
      using find_sorted_least [of "\<lambda>r. route_matches r path" route_key rs r] m by (auto simp: match_path_def t)
    have "length (rt_listen_prefix y) < length (rt_listen_prefix r) \<or> rt_listen_prefix y = rt_listen_prefix r"
      if "y \<in> set rs" "route_matches y path" for y
      using route_key_le [OF least(3) [OF that]] route_matches_same_length [OF that(2) least(2)] by linarith
    with least b show ?thesis by blast
  qed
  moreover have "match_path table path = None \<longleftrightarrow> (\<forall>r \<in> set rs. \<not> route_matches r path)"
    by (auto simp: match_path_def t find_None_iff)
  ultimately show ?thesis using b by blast
qed

definition sample_route :: "string \<Rightarrow> (string, alist_headers, unit) route" where
  "sample_route p = \<lparr>rt_def = p, rt_listen_prefix = p, rt_chain = (\<lambda>r w. (None, w))\<rparr>"

theorem match_path_most_specific_witness:
  "\<exists>table. route_table_build (\<lambda>p. Ok (sample_route p)) (\<lambda>p. True) [''/a'', ''/a/b''] = Ok table
    \<and> (\<forall>r. match_path table ''/a/b/c'' = Some r \<longrightarrow> rt_listen_prefix r = ''/a/b'')"
proof -
  obtain table where t: "route_table_build (\<lambda>p. Ok (sample_route p)) (\<lambda>p. True) [''/a'', ''/a/b''] = Ok table"
    by (simp add: route_table_build_def bind_res_def)
  have "route_matches (sample_route ''/a/b'') ''/a/b/c''"
    by (simp add: route_matches_def sample_route_def strip_prefix_def)
  then have "rt_listen_prefix r = ''/a/b''" if "match_path table ''/a/b/c'' = Some r" for r
    using match_path_most_specific [OF t, of "''/a/b/c''"] that by (auto simp: sample_route_def)
  with t show ?thesis by blast
qed

text \<open>
  Merging the definition sources succeeds exactly when no two definitions of either
  source share an api id or a listen path up to trailing slashes; the result is then the
  definitions of both sources, ordered by api id. A conflict is an error, never a shadowing.
\<close>

theorem merge_sources_conflict_free:
  "(\<exists>ds. merge_sources f s = Ok ds) = (distinct (map ad_api_id (f @ s)) \<and> distinct (map normalized_path (f @ s)))
   \<and> (merge_sources f s = Ok ds \<longrightarrow> mset ds = mset f + mset s \<and> sorted (map ad_api_id ds))
   \<and> merge_sources f s \<noteq> Panic"
proof -
  let ?l = "map (\<lambda>d. (d, ''file'')) f @ map (\<lambda>d. (d, ''storage'')) s"
  have m: "map (g \<circ> fst) ?l = map g (f @ s)" for g :: "_ \<Rightarrow> string" by simp
  have np: "merge_from ids paths l \<noteq> Panic" for ids paths l
    by (induction ids paths l rule: merge_from.induct) (auto split: option.splits)
  have "merge_from [] [] ?l = Ok () \<longleftrightarrow> distinct (map ad_api_id (f @ s)) \<and> distinct (map normalized_path (f @ s))"
    unfolding merge_from_Ok m by simp
  then show ?thesis
    using np [of "[]" "[]" ?l] by (auto simp: merge_sources_def bind_res_def split: res.splits)
qed

theorem merge_sources_conflict_free_witness:
  "\<exists>ds. merge_sources [sample_definition] [sample_definition\<lparr>ad_api_id := ''a'', ad_listen_path := ''/a''\<rparr>] = Ok ds
     \<and> length ds = 2 \<and> sorted (map ad_api_id ds)"
proof -
  let ?d = "sample_definition\<lparr>ad_api_id := ''a'', ad_listen_path := ''/a''\<rparr>"
  have "normalized_path ?d \<noteq> normalized_path sample_definition" and "ad_api_id sample_definition \<noteq> ''a''"
    by (simp_all add: normalized_path_def sample_definition_sel trim_end_matches_def)
  then obtain ds where ds: "merge_sources [sample_definition] [?d] = Ok ds"
    using merge_sources_conflict_free [of "[sample_definition]" "[?d]"] by auto
  then show ?thesis
    using merge_sources_conflict_free [of "[sample_definition]" "[?d]" ds] by (auto dest: arg_cong [where f = size])
qed

end
