(* ===== verification/Hmac.thy ===== *)
theory Hmac
  imports Auth_Config
begin

text \<open>
  Request signatures, \<open>g2-middleware/src/hmac.rs\<close>: parsing an \<open>Authorization: Signature\<close>
  header, rebuilding the string the client signed, and comparing the tag. Base64 and the
  keyed hashes are parameters; UTF-8 validity and the number parsing of the standard library
  are defined.
\<close>

section \<open>Standard library\<close>

definition byte :: "char \<Rightarrow> nat" where
  "byte c = of_char c"

definition is_cont :: "nat \<Rightarrow> bool" where
  "is_cont b \<longleftrightarrow> 0x80 \<le> b \<and> b \<le> 0xBF"

fun utf8_ok :: "nat list \<Rightarrow> bool" where
  "utf8_ok [] = True"
| "utf8_ok (a # bs) =
     (if a < 0x80 then utf8_ok bs
      else case bs of
             [] \<Rightarrow> False
           | b # cs \<Rightarrow>
               if 0xC2 \<le> a \<and> a \<le> 0xDF then is_cont b \<and> utf8_ok cs
               else (case cs of
                       [] \<Rightarrow> False
                     | c # ds \<Rightarrow>
                         if 0xE0 \<le> a \<and> a \<le> 0xEF
                         then is_cont b \<and> (a = 0xE0 \<longrightarrow> 0xA0 \<le> b) \<and> (a = 0xED \<longrightarrow> b \<le> 0x9F) \<and> is_cont c \<and> utf8_ok ds
                         else (case ds of
                                 [] \<Rightarrow> False
                               | d # es \<Rightarrow>
                                   0xF0 \<le> a \<and> a \<le> 0xF4 \<and> is_cont b \<and> (a = 0xF0 \<longrightarrow> 0x90 \<le> b)
                                   \<and> (a = 0xF4 \<longrightarrow> b \<le> 0x8F) \<and> is_cont c \<and> is_cont d \<and> utf8_ok es)))"

definition from_utf8 :: "string \<Rightarrow> string option" where
  "from_utf8 bs = (if utf8_ok (map byte bs) then Some bs else None)"

text \<open>\<open>str::split_at_checked\<close>: at most the length and on a character boundary.\<close>

definition split_at_checked :: "nat \<Rightarrow> string \<Rightarrow> (string \<times> string) option" where
  "split_at_checked n s =
     (if n < length s \<and> \<not> is_cont (byte (s ! n)) \<or> n = length s then Some (take n s, drop n s) else None)"

text \<open>\<open>str::split_whitespace\<close>: the maximal pieces without white space.\<close>

definition white_prefix :: "string \<Rightarrow> string option" where
  "white_prefix s = find (\<lambda>p. p \<noteq> [] \<and> prefix p s) white_space"

function split_ws :: "string \<Rightarrow> string \<Rightarrow> string list" where
  "split_ws w [] = (if w = [] then [] else [w])"
| "split_ws w (c # cs) =
     (case white_prefix (c # cs) of
        Some p \<Rightarrow> (if w = [] then [] else [w]) @ split_ws [] (drop (length p) (c # cs))
      | None \<Rightarrow> split_ws (w @ [c]) cs)"
  by pat_completeness auto
termination
proof (relation "measure (\<lambda>(w, s). length s)")
  fix w c cs p
  assume "white_prefix (c # cs) = Some p"
  then have "p \<noteq> []" by (auto simp: white_prefix_def find_Some_iff)
  then show "(([], drop (length p) (c # cs)), (w, c # cs)) \<in> measure (\<lambda>(w, s). length s)"
    by (cases p) auto
qed simp_all

definition split_whitespace :: "string \<Rightarrow> string list" where
  "split_whitespace s = split_ws [] s"

definition hex_value :: "char \<Rightarrow> nat option" where
  "hex_value c =
     (let n = byte c
      in if 48 \<le> n \<and> n \<le> 57 then Some (n - 48)
         else if 97 \<le> n \<and> n \<le> 102 then Some (n - 87)
         else if 65 \<le> n \<and> n \<le> 70 then Some (n - 55)
         else None)"

text \<open>\<open>u8::from_str_radix\<close> of a two-byte string, base 16: a leading \<open>+\<close> is accepted.\<close>

definition hex_pair :: "char \<Rightarrow> char \<Rightarrow> nat option" where
  "hex_pair a b =
     (if a = CHR ''+'' then hex_value b
      else case (hex_value a, hex_value b) of (Some x, Some y) \<Rightarrow> Some (16 * x + y) | _ \<Rightarrow> None)"

section \<open>Parsing the credential\<close>

record signature_params =
  sp_key_id :: string
  sp_algorithm :: string
  sp_headers :: "string list"
  sp_signature :: string

record sig_slots =
  sl_key_id :: "string option"
  sl_algorithm :: "string option"
  sl_headers :: "string option"
  sl_signature :: "string option"

definition no_slots :: sig_slots where
  "no_slots = \<lparr>sl_key_id = None, sl_algorithm = None, sl_headers = None, sl_signature = None\<rparr>"

text \<open>One \<open>name="value"\<close> pair with the separator after it.\<close>

definition sig_pair :: "string \<Rightarrow> (string \<times> string \<times> string) option" where
  "sig_pair rest =
     (case split_once (CHR ''='') rest of
        None \<Rightarrow> None
      | Some (name, tail) \<Rightarrow>
          (case strip_prefix [CHR 0x22] tail of
             None \<Rightarrow> None
           | Some after \<Rightarrow>
               (case split_once (CHR 0x22) after of
                  None \<Rightarrow> None
                | Some (value, rest1) \<Rightarrow>
                    (let rest2 = trim_start rest1
                     in case strip_prefix '','' rest2 of
                          Some r \<Rightarrow> Some (trim name, value, trim_start r)
                        | None \<Rightarrow> (if rest2 = [] then Some (trim name, value, []) else None)))))"

text \<open>Filling a slot: unknown names are ignored, a name given twice is malformed.\<close>

definition fill_slot :: "string \<Rightarrow> string \<Rightarrow> sig_slots \<Rightarrow> sig_slots option" where
  "fill_slot name value sl =
     (if name = ''keyId'' then
        (if sl_key_id sl = None then Some (sl\<lparr>sl_key_id := Some value\<rparr>) else None)
      else if name = ''algorithm'' then
        (if sl_algorithm sl = None then Some (sl\<lparr>sl_algorithm := Some value\<rparr>) else None)
      else if name = ''headers'' then
        (if sl_headers sl = None then Some (sl\<lparr>sl_headers := Some value\<rparr>) else None)
      else if name = ''signature'' then
        (if sl_signature sl = None then Some (sl\<lparr>sl_signature := Some value\<rparr>) else None)
      else Some sl)"

lemma drop_prefixes_length: "length (drop_prefixes ps s) \<le> length s"
proof (induction ps s rule: drop_prefixes.induct)
  case (1 ps s)
  show ?case
  proof (cases "find (\<lambda>p. p \<noteq> [] \<and> prefix p s) ps")
    case None
    then show ?thesis by (subst drop_prefixes.simps) simp
  next
    case (Some p)
    from 1 [OF Some] Some show ?thesis by (subst drop_prefixes.simps) simp
  qed
qed

lemma trim_start_length: "length (trim_start s) \<le> length s"
  by (simp add: trim_start_def drop_prefixes_length)

lemma sig_pair_shorter:
  assumes "sig_pair rest = Some (name, value, rest')"
  shows "length rest' < length rest"
proof -
  obtain nm tail after r1 where p: "split_once (CHR ''='') rest = Some (nm, tail)" "strip_prefix [CHR 0x22] tail = Some after"
    "split_once (CHR 0x22) after = Some (value, r1)"
    and r: "rest' = [] \<or> (\<exists>r. trim_start r1 = '','' @ r \<and> rest' = trim_start r)"
    using assms by (auto simp: sig_pair_def Let_def strip_prefix_Some split: option.splits if_splits)
  then have "length r1 < length rest" by (auto simp: split_once_Some strip_prefix_Some)
  moreover have "length rest' \<le> length r1"
  proof (cases "rest' = []")
    case False
    with r obtain r where r: "trim_start r1 = '','' @ r" "rest' = trim_start r" by blast
    have "length (trim_start r) \<le> length r" "length ('','' @ r) \<le> length r1"
      using trim_start_length [of r] trim_start_length [of r1] r(1) by simp_all
    then show ?thesis using r(2) by simp
  qed simp
  ultimately show ?thesis by simp
qed

function sig_params :: "string \<Rightarrow> sig_slots \<Rightarrow> sig_slots option" where
  "sig_params rest sl =
     (if rest = [] then Some sl
      else case sig_pair rest of
             None \<Rightarrow> None
           | Some (name, value, rest') \<Rightarrow>
               (case fill_slot name value sl of
                  None \<Rightarrow> None
                | Some sl' \<Rightarrow> sig_params rest' sl'))"
  by pat_completeness auto
termination
  by (relation "measure (\<lambda>(rest, sl). length rest)") (auto dest: sig_pair_shorter)

declare sig_params.simps [simp del]

fun percent_decode_bytes :: "string \<Rightarrow> string option" where
  "percent_decode_bytes [] = Some []"
| "percent_decode_bytes (c # cs) =
     (if c = CHR ''%'' then
        (case cs of
           a # b # rest \<Rightarrow>
             (case hex_pair a b of
                None \<Rightarrow> None
              | Some n \<Rightarrow> map_option (\<lambda>out. char_of n # out) (percent_decode_bytes rest))
         | _ \<Rightarrow> None)
      else map_option (\<lambda>out. c # out) (percent_decode_bytes cs))"

definition percent_decode :: "string \<Rightarrow> string option" where
  "percent_decode value = Option.bind (percent_decode_bytes value) from_utf8"

definition non_empty :: "string option \<Rightarrow> string option" where
  "non_empty x = (case x of Some s \<Rightarrow> if s = [] then None else Some s | None \<Rightarrow> None)"

definition sig_finish :: "(string \<Rightarrow> string option) \<Rightarrow> sig_slots \<Rightarrow> signature_params option" where
  "sig_finish b64 sl =
     Option.bind (non_empty (sl_key_id sl)) (\<lambda>key_id.
     Option.bind (non_empty (sl_algorithm sl)) (\<lambda>algorithm.
     Option.bind (case sl_headers sl of
                    None \<Rightarrow> Some [''date'']
                  | Some l \<Rightarrow> (let names = map to_ascii_lowercase (split_whitespace l)
                               in if names = [] then None else Some names)) (\<lambda>headers.
     Option.bind (sl_signature sl) (\<lambda>sig0.
     Option.bind (if CHR ''%'' \<in> set sig0 then percent_decode sig0 else Some sig0) (\<lambda>sig1.
     Option.bind (b64 sig1) (\<lambda>sig.
       Some \<lparr>sp_key_id = key_id, sp_algorithm = algorithm, sp_headers = headers, sp_signature = sig\<rparr>))))))"

definition parse_signature_header :: "(string \<Rightarrow> string option) \<Rightarrow> string \<Rightarrow> signature_params option" where
  "parse_signature_header b64 value =
     (case split_at_checked 10 (trim value) of
        Some (sch, rest) \<Rightarrow>
          (if eq_ignore_ascii_case sch ''signature ''
           then Option.bind (sig_params (trim_start rest) no_slots) (sig_finish b64)
           else None)
      | None \<Rightarrow> None)"

section \<open>The signing string\<close>

definition path_and_query :: "'h request \<Rightarrow> string" where
  "path_and_query req = rq_path req @ (case rq_query req of Some q \<Rightarrow> ''?'' @ q | None \<Rightarrow> [])"

definition signed_line :: "'h http_ext \<Rightarrow> 'h request \<Rightarrow> string \<Rightarrow> string option" where
  "signed_line X req name =
     (if name = ''(request-target)'' then
        Some (to_ascii_lowercase (rq_method req) @ '' '' @ path_and_query req)
      else
        (let values = hm_get_all X (rq_headers req) name
         in if list_all (\<lambda>v. hv_to_str X v \<noteq> None) values \<and> values \<noteq> []
            then Some (name @ '': '' @ join_strings '', '' (map (\<lambda>v. trim (the (hv_to_str X v))) values))
            else None))"

fun signed_lines :: "'h http_ext \<Rightarrow> 'h request \<Rightarrow> string list \<Rightarrow> string list option" where
  "signed_lines X req [] = Some []"
| "signed_lines X req (name # names) =
     Option.bind (signed_line X req name) (\<lambda>l. map_option (\<lambda>ls. l # ls) (signed_lines X req names))"

definition build_signing_string :: "'h http_ext \<Rightarrow> 'h request \<Rightarrow> string list \<Rightarrow> string option" where
  "build_signing_string X req names = map_option (join_strings [CHR 0x0A]) (signed_lines X req names)"

datatype digest = Sha256 | Sha384 | Sha512

definition hmac_verify :: "(digest \<Rightarrow> string \<Rightarrow> string \<Rightarrow> string) \<Rightarrow> hmac_algorithm \<Rightarrow> string \<Rightarrow> string \<Rightarrow> string \<Rightarrow> bool" where
  "hmac_verify mac algorithm secret message signature =
     (case algorithm of
        HmacSha256 \<Rightarrow> mac Sha256 secret message = signature
      | HmacSha384 \<Rightarrow> mac Sha384 secret message = signature
      | HmacSha512 \<Rightarrow> mac Sha512 secret message = signature)"

section \<open>Lemmas\<close>

lemma white_prefix_graphic: "graphic c \<Longrightarrow> white_prefix (c # cs) = None"
  unfolding white_prefix_def
  by (auto simp: find_None_iff prefix_def Cons_eq_append_conv dest: white_space_not_graphic)

lemma drop_prefixes_graphic:
  "graphic c \<Longrightarrow> set ps \<subseteq> set white_space \<union> rev ` set white_space \<Longrightarrow> drop_prefixes ps (c # cs) = c # cs"
proof -
  assume g: "graphic c" and ps: "set ps \<subseteq> set white_space \<union> rev ` set white_space"
  have "\<not> (p \<noteq> [] \<and> prefix p (c # cs))" if "p \<in> set ps" for p
  proof
    assume "p \<noteq> [] \<and> prefix p (c # cs)"
    then have "c \<in> set p" by (cases p) auto
    moreover have "c \<notin> set p" using that ps g white_space_not_graphic by fastforce
    ultimately show False by simp
  qed
  then have "find (\<lambda>p. p \<noteq> [] \<and> prefix p (c # cs)) ps = None"
    unfolding find_None_iff by blast
  then show ?thesis by (subst drop_prefixes.simps) simp
qed

lemma trim_start_graphic [simp]: "graphic c \<Longrightarrow> trim_start (c # cs) = c # cs"
  by (simp add: trim_start_def drop_prefixes_graphic)

lemma trim_graphic_ends:
  assumes "s \<noteq> []" and "graphic (hd s)" and "graphic (last s)"
  shows "trim s = s"
proof -
  obtain c cs where s: "s = c # cs" using assms(1) by (cases s) auto
  obtain d ds where r: "rev s = d # ds" using assms(1) by (cases "rev s") auto
  then have "d = last s" by (metis hd_rev list.sel(1))
  then have "drop_prefixes (map rev white_space) (rev s) = rev s"
    using assms(3) unfolding r by (simp add: drop_prefixes_graphic)
  then show ?thesis using assms(2) s by (simp add: trim_def trim_end_def)
qed

lemma trim_graphic: "list_all graphic s \<Longrightarrow> trim s = s"
proof (cases "s = []")
  case True
  then show ?thesis by (simp add: trim_def trim_end_def trim_start_def)
next
  case False
  moreover assume "list_all graphic s"
  ultimately show ?thesis by (intro trim_graphic_ends) (auto simp: list_all_iff)
qed

lemma split_ws_word: "list_all graphic u \<Longrightarrow> split_ws w (u @ s) = split_ws (w @ u) s"
  by (induction u arbitrary: w) (simp_all add: white_prefix_graphic)

lemma white_prefix_space: "white_prefix (CHR '' '' # s) = Some '' ''"
proof -
  have "\<forall>p \<in> set white_space. p \<noteq> [] \<and> (of_char (hd p) = (32 :: nat) \<longrightarrow> length p = 1)"
    by (simp add: white_space_def upt_rec)
  then have p: "p = '' ''" if "p \<in> set white_space" "prefix p (CHR '' '' # s)" for p
    using that by (cases p) (auto simp: list_all_iff)
  have "[char_of (32 :: nat)] \<in> set white_space" by (simp add: white_space_def)
  moreover have "char_of (32 :: nat) = CHR '' ''" by code_simp
  ultimately have mem: "'' '' \<in> set white_space" by simp
  have "white_prefix (CHR '' '' # s) \<noteq> None" using mem by (auto simp: white_prefix_def find_None_iff)
  then obtain q where q: "white_prefix (CHR '' '' # s) = Some q" by blast
  then have "q \<in> set white_space" "prefix q (CHR '' '' # s)" by (auto simp: white_prefix_def find_Some_iff)
  with p q show ?thesis by blast
qed

lemma split_whitespace_words:
  assumes "list_all (\<lambda>w. w \<noteq> [] \<and> list_all graphic w) ws"
  shows "split_whitespace (join_strings '' '' ws) = ws"
proof -
  have more: "split_ws w (concat (map ((@) '' '') us)) = w # us"
    if "w \<noteq> []" "list_all (\<lambda>w. w \<noteq> [] \<and> list_all graphic w) us" for w us
    using that
  proof (induction us arbitrary: w)
    case (Cons u us)
    have "split_ws w (concat (map ((@) '' '') (u # us)))
        = w # split_ws [] (u @ concat (map ((@) '' '') us))"
      using Cons.prems by (simp add: white_prefix_space)
    also have "\<dots> = w # split_ws u (concat (map ((@) '' '') us))"
      using Cons.prems(2) by (simp add: split_ws_word)
    also have "\<dots> = w # u # us" using Cons.prems by (intro arg_cong [where f = "(#) w"] Cons.IH) simp_all
    finally show ?case .
  qed simp
  show ?thesis
  proof (cases ws)
    case (Cons u us)
    then show ?thesis using assms more [of u us]
      by (simp add: split_whitespace_def join_strings_def split_ws_word)
  qed (simp add: split_whitespace_def join_strings_def)
qed

lemma sig_pair_more:
  assumes "list_all graphic name" and "CHR ''='' \<notin> set name" and "CHR 0x22 \<notin> set value" and "graphic c"
  shows "sig_pair (name @ CHR ''='' # CHR 0x22 # value @ CHR 0x22 # CHR '','' # c # rest) = Some (name, value, c # rest)"
proof -
  have 1: "split_once (CHR ''='') (name @ CHR ''='' # CHR 0x22 # value @ CHR 0x22 # CHR '','' # c # rest)
      = Some (name, CHR 0x22 # value @ CHR 0x22 # CHR '','' # c # rest)"
    using assms(2) by (simp add: split_once_Some)
  have 2: "split_once (CHR 0x22) (value @ CHR 0x22 # CHR '','' # c # rest) = Some (value, CHR '','' # c # rest)"
    using assms(3) by (simp add: split_once_Some)
  have "graphic (CHR '','')" by (simp add: graphic_def)
  with 1 2 assms show ?thesis
    by (simp add: sig_pair_def strip_prefix_def trim_graphic)
qed

lemma sig_pair_last:
  assumes "list_all graphic name" and "CHR ''='' \<notin> set name" and "CHR 0x22 \<notin> set value"
  shows "sig_pair (name @ CHR ''='' # CHR 0x22 # value @ [CHR 0x22]) = Some (name, value, [])"
proof -
  have "split_once (CHR ''='') (name @ CHR ''='' # CHR 0x22 # value @ [CHR 0x22]) = Some (name, CHR 0x22 # value @ [CHR 0x22])"
    using assms(2) by (simp add: split_once_Some)
  moreover have "split_once (CHR 0x22) (value @ [CHR 0x22]) = Some (value, [])"
    using assms(3) by (simp add: split_once_Some)
  ultimately show ?thesis
    using assms by (simp add: sig_pair_def strip_prefix_def trim_graphic trim_start_def)
qed

section \<open>Properties\<close>

text \<open>
  A credential as a client writes it: the scheme word in the case the client likes, the
  parameters in the draft's order, and no \<open>headers\<close> parameter when the list is empty.
\<close>

definition print_signature :: "string \<Rightarrow> string \<Rightarrow> string \<Rightarrow> string list \<Rightarrow> string \<Rightarrow> string" where
  "print_signature scheme key_id algorithm names sig64 =
     scheme @ '' keyId='' @ [CHR 0x22] @ key_id @ [CHR 0x22]
     @ '',algorithm='' @ [CHR 0x22] @ algorithm @ [CHR 0x22]
     @ (if names = [] then [] else '',headers='' @ [CHR 0x22] @ join_strings '' '' names @ [CHR 0x22])
     @ '',signature='' @ [CHR 0x22] @ sig64 @ [CHR 0x22]"

lemma graphic_lower: "graphic (ascii_lower c) \<Longrightarrow> graphic c"
  by (auto simp: ascii_lower_def graphic_def Let_def split: if_splits)

text \<open>The parameters of a written credential fill the four slots.\<close>

lemma print_signature_slots:
  assumes "CHR 0x22 \<notin> set key_id \<union> set algorithm \<union> set sig64"
    and "list_all (\<lambda>w. list_all graphic w \<and> CHR 0x22 \<notin> set w) names"
  shows "sig_params (drop (length scheme + 1) (print_signature scheme key_id algorithm names sig64)) no_slots
    = Some \<lparr>sl_key_id = Some key_id, sl_algorithm = Some algorithm,
        sl_headers = (if names = [] then None else Some (join_strings '' '' names)), sl_signature = Some sig64\<rparr>"
proof -
  let ?s4 = "''signature'' @ CHR ''='' # CHR 0x22 # sig64 @ [CHR 0x22]"
  let ?s3 = "''headers'' @ CHR ''='' # CHR 0x22 # join_strings '' '' names @ CHR 0x22 # CHR '','' # ?s4"
  let ?r = "if names = [] then ?s4 else ?s3"
  let ?s2 = "''algorithm'' @ CHR ''='' # CHR 0x22 # algorithm @ CHR 0x22 # CHR '','' # ?r"
  let ?s1 = "''keyId'' @ CHR ''='' # CHR 0x22 # key_id @ CHR 0x22 # CHR '','' # ?s2"
  have p: "drop (length scheme + 1) (print_signature scheme key_id algorithm names sig64) = ?s1"
    by (simp add: print_signature_def)
  have g: "graphic c" if "c \<in> set ''SkahsKeyIdlgoritmnu='' \<union> {CHR 0x22}" for c
    using that by (auto simp: graphic_def)
  have jn: "CHR 0x22 \<notin> set (join_strings '' '' names)"
    using assms(2) by (auto simp: join_strings_def list_all_iff split: list.splits)
  have p1: "sig_pair ?s1 = Some (''keyId'', key_id, ?s2)"
    using assms(1) sig_pair_more [of "''keyId''" key_id "CHR ''a''"] by (simp add: g)
  have p2h: "sig_pair (''algorithm'' @ CHR ''='' # CHR 0x22 # algorithm @ CHR 0x22 # CHR '','' # ?s3)
      = Some (''algorithm'', algorithm, ?s3)"
    using assms(1) sig_pair_more [of "''algorithm''" algorithm "CHR ''h''"] by (simp add: g)
  have p2s: "sig_pair (''algorithm'' @ CHR ''='' # CHR 0x22 # algorithm @ CHR 0x22 # CHR '','' # ?s4)
      = Some (''algorithm'', algorithm, ?s4)"
    using assms(1) sig_pair_more [of "''algorithm''" algorithm "CHR ''s''"] by (simp add: g)
  have p3: "sig_pair ?s3 = Some (''headers'', join_strings '' '' names, ?s4)"
    using jn sig_pair_more [of "''headers''" "join_strings '' '' names" "CHR ''s''"] by (simp add: g)
  have p4: "sig_pair ?s4 = Some (''signature'', sig64, [])"
    using assms(1) by (intro sig_pair_last) (simp_all add: g)
  have tail: "sig_params ?s4 sl = (case fill_slot ''signature'' sig64 sl of None \<Rightarrow> None | Some sl' \<Rightarrow> Some sl')" for sl
    by (subst sig_params.simps, simp only: p4) (simp add: sig_params.simps split: option.splits)
  show ?thesis
    unfolding p
    apply (subst sig_params.simps)
    apply (simp only: p1)
    apply (cases "names = []")
     apply (simp add: fill_slot_def no_slots_def)
     apply (subst sig_params.simps)
     apply (simp only: p2s [simplified])
     apply (simp add: fill_slot_def tail [simplified])
    apply (simp add: fill_slot_def no_slots_def)
    apply (subst sig_params.simps)
    apply (simp only: p2h [simplified])
    apply (simp add: fill_slot_def)
    apply (subst sig_params.simps)
    apply (simp only: p3 [simplified])
    apply (simp add: fill_slot_def tail [simplified])
    done
qed

text \<open>
  C36. A signature credential is parsed back to what the client wrote, whatever the case of
  the word \<open>Signature\<close> and of the signed header names: the key id and the algorithm are the
  written ones, the names come in lower case and in the written order (\<open>date\<close> alone when the
  parameter is left out), and the tag is the decoded one, as long as the key id and the
  algorithm are not empty, no value contains a double quote, the tag carries no percent
  encoding and the names are words of printable characters.
\<close>

theorem signature_header_roundtrip:
  assumes "key_id \<noteq> []" and "algorithm \<noteq> []" and "eq_ignore_ascii_case scheme ''Signature''"
    and "CHR 0x22 \<notin> set key_id \<union> set algorithm \<union> set sig64" and "CHR ''%'' \<notin> set sig64"
    and "list_all (\<lambda>w. w \<noteq> [] \<and> list_all graphic w \<and> CHR 0x22 \<notin> set w) names"
    and "b64 sig64 = Some tag"
  shows "parse_signature_header b64 (print_signature scheme key_id algorithm names sig64)
    = Some \<lparr>sp_key_id = key_id, sp_algorithm = algorithm,
        sp_headers = (if names = [] then [''date''] else map to_ascii_lowercase names), sp_signature = tag\<rparr>"
proof -
  let ?v = "print_signature scheme key_id algorithm names sig64"
  have "to_ascii_lowercase ''Signature'' = ''signature''" by code_simp
  then have low: "map ascii_lower scheme = ''signature''"
    using assms(3) by (simp add: eq_ignore_ascii_case_def to_ascii_lowercase_def)
  then have len: "length scheme = 9" by (auto dest: arg_cong [where f = length])
  have "graphic (ascii_lower (hd scheme))" "scheme \<noteq> []"
    using low by (cases scheme; simp add: graphic_def)+
  moreover have "graphic (CHR 0x22)" by (simp add: graphic_def)
  ultimately have "trim ?v = ?v"
    by (intro trim_graphic_ends) (auto simp: print_signature_def intro: graphic_lower)
  moreover have "split_at_checked 10 ?v = Some (scheme @ '' '', drop (length scheme + 1) ?v)"
    by (simp add: split_at_checked_def print_signature_def len is_cont_def byte_def nth_append)
  moreover have "eq_ignore_ascii_case (scheme @ '' '') ''signature ''"
    using low by (simp add: eq_ignore_ascii_case_def to_ascii_lowercase_def ascii_lower_def)
  moreover have "trim_start (drop (length scheme + 1) ?v) = drop (length scheme + 1) ?v"
    by (simp add: print_signature_def graphic_def)
  moreover have "list_all (\<lambda>w. list_all graphic w \<and> CHR 0x22 \<notin> set w) names"
    "split_whitespace (join_strings '' '' names) = names"
    using assms(6) by (auto simp: list_all_iff intro!: split_whitespace_words)
  ultimately show ?thesis
    using print_signature_slots [OF assms(4), of names scheme] assms(1,2,5,7)
    by (simp add: parse_signature_header_def sig_finish_def non_empty_def Let_def)
qed

theorem signature_header_roundtrip_witness:
  "parse_signature_header (\<lambda>s. Some (rev s))
     (print_signature ''SIGNATURE'' ''alice'' ''hmac-sha256'' [''(request-target)'', ''Date''] ''YWJj'')
   = Some \<lparr>sp_key_id = ''alice'', sp_algorithm = ''hmac-sha256'', sp_headers = [''(request-target)'', ''date''],
           sp_signature = ''jJWY''\<rparr>"
proof -
  have "list_all (\<lambda>w. w \<noteq> [] \<and> list_all graphic w \<and> CHR 0x22 \<notin> set w) [''(request-target)'', ''Date'']"
    "eq_ignore_ascii_case ''SIGNATURE'' ''Signature''"
    "map to_ascii_lowercase [''(request-target)'', ''Date''] = [''(request-target)'', ''date'']"
    by code_simp+
  then show ?thesis
    using signature_header_roundtrip [of "''alice''" "''hmac-sha256''" "''SIGNATURE''" "''YWJj''"
        "[''(request-target)'', ''Date'']" "\<lambda>s. Some (rev s)" "''jJWY''"] by simp
qed

end
