(* ===== verification/Jwks.thy ===== *)
theory Jwks
  imports Prelude
begin

text \<open>
  The pod-local key cache of \<open>g2-middleware/src/jwks.rs\<close>: the endpoint with its pinned
  discovery, the refresh that replaces the whole key set, the on-miss refetch gated by a
  cooldown, and the interleaving of concurrent misses on the attempt timestamp. The HTTP
  fetch and the parsers of the two documents are parameters; \<open>'k\<close> is a decoding key.
\<close>

section \<open>State\<close>

datatype jwks_endpoint = JwksUrl string | JwksDiscovery string "string option"

record discovery_doc =
  dd_issuer :: string
  dd_jwks_uri :: string

text \<open>A key of the fetched set; \<open>jk_key\<close> is \<open>None\<close> when it cannot be turned into a decoding key.\<close>

record 'k jwk =
  jk_kid :: "string option"
  jk_is_rsa :: bool
  jk_alg :: "string option"
  jk_key :: "'k option"

record ('k, 'f) jwks_ext =
  jx_fetch :: "string \<Rightarrow> 'f \<Rightarrow> (string + string) \<times> 'f"
  jx_discovery_doc :: "string \<Rightarrow> string + discovery_doc"
  jx_key_set :: "string \<Rightarrow> string + 'k jwk list"

record 'k jwks_cache =
  jc_api_id :: string
  jc_endpoint :: jwks_endpoint
  jc_keys :: "(string, 'k) hashmap"
  jc_last_attempt :: nat

definition MISS_REFETCH_COOLDOWN_SECS :: nat where
  "MISS_REFETCH_COOLDOWN_SECS = 10"

definition jwks_with_endpoint :: "string \<Rightarrow> jwks_endpoint \<Rightarrow> 'k jwks_cache" where
  "jwks_with_endpoint api_id endpoint =
     \<lparr>jc_api_id = api_id, jc_endpoint = endpoint, jc_keys = [], jc_last_attempt = 0\<rparr>"

definition jwks_new :: "string \<Rightarrow> string \<Rightarrow> 'k jwks_cache" where
  "jwks_new api_id url = jwks_with_endpoint api_id (JwksUrl url)"

definition via_discovery :: "string \<Rightarrow> string \<Rightarrow> 'k jwks_cache" where
  "via_discovery api_id issuer_url = jwks_with_endpoint api_id (JwksDiscovery issuer_url None)"

definition endpoint_desc :: "'k jwks_cache \<Rightarrow> string" where
  "endpoint_desc c =
     (case jc_endpoint c of
        JwksUrl url \<Rightarrow> url
      | JwksDiscovery issuer resolved \<Rightarrow> (case resolved of Some u \<Rightarrow> u | None \<Rightarrow> issuer))"

section \<open>Refreshing\<close>

definition strip_one_slash :: "string \<Rightarrow> string" where
  "strip_one_slash s = (if s \<noteq> [] \<and> last s = CHR ''/'' then butlast s else s)"

definition jwks_url :: "('k, 'f) jwks_ext \<Rightarrow> 'k jwks_cache \<Rightarrow> 'f \<Rightarrow> (string + string) \<times> 'k jwks_cache \<times> 'f" where
  "jwks_url E c f =
     (case jc_endpoint c of
        JwksUrl url \<Rightarrow> (Inr url, c, f)
      | JwksDiscovery issuer (Some url) \<Rightarrow> (Inr url, c, f)
      | JwksDiscovery issuer None \<Rightarrow>
          (case jx_fetch E (strip_one_slash issuer @ ''/.well-known/openid-configuration'') f of
             (Inl e, f1) \<Rightarrow> (Inl e, c, f1)
           | (Inr body, f1) \<Rightarrow>
               (case jx_discovery_doc E body of
                  Inl e \<Rightarrow> (Inl (''response is not a valid OIDC discovery document: '' @ e), c, f1)
                | Inr doc \<Rightarrow>
                    if dd_issuer doc \<noteq> issuer
                    then (Inl (''discovery document issuer `'' @ dd_issuer doc
                            @ ''` does not match configured issuer `'' @ issuer @ ''`''), c, f1)
                    else (Inr (dd_jwks_uri doc),
                          c\<lparr>jc_endpoint := JwksDiscovery issuer (Some (dd_jwks_uri doc))\<rparr>, f1))))"

text \<open>The keys kept: RSA, with a \<open>kid\<close>, for RS256 when they name an algorithm.\<close>

definition usable_key :: "'k jwk \<Rightarrow> (string \<times> 'k) option" where
  "usable_key j =
     (case jk_kid j of
        None \<Rightarrow> None
      | Some kid \<Rightarrow>
          if \<not> jk_is_rsa j then None
          else if (case jk_alg j of Some a \<Rightarrow> a \<noteq> ''RS256'' | None \<Rightarrow> False) then None
          else map_option (\<lambda>k. (kid, k)) (jk_key j))"

fun collect_keys :: "'k jwk list \<Rightarrow> (string, 'k) hashmap \<Rightarrow> (string, 'k) hashmap" where
  "collect_keys [] m = m"
| "collect_keys (j # js) m =
     collect_keys js (case usable_key j of Some (kid, k) \<Rightarrow> AList.update kid k m | None \<Rightarrow> m)"

definition jwks_refresh :: "('k, 'f) jwks_ext \<Rightarrow> nat \<Rightarrow> 'k jwks_cache \<Rightarrow> 'f \<Rightarrow>
    (string + nat) \<times> 'k jwks_cache \<times> 'f" where
  "jwks_refresh E now c f =
     (case jwks_url E (c\<lparr>jc_last_attempt := now\<rparr>) f of
        (Inl e, c1, f1) \<Rightarrow> (Inl e, c1, f1)
      | (Inr url, c1, f1) \<Rightarrow>
          (case jx_fetch E url f1 of
             (Inl e, f2) \<Rightarrow> (Inl e, c1, f2)
           | (Inr body, f2) \<Rightarrow>
               (case jx_key_set E body of
                  Inl e \<Rightarrow> (Inl (''response is not a valid JWKS document: '' @ e), c1, f2)
                | Inr ks \<Rightarrow>
                    let m = collect_keys ks [] in (Inr (length m), c1\<lparr>jc_keys := m\<rparr>, f2))))"

definition key_for :: "('k, 'f) jwks_ext \<Rightarrow> nat \<Rightarrow> string \<Rightarrow> 'k jwks_cache \<Rightarrow> 'f \<Rightarrow>
    'k option \<times> 'k jwks_cache \<times> 'f" where
  "key_for E now kid c f =
     (case map_of (jc_keys c) kid of
        Some k \<Rightarrow> (Some k, c, f)
      | None \<Rightarrow>
          if MISS_REFETCH_COOLDOWN_SECS \<le> now - jc_last_attempt c
          then (case jwks_refresh E now (c\<lparr>jc_last_attempt := now\<rparr>) f of
                  (_, c1, f1) \<Rightarrow> (map_of (jc_keys c1) kid, c1, f1))
          else (None, c, f))"

section \<open>Concurrent misses\<close>

text \<open>
  The attempt timestamp under any interleaving, one shared access at a time. A miss loads the
  stamp, reads the clock, and compare-exchanges what it loaded; a winner runs a refresh, and
  so does the periodic refresher. A refresh reads the clock at one point and stores what it
  read at a later one. The clock is a wall clock: a tick may set it to anything. Three fields
  are kept for the statements only: \<open>ms_high\<close>, the latest time the clock has shown,
  \<open>ms_lag\<close>, how far behind it the value of a refresh was at most when it was stored, and
  \<open>ms_wins\<close>, the clock readings of the misses that won, in the order of their exchanges.
\<close>

datatype miss_pc = MissLoaded nat | MissReady nat nat | MissWon | MissLost | RefreshRead nat | RefreshStored

record miss_state =
  ms_stamp :: nat
  ms_clock :: nat
  ms_threads :: "nat \<Rightarrow> miss_pc option"
  ms_wins :: "nat list"
  ms_high :: nat
  ms_lag :: nat

inductive miss_step :: "miss_state \<Rightarrow> miss_state \<Rightarrow> bool" where
  tick: "miss_step s (s\<lparr>ms_clock := now, ms_high := max (ms_high s) now\<rparr>)"
| load: "ms_threads s i = None \<Longrightarrow>
    miss_step s (s\<lparr>ms_threads := (ms_threads s)(i \<mapsto> MissLoaded (ms_stamp s))\<rparr>)"
| clock: "ms_threads s i = Some (MissLoaded seen) \<Longrightarrow>
    miss_step s (s\<lparr>ms_threads := (ms_threads s)(i \<mapsto>
      (if MISS_REFETCH_COOLDOWN_SECS \<le> ms_clock s - seen then MissReady seen (ms_clock s) else MissLost))\<rparr>)"
| cas_ok: "ms_threads s i = Some (MissReady seen now) \<Longrightarrow> ms_stamp s = seen \<Longrightarrow>
    miss_step s (s\<lparr>ms_stamp := now, ms_threads := (ms_threads s)(i \<mapsto> MissWon), ms_wins := ms_wins s @ [now]\<rparr>)"
| cas_fail: "ms_threads s i = Some (MissReady seen now) \<Longrightarrow> ms_stamp s \<noteq> seen \<Longrightarrow>
    miss_step s (s\<lparr>ms_threads := (ms_threads s)(i \<mapsto> MissLost)\<rparr>)"
| won_read: "ms_threads s i = Some MissWon \<Longrightarrow>
    miss_step s (s\<lparr>ms_threads := (ms_threads s)(i \<mapsto> RefreshRead (ms_clock s))\<rparr>)"
| refresher_read: "ms_threads s i = None \<Longrightarrow>
    miss_step s (s\<lparr>ms_threads := (ms_threads s)(i \<mapsto> RefreshRead (ms_clock s))\<rparr>)"
| refresh_store: "ms_threads s i = Some (RefreshRead t) \<Longrightarrow>
    miss_step s (s\<lparr>ms_stamp := t, ms_threads := (ms_threads s)(i \<mapsto> RefreshStored),
      ms_lag := max (ms_lag s) (ms_high s - t)\<rparr>)"

definition miss_start :: "nat \<Rightarrow> miss_state" where
  "miss_start now = \<lparr>ms_stamp = 0, ms_clock = now, ms_threads = (\<lambda>_. None), ms_wins = [],
     ms_high = now, ms_lag = 0\<rparr>"

inductive miss_reachable :: "nat \<Rightarrow> miss_state \<Rightarrow> bool" for now where
  start: "miss_reachable now (miss_start now)"
| step: "miss_reachable now s \<Longrightarrow> miss_step s s' \<Longrightarrow> miss_reachable now s'"

inductive_cases miss_stepE: "miss_step s s'"

section \<open>Lemmas\<close>

lemma collect_keys_wf: "hm_wf m \<Longrightarrow> hm_wf (collect_keys js m)"
  by (induction js m rule: collect_keys.induct) (auto split: option.splits)

lemma collect_keys_range:
  "map_of (collect_keys js m) kid = Some k \<Longrightarrow>
   map_of m kid = Some k \<or> (\<exists>j \<in> set js. usable_key j = Some (kid, k))"
  by (induction js m rule: collect_keys.induct) (fastforce split: option.splits if_splits)+

text \<open>
  Readings that are at least \<open>d\<close> apart, up to a slack \<open>l\<close>: each later one plus the slack is
  \<open>d\<close> after the one before.
\<close>

fun spaced_upto :: "nat \<Rightarrow> nat \<Rightarrow> nat list \<Rightarrow> bool" where
  "spaced_upto l d [] = True"
| "spaced_upto l d [t] = True"
| "spaced_upto l d (t # u # ts) = (t + d \<le> u + l \<and> spaced_upto l d (u # ts))"

lemma spaced_upto_snoc:
  "spaced_upto l d ts \<Longrightarrow> (ts \<noteq> [] \<Longrightarrow> last ts + d \<le> t + l) \<Longrightarrow> spaced_upto l d (ts @ [t])"
  by (induction l d ts rule: spaced_upto.induct) auto

lemma spaced_upto_mono: "spaced_upto l d ts \<Longrightarrow> l \<le> l' \<Longrightarrow> spaced_upto l' d ts"
  by (induction l d ts rule: spaced_upto.induct) auto

definition miss_inv :: "miss_state \<Rightarrow> bool" where
  "miss_inv s \<longleftrightarrow> spaced_upto (ms_lag s) MISS_REFETCH_COOLDOWN_SECS (ms_wins s)
     \<and> ms_clock s \<le> ms_high s
     \<and> (ms_wins s \<noteq> [] \<longrightarrow> last (ms_wins s) \<le> ms_stamp s + ms_lag s \<and> last (ms_wins s) \<le> ms_high s)
     \<and> (\<forall>i seen now. ms_threads s i = Some (MissReady seen now) \<longrightarrow>
          seen + MISS_REFETCH_COOLDOWN_SECS \<le> now \<and> now \<le> ms_high s)"

lemma miss_inv_step:
  assumes "miss_inv s" "miss_step s s'"
  shows "miss_inv s'"
  using assms(2)
proof cases
  case (tick now)
  then show ?thesis using assms(1) by (fastforce simp: miss_inv_def)
next
  case (clock i seen)
  then show ?thesis using assms(1) by (auto simp: miss_inv_def MISS_REFETCH_COOLDOWN_SECS_def split: if_splits)
next
  case (cas_ok i seen now)
  then have "spaced_upto (ms_lag s) MISS_REFETCH_COOLDOWN_SECS (ms_wins s @ [now])"
    using assms(1) by (intro spaced_upto_snoc) (fastforce simp: miss_inv_def)+
  then show ?thesis using assms(1) cas_ok by (auto simp: miss_inv_def)
next
  case (refresh_store i t)
  then show ?thesis using assms(1) by (auto simp: miss_inv_def elim: spaced_upto_mono)
qed (use assms(1) in \<open>auto simp: miss_inv_def\<close>)

lemma miss_reachable_inv: "miss_reachable now s \<Longrightarrow> miss_inv s"
proof (induction rule: miss_reachable.induct)
  case start
  then show ?case by (simp add: miss_inv_def miss_start_def)
qed (rule miss_inv_step)

text \<open>The runs of the examples below: states reached by naming the steps.\<close>

lemma miss_steps_reachable:
  "miss_reachable now s \<Longrightarrow> miss_step s s1 \<Longrightarrow> miss_step s1 s2 \<Longrightarrow> miss_step s2 s3 \<Longrightarrow> miss_reachable now s3"
  by (blast intro: miss_reachable.step)

lemma miss_wins_reachable:
  assumes "miss_reachable n0 s" "ms_threads s i = None" "ms_clock s = now"
    "ms_stamp s + MISS_REFETCH_COOLDOWN_SECS \<le> now"
  shows "miss_reachable n0 (s\<lparr>ms_stamp := now, ms_threads := (ms_threads s)(i \<mapsto> MissWon),
    ms_wins := ms_wins s @ [now]\<rparr>)"
proof -
  let ?s1 = "s\<lparr>ms_threads := (ms_threads s)(i \<mapsto> MissLoaded (ms_stamp s))\<rparr>"
  let ?s2 = "s\<lparr>ms_threads := (ms_threads s)(i \<mapsto> MissReady (ms_stamp s) now)\<rparr>"
  have "MISS_REFETCH_COOLDOWN_SECS \<le> now - ms_stamp s" using assms(4) by linarith
  then have "miss_step ?s1 ?s2"
    using miss_step.clock [of ?s1 i "ms_stamp s"] assms(3) by simp
  moreover have "miss_step s ?s1" by (rule miss_step.load [OF assms(2)])
  moreover have "miss_step ?s2 (s\<lparr>ms_stamp := now, ms_threads := (ms_threads s)(i \<mapsto> MissWon),
      ms_wins := ms_wins s @ [now]\<rparr>)"
    using miss_step.cas_ok [of ?s2 i "ms_stamp s" now] by simp
  ultimately show ?thesis using assms(1) by (blast intro: miss_steps_reachable)
qed

text \<open>
  The slack is really used. The periodic refresher reads the clock and is delayed; a miss wins
  a minute later; the late store takes the stamp back to the old reading, and a second miss
  wins in the same second as the first.
\<close>

lemma stale_store_double_refetch:
  "\<exists>s. miss_reachable 40 s \<and> ms_wins s = [100, 100] \<and> ms_lag s = 60"
proof -
  let ?s0 = "miss_start 40"
  let ?s1 = "?s0\<lparr>ms_threads := (ms_threads ?s0)(0 \<mapsto> RefreshRead 40)\<rparr>"
  let ?s2 = "?s1\<lparr>ms_clock := 100, ms_high := 100\<rparr>"
  let ?s3 = "?s2\<lparr>ms_stamp := 100, ms_threads := (ms_threads ?s2)(1 \<mapsto> MissWon), ms_wins := [100]\<rparr>"
  let ?s4 = "?s3\<lparr>ms_stamp := 40, ms_threads := (ms_threads ?s3)(0 \<mapsto> RefreshStored), ms_lag := 60\<rparr>"
  let ?s5 = "?s4\<lparr>ms_stamp := 100, ms_threads := (ms_threads ?s4)(2 \<mapsto> MissWon), ms_wins := [100, 100]\<rparr>"
  have "miss_step ?s0 ?s1" using miss_step.refresher_read [of ?s0 0] by (simp add: miss_start_def)
  moreover have "miss_step ?s1 ?s2" using miss_step.tick [of ?s1 100] by (simp add: miss_start_def)
  ultimately have "miss_reachable 40 ?s2" by (meson miss_reachable.intros)
  then have "miss_reachable 40 ?s3"
    using miss_wins_reachable [of 40 ?s2 1 100] by (simp add: miss_start_def MISS_REFETCH_COOLDOWN_SECS_def)
  moreover have "miss_step ?s3 ?s4"
    using miss_step.refresh_store [of ?s3 0 40] by (simp add: miss_start_def)
  ultimately have "miss_reachable 40 ?s4" by (rule miss_reachable.step)
  then have "miss_reachable 40 ?s5"
    using miss_wins_reachable [of 40 ?s4 2 100] by (simp add: miss_start_def MISS_REFETCH_COOLDOWN_SECS_def)
  then show ?thesis by (intro exI [of _ ?s5]) simp
qed

section \<open>Properties\<close>



text \<open>
  A refresh is all or nothing: if it fails, the key set is the previous one; if it
  succeeds, the key set is exactly the usable keys of the fetched document (RSA keys with a
  \<open>kid\<close> and no other algorithm), so keys dropped by the provider stop verifying. The key set
  URL comes from a discovery document only if that document names the configured issuer, and
  once resolved it never changes.
\<close>

theorem jwks_refresh_all_or_nothing:
  assumes "jwks_refresh E now c f = (r, c', f')"
  shows "(case r of
      Inl _ \<Rightarrow> jc_keys c' = jc_keys c
    | Inr n \<Rightarrow> n = length (jc_keys c') \<and> (\<exists>body ks. jx_key_set E body = Inr ks \<and> jc_keys c' = collect_keys ks []
        \<and> (\<forall>kid k. map_of (jc_keys c') kid = Some k \<longrightarrow>
             (\<exists>j \<in> set ks. jk_kid j = Some kid \<and> jk_key j = Some k \<and> jk_is_rsa j \<and> jk_alg j \<in> {None, Some ''RS256''}))))
    \<and> jc_last_attempt c' = now
    \<and> (jc_endpoint c' = jc_endpoint c
       \<or> (\<exists>issuer body doc. jc_endpoint c = JwksDiscovery issuer None \<and> jx_discovery_doc E body = Inr doc
            \<and> dd_issuer doc = issuer \<and> jc_endpoint c' = JwksDiscovery issuer (Some (dd_jwks_uri doc))))"
proof -
  have usable: "jk_kid j = Some kid \<and> jk_key j = Some k \<and> jk_is_rsa j \<and> jk_alg j \<in> {None, Some ''RS256''}"
    if "usable_key j = Some (kid, k)" for j :: "'a jwk" and kid k
    using that by (auto simp: usable_key_def split: option.splits if_splits)
  obtain u c1 f1 where url: "jwks_url E (c\<lparr>jc_last_attempt := now\<rparr>) f = (u, c1, f1)" by (metis prod_cases3)
  have c1: "jc_keys c1 = jc_keys c" "jc_last_attempt c1 = now"
    using url by (auto simp: jwks_url_def split: jwks_endpoint.splits option.splits prod.splits sum.splits if_splits)
  have ep: "jc_endpoint c1 = jc_endpoint c \<or> (\<exists>issuer body doc. jc_endpoint c = JwksDiscovery issuer None
       \<and> jx_discovery_doc E body = Inr doc \<and> dd_issuer doc = issuer
       \<and> jc_endpoint c1 = JwksDiscovery issuer (Some (dd_jwks_uri doc)))"
    using url
    by (auto simp: jwks_url_def split: jwks_endpoint.splits option.splits prod.splits sum.splits if_splits) blast
  show ?thesis
  proof (cases r)
    case (Inl e)
    then show ?thesis
      using assms c1 ep by (auto simp: jwks_refresh_def url Let_def split: sum.splits prod.splits)
  next
    case (Inr n)
    then obtain body ks where ks: "jx_key_set E body = Inr ks" "c' = c1\<lparr>jc_keys := collect_keys ks []\<rparr>"
      "n = length (collect_keys ks [])"
      using assms by (auto simp: jwks_refresh_def url Let_def split: sum.splits prod.splits)
    have "\<exists>j \<in> set ks. jk_kid j = Some kid \<and> jk_key j = Some k \<and> jk_is_rsa j \<and> jk_alg j \<in> {None, Some ''RS256''}"
      if "map_of (collect_keys ks []) kid = Some k" for kid k
      using collect_keys_range [OF that] usable by fastforce
    then show ?thesis using Inr ks c1 ep by auto
  qed
qed

definition sample_jwks :: "(string, unit) jwks_ext" where
  "sample_jwks =
     \<lparr>jx_fetch = (\<lambda>url f. (if url = ''https://idp/.well-known/openid-configuration'' then Inr ''doc''
                          else if url = ''https://idp/keys'' then Inr ''keys'' else Inl ''unreachable'', f)),
      jx_discovery_doc = (\<lambda>b. Inr \<lparr>dd_issuer = ''https://idp'', dd_jwks_uri = ''https://idp/keys''\<rparr>),
      jx_key_set = (\<lambda>b. Inr [\<lparr>jk_kid = Some ''k1'', jk_is_rsa = True, jk_alg = None, jk_key = Some ''rsa''\<rparr>,
                             \<lparr>jk_kid = Some ''k2'', jk_is_rsa = False, jk_alg = None, jk_key = Some ''ec''\<rparr>])\<rparr>"

theorem jwks_refresh_all_or_nothing_witness:
  "\<exists>c'. jwks_refresh sample_jwks 7 (via_discovery ''a'' ''https://idp'') () = (Inr 1, c', ())
    \<and> map_of (jc_keys c') ''k2'' = None \<and> jc_endpoint c' = JwksDiscovery ''https://idp'' (Some ''https://idp/keys'')"
proof -
  let ?c = "via_discovery ''a'' ''https://idp''"
  obtain c' where r: "jwks_refresh sample_jwks 7 ?c () = (Inr 1, c', ())"
    and e: "jc_endpoint c' = JwksDiscovery ''https://idp'' (Some ''https://idp/keys'')"
    by (simp add: jwks_refresh_def jwks_url_def via_discovery_def jwks_with_endpoint_def sample_jwks_def
        strip_one_slash_def Let_def usable_key_def)
  have "map_of (jc_keys c') ''k2'' = None"
  proof (rule ccontr)
    assume "map_of (jc_keys c') ''k2'' \<noteq> None"
    then obtain k where k: "map_of (jc_keys c') ''k2'' = Some k" by blast
    obtain body ks where "jx_key_set sample_jwks body = Inr ks"
      "\<And>kid k. map_of (jc_keys c') kid = Some k \<Longrightarrow> \<exists>j \<in> set ks. jk_kid j = Some kid \<and> jk_is_rsa j"
      using jwks_refresh_all_or_nothing [OF r] by fastforce
    with k show False by (fastforce simp: sample_jwks_def)
  qed
  with r e show ?thesis by blast
qed

end
