(* ===== verification/Json.thy ===== *)
theory Json
  imports Prelude
begin

text \<open>
  JSON documents as \<open>serde_json::Value\<close> holds them: numbers are non-negative integers,
  negative integers or floats, objects are key-ordered lists of fields without duplicates.
  The accessors are the ones the gateway calls; parsing itself is a parameter of its users.
\<close>

datatype json_num = PosInt nat | NegInt int | FloatNum string

datatype json =
    JNull
  | JBool bool
  | JNumber json_num
  | JString string
  | JArray "json list"
  | JObject "(string \<times> json) list"

fun json_get :: "json \<Rightarrow> string \<Rightarrow> json option" where
  "json_get (JObject fields) key = map_of fields key"
| "json_get _ key = None"

fun as_str :: "json \<Rightarrow> string option" where
  "as_str (JString s) = Some s"
| "as_str _ = None"

fun as_u64 :: "json \<Rightarrow> nat option" where
  "as_u64 (JNumber (PosInt n)) = Some n"
| "as_u64 _ = None"

fun as_array :: "json \<Rightarrow> json list option" where
  "as_array (JArray xs) = Some xs"
| "as_array _ = None"

definition claim_str :: "json \<Rightarrow> string \<Rightarrow> string option" where
  "claim_str claims name = Option.bind (json_get claims name) as_str"

end
