(* ===== verification/Auth.thy ===== *)
theory Auth
  imports Hmac Jwks Json Storage Memory_Storage
begin

text \<open>
  Authentication, \<open>g2-middleware/src/auth.rs\<close>: building the layer from an API's settings,
  extracting each kind of credential, resolving it to a key session with its policy, and the
  layer that admits or rejects a request. The hash, bcrypt, base64, JSON and JWT libraries
  are parameters. Storage reads and clock reads at different points of one request are
  separate instants.
\<close>

section \<open>Parameters\<close>

record jwt_validation =
  va_algorithm :: jwt_signing_method
  va_issuer :: "string list option"
  va_audience :: "string list option"
  va_required :: "string list"

datatype bcrypt_result = BcryptChecked bool | BcryptMalformed | BcryptTaskFailed

record 'k auth_ext =
  au_sha256 :: "string \<Rightarrow> string"
  au_bcrypt_verify :: "string \<Rightarrow> string \<Rightarrow> bcrypt_result"
  au_base64 :: "string \<Rightarrow> string option"
  au_mac :: "digest \<Rightarrow> string \<Rightarrow> string \<Rightarrow> string"
  au_session_json :: "string \<Rightarrow> key_session option"
  au_policy_json :: "string \<Rightarrow> policy option"
  au_jwt_header :: "string \<Rightarrow> string option option"
  au_jwt_decode :: "string \<Rightarrow> 'k \<Rightarrow> jwt_validation \<Rightarrow> nat \<Rightarrow> json option"
  au_http_date :: "string \<Rightarrow> int option"
  au_secret_key :: "string \<Rightarrow> 'k"
  au_pem_key :: "string \<Rightarrow> string + 'k"

definition FORBIDDEN_MSG :: string where
  "FORBIDDEN_MSG = ''access to this API has been disallowed''"

definition BASIC_CHALLENGE_MSG :: string where
  "BASIC_CHALLENGE_MSG = ''invalid basic auth credentials''"

definition DUMMY_BCRYPT_HASH :: string where
  "DUMMY_BCRYPT_HASH = ''$2b$12$3neaCJyNondMOTlK7AuGBOMBGI0j/gZ3YsMVx1VJl.1cBJI5DVA32''"

definition SIGNATURE_401_MSG :: string where
  "SIGNATURE_401_MSG = ''invalid signature authorization header''"

definition DUMMY_HMAC_SECRET :: string where
  "DUMMY_HMAC_SECRET = ''g2way-dummy-hmac-secret''"

definition DEFAULT_JWKS_REFRESH_SECS :: nat where
  "DEFAULT_JWKS_REFRESH_SECS = 300"

section \<open>State\<close>

datatype 'k jwt_keys = StaticKey 'k | JwksKeys

record policy_mapping =
  pm_claim :: string
  pm_map :: "(string \<times> string) list"

datatype 'k auth_mode =
    TokenMode string "string option" "string option"
  | JwtMode string "'k jwt_keys" jwt_validation string
  | OidcMode string jwt_validation string "policy_mapping option"
  | BasicMode string
  | MtlsMode
  | HmacMode "hmac_algorithm list" "nat option"

record 'k auth_state =
  as_api_id :: string
  as_org_id :: string
  as_mode :: "'k auth_mode"

text \<open>What a request can change: the store, the key cache of the API and the fetcher's side.\<close>

record ('s, 'k, 'f) auth_world =
  aw_store :: 's
  aw_jwks :: "'k jwks_cache"
  aw_fetch :: 'f

record auth_clock =
  ac_session :: instant
  ac_policy :: instant
  ac_unix :: nat
  ac_skew_unix :: nat
  ac_jwks_unix :: nat

type_synonym ('h, 'a, 'w) auth_result = "('h response, 'a) res \<times> 'w"

section \<open>Building the layer\<close>

definition parse_auth_header :: "'h http_ext \<Rightarrow> string \<Rightarrow> string \<Rightarrow> (error, string) res" where
  "parse_auth_header X api_id header =
     (case hn_parse X header of
        Some n \<Rightarrow> Ok n
      | None \<Rightarrow> Err (InvalidApiDefinition api_id (''`auth.header` is not a valid header name: `'' @ header @ ''`'')))"

definition jwt_validation_new :: "jwt_signing_method \<Rightarrow> jwt_validation" where
  "jwt_validation_new alg = \<lparr>va_algorithm = alg, va_issuer = None, va_audience = None, va_required = [''exp'']\<rparr>"

definition jwt_keys_of :: "'k auth_ext \<Rightarrow> string \<Rightarrow> bool \<Rightarrow> jwt_config \<Rightarrow>
    (error, 'k jwt_keys \<times> ('k jwks_cache \<times> duration) option) res" where
  "jwt_keys_of A api_id has_fetcher c =
     (let fail = InvalidApiDefinition api_id
      in case (jw_signing_method c, jw_jwks_url c) of
           (Hs256, _) \<Rightarrow>
             (case jw_secret c of
                Some secret \<Rightarrow> Ok (StaticKey (au_secret_key A secret), None)
              | None \<Rightarrow> Err (fail ''hs256 requires `auth.secret`''))
         | (Rs256, None) \<Rightarrow>
             (case jw_public_key_pem c of
                Some pem \<Rightarrow>
                  (case au_pem_key A pem of
                     Inr key \<Rightarrow> Ok (StaticKey key, None)
                   | Inl e \<Rightarrow> Err (fail (''`auth.public_key_pem` is not a valid RSA PEM: '' @ e)))
              | None \<Rightarrow> Err (fail ''rs256 requires `auth.public_key_pem`''))
         | (Rs256, Some url) \<Rightarrow>
             if has_fetcher
             then Ok (JwksKeys, Some (jwks_new api_id url,
                    from_secs (case jw_jwks_refresh_secs c of Some s \<Rightarrow> s | None \<Rightarrow> DEFAULT_JWKS_REFRESH_SECS)))
             else Err (fail ''`auth.jwks_url` is set but no JWKS fetcher is available''))"

text \<open>
  The result: nothing for a keyless API, else the state, and for the modes with fetched keys
  the fresh cache with the interval of its refresher.
\<close>

definition auth_from_config :: "'h http_ext \<Rightarrow> 'k auth_ext \<Rightarrow> auth_config \<Rightarrow> string \<Rightarrow> string \<Rightarrow> bool \<Rightarrow>
    (error, ('k auth_state \<times> ('k jwks_cache \<times> duration) option) option) res" where
  "auth_from_config X A cfg api_id org_id has_fetcher =
     (let fail = InvalidApiDefinition api_id;
          state = (\<lambda>mode. \<lparr>as_api_id = api_id, as_org_id = org_id, as_mode = mode\<rparr>)
      in case cfg of
           Keyless \<Rightarrow> Ok None
         | AuthToken c \<Rightarrow>
             bind_res (parse_auth_header X api_id (at_header c)) (\<lambda>h.
               Ok (Some (state (TokenMode h (at_query_param c) (at_cookie c)), None)))
         | Jwt c \<Rightarrow>
             bind_res (jwt_keys_of A api_id has_fetcher c) (\<lambda>(keys, cache).
             bind_res (parse_auth_header X api_id (jw_header c)) (\<lambda>h.
               Ok (Some (state (JwtMode h keys (jwt_validation_new (jw_signing_method c)) (jw_identity_claim c)), cache))))
         | Oidc c \<Rightarrow>
             if \<not> has_fetcher then Err (fail ''`oidc` auth is configured but no JWKS fetcher is available'')
             else
               (let cache = (case oi_jwks_url c of
                               Some url \<Rightarrow> jwks_new api_id url
                             | None \<Rightarrow> via_discovery api_id (oi_issuer_url c));
                    interval = from_secs (case oi_jwks_refresh_secs c of Some s \<Rightarrow> s | None \<Rightarrow> DEFAULT_JWKS_REFRESH_SECS);
                    validation = \<lparr>va_algorithm = Rs256, va_issuer = Some [oi_issuer_url c],
                                  va_audience = Some (oi_audiences c), va_required = [''exp'', ''iss'', ''aud'']\<rparr>;
                    mapping = (if oi_policy_map c \<noteq> []
                               then Some \<lparr>pm_claim = oi_policy_claim c, pm_map = oi_policy_map c\<rparr> else None)
                in bind_res (parse_auth_header X api_id (oi_header c)) (\<lambda>h.
                     Ok (Some (state (OidcMode h validation (oi_identity_claim c) mapping), Some (cache, interval)))))
         | BasicAuth realm \<Rightarrow>
             (case hv_from_str X (''Basic realm='' @ [CHR 0x22] @ realm @ [CHR 0x22]) of
                Some challenge \<Rightarrow> Ok (Some (state (BasicMode challenge), None))
              | None \<Rightarrow> Err (fail (''`auth.realm` cannot be used in a header value: `'' @ realm @ ''`'')))
         | Mtls \<Rightarrow> Ok (Some (state MtlsMode, None))
         | Hmac algs skew \<Rightarrow> Ok (Some (state (HmacMode algs skew), None)))"

section \<open>Credentials\<close>

definition strip_bearer :: "string \<Rightarrow> string" where
  "strip_bearer value =
     (case split_at_checked 7 value of
        Some (sch, rest) \<Rightarrow> (if eq_ignore_ascii_case sch ''bearer '' then trim_start rest else value)
      | None \<Rightarrow> value)"

definition strip_basic :: "string \<Rightarrow> string option" where
  "strip_basic value =
     (case split_at_checked 6 value of
        Some (sch, rest) \<Rightarrow> (if eq_ignore_ascii_case sch ''basic '' then Some (trim rest) else None)
      | None \<Rightarrow> None)"

text \<open>The first pair with this name and a non-empty value.\<close>

fun find_pair :: "string \<Rightarrow> string list \<Rightarrow> string option" where
  "find_pair name [] = None"
| "find_pair name (p # ps) =
     (case split_once (CHR ''='') p of
        Some (k, v) \<Rightarrow> (if k = name \<and> v \<noteq> [] then Some v else find_pair name ps)
      | None \<Rightarrow> find_pair name ps)"

definition token_in_header :: "'h http_ext \<Rightarrow> string \<Rightarrow> 'h request \<Rightarrow> string option" where
  "token_in_header X header req =
     (case Option.bind (hm_get X (rq_headers req) header) (hv_to_str X) of
        Some value \<Rightarrow> (let tok = strip_bearer (trim value) in if tok \<noteq> [] then Some tok else None)
      | None \<Rightarrow> None)"

definition token_in_query :: "string option \<Rightarrow> 'h request \<Rightarrow> string option" where
  "token_in_query query_param req =
     (case (query_param, rq_query req) of
        (Some param, Some query) \<Rightarrow> find_pair param (split_on (CHR ''&'') query)
      | _ \<Rightarrow> None)"

definition token_in_cookie :: "'h http_ext \<Rightarrow> string option \<Rightarrow> 'h request \<Rightarrow> string option" where
  "token_in_cookie X cookie req =
     (case cookie of
        Some name \<Rightarrow>
          find_pair name (map trim (concat (map (split_on (CHR '';''))
            (List.map_filter (hv_to_str X) (hm_get_all X (rq_headers req) ''cookie'')))))
      | None \<Rightarrow> None)"

definition extract_token :: "'h http_ext \<Rightarrow> string \<Rightarrow> string option \<Rightarrow> string option \<Rightarrow> 'h request \<Rightarrow> string option" where
  "extract_token X header query_param cookie req =
     (case token_in_header X header req of
        Some t \<Rightarrow> Some t
      | None \<Rightarrow>
          (case token_in_query query_param req of
             Some t \<Rightarrow> Some t
           | None \<Rightarrow> token_in_cookie X cookie req))"

definition extract_basic_credentials :: "'h http_ext \<Rightarrow> 'k auth_ext \<Rightarrow> 'h request \<Rightarrow> (string \<times> string) option" where
  "extract_basic_credentials X A req =
     Option.bind (hm_get X (rq_headers req) ''authorization'') (\<lambda>v.
     Option.bind (hv_to_str X v) (\<lambda>value.
     Option.bind (strip_basic (trim value)) (\<lambda>encoded.
     Option.bind (au_base64 A encoded) (\<lambda>bytes.
     Option.bind (from_utf8 bytes) (\<lambda>decoded.
     Option.bind (split_once (CHR '':'') decoded) (\<lambda>(username, password).
       if username = [] then None else Some (username, password)))))))"

definition basic_challenge_error :: "'h http_ext \<Rightarrow> string \<Rightarrow> 'h response" where
  "basic_challenge_error X challenge =
     (let resp = json_error X 401 BASIC_CHALLENGE_MSG
      in resp\<lparr>rs_headers := hm_insert X (rs_headers resp) ''www-authenticate'' challenge\<rparr>)"

section \<open>Policies\<close>

definition fetch_active_policy :: "'h http_ext \<Rightarrow> 'k auth_ext \<Rightarrow> 's storage_ops \<Rightarrow> auth_clock \<Rightarrow> string \<Rightarrow> string \<Rightarrow> 's \<Rightarrow>
    ('h, policy, 's) auth_result" where
  "fetch_active_policy X A S ck org_id policy_id st =
     (case st_get S st (ac_policy ck) (policy_storage_key org_id policy_id) of
        (Err e, st') \<Rightarrow> (Err (json_error X 503 ''key storage unavailable''), st')
      | (Panic, st') \<Rightarrow> (Panic, st')
      | (Ok None, st') \<Rightarrow> (Err (json_error X 403 FORBIDDEN_MSG), st')
      | (Ok (Some record), st') \<Rightarrow>
          (case au_policy_json A record of
             None \<Rightarrow> (Err (json_error X 500 ''malformed policy record''), st')
           | Some policy \<Rightarrow>
               if po_org_id policy \<noteq> org_id \<or> po_policy_id policy \<noteq> policy_id
               then (Err (json_error X 500 ''malformed policy record''), st')
               else if \<not> po_active policy then (Err (json_error X 403 FORBIDDEN_MSG), st')
               else (Ok policy, st')))"

definition resolve_policy :: "'h http_ext \<Rightarrow> 'k auth_ext \<Rightarrow> 's storage_ops \<Rightarrow> auth_clock \<Rightarrow> key_session \<Rightarrow> 's \<Rightarrow>
    ('h, key_session, 's) auth_result" where
  "resolve_policy X A S ck session st =
     (case ks_apply_policies session of
        [] \<Rightarrow> (Ok session, st)
      | [policy_id] \<Rightarrow>
          (case fetch_active_policy X A S ck (ks_org_id session) policy_id st of
             (Ok policy, st') \<Rightarrow> (Ok (apply_policy session policy), st')
           | (Err r, st') \<Rightarrow> (Err r, st')
           | (Panic, st') \<Rightarrow> (Panic, st'))
      | _ \<Rightarrow> (Err (json_error X 500 ''malformed key session record''), st))"

section \<open>Stored sessions\<close>

text \<open>Reading the session record of a key hash: \<open>None\<close> when there is none.\<close>

definition read_session :: "'h http_ext \<Rightarrow> 'k auth_ext \<Rightarrow> 's storage_ops \<Rightarrow> auth_clock \<Rightarrow> string \<Rightarrow> string \<Rightarrow> 's \<Rightarrow>
    ('h, key_session option, 's) auth_result" where
  "read_session X A S ck org_id key_hash st =
     (case st_get S st (ac_session ck) (session_storage_key org_id key_hash) of
        (Err e, st') \<Rightarrow> (Err (json_error X 503 ''key storage unavailable''), st')
      | (Panic, st') \<Rightarrow> (Panic, st')
      | (Ok None, st') \<Rightarrow> (Ok None, st')
      | (Ok (Some record), st') \<Rightarrow>
          (case au_session_json A record of
             None \<Rightarrow> (Err (json_error X 500 ''malformed key session record''), st')
           | Some session \<Rightarrow> (Ok (Some session), st')))"

text \<open>After the credential has been verified: policy first, then the access check.\<close>

definition grant_access :: "'h http_ext \<Rightarrow> 'k auth_ext \<Rightarrow> 's storage_ops \<Rightarrow> auth_clock \<Rightarrow> string \<Rightarrow> string \<Rightarrow>
    key_session \<Rightarrow> 's \<Rightarrow> ('h, session_context, 's) auth_result" where
  "grant_access X A S ck api_id key_hash session st =
     (case resolve_policy X A S ck session st of
        (Err r, st') \<Rightarrow> (Err r, st')
      | (Panic, st') \<Rightarrow> (Panic, st')
      | (Ok session', st') \<Rightarrow>
          if \<not> allows_api session' api_id then (Err (json_error X 403 FORBIDDEN_MSG), st')
          else (Ok \<lparr>sc_session = session', sc_key_hash = key_hash\<rparr>, st'))"

definition authenticate_stored_token :: "'h http_ext \<Rightarrow> 'k auth_ext \<Rightarrow> 's storage_ops \<Rightarrow> auth_clock \<Rightarrow> 'k auth_state \<Rightarrow>
    string \<Rightarrow> 's \<Rightarrow> ('h, session_context, 's) auth_result" where
  "authenticate_stored_token X A S ck state tok st =
     (let key_hash = hash_key (au_sha256 A) tok
      in case read_session X A S ck (as_org_id state) key_hash st of
           (Err r, st') \<Rightarrow> (Err r, st')
         | (Panic, st') \<Rightarrow> (Panic, st')
         | (Ok None, st') \<Rightarrow> (Err (json_error X 403 FORBIDDEN_MSG), st')
         | (Ok (Some session), st') \<Rightarrow>
             if \<not> ks_active session \<or> session_is_expired session (ac_unix ck)
             then (Err (json_error X 403 FORBIDDEN_MSG), st')
             else grant_access X A S ck (as_api_id state) key_hash session st')"

definition authenticate_basic :: "'h http_ext \<Rightarrow> 'k auth_ext \<Rightarrow> 's storage_ops \<Rightarrow> auth_clock \<Rightarrow> 'k auth_state \<Rightarrow>
    string \<Rightarrow> 'h request \<Rightarrow> 's \<Rightarrow> ('h, session_context, 's) auth_result" where
  "authenticate_basic X A S ck state challenge req st =
     (case extract_basic_credentials X A req of
        None \<Rightarrow> (Err (basic_challenge_error X challenge), st)
      | Some (username, password) \<Rightarrow>
          (let key_hash = hash_key (au_sha256 A) (''basic:'' @ username)
           in case read_session X A S ck (as_org_id state) key_hash st of
                (Err r, st') \<Rightarrow> (Err r, st')
              | (Panic, st') \<Rightarrow> (Panic, st')
              | (Ok found, st') \<Rightarrow>
                  (let stored_hash = (case Option.bind found ks_basic_auth of
                                        Some b \<Rightarrow> ba_password_hash b | None \<Rightarrow> DUMMY_BCRYPT_HASH)
                   in case au_bcrypt_verify A password stored_hash of
                        BcryptTaskFailed \<Rightarrow> (Err (json_error X 500 ''auth verification failed''), st')
                      | BcryptMalformed \<Rightarrow> (Err (json_error X 500 ''auth verification failed''), st')
                      | BcryptChecked password_matches \<Rightarrow>
                          (case found of
                             None \<Rightarrow> (Err (json_error X 403 FORBIDDEN_MSG), st')
                           | Some session \<Rightarrow>
                               if \<not> (password_matches \<and> ks_basic_auth session \<noteq> None \<and> ks_active session
                                     \<and> \<not> session_is_expired session (ac_unix ck))
                               then (Err (json_error X 403 FORBIDDEN_MSG), st')
                               else grant_access X A S ck (as_api_id state) key_hash session st'))))"

definition skew_ok :: "'h http_ext \<Rightarrow> 'k auth_ext \<Rightarrow> auth_clock \<Rightarrow> 'h request \<Rightarrow> signature_params \<Rightarrow> nat option \<Rightarrow> bool" where
  "skew_ok X A ck req params allowed_clock_skew =
     (case allowed_clock_skew of
        None \<Rightarrow> True
      | Some max_skew \<Rightarrow>
          ''date'' \<in> set (sp_headers params)
          \<and> (case Option.bind (Option.bind (hm_get X (rq_headers req) ''date'') (hv_to_str X)) (au_http_date A) of
               None \<Rightarrow> False
             | Some date \<Rightarrow> 0 \<le> date \<and> \<bar>int (ac_skew_unix ck) - date\<bar> \<le> int max_skew))"

definition authenticate_hmac :: "'h http_ext \<Rightarrow> 'k auth_ext \<Rightarrow> 's storage_ops \<Rightarrow> auth_clock \<Rightarrow> 'k auth_state \<Rightarrow>
    hmac_algorithm list \<Rightarrow> nat option \<Rightarrow> 'h request \<Rightarrow> 's \<Rightarrow> ('h, session_context, 's) auth_result" where
  "authenticate_hmac X A S ck state allowed_algorithms allowed_clock_skew req st =
     (let forbidden = (Err (json_error X 403 FORBIDDEN_MSG), st)
      in case Option.bind (Option.bind (hm_get X (rq_headers req) ''authorization'') (hv_to_str X))
                (parse_signature_header (au_base64 A)) of
           None \<Rightarrow> (Err (json_error X 401 SIGNATURE_401_MSG), st)
         | Some params \<Rightarrow>
             (case find (\<lambda>a. eq_ignore_ascii_case (hmac_as_str a) (sp_algorithm params)) allowed_algorithms of
                None \<Rightarrow> forbidden
              | Some algorithm \<Rightarrow>
                  if \<not> skew_ok X A ck req params allowed_clock_skew then forbidden
                  else
                    (case build_signing_string X req (sp_headers params) of
                       None \<Rightarrow> forbidden
                     | Some signing_string \<Rightarrow>
                         (let key_hash = hash_key (au_sha256 A) (''hmac:'' @ sp_key_id params)
                          in case read_session X A S ck (as_org_id state) key_hash st of
                               (Err r, st') \<Rightarrow> (Err r, st')
                             | (Panic, st') \<Rightarrow> (Panic, st')
                             | (Ok found, st') \<Rightarrow>
                                 (let secret = (case Option.bind found ks_hmac of
                                                  Some h \<Rightarrow> hd_secret h | None \<Rightarrow> DUMMY_HMAC_SECRET);
                                      verified = hmac_verify (au_mac A) algorithm secret signing_string (sp_signature params)
                                  in case found of
                                       None \<Rightarrow> (Err (json_error X 403 FORBIDDEN_MSG), st')
                                     | Some session \<Rightarrow>
                                         if \<not> (verified \<and> ks_hmac session \<noteq> None \<and> ks_active session
                                               \<and> \<not> session_is_expired session (ac_unix ck))
                                         then (Err (json_error X 403 FORBIDDEN_MSG), st')
                                         else grant_access X A S ck (as_api_id state) key_hash session st')))))"

section \<open>Tokens with claims\<close>

definition resolve_jwks_key :: "'h http_ext \<Rightarrow> 'k auth_ext \<Rightarrow> ('k, 'f) jwks_ext \<Rightarrow> auth_clock \<Rightarrow> string \<Rightarrow>
    'k jwks_cache \<Rightarrow> 'f \<Rightarrow> ('h response, 'k) res \<times> 'k jwks_cache \<times> 'f" where
  "resolve_jwks_key X A J ck tok c f =
     (case au_jwt_header A tok of
        None \<Rightarrow> (Err (json_error X 403 FORBIDDEN_MSG), c, f)
      | Some None \<Rightarrow> (Err (json_error X 403 FORBIDDEN_MSG), c, f)
      | Some (Some kid) \<Rightarrow>
          (case key_for J (ac_jwks_unix ck) kid c f of
             (Some key, c', f') \<Rightarrow> (Ok key, c', f')
           | (None, c', f') \<Rightarrow> (Err (json_error X 403 FORBIDDEN_MSG), c', f')))"

definition verify_jwt_claims :: "'h http_ext \<Rightarrow> 'k auth_ext \<Rightarrow> auth_clock \<Rightarrow> 'k \<Rightarrow> jwt_validation \<Rightarrow> string \<Rightarrow>
    ('h response, json) res" where
  "verify_jwt_claims X A ck key validation tok =
     (case au_jwt_decode A tok key validation (ac_unix ck) of
        Some claims \<Rightarrow> Ok claims
      | None \<Rightarrow> Err (json_error X 403 FORBIDDEN_MSG))"

definition api_access_default :: api_access where
  "api_access_default =
     \<lparr>aa_allowed_types = [], aa_restricted_types = [], aa_disable_introspection = False, aa_max_query_depth = None\<rparr>"

text \<open>The ephemeral session of a token: this API only, the identity as alias.\<close>

definition claims_session :: "'k auth_state \<Rightarrow> string \<Rightarrow> json \<Rightarrow> key_session" where
  "claims_session state identity claims =
     session_default\<lparr>ks_org_id := as_org_id state, ks_alias := Some identity,
       ks_expires_at := Option.bind (json_get claims ''exp'') as_u64,
       ks_access := [(as_api_id state, api_access_default)]\<rparr>"

definition authenticate_jwt :: "'h http_ext \<Rightarrow> 'k auth_ext \<Rightarrow> auth_clock \<Rightarrow> 'k auth_state \<Rightarrow> 'k \<Rightarrow> jwt_validation \<Rightarrow>
    string \<Rightarrow> string \<Rightarrow> ('h response, session_context) res" where
  "authenticate_jwt X A ck state key validation identity_claim tok =
     bind_res (verify_jwt_claims X A ck key validation tok) (\<lambda>claims.
       case claim_str claims identity_claim of
         None \<Rightarrow> Err (json_error X 403 FORBIDDEN_MSG)
       | Some identity \<Rightarrow>
           Ok \<lparr>sc_session = claims_session state identity claims,
               sc_key_hash = hash_key (au_sha256 A) (''jwt:'' @ identity)\<rparr>)"

definition build_oidc_session :: "'h http_ext \<Rightarrow> 'k auth_ext \<Rightarrow> 's storage_ops \<Rightarrow> auth_clock \<Rightarrow> 'k auth_state \<Rightarrow> json \<Rightarrow>
    string \<Rightarrow> policy_mapping option \<Rightarrow> 's \<Rightarrow> ('h, session_context, 's) auth_result" where
  "build_oidc_session X A S ck state claims identity_claim mapping st =
     (let forbidden = json_error X 403 FORBIDDEN_MSG
      in case claim_str claims identity_claim of
           None \<Rightarrow> (Err forbidden, st)
         | Some identity \<Rightarrow>
             (let session = claims_session state identity claims;
                  finish = (\<lambda>s. \<lparr>sc_session = s, sc_key_hash = hash_key (au_sha256 A) (''oidc:'' @ identity)\<rparr>)
              in case mapping of
                   None \<Rightarrow> (Ok (finish session), st)
                 | Some m \<Rightarrow>
                     (case Option.bind (claim_str claims (pm_claim m)) (map_of (pm_map m)) of
                        None \<Rightarrow> (Err forbidden, st)
                      | Some policy_id \<Rightarrow>
                          (case fetch_active_policy X A S ck (ks_org_id session) policy_id st of
                             (Err r, st') \<Rightarrow> (Err r, st')
                           | (Panic, st') \<Rightarrow> (Panic, st')
                           | (Ok policy, st') \<Rightarrow>
                               (let session' = apply_policy session policy
                                in if \<not> allows_api session' (as_api_id state) then (Err forbidden, st')
                                   else (Ok (finish session'), st'))))))"

section \<open>The layer\<close>

definition with_store :: "('s, 'k, 'f) auth_world \<Rightarrow> ('h, 'a, 's) auth_result \<Rightarrow> ('h, 'a, ('s, 'k, 'f) auth_world) auth_result" where
  "with_store w r = (fst r, w\<lparr>aw_store := snd r\<rparr>)"

definition with_jwks :: "('s, 'k, 'f) auth_world \<Rightarrow> 'k jwks_cache \<Rightarrow> 'f \<Rightarrow> ('s, 'k, 'f) auth_world" where
  "with_jwks w c f = w\<lparr>aw_jwks := c, aw_fetch := f\<rparr>"

definition authenticate :: "'h http_ext \<Rightarrow> 'k auth_ext \<Rightarrow> 's storage_ops \<Rightarrow> ('k, 'f) jwks_ext \<Rightarrow> auth_clock \<Rightarrow>
    'k auth_state \<Rightarrow> 'h request \<Rightarrow> ('s, 'k, 'f) auth_world \<Rightarrow> ('h, session_context, ('s, 'k, 'f) auth_world) auth_result" where
  "authenticate X A S J ck state req w =
     (let missing = (Err (json_error X 401 ''authorization field missing''), w)
      in case as_mode state of
           TokenMode header query_param cookie \<Rightarrow>
             (case extract_token X header query_param cookie req of
                None \<Rightarrow> missing
              | Some tok \<Rightarrow> with_store w (authenticate_stored_token X A S ck state tok (aw_store w)))
         | JwtMode header keys validation identity_claim \<Rightarrow>
             (case extract_token X header None None req of
                None \<Rightarrow> missing
              | Some tok \<Rightarrow>
                  (case keys of
                     StaticKey key \<Rightarrow> (authenticate_jwt X A ck state key validation identity_claim tok, w)
                   | JwksKeys \<Rightarrow>
                       (case resolve_jwks_key X A J ck tok (aw_jwks w) (aw_fetch w) of
                          (Ok key, c, f) \<Rightarrow>
                            (authenticate_jwt X A ck state key validation identity_claim tok, with_jwks w c f)
                        | (Err r, c, f) \<Rightarrow> (Err r, with_jwks w c f)
                        | (Panic, c, f) \<Rightarrow> (Panic, with_jwks w c f))))
         | OidcMode header validation identity_claim mapping \<Rightarrow>
             (case extract_token X header None None req of
                None \<Rightarrow> missing
              | Some tok \<Rightarrow>
                  (case resolve_jwks_key X A J ck tok (aw_jwks w) (aw_fetch w) of
                     (Err r, c, f) \<Rightarrow> (Err r, with_jwks w c f)
                   | (Panic, c, f) \<Rightarrow> (Panic, with_jwks w c f)
                   | (Ok key, c, f) \<Rightarrow>
                       (case verify_jwt_claims X A ck key validation tok of
                          Err r \<Rightarrow> (Err r, with_jwks w c f)
                        | Panic \<Rightarrow> (Panic, with_jwks w c f)
                        | Ok claims \<Rightarrow>
                            with_store (with_jwks w c f)
                              (build_oidc_session X A S ck state claims identity_claim mapping (aw_store w)))))
         | BasicMode challenge \<Rightarrow> with_store w (authenticate_basic X A S ck state challenge req (aw_store w))
         | MtlsMode \<Rightarrow>
             (case Option.bind (rq_conn req) cn_client_cert_fingerprint of
                None \<Rightarrow> (Err (json_error X 401 ''client certificate required''), w)
              | Some fingerprint \<Rightarrow>
                  with_store w (authenticate_stored_token X A S ck state (''mtls:'' @ fingerprint) (aw_store w)))
         | HmacMode algs skew \<Rightarrow> with_store w (authenticate_hmac X A S ck state algs skew req (aw_store w)))"

text \<open>
  The layer over any world that holds the parts authentication uses: \<open>get\<close> and \<open>put\<close> are the
  view, \<open>clock\<close> the clock readings of this request.
\<close>

definition auth_layer :: "'h http_ext \<Rightarrow> 'k auth_ext \<Rightarrow> 's storage_ops \<Rightarrow> ('k, 'f) jwks_ext \<Rightarrow> 'k auth_state \<Rightarrow>
    ('w \<Rightarrow> ('s, 'k, 'f) auth_world) \<Rightarrow> (('s, 'k, 'f) auth_world \<Rightarrow> 'w \<Rightarrow> 'w) \<Rightarrow> ('w \<Rightarrow> auth_clock) \<Rightarrow>
    ('h, 'w) service \<Rightarrow> ('h, 'w) service" where
  "auth_layer X A S J state get put clock inner req w =
     (if rq_auth_bypass req then inner req w
      else case authenticate X A S J (clock w) state req (get w) of
             (Ok ctx, aw) \<Rightarrow>
               (case inner (req\<lparr>rq_session := Some ctx\<rparr>) (put aw w) of
                  (resp, w') \<Rightarrow> (map_option (\<lambda>r. r\<lparr>rs_session := Some ctx\<rparr>) resp, w'))
           | (Err resp, aw) \<Rightarrow> (Some resp, put aw w)
           | (Panic, aw) \<Rightarrow> (None, put aw w))"

section \<open>Lemmas\<close>

text \<open>
  What vouches for a credential: a record under the key of its hash that parses to a live
  session \<open>s0\<close>, whose one policy, if it names one, is stored, well-filed and active; the
  session in force is \<open>s0\<close> with that policy and grants the API.
\<close>

definition policy_vouched :: "'k auth_ext \<Rightarrow> 's storage_ops \<Rightarrow> auth_clock \<Rightarrow> 's \<Rightarrow> string \<Rightarrow> string \<Rightarrow> policy \<Rightarrow> bool" where
  "policy_vouched A S ck st org_id policy_id p \<longleftrightarrow>
     (\<exists>raw st'. st_get S st (ac_policy ck) (policy_storage_key org_id policy_id) = (Ok (Some raw), st')
        \<and> au_policy_json A raw = Some p)
     \<and> po_org_id p = org_id \<and> po_policy_id p = policy_id \<and> po_active p"

definition vouched :: "'k auth_ext \<Rightarrow> 's storage_ops \<Rightarrow> auth_clock \<Rightarrow> 'k auth_state \<Rightarrow> 's \<Rightarrow> string \<Rightarrow> key_session \<Rightarrow>
    session_context \<Rightarrow> bool" where
  "vouched A S ck state st credential s0 ctx \<longleftrightarrow>
     (\<exists>raw st'. st_get S st (ac_session ck)
          (session_storage_key (as_org_id state) (hash_key (au_sha256 A) credential)) = (Ok (Some raw), st')
        \<and> au_session_json A raw = Some s0
        \<and> (case ks_apply_policies s0 of
             [] \<Rightarrow> sc_session ctx = s0
           | [pid] \<Rightarrow> (\<exists>p. policy_vouched A S ck st' (ks_org_id s0) pid p \<and> sc_session ctx = apply_policy s0 p)
           | _ \<Rightarrow> False))
     \<and> ks_active s0 \<and> \<not> session_is_expired s0 (ac_unix ck)
     \<and> allows_api (sc_session ctx) (as_api_id state)
     \<and> sc_key_hash ctx = hash_key (au_sha256 A) credential"

lemma fetch_active_policy_Ok:
  "fetch_active_policy X A S ck org pid st = (Ok p, st') \<Longrightarrow> policy_vouched A S ck st org pid p"
  by (auto simp: fetch_active_policy_def policy_vouched_def split: prod.splits res.splits option.splits if_splits)

lemma read_session_Ok:
  "read_session X A S ck org h st = (Ok (Some s), st') \<Longrightarrow>
   \<exists>raw. st_get S st (ac_session ck) (session_storage_key org h) = (Ok (Some raw), st') \<and> au_session_json A raw = Some s"
  by (auto simp: read_session_def split: prod.splits res.splits option.splits)

lemma grant_access_Ok:
  assumes "grant_access X A S ck api h s st = (Ok ctx, st')"
  shows "allows_api (sc_session ctx) api \<and> sc_key_hash ctx = h
    \<and> (case ks_apply_policies s of
         [] \<Rightarrow> sc_session ctx = s
       | [pid] \<Rightarrow> (\<exists>p. policy_vouched A S ck st (ks_org_id s) pid p \<and> sc_session ctx = apply_policy s p)
       | _ \<Rightarrow> False)"
proof -
  obtain s' st1 where r: "resolve_policy X A S ck s st = (Ok s', st1)" and ctx: "ctx = \<lparr>sc_session = s', sc_key_hash = h\<rparr>"
    "allows_api s' api"
    using assms by (auto simp: grant_access_def split: prod.splits res.splits if_splits)
  have "case ks_apply_policies s of
         [] \<Rightarrow> s' = s
       | [pid] \<Rightarrow> (\<exists>p. policy_vouched A S ck st (ks_org_id s) pid p \<and> s' = apply_policy s p)
       | _ \<Rightarrow> False"
    using r by (auto simp: resolve_policy_def split: list.splits prod.splits res.splits dest: fetch_active_policy_Ok)
  with ctx show ?thesis by (auto split: list.splits)
qed

lemma vouchedI:
  assumes "read_session X A S ck (as_org_id state) h st = (Ok (Some s), st1)"
    and "h = hash_key (au_sha256 A) credential"
    and "grant_access X A S ck (as_api_id state) h s st1 = (Ok ctx, st')"
    and "ks_active s" and "\<not> session_is_expired s (ac_unix ck)"
  shows "vouched A S ck state st credential s ctx"
proof -
  obtain raw where "st_get S st (ac_session ck) (session_storage_key (as_org_id state) h) = (Ok (Some raw), st1)"
    "au_session_json A raw = Some s"
    using read_session_Ok [OF assms(1)] by blast
  then show ?thesis
    unfolding vouched_def assms(2) [symmetric]
    using grant_access_Ok [OF assms(3)] assms(4,5) by (intro conjI exI [of _ raw] exI [of _ st1]) simp_all
qed

lemma stored_token_Ok:
  "authenticate_stored_token X A S ck state tok st = (Ok ctx, st') \<Longrightarrow> \<exists>s. vouched A S ck state st tok s ctx"
  by (auto simp: authenticate_stored_token_def Let_def split: prod.splits res.splits option.splits if_splits
      intro: vouchedI)

lemma basic_Ok:
  assumes "authenticate_basic X A S ck state challenge req st = (Ok ctx, st')"
  shows "\<exists>u p s b. extract_basic_credentials X A req = Some (u, p) \<and> vouched A S ck state st (''basic:'' @ u) s ctx
    \<and> ks_basic_auth s = Some b \<and> au_bcrypt_verify A p (ba_password_hash b) = BcryptChecked True"
proof -
  obtain u p where up: "extract_basic_credentials X A req = Some (u, p)"
    using assms by (auto simp: authenticate_basic_def split: option.splits)
  let ?h = "hash_key (au_sha256 A) (''basic:'' @ u)"
  obtain s b st1 where "read_session X A S ck (as_org_id state) ?h st = (Ok (Some s), st1)"
    "ks_basic_auth s = Some b" "au_bcrypt_verify A p (ba_password_hash b) = BcryptChecked True"
    "ks_active s" "\<not> session_is_expired s (ac_unix ck)"
    "grant_access X A S ck (as_api_id state) ?h s st1 = (Ok ctx, st')"
    using assms up
    by (auto simp: authenticate_basic_def Let_def split: prod.splits res.splits option.splits bcrypt_result.splits if_splits)
  then show ?thesis using up by (blast intro: vouchedI)
qed

lemma hmac_Ok:
  assumes "authenticate_hmac X A S ck state algs skew req st = (Ok ctx, st')"
  shows "\<exists>params alg msg s h.
      Option.bind (Option.bind (hm_get X (rq_headers req) ''authorization'') (hv_to_str X))
        (parse_signature_header (au_base64 A)) = Some params
    \<and> alg \<in> set algs \<and> eq_ignore_ascii_case (hmac_as_str alg) (sp_algorithm params)
    \<and> skew_ok X A ck req params skew
    \<and> build_signing_string X req (sp_headers params) = Some msg
    \<and> vouched A S ck state st (''hmac:'' @ sp_key_id params) s ctx
    \<and> ks_hmac s = Some h \<and> hmac_verify (au_mac A) alg (hd_secret h) msg (sp_signature params)"
proof -
  obtain params alg msg where p: "Option.bind (Option.bind (hm_get X (rq_headers req) ''authorization'') (hv_to_str X))
        (parse_signature_header (au_base64 A)) = Some params"
    "find (\<lambda>a. eq_ignore_ascii_case (hmac_as_str a) (sp_algorithm params)) algs = Some alg"
    "skew_ok X A ck req params skew" "build_signing_string X req (sp_headers params) = Some msg"
    using assms by (auto simp: authenticate_hmac_def Let_def split: option.splits if_splits)
  let ?h = "hash_key (au_sha256 A) (''hmac:'' @ sp_key_id params)"
  obtain s hd st1 where "read_session X A S ck (as_org_id state) ?h st = (Ok (Some s), st1)"
    "ks_hmac s = Some hd" "hmac_verify (au_mac A) alg (hd_secret hd) msg (sp_signature params)"
    "ks_active s" "\<not> session_is_expired s (ac_unix ck)"
    "grant_access X A S ck (as_api_id state) ?h s st1 = (Ok ctx, st')"
    using assms p
    by (auto simp: authenticate_hmac_def Let_def split: prod.splits res.splits option.splits if_splits)
  moreover have "alg \<in> set algs" "eq_ignore_ascii_case (hmac_as_str alg) (sp_algorithm params)"
    using p(2) by (auto simp: find_Some_iff)
  ultimately show ?thesis using p by (blast intro: vouchedI)
qed

lemma jwt_Ok:
  "authenticate_jwt X A ck state key va ic tok = Ok ctx \<Longrightarrow>
   \<exists>claims identity. au_jwt_decode A tok key va (ac_unix ck) = Some claims \<and> claim_str claims ic = Some identity
     \<and> sc_session ctx = claims_session state identity claims
     \<and> sc_key_hash ctx = hash_key (au_sha256 A) (''jwt:'' @ identity)"
  by (auto simp: authenticate_jwt_def verify_jwt_claims_def split: option.splits)

lemma oidc_Ok:
  "build_oidc_session X A S ck state claims ic mapping st = (Ok ctx, st') \<Longrightarrow>
   \<exists>identity. claim_str claims ic = Some identity
     \<and> sc_key_hash ctx = hash_key (au_sha256 A) (''oidc:'' @ identity)
     \<and> (case mapping of
          None \<Rightarrow> sc_session ctx = claims_session state identity claims
        | Some m \<Rightarrow> (\<exists>client pid p. claim_str claims (pm_claim m) = Some client \<and> map_of (pm_map m) client = Some pid
            \<and> policy_vouched A S ck st (as_org_id state) pid p
            \<and> sc_session ctx = apply_policy (claims_session state identity claims) p))
     \<and> allows_api (sc_session ctx) (as_api_id state)"
  by (auto simp: build_oidc_session_def Let_def allows_api_def claims_session_def Option.bind_eq_Some_conv
      split: option.splits prod.splits res.splits if_splits dest!: fetch_active_policy_Ok)

lemma fst_Ok: "fst r = x \<Longrightarrow> r = (x, snd r)"
  by (cases r) simp

lemmas admitted_by = stored_token_Ok [OF fst_Ok] basic_Ok [OF fst_Ok] hmac_Ok [OF fst_Ok] oidc_Ok [OF fst_Ok]

lemma resolve_jwks_key_Ok:
  "resolve_jwks_key X A J ck tok c f = (Ok key, c', f') \<Longrightarrow>
   \<exists>kid. au_jwt_header A tok = Some (Some kid) \<and> key_for J (ac_jwks_unix ck) kid c f = (Some key, c', f')"
  by (auto simp: resolve_jwks_key_def split: option.splits prod.splits)

lemma verify_jwt_claims_Ok:
  "verify_jwt_claims X A ck key va tok = Ok claims \<longleftrightarrow> au_jwt_decode A tok key va (ac_unix ck) = Some claims"
  by (simp add: verify_jwt_claims_def split: option.splits)

text \<open>Every rejection is one of a few fixed responses, and there is only one \<open>403\<close>.\<close>

definition rejection :: "'h http_ext \<Rightarrow> 'h response \<Rightarrow> bool" where
  "rejection X r \<longleftrightarrow> rs_status r \<in> {401, 500, 503} \<or> r = json_error X 403 FORBIDDEN_MSG"

lemma json_error_status [simp]: "rs_status (json_error X st m) = st"
  by (simp add: json_error_def Let_def)

lemma rejectionI [simp]:
  "rejection X (json_error X 401 m)" "rejection X (json_error X 500 m)" "rejection X (json_error X 503 m)"
  "rejection X (json_error X 403 FORBIDDEN_MSG)" "rejection X (basic_challenge_error X c)"
  by (simp_all add: rejection_def basic_challenge_error_def Let_def)

lemma fetch_active_policy_Err: "fetch_active_policy X A S ck org pid st = (Err r, st') \<Longrightarrow> rejection X r"
  by (auto simp: fetch_active_policy_def split: prod.splits res.splits option.splits if_splits)

lemma read_session_Err: "read_session X A S ck org h st = (Err r, st') \<Longrightarrow> rejection X r"
  by (auto simp: read_session_def split: prod.splits res.splits option.splits)

lemma grant_access_Err: "grant_access X A S ck api h s st = (Err r, st') \<Longrightarrow> rejection X r"
  by (auto simp: grant_access_def resolve_policy_def split: prod.splits res.splits list.splits if_splits
      dest: fetch_active_policy_Err)

lemma stored_token_Err: "authenticate_stored_token X A S ck state tok st = (Err r, st') \<Longrightarrow> rejection X r"
  by (auto simp: authenticate_stored_token_def Let_def split: prod.splits res.splits option.splits if_splits
      dest: read_session_Err grant_access_Err)

lemma basic_Err: "authenticate_basic X A S ck state c req st = (Err r, st') \<Longrightarrow> rejection X r"
  by (auto simp: authenticate_basic_def Let_def
      split: prod.splits res.splits option.splits if_splits bcrypt_result.splits
      dest: read_session_Err grant_access_Err)

lemma hmac_Err: "authenticate_hmac X A S ck state algs skew req st = (Err r, st') \<Longrightarrow> rejection X r"
  by (auto simp: authenticate_hmac_def Let_def split: prod.splits res.splits option.splits if_splits
      dest: read_session_Err grant_access_Err)

lemma jwt_Err: "authenticate_jwt X A ck state key va ic tok = Err r \<Longrightarrow> rejection X r"
  by (auto simp: authenticate_jwt_def verify_jwt_claims_def bind_res_def split: option.splits res.splits)

lemma oidc_Err: "build_oidc_session X A S ck state claims ic m st = (Err r, st') \<Longrightarrow> rejection X r"
  by (auto simp: build_oidc_session_def Let_def split: prod.splits res.splits option.splits if_splits
      dest: fetch_active_policy_Err)

lemmas rejected_by = stored_token_Err [OF fst_Ok] basic_Err [OF fst_Ok] hmac_Err [OF fst_Ok] oidc_Err [OF fst_Ok]

lemma resolve_jwks_key_Err: "resolve_jwks_key X A J ck tok c f = (Err r, c', f') \<Longrightarrow> rejection X r"
  by (auto simp: resolve_jwks_key_def split: option.splits prod.splits)

lemma authenticate_Err: "authenticate X A S J ck state req w = (Err r, w') \<Longrightarrow> rejection X r"
  by (cases "as_mode state")
    (auto simp: authenticate_def with_store_def verify_jwt_claims_def
      split: option.splits prod.splits res.splits jwt_keys.splits
      dest: rejected_by jwt_Err resolve_jwks_key_Err)

section \<open>Properties\<close>

text \<open>
  C2. Authentication admits only what vouches for itself, in every mode: a token or a client
  certificate only with a live stored session of its own hash; a user name only with such a
  session and a password its bcrypt hash accepts; a signature only with such a session, an
  allowed algorithm, a \<open>date\<close> that is signed and fresh while a skew is configured, and a tag
  that verifies over the signed parts of this very request; a JWT or OIDC token only with
  claims the JWT library accepted and, with a policy map, a mapped active policy. The session
  handed on grants this API, with the stored policy applied where one is named.
\<close>

theorem authenticate_sound:
  assumes "authenticate X A S J ck state req w = (Ok ctx, w')"
  shows "case as_mode state of
      TokenMode header query_param cookie \<Rightarrow>
        \<exists>tok s. extract_token X header query_param cookie req = Some tok \<and> vouched A S ck state (aw_store w) tok s ctx
    | MtlsMode \<Rightarrow>
        \<exists>fp s. Option.bind (rq_conn req) cn_client_cert_fingerprint = Some fp
          \<and> vouched A S ck state (aw_store w) (''mtls:'' @ fp) s ctx
    | BasicMode challenge \<Rightarrow>
        \<exists>u p s b. extract_basic_credentials X A req = Some (u, p)
          \<and> vouched A S ck state (aw_store w) (''basic:'' @ u) s ctx
          \<and> ks_basic_auth s = Some b \<and> au_bcrypt_verify A p (ba_password_hash b) = BcryptChecked True
    | HmacMode algs skew \<Rightarrow>
        \<exists>params alg msg s h.
          Option.bind (Option.bind (hm_get X (rq_headers req) ''authorization'') (hv_to_str X))
            (parse_signature_header (au_base64 A)) = Some params
          \<and> alg \<in> set algs \<and> eq_ignore_ascii_case (hmac_as_str alg) (sp_algorithm params)
          \<and> skew_ok X A ck req params skew
          \<and> build_signing_string X req (sp_headers params) = Some msg
          \<and> vouched A S ck state (aw_store w) (''hmac:'' @ sp_key_id params) s ctx
          \<and> ks_hmac s = Some h \<and> hmac_verify (au_mac A) alg (hd_secret h) msg (sp_signature params)
    | JwtMode header keys va ic \<Rightarrow>
        \<exists>tok key claims identity. extract_token X header None None req = Some tok
          \<and> (case keys of StaticKey k \<Rightarrow> key = k
             | JwksKeys \<Rightarrow> \<exists>kid c f. au_jwt_header A tok = Some (Some kid)
                 \<and> key_for J (ac_jwks_unix ck) kid (aw_jwks w) (aw_fetch w) = (Some key, c, f))
          \<and> au_jwt_decode A tok key va (ac_unix ck) = Some claims \<and> claim_str claims ic = Some identity
          \<and> sc_session ctx = claims_session state identity claims
    | OidcMode header va ic mapping \<Rightarrow>
        \<exists>tok kid key c f claims identity. extract_token X header None None req = Some tok
          \<and> au_jwt_header A tok = Some (Some kid)
          \<and> key_for J (ac_jwks_unix ck) kid (aw_jwks w) (aw_fetch w) = (Some key, c, f)
          \<and> au_jwt_decode A tok key va (ac_unix ck) = Some claims \<and> claim_str claims ic = Some identity
          \<and> (case mapping of
               None \<Rightarrow> sc_session ctx = claims_session state identity claims
             | Some m \<Rightarrow> (\<exists>client pid p. claim_str claims (pm_claim m) = Some client \<and> map_of (pm_map m) client = Some pid
                 \<and> policy_vouched A S ck (aw_store w) (as_org_id state) pid p
                 \<and> sc_session ctx = apply_policy (claims_session state identity claims) p))
          \<and> allows_api (sc_session ctx) (as_api_id state)"
proof (cases "as_mode state")
  case (TokenMode header query_param cookie)
  with assms show ?thesis
    by (auto simp: authenticate_def with_store_def split: option.splits dest: admitted_by)
next
  case (JwtMode header keys va ic)
  then obtain tok where tok: "extract_token X header None None req = Some tok"
    using assms by (auto simp: authenticate_def split: option.splits)
  show ?thesis
  proof (cases keys)
    case (StaticKey k)
    with assms JwtMode tok have "authenticate_jwt X A ck state k va ic tok = Ok ctx" by (simp add: authenticate_def)
    from jwt_Ok [OF this] show ?thesis using JwtMode tok StaticKey by auto
  next
    case JwksKeys
    with assms JwtMode tok obtain key c f where
      "resolve_jwks_key X A J ck tok (aw_jwks w) (aw_fetch w) = (Ok key, c, f)"
      "authenticate_jwt X A ck state key va ic tok = Ok ctx"
      by (auto simp: authenticate_def split: prod.splits res.splits)
    from resolve_jwks_key_Ok [OF this(1)] jwt_Ok [OF this(2)] show ?thesis
      using JwtMode tok JwksKeys by auto
  qed
next
  case (OidcMode header va ic mapping)
  with assms obtain tok key c f claims where tok: "extract_token X header None None req = Some tok"
    and key: "resolve_jwks_key X A J ck tok (aw_jwks w) (aw_fetch w) = (Ok key, c, f)"
    and claims: "au_jwt_decode A tok key va (ac_unix ck) = Some claims"
    and session: "fst (build_oidc_session X A S ck state claims ic mapping (aw_store w)) = Ok ctx"
    by (auto simp: authenticate_def with_store_def verify_jwt_claims_Ok split: option.splits prod.splits res.splits)
  obtain kid where "au_jwt_header A tok = Some (Some kid)"
    "key_for J (ac_jwks_unix ck) kid (aw_jwks w) (aw_fetch w) = (Some key, c, f)"
    using resolve_jwks_key_Ok [OF key] by blast
  with admitted_by(4) [OF session] tok claims show ?thesis
    unfolding OidcMode auth_mode.case by blast
next
  case (BasicMode challenge)
  with assms have "fst (authenticate_basic X A S ck state challenge req (aw_store w)) = Ok ctx"
    by (auto simp: authenticate_def with_store_def)
  from admitted_by(2) [OF this] show ?thesis unfolding BasicMode auth_mode.case .
next
  case MtlsMode
  with assms show ?thesis
    by (auto simp: authenticate_def with_store_def split: option.splits dest: admitted_by)
next
  case (HmacMode algs skew)
  with assms have "fst (authenticate_hmac X A S ck state algs skew req (aw_store w)) = Ok ctx"
    by (auto simp: authenticate_def with_store_def)
  from admitted_by(3) [OF this] show ?thesis unfolding HmacMode auth_mode.case .
qed

definition sample_auth :: "string auth_ext" where
  "sample_auth =
     \<lparr>au_sha256 = id, au_bcrypt_verify = (\<lambda>p h. BcryptChecked (h = ''h:'' @ p)), au_base64 = Some,
      au_mac = (\<lambda>d k m. k @ m),
      au_session_json = (\<lambda>raw. Some (session_default\<lparr>ks_basic_auth := Some \<lparr>ba_password_hash = raw\<rparr>\<rparr>)),
      au_policy_json = (\<lambda>raw. None), au_jwt_header = (\<lambda>t. None), au_jwt_decode = (\<lambda>t k v n. None),
      au_http_date = (\<lambda>s. None), au_secret_key = id, au_pem_key = Inr\<rparr>"

text \<open>A store that holds one record.\<close>

definition one_record :: "string \<Rightarrow> string \<Rightarrow> unit storage_ops" where
  "one_record key raw =
     \<lparr>st_get = (\<lambda>s t k. (Ok (if k = key then Some raw else None), s)), st_set = (\<lambda>s t k v d. (Ok (), s)),
      st_delete = (\<lambda>s t k. (Ok False, s)), st_scan_prefix = (\<lambda>s t p. (Ok [], s)),
      st_list_append = (\<lambda>s t k v n. (Ok (), s)), st_list_drain = (\<lambda>s t k n. (Ok [], s)),
      st_check_rate = (\<lambda>s t k n d. (Err (Backend []), s)), st_check_quota = (\<lambda>s t k n d. (Err (Backend []), s))\<rparr>"

definition sample_auth_clock :: auth_clock where
  "sample_auth_clock = \<lparr>ac_session = 0, ac_policy = 0, ac_unix = 0, ac_skew_unix = 0, ac_jwks_unix = 0\<rparr>"

definition sample_auth_world :: "(unit, string, unit) auth_world" where
  "sample_auth_world = \<lparr>aw_store = (), aw_jwks = jwks_new ''a'' ''u'', aw_fetch = ()\<rparr>"

definition token_state :: "'k auth_state" where
  "token_state = \<lparr>as_api_id = ''api'', as_org_id = ''org'', as_mode = TokenMode ''authorization'' None None\<rparr>"

theorem authenticate_sound_witness:
  "\<exists>ctx w' tok s. authenticate alist_ext sample_auth
      (one_record (session_storage_key ''org'' (hash_key id ''key'')) ''h:pw'') sample_jwks sample_auth_clock token_state
      (sample_request ''GET'' ''/a''\<lparr>rq_headers := [(''authorization'', [''key''])]\<rparr>) sample_auth_world = (Ok ctx, w')
    \<and> vouched sample_auth (one_record (session_storage_key ''org'' (hash_key id ''key'')) ''h:pw'') sample_auth_clock
        token_state () tok s ctx \<and> tok = ''key''"
proof -
  let ?S = "one_record (session_storage_key ''org'' (hash_key id ''key'')) ''h:pw''"
  let ?q = "sample_request ''GET'' ''/a''\<lparr>rq_headers := [(''authorization'', [''key''])]\<rparr>"
  have t: "extract_token alist_ext ''authorization'' None None ?q = Some ''key''"
    by code_simp
  then obtain ctx w' where a: "authenticate alist_ext sample_auth ?S sample_jwks sample_auth_clock token_state ?q
      sample_auth_world = (Ok ctx, w')"
    by (auto simp: authenticate_def token_state_def authenticate_stored_token_def read_session_def one_record_def
        sample_auth_def with_store_def Let_def session_is_expired_def grant_access_def resolve_policy_def allows_api_def
        session_default_def)
  from authenticate_sound [OF a] t show ?thesis
    using a by (auto simp: token_state_def sample_auth_world_def)
qed

text \<open>
  C7. A request that does not authenticate never reaches the layers below, whatever they are,
  and learns nothing from a \<open>403\<close>: the answer does not depend on the inner service, its status
  is \<open>401\<close>, \<open>403\<close>, \<open>500\<close> or \<open>503\<close>, and every \<open>403\<close> is the same response, for an unknown key as
  for an inactive, expired or unentitled one, a wrong password, a bad signature or a rejected
  token. An authenticated request reaches them with its session attached.
\<close>

theorem auth_gate:
  assumes "\<not> rq_auth_bypass req"
  shows "case authenticate X A S J (clock w) state req (get w) of
      (Ok ctx, aw) \<Rightarrow> (\<forall>inner. fst (inner (req\<lparr>rq_session := Some ctx\<rparr>) (put aw w)) = None
          \<longrightarrow> fst (auth_layer X A S J state get put clock inner req w) = None)
        \<and> (\<forall>inner r w'. inner (req\<lparr>rq_session := Some ctx\<rparr>) (put aw w) = (Some r, w')
          \<longrightarrow> auth_layer X A S J state get put clock inner req w = (Some (r\<lparr>rs_session := Some ctx\<rparr>), w'))
    | (Err resp, aw) \<Rightarrow> (\<forall>inner. auth_layer X A S J state get put clock inner req w = (Some resp, put aw w))
        \<and> rs_status resp \<in> {401, 403, 500, 503}
        \<and> (rs_status resp = 403 \<longrightarrow> resp = json_error X 403 FORBIDDEN_MSG)
    | (Panic, aw) \<Rightarrow> (\<forall>inner. auth_layer X A S J state get put clock inner req w = (None, put aw w))"
proof -
  obtain r aw where r: "authenticate X A S J (clock w) state req (get w) = (r, aw)" by fastforce
  show ?thesis
  proof (cases r)
    case (Ok ctx)
    with r assms show ?thesis by (auto simp: auth_layer_def split: prod.splits)
  next
    case (Err resp)
    with r have "rejection X resp" using authenticate_Err by blast
    then have "rs_status resp \<in> {401, 403, 500, 503} \<and> (rs_status resp = 403 \<longrightarrow> resp = json_error X 403 FORBIDDEN_MSG)"
      by (auto simp: rejection_def)
    with r Err assms show ?thesis by (simp add: auth_layer_def)
  next
    case Panic
    with r assms show ?thesis by (simp add: auth_layer_def)
  qed
qed

theorem auth_gate_witness:
  "\<exists>resp. \<forall>inner. auth_layer alist_ext sample_auth (one_record ''k'' ''r'') sample_jwks token_state id (\<lambda>a w. a)
      (\<lambda>w. sample_auth_clock) inner (sample_request ''GET'' ''/a'') sample_auth_world = (Some resp, sample_auth_world)
    \<and> rs_status resp = 401"
proof -
  let ?q = "sample_request ''GET'' ''/a''"
  have a: "authenticate alist_ext sample_auth (one_record ''k'' ''r'') sample_jwks sample_auth_clock token_state ?q
      sample_auth_world = (Err (json_error alist_ext 401 ''authorization field missing''), sample_auth_world)"
    by (simp add: authenticate_def token_state_def extract_token_def token_in_header_def token_in_query_def
        token_in_cookie_def sample_request_def hm_get_def alist_ext_def al_get_def)
  have "\<not> rq_auth_bypass ?q" by (simp add: sample_request_def)
  from auth_gate [OF this, where X = alist_ext and A = sample_auth and S = "one_record ''k'' ''r''" and J = sample_jwks
      and clock = "\<lambda>w. sample_auth_clock" and w = sample_auth_world and state = token_state and get = id
      and put = "\<lambda>a w. a"] a
  show ?thesis by auto
qed

lemma strip_bearer_id:
  assumes "length s < 7 \<or> to_ascii_lowercase (take 7 s) \<noteq> ''bearer ''"
  shows "strip_bearer s = s"
proof -
  have "to_ascii_lowercase ''bearer '' = ''bearer ''" by code_simp
  moreover have "length s < 7 \<or> eq_ignore_ascii_case (take 7 s) ''bearer '' \<longrightarrow> strip_bearer s = s"
    using assms calculation
    by (auto simp: strip_bearer_def eq_ignore_ascii_case_def split_at_checked_def split: option.splits)
  ultimately show ?thesis
    by (auto simp: strip_bearer_def eq_ignore_ascii_case_def split_at_checked_def)
qed

text \<open>
  The credential namespaces do not separate the modes: an API of the same organisation
  in token mode accepts the bare string \<open>basic:\<close>, \<open>mtls:\<close> or \<open>hmac:\<close> followed by a user name, a
  certificate fingerprint or a key id as a token, and answers with the session stored for
  that identity, without any password, certificate or signature.
\<close>

theorem token_mode_accepts_other_identities:
  assumes "ns \<in> {''basic:'', ''mtls:'', ''hmac:''}" and "list_all graphic identity"
    and "as_mode state = TokenMode header query_param cookie"
    and "hm_get X (rq_headers req) header = Some v" and "hv_to_str X v = Some (ns @ identity)"
    and "st_get S (aw_store w) (ac_session ck)
        (session_storage_key (as_org_id state) (hash_key (au_sha256 A) (ns @ identity))) = (Ok (Some raw), st')"
    and "au_session_json A raw = Some session" and "ks_active session" and "\<not> session_is_expired session (ac_unix ck)"
    and "ks_apply_policies session = []" and "allows_api session (as_api_id state)"
  shows "authenticate X A S J ck state req w =
    (Ok \<lparr>sc_session = session, sc_key_hash = hash_key (au_sha256 A) (ns @ identity)\<rparr>, w\<lparr>aw_store := st'\<rparr>)"
proof -
  have g: "list_all graphic (ns @ identity)" using assms(1,2) by (auto simp: graphic_def)
  then have t: "trim (ns @ identity) = ns @ identity" by (rule trim_graphic)
  have "to_ascii_lowercase (take 7 (ns @ identity)) \<noteq> ''bearer ''"
  proof
    assume a: "to_ascii_lowercase (take 7 (ns @ identity)) = ''bearer ''"
    have "ascii_lower (CHR ''i'') = CHR ''i''" "ascii_lower (CHR ''a'') = CHR ''a''"
      "ascii_lower (CHR ''m'') = CHR ''m''" "ascii_lower (CHR ''h'') = CHR ''h''" "ascii_lower (CHR ''b'') = CHR ''b''"
      by code_simp+
    with a assms(1) show False by (auto simp: to_ascii_lowercase_def)
  qed
  then have s: "strip_bearer (ns @ identity) = ns @ identity" by (intro strip_bearer_id) simp
  have "extract_token X header query_param cookie req = Some (ns @ identity)"
    using assms(1,4,5) by (auto simp: extract_token_def token_in_header_def t s)
  then show ?thesis
    using assms(3,6-11)
    by (simp add: authenticate_def authenticate_stored_token_def read_session_def with_store_def Let_def
        grant_access_def resolve_policy_def)
qed

theorem token_mode_accepts_other_identities_witness:
  "\<exists>ctx. authenticate alist_ext sample_auth
      (one_record (session_storage_key ''org'' (hash_key id ''basic:alice'')) ''h:secret'') sample_jwks sample_auth_clock
      token_state (sample_request ''GET'' ''/a''\<lparr>rq_headers := [(''authorization'', [''basic:alice''])]\<rparr>)
      sample_auth_world = (Ok ctx, sample_auth_world)
    \<and> ks_basic_auth (sc_session ctx) = Some \<lparr>ba_password_hash = ''h:secret''\<rparr>"
proof -
  let ?S = "one_record (session_storage_key ''org'' (hash_key id ''basic:alice'')) ''h:secret''"
  let ?q = "sample_request ''GET'' ''/a''\<lparr>rq_headers := [(''authorization'', [''basic:alice''])]\<rparr>"
  let ?s = "session_default\<lparr>ks_basic_auth := Some \<lparr>ba_password_hash = ''h:secret''\<rparr>\<rparr>"
  have h: "hm_get alist_ext (rq_headers ?q) ''authorization'' = Some ''basic:alice''"
    "hv_to_str alist_ext ''basic:alice'' = Some (''basic:'' @ ''alice'')"
    by code_simp+
  have g: "list_all graphic ''alice''" by code_simp
  from token_mode_accepts_other_identities [of "''basic:''" "''alice''" token_state "''authorization''" None None alist_ext ?q
      "''basic:alice''" ?S sample_auth_world sample_auth_clock sample_auth "''h:secret''" "()" ?s sample_jwks, OF _ g _ h]
  show ?thesis
    by (auto simp: token_state_def one_record_def sample_auth_def sample_auth_world_def session_default_def
        session_is_expired_def allows_api_def)
qed

end
