(* ===== verification/Cache.thy ===== *)
theory Cache
  imports Api_Definition Json
begin

text \<open>
  The shared response cache, \<open>g2-middleware/src/cache.rs\<close>: the key of a request, the stored
  entry and its encoding, the tee that records a body while it streams to the client, the
  background write, and the layer. Base64, the JSON codec and the header map's iteration are
  parameters. Bodies are polled by the server long after the layer has returned, so the tees
  of the responses in flight are part of the world.
\<close>

section \<open>Entries\<close>

record cached_entry =
  en_status :: nat
  en_headers :: "(string \<times> string) list"
  en_body_b64 :: string

record 'h cache_ext =
  kx_iter :: "'h \<Rightarrow> (string \<times> string) list"
  kx_b64_encode :: "string \<Rightarrow> string"
  kx_b64_decode :: "string \<Rightarrow> string option"
  kx_entry_print :: "cached_entry \<Rightarrow> string"
  kx_entry_parse :: "string \<Rightarrow> cached_entry option"
  kx_value_parse :: "string \<Rightarrow> json option"
  kx_hv_from_bytes :: "string \<Rightarrow> string option"

definition CACHE_STATUS_HEADER :: string where
  "CACHE_STATUS_HEADER = ''x-g2-cache''"

definition encode_entry :: "'h cache_ext \<Rightarrow> nat \<Rightarrow> (string \<times> string) list \<Rightarrow> string \<Rightarrow> string" where
  "encode_entry K status headers body =
     kx_entry_print K
       \<lparr>en_status = status, en_headers = map (\<lambda>(n, v). (n, kx_b64_encode K v)) headers,
        en_body_b64 = kx_b64_encode K body\<rparr>"

fun decode_headers :: "'h http_ext \<Rightarrow> 'h cache_ext \<Rightarrow> (string \<times> string) list \<Rightarrow> 'h \<Rightarrow> 'h option" where
  "decode_headers X K [] h = Some h"
| "decode_headers X K ((name, value) # rest) h =
     Option.bind (hn_parse X name) (\<lambda>n.
     Option.bind (kx_b64_decode K value) (\<lambda>bytes.
     Option.bind (kx_hv_from_bytes K bytes) (\<lambda>v.
       decode_headers X K rest (hm_append X h n v))))"

definition decode_entry :: "'h http_ext \<Rightarrow> 'h cache_ext \<Rightarrow> string \<Rightarrow> 'h response option" where
  "decode_entry X K stored =
     Option.bind (kx_entry_parse K stored) (\<lambda>entry.
     Option.bind (kx_b64_decode K (en_body_b64 entry)) (\<lambda>bytes.
     Option.bind (status_from_u16 (en_status entry)) (\<lambda>status.
     Option.bind (decode_headers X K (en_headers entry) (hm_empty X)) (\<lambda>h.
       Some ((response_new X (body_full bytes))\<lparr>rs_status := status,
         rs_headers := hm_insert X h CACHE_STATUS_HEADER ''hit''\<rparr>)))))"

section \<open>Writes\<close>

datatype write_policy = AnyBody | GraphQlSuccess

definition policy_allows :: "'h cache_ext \<Rightarrow> write_policy \<Rightarrow> string \<Rightarrow> bool" where
  "policy_allows K p body =
     (case p of
        AnyBody \<Rightarrow> True
      | GraphQlSuccess \<Rightarrow>
          (case kx_value_parse K body of
             Some (JObject members) \<Rightarrow>
               (case map_of members ''errors'' of
                  None \<Rightarrow> True
                | Some JNull \<Rightarrow> True
                | Some (JArray errors) \<Rightarrow> errors = []
                | Some _ \<Rightarrow> False)
           | _ \<Rightarrow> False))"

record cache_write =
  wr_key :: string
  wr_ttl :: duration
  wr_status :: nat
  wr_headers :: "(string \<times> string) list"
  wr_policy :: write_policy

text \<open>The spawned task of a completed body; a failing store only costs the entry.\<close>

definition run_write :: "'h cache_ext \<Rightarrow> 's storage_ops \<Rightarrow> instant \<Rightarrow> cache_write \<Rightarrow> string \<Rightarrow> 's \<Rightarrow> 's" where
  "run_write K S now wr body s =
     (if \<not> policy_allows K (wr_policy wr) body then s
      else snd (st_set S s now (wr_key wr) (encode_entry K (wr_status wr) (wr_headers wr) body) (Some (wr_ttl wr))))"

section \<open>The recording body\<close>

text \<open>
  The tee around an inner body with the frames still to come; \<open>rb_eager\<close> says whether the
  inner body reports its end as soon as its last frame is delivered.
\<close>

record recording_body =
  rb_frames :: "frame list"
  rb_error :: "body_error option"
  rb_eager :: bool
  rb_buf :: string
  rb_max :: nat
  rb_write :: "cache_write option"

datatype poll_result = PollFrame frame | PollErr body_error | PollEnd

definition inner_is_end :: "recording_body \<Rightarrow> bool" where
  "inner_is_end rb \<longleftrightarrow> rb_eager rb \<and> rb_frames rb = [] \<and> rb_error rb = None"

text \<open>Taking the write: what is spawned, and the body without it.\<close>

definition take_write :: "recording_body \<Rightarrow> (cache_write \<times> string) option \<times> recording_body" where
  "take_write rb =
     (case rb_write rb of
        Some wr \<Rightarrow> (Some (wr, rb_buf rb), rb\<lparr>rb_write := None, rb_buf := []\<rparr>)
      | None \<Rightarrow> (None, rb))"

definition record_frame :: "recording_body \<Rightarrow> frame \<Rightarrow> recording_body" where
  "record_frame rb f =
     (if rb_write rb \<noteq> None then
        (case f of
           Data d \<Rightarrow>
             (if length (rb_buf rb) + length d > rb_max rb then rb\<lparr>rb_write := None, rb_buf := []\<rparr>
              else rb\<lparr>rb_buf := rb_buf rb @ d\<rparr>)
         | Trailers \<Rightarrow> rb)
      else rb)"

definition recording_poll :: "recording_body \<Rightarrow> poll_result \<times> (cache_write \<times> string) option \<times> recording_body" where
  "recording_poll rb =
     (case rb_frames rb of
        f # fs \<Rightarrow>
          (let rb1 = record_frame (rb\<lparr>rb_frames := fs\<rparr>) f
           in if inner_is_end rb1
              then (case take_write rb1 of (spawned, rb2) \<Rightarrow> (PollFrame f, spawned, rb2))
              else (PollFrame f, None, rb1))
      | [] \<Rightarrow>
          (case rb_error rb of
             Some e \<Rightarrow> (PollErr e, None, rb\<lparr>rb_write := None, rb_buf := []\<rparr>)
           | None \<Rightarrow> (case take_write rb of (spawned, rb1) \<Rightarrow> (PollEnd, spawned, rb1))))"

section \<open>The layer\<close>

record cache_state =
  cst_key_prefix :: string
  cst_ttl :: duration
  cst_max_body_bytes :: nat

definition cache_new :: "cache_config \<Rightarrow> string \<Rightarrow> string \<Rightarrow> cache_state" where
  "cache_new cfg scope org_id =
     \<lparr>cst_key_prefix = response_cache_key_prefix org_id scope, cst_ttl = from_secs (ca_ttl_secs cfg),
      cst_max_body_bytes = ca_max_body_bytes cfg\<rparr>"

definition is_safe_method :: "string \<Rightarrow> bool" where
  "is_safe_method m \<longleftrightarrow> m \<in> {''GET'', ''HEAD'', ''OPTIONS''}"

definition request_target :: "'h request \<Rightarrow> string" where
  "request_target req = rq_path req @ (case rq_query req of Some q \<Rightarrow> ''?'' @ q | None \<Rightarrow> [])"

definition cache_key :: "(string \<Rightarrow> string) \<Rightarrow> cache_state \<Rightarrow> 'h request \<Rightarrow> string" where
  "cache_key sha256 st req = cst_key_prefix st @ hash_key sha256 (rq_method req @ '' '' @ request_target req)"

text \<open>The tee of a cacheable response; \<open>None\<close> when the response is returned untouched.\<close>

definition record_if_cacheable :: "'h http_ext \<Rightarrow> 'h cache_ext \<Rightarrow> cache_state \<Rightarrow> string \<Rightarrow> bool \<Rightarrow> 'h response \<Rightarrow>
    recording_body option" where
  "record_if_cacheable X K st key eager resp =
     (if \<not> (200 \<le> rs_status resp \<and> rs_status resp < 300) \<or> hm_contains X (rs_headers resp) ''set-cookie'' then None
      else Some \<lparr>rb_frames = bd_frames (rs_body resp), rb_error = bd_error (rs_body resp), rb_eager = eager,
                 rb_buf = [], rb_max = cst_max_body_bytes st,
                 rb_write = Some \<lparr>wr_key = key, wr_ttl = cst_ttl st, wr_status = rs_status resp,
                   wr_headers = kx_iter K (rs_headers resp), wr_policy = AnyBody\<rparr>\<rparr>)"

record ('s, 'e) cache_world =
  cw_store :: 's
  cw_tees :: "recording_body list"
  cw_env :: 'e

definition cache_layer :: "'h http_ext \<Rightarrow> 'h cache_ext \<Rightarrow> (string \<Rightarrow> string) \<Rightarrow> 's storage_ops \<Rightarrow> cache_state \<Rightarrow>
    (('s, 'e) cache_world \<Rightarrow> instant) \<Rightarrow> ('h response \<Rightarrow> bool) \<Rightarrow> ('h, ('s, 'e) cache_world) service \<Rightarrow>
    ('h, ('s, 'e) cache_world) service" where
  "cache_layer X K sha256 S st clock eager inner req w =
     (if \<not> is_safe_method (rq_method req) then inner req w
      else
        (let key = cache_key sha256 st req;
             (r, s1) = st_get S (cw_store w) (clock w) key;
             w1 = w\<lparr>cw_store := s1\<rparr>;
             forward_on = (case inner req w1 of
                (None, w2) \<Rightarrow> (None, w2)
              | (Some resp, w2) \<Rightarrow>
                  (Some resp, w2\<lparr>cw_tees := cw_tees w2 @
                     (case record_if_cacheable X K st key (eager resp) resp of Some tee \<Rightarrow> [tee] | None \<Rightarrow> [])\<rparr>))
         in case r of
              Panic \<Rightarrow> (None, w1)
            | Err _ \<Rightarrow> forward_on
            | Ok None \<Rightarrow> forward_on
            | Ok (Some stored) \<Rightarrow>
                (case decode_entry X K stored of
                   Some resp \<Rightarrow> (Some resp, w1)
                 | None \<Rightarrow> forward_on)))"

text \<open>The server polls the body of the response in flight number \<open>i\<close> once.\<close>

definition poll_tee :: "'h cache_ext \<Rightarrow> 's storage_ops \<Rightarrow> instant \<Rightarrow> nat \<Rightarrow> ('s, 'e) cache_world \<Rightarrow> ('s, 'e) cache_world" where
  "poll_tee K S now i w =
     (if i < length (cw_tees w) then
        (case recording_poll (cw_tees w ! i) of (_, spawned, tee) \<Rightarrow>
           (let w1 = w\<lparr>cw_tees := (cw_tees w)[i := tee]\<rparr>
            in case spawned of
                 Some (wr, body) \<Rightarrow> w1\<lparr>cw_store := run_write K S now wr body (cw_store w1)\<rparr>
               | None \<Rightarrow> w1))
      else w)"

section \<open>Lemmas\<close>

text \<open>What the codecs and the header map document, for the header map \<open>h\<close> of a response: encoding can be
  undone, iteration is complete, and the names and values a map holds are read back.\<close>

definition cache_codec :: "'h http_ext \<Rightarrow> 'h cache_ext \<Rightarrow> 'h \<Rightarrow> bool" where
  "cache_codec X K h \<longleftrightarrow>
     (\<forall>x. kx_b64_decode K (kx_b64_encode K x) = Some x)
     \<and> (\<forall>e. kx_entry_parse K (kx_entry_print K e) = Some e)
     \<and> (\<forall>n v. (n, v) \<in> set (kx_iter K h) \<longrightarrow> hn_parse X n = Some n \<and> kx_hv_from_bytes K v = Some v)
     \<and> (\<forall>n. hm_get_all X h n = map snd (filter (\<lambda>(m, v). m = n) (kx_iter K h)))"

fun poll_times :: "nat \<Rightarrow> recording_body \<Rightarrow> (cache_write \<times> string) list \<times> recording_body" where
  "poll_times 0 rb = ([], rb)"
| "poll_times (Suc n) rb =
     (case recording_poll rb of (_, spawned, rb1) \<Rightarrow>
        (case poll_times n rb1 of (ws, rb2) \<Rightarrow> ((case spawned of Some w \<Rightarrow> [w] | None \<Rightarrow> []) @ ws, rb2)))"

lemma record_frame_frames [simp]: "rb_frames (record_frame rb f) = rb_frames rb"
  "rb_error (record_frame rb f) = rb_error rb" "rb_eager (record_frame rb f) = rb_eager rb"
  "rb_max (record_frame rb f) = rb_max rb"
  by (simp_all add: record_frame_def split: frame.splits)

lemma poll_times_no_write: "rb_write rb = None \<Longrightarrow> fst (poll_times n rb) = []"
proof (induction n arbitrary: rb)
  case (Suc n)
  obtain p sp rb1 where p: "recording_poll rb = (p, sp, rb1)" by (metis prod_cases3)
  with Suc.prems have "sp = None" "rb_write rb1 = None"
    by (auto simp: recording_poll_def record_frame_def take_write_def Let_def
        split: list.splits option.splits if_splits prod.splits)
  with Suc.IH [of rb1] p show ?case by (auto split: prod.splits)
qed simp

text \<open>The body is written once, exactly when it was polled to its clean end within the cap.\<close>

lemma poll_times_writes:
  assumes "rb_write rb = Some wr" and "length (rb_buf rb) \<le> rb_max rb"
  shows "fst (poll_times n rb) =
    (if rb_error rb = None \<and> length (rb_buf rb @ frames_data (rb_frames rb)) \<le> rb_max rb
        \<and> (length (rb_frames rb) < n \<or> rb_eager rb \<and> rb_frames rb \<noteq> [] \<and> length (rb_frames rb) \<le> n)
     then [(wr, rb_buf rb @ frames_data (rb_frames rb))] else [])"
  using assms
proof (induction n arbitrary: rb)
  case 0
  then show ?case by simp
next
  case (Suc n)
  show ?case
  proof (cases "rb_frames rb")
    case Nil
    then show ?thesis
      using Suc.prems poll_times_no_write [of "rb\<lparr>rb_write := None, rb_buf := []\<rparr>" n]
      by (auto simp: recording_poll_def take_write_def split: option.splits prod.splits)
  next
    case (Cons f fs)
    let ?rb0 = "rb\<lparr>rb_frames := fs\<rparr>"
    let ?rb1 = "record_frame ?rb0 f"
    show ?thesis
    proof (cases "\<exists>d. f = Data d \<and> rb_max rb < length (rb_buf rb) + length d")
      case True
      then obtain d where d: "f = Data d" "rb_max rb < length (rb_buf rb) + length d" by blast
      then have rb1: "?rb1 = ?rb0\<lparr>rb_write := None, rb_buf := []\<rparr>"
        using Suc.prems(1) by (simp add: record_frame_def)
      have "recording_poll rb = (PollFrame f, None, ?rb1)"
        using Cons rb1 by (simp add: recording_poll_def take_write_def Let_def)
      moreover have "fst (poll_times n ?rb1) = []" unfolding rb1 by (rule poll_times_no_write) simp
      ultimately show ?thesis using Cons d by (auto split: prod.splits)
    next
      case False
      then have rb1: "rb_write ?rb1 = Some wr" "length (rb_buf ?rb1) \<le> rb_max rb"
        "rb_buf ?rb1 @ frames_data fs = rb_buf rb @ frames_data (f # fs)"
        using Suc.prems by (auto simp: record_frame_def split: frame.splits)
      show ?thesis
      proof (cases "inner_is_end ?rb1")
        case True
        then have e: "fs = []" "rb_eager rb" "rb_error rb = None" by (simp_all add: inner_is_end_def)
        have "recording_poll rb = (PollFrame f, Some (wr, rb_buf ?rb1), ?rb1\<lparr>rb_write := None, rb_buf := []\<rparr>)"
          using Cons True rb1(1) by (simp add: recording_poll_def take_write_def Let_def)
        moreover have "fst (poll_times n (?rb1\<lparr>rb_write := None, rb_buf := []\<rparr>)) = []"
          by (rule poll_times_no_write) simp
        ultimately show ?thesis
          using Cons e rb1 by (auto split: prod.splits)
      next
        case False
        then have "recording_poll rb = (PollFrame f, None, ?rb1)"
          using Cons by (simp add: recording_poll_def Let_def)
        then have "fst (poll_times (Suc n) rb) = fst (poll_times n ?rb1)" by (auto split: prod.splits)
        also have "\<dots> = (if rb_error rb = None \<and> length (rb_buf ?rb1 @ frames_data fs) \<le> rb_max rb
            \<and> (length fs < n \<or> rb_eager rb \<and> fs \<noteq> [] \<and> length fs \<le> n)
          then [(wr, rb_buf ?rb1 @ frames_data fs)] else [])"
          using Suc.IH [of ?rb1] rb1 by simp
        also have "\<dots> = (if rb_error rb = None \<and> length (rb_buf rb @ frames_data (rb_frames rb)) \<le> rb_max rb
            \<and> (length (rb_frames rb) < Suc n \<or> rb_eager rb \<and> rb_frames rb \<noteq> [] \<and> length (rb_frames rb) \<le> Suc n)
          then [(wr, rb_buf rb @ frames_data (rb_frames rb))] else [])"
          unfolding rb1(3) Cons using False by (auto simp: inner_is_end_def)
        finally show ?thesis .
      qed
    qed
  qed
qed

lemma decode_headers_iter:
  assumes "header_map X" and "cache_codec X K h0" and "set l \<subseteq> set (kx_iter K h0)"
  shows "\<exists>h'. decode_headers X K (map (\<lambda>(n, v). (n, kx_b64_encode K v)) l) h = Some h'
    \<and> (\<forall>n. hm_get_all X h' n = hm_get_all X h n @ map snd (filter (\<lambda>(m, v). m = n) l))"
  using assms(3)
proof (induction l arbitrary: h)
  case (Cons p l)
  obtain n v where p: "p = (n, v)" by fastforce
  have nv: "hn_parse X n = Some n" "kx_hv_from_bytes K v = Some v" "kx_b64_decode K (kx_b64_encode K v) = Some v"
    using assms(2) Cons.prems p by (auto simp: cache_codec_def)
  obtain h' where h': "decode_headers X K (map (\<lambda>(n, v). (n, kx_b64_encode K v)) l) (hm_append X h n v) = Some h'"
    "\<And>m. hm_get_all X h' m = hm_get_all X (hm_append X h n v) m @ map snd (filter (\<lambda>(k, v). k = m) l)"
    using Cons.IH [of "hm_append X h n v"] Cons.prems by auto
  have "hm_get_all X (hm_append X h n v) m = (if m = n then hm_get_all X h n @ [v] else hm_get_all X h m)" for m
    using header_map.get_all_append [OF assms(1)] .
  with h' nv p show ?case by auto
qed simp

text \<open>Encoding a response and decoding it gives it back, marked as a hit.\<close>

lemma decode_encode_entry:
  assumes "header_map X" and "cache_codec X K h" and "100 \<le> status" and "status < 1000"
  shows "\<exists>r. decode_entry X K (encode_entry K status (kx_iter K h) body) = Some r
    \<and> rs_status r = status \<and> rs_body r = body_full body
    \<and> hm_get_all X (rs_headers r) CACHE_STATUS_HEADER = [''hit'']
    \<and> (\<forall>n. n \<noteq> CACHE_STATUS_HEADER \<longrightarrow> hm_get_all X (rs_headers r) n = hm_get_all X h n)"
proof -
  have c: "kx_entry_parse K (kx_entry_print K e) = Some e" "kx_b64_decode K (kx_b64_encode K body) = Some body"
    "hm_get_all X h n = map snd (filter (\<lambda>(m, v). m = n) (kx_iter K h))" for e n
    using assms(2) by (auto simp: cache_codec_def)
  obtain h' where "decode_headers X K (map (\<lambda>(n, v). (n, kx_b64_encode K v)) (kx_iter K h)) (hm_empty X) = Some h'"
    "\<And>n. hm_get_all X h' n = hm_get_all X (hm_empty X) n @ map snd (filter (\<lambda>(m, v). m = n) (kx_iter K h))"
    using decode_headers_iter [OF assms(1,2) subset_refl] by blast
  then show ?thesis
    using assms(3,4) c
    by (simp add: decode_entry_def encode_entry_def status_from_u16_def response_new_def
        header_map.get_all_insert [OF assms(1)] header_map.get_all_empty [OF assms(1)])
qed

text \<open>
  A concrete codec for the witness: Base64 by the identity, and an entry as the concatenation
  of its strings, each behind its length in unary.
\<close>

definition frame_string :: "string \<Rightarrow> string" where
  "frame_string s = replicate (length s) (CHR ''1'') @ CHR ''0'' # s"

fun unframe :: "nat \<Rightarrow> string \<Rightarrow> string list" where
  "unframe 0 s = []"
| "unframe (Suc n) s =
     (if s = [] then []
      else (let k = length (takeWhile (\<lambda>c. c = CHR ''1'') s); r = drop (Suc k) s
            in take k r # unframe n (drop k r)))"

fun pairs_of :: "string list \<Rightarrow> (string \<times> string) list" where
  "pairs_of (a # b # l) = (a, b) # pairs_of l"
| "pairs_of l = []"

definition sample_print :: "cached_entry \<Rightarrow> string" where
  "sample_print e =
     concat (map frame_string (replicate (en_status e) (CHR ''1'') # en_body_b64 e #
       concat (map (\<lambda>(n, v). [n, v]) (en_headers e))))"

definition sample_parse :: "string \<Rightarrow> cached_entry option" where
  "sample_parse s =
     (case unframe (length s) s of
        status # b # rest \<Rightarrow> Some \<lparr>en_status = length status, en_headers = pairs_of rest, en_body_b64 = b\<rparr>
      | _ \<Rightarrow> None)"

definition sample_cache_ext :: "alist_headers cache_ext" where
  "sample_cache_ext =
     \<lparr>kx_iter = (\<lambda>h. concat (map (\<lambda>(n, vs). map (Pair n) vs) h)), kx_b64_encode = (\<lambda>s. s), kx_b64_decode = Some,
      kx_entry_print = sample_print, kx_entry_parse = sample_parse, kx_value_parse = (\<lambda>_. None),
      kx_hv_from_bytes = Some\<rparr>"

lemma unframe_frames: "length l \<le> n \<Longrightarrow> unframe n (concat (map frame_string l)) = l"
proof (induction n arbitrary: l)
  case (Suc n)
  have tw: "takeWhile (\<lambda>c. c = CHR ''1'') (replicate k (CHR ''1'') @ CHR ''0'' # s) = replicate k (CHR ''1'')" for k s
    by (induction k) simp_all
  show ?case
    using Suc by (cases l) (simp_all add: frame_string_def tw)
qed simp

lemma length_frames: "length l \<le> length (concat (map frame_string l))"
  by (induction l) (simp_all add: frame_string_def)

lemma pairs_of_concat: "pairs_of (concat (map (\<lambda>(n, v). [n, v]) l)) = l"
  by (induction l) auto

lemma sample_parse_print: "sample_parse (sample_print e) = Some e"
  unfolding sample_parse_def sample_print_def unframe_frames [OF length_frames] by (simp add: pairs_of_concat)

section \<open>Properties\<close>

text \<open>
  C25. Only complete, shareable responses are cached: a response is recorded exactly when its
  status is \<open>2xx\<close> and it sets no cookie; however often its body is polled, at most one write
  is spawned, exactly when the stream has come to its clean end within the size cap, and what
  is written is the whole body with the response's own status and headers.
\<close>

theorem cache_writes_only_complete_responses:
  "case record_if_cacheable X K st key eager resp of
     None \<Rightarrow> \<not> (200 \<le> rs_status resp \<and> rs_status resp < 300 \<and> hm_get_all X (rs_headers resp) ''set-cookie'' = [])
   | Some tee \<Rightarrow>
       200 \<le> rs_status resp \<and> rs_status resp < 300 \<and> hm_get_all X (rs_headers resp) ''set-cookie'' = []
       \<and> fst (poll_times n tee) =
          (let b = rs_body resp; whole = frames_data (bd_frames b)
           in if bd_error b = None \<and> length whole \<le> cst_max_body_bytes st
                 \<and> (length (bd_frames b) < n \<or> eager \<and> bd_frames b \<noteq> [] \<and> length (bd_frames b) \<le> n)
              then [(\<lparr>wr_key = key, wr_ttl = cst_ttl st, wr_status = rs_status resp,
                      wr_headers = kx_iter K (rs_headers resp), wr_policy = AnyBody\<rparr>, whole)]
              else [])"
proof (cases "record_if_cacheable X K st key eager resp")
  case None
  then show ?thesis by (auto simp: record_if_cacheable_def hm_contains_def split: if_splits)
next
  case (Some tee)
  then have tee: "tee = \<lparr>rb_frames = bd_frames (rs_body resp), rb_error = bd_error (rs_body resp), rb_eager = eager,
      rb_buf = [], rb_max = cst_max_body_bytes st,
      rb_write = Some \<lparr>wr_key = key, wr_ttl = cst_ttl st, wr_status = rs_status resp,
        wr_headers = kx_iter K (rs_headers resp), wr_policy = AnyBody\<rparr>\<rparr>"
    and ok: "200 \<le> rs_status resp" "rs_status resp < 300" "hm_get_all X (rs_headers resp) ''set-cookie'' = []"
    by (auto simp: record_if_cacheable_def hm_contains_def split: if_splits)
  show ?thesis
    unfolding Some option.case using ok poll_times_writes [of tee] by (simp add: tee Let_def)
qed

text \<open>
  C26. A stored response is replayed to every client: after the write of a response to some
  request, any later request with the same method and target, before the time to live has
  passed, is answered from the cache with that status, body and headers, marked as a hit,
  whatever its own headers are and whatever the layers below would do. Nothing else of the
  request takes part in the key, so a \<open>206\<close> recorded for one client's \<open>Range\<close> request answers
  the next client's plain \<open>GET\<close>.
\<close>

theorem cache_replays_stored_response:
  assumes "header_map X" and "cache_codec X K (rs_headers resp)"
    and "record_if_cacheable X K st (cache_key sha st req0) eager resp = Some tee" and "rb_write tee = Some wr"
    and "mem_inv t1 s" and "t1 + cst_ttl st < instant_limit"
    and "cw_store w = run_write K memory_ops t1 wr body s"
    and "is_safe_method (rq_method req)" and "rq_method req = rq_method req0" and "request_target req = request_target req0"
    and "t1 \<le> clock w" and "clock w < t1 + cst_ttl st"
  shows "\<exists>r w'. (\<forall>inner. cache_layer X K sha memory_ops st clock eager' inner req w = (Some r, w'))
    \<and> rs_status r = rs_status resp \<and> rs_body r = body_full body
    \<and> hm_get_all X (rs_headers r) CACHE_STATUS_HEADER = [''hit'']
    \<and> (\<forall>n. n \<noteq> CACHE_STATUS_HEADER \<longrightarrow> hm_get_all X (rs_headers r) n = hm_get_all X (rs_headers resp) n)"
proof -
  let ?key = "cache_key sha st req"
  let ?e = "encode_entry K (rs_status resp) (kx_iter K (rs_headers resp)) body"
  have wr: "wr = \<lparr>wr_key = ?key, wr_ttl = cst_ttl st, wr_status = rs_status resp,
      wr_headers = kx_iter K (rs_headers resp), wr_policy = AnyBody\<rparr>"
    and ok: "200 \<le> rs_status resp" "rs_status resp < 300"
    using assms(3,4,9,10) by (auto simp: record_if_cacheable_def cache_key_def split: if_splits)
  obtain s1 where s1: "mem_set s t1 ?key ?e (Some (cst_ttl st)) = (Ok (), s1)"
    using assms(6) by (simp add: mem_set_def instant_add_def)
  have w: "cw_store w = s1"
    using assms(7) s1 by (simp add: run_write_def wr policy_allows_def memory_ops_def)
  obtain r0 s2 where g: "mem_get s1 (clock w) ?key = (Ok r0, s2)" using mem_get_total by blast
  have "r0 = Some ?e"
    using memkv.get_after_set [of t1 s ?key ?e "Some (cst_ttl st)" s1 "clock w" ?key r0 s2] assms(5,11,12) s1 g
    by (simp add: memory_ops_def)
  moreover obtain r where r: "decode_entry X K ?e = Some r" "rs_status r = rs_status resp"
    "rs_body r = body_full body" "hm_get_all X (rs_headers r) CACHE_STATUS_HEADER = [''hit'']"
    "\<And>n. n \<noteq> CACHE_STATUS_HEADER \<Longrightarrow> hm_get_all X (rs_headers r) n = hm_get_all X (rs_headers resp) n"
    using decode_encode_entry [OF assms(1,2), of "rs_status resp" body] ok by auto
  ultimately have "cache_layer X K sha memory_ops st clock eager' inner req w = (Some r, w\<lparr>cw_store := s2\<rparr>)" for inner
    using assms(8) g w by (simp add: cache_layer_def memory_ops_def Let_def)
  with r show ?thesis by blast
qed

text \<open>A partial answer to a \<open>Range\<close> request, cached and then given to a client that asked for the whole.\<close>

definition sample_cache :: cache_state where
  "sample_cache = cache_new \<lparr>ca_ttl_secs = 60, ca_max_body_bytes = 100\<rparr> ''a'' ''o''"

definition sample_range_request :: "alist_headers request" where
  "sample_range_request = (sample_request ''GET'' ''/f'')\<lparr>rq_headers := [(''range'', [''bytes=0-1''])]\<rparr>"

definition sample_partial :: "alist_headers response" where
  "sample_partial = (response_new alist_ext (body_full ''ab''))\<lparr>rs_status := 206\<rparr>"

definition sample_write :: cache_write where
  "sample_write = \<lparr>wr_key = cache_key (\<lambda>s. s) sample_cache sample_range_request, wr_ttl = cst_ttl sample_cache,
     wr_status = 206, wr_headers = [], wr_policy = AnyBody\<rparr>"

definition sample_cache_world :: "(memory_storage, unit) cache_world" where
  "sample_cache_world =
     \<lparr>cw_store = run_write sample_cache_ext memory_ops 3 sample_write ''ab'' mem_new, cw_tees = [], cw_env = ()\<rparr>"

theorem cache_replays_stored_response_witness:
  "\<exists>r w'. (\<forall>inner. cache_layer alist_ext sample_cache_ext (\<lambda>s. s) memory_ops sample_cache (\<lambda>_. 5) (\<lambda>_. True) inner
      (sample_request ''GET'' ''/f'') sample_cache_world = (Some r, w'))
    \<and> rs_status r = 206 \<and> rs_body r = body_full ''ab''"
proof -
  let ?tee = "\<lparr>rb_frames = bd_frames (body_full ''ab''), rb_error = None, rb_eager = True, rb_buf = [], rb_max = 100,
    rb_write = Some sample_write\<rparr>"
  have codec: "cache_codec alist_ext sample_cache_ext (rs_headers sample_partial)"
    by (simp add: cache_codec_def sample_cache_ext_def sample_parse_print sample_partial_def response_new_def
        alist_ext_def al_get_def)
  have rec: "record_if_cacheable alist_ext sample_cache_ext sample_cache (cache_key (\<lambda>s. s) sample_cache sample_range_request)
      True sample_partial = Some ?tee"
    by (simp add: record_if_cacheable_def sample_partial_def response_new_def hm_contains_def alist_ext_def al_get_def
        body_full_def sample_cache_def cache_new_def sample_write_def sample_cache_ext_def)
  have ttl: "cst_ttl sample_cache = from_secs 60" by (simp add: sample_cache_def cache_new_def)
  have st: "rs_status sample_partial = 206" by (simp add: sample_partial_def)
  show ?thesis
    using cache_replays_stored_response [OF alist.header_map_axioms codec rec, where s = mem_new and ?t1.0 = 3
        and w = sample_cache_world and body = "''ab''" and req = "sample_request ''GET'' ''/f''" and clock = "\<lambda>_. 5"
        and eager' = "\<lambda>_. True" and wr = sample_write]
    unfolding st ttl
    by (auto simp: sample_cache_world_def sample_request_def sample_range_request_def is_safe_method_def
        request_target_def from_secs_def instant_limit_def ns_per_sec_def)
qed

end
