(* ===== verification/Stats.thy ===== *)
theory Stats
  imports Rewrite "HOL-Library.List_Lexorder" "HOL-Library.Char_ord" "HOL-Library.Multiset"
begin

text \<open>
  Request counters, \<open>g2-middleware/src/stats.rs\<close>: the lock-free counters of one API, the
  process-wide registry, its snapshot and the layer. A counter is a 64-bit word that wraps, as
  \<open>AtomicU64\<close> does. An \<open>Arc\<close> of one API's counters is the API's entry of the registry: entries
  are never removed, so both name the same cell.
\<close>

section \<open>Counters\<close>

record api_stats =
  stt_requests :: u64
  stt_classes :: "u64 list"

definition api_stats_default :: api_stats where
  "api_stats_default = \<lparr>stt_requests = 0, stt_classes = replicate 5 0\<rparr>"

text \<open>\<open>class.wrapping_sub(1)\<close> of class \<open>0\<close> is \<open>usize::MAX\<close>, which is no index of the array.\<close>

definition stats_record :: "nat \<Rightarrow> api_stats \<Rightarrow> api_stats" where
  "stats_record status st =
     (let st1 = st\<lparr>stt_requests := stt_requests st + 1\<rparr>;
          c = status div 100;
          i = (if c = 0 then u64_max else c - 1)
      in if i < length (stt_classes st1)
         then st1\<lparr>stt_classes := (stt_classes st1)[i := stt_classes st1 ! i + 1]\<rparr>
         else st1)"

record api_stats_snapshot =
  sn_api_id :: string
  sn_requests :: u64
  sn_status_1xx :: u64
  sn_status_2xx :: u64
  sn_status_3xx :: u64
  sn_status_4xx :: u64
  sn_status_5xx :: u64

section \<open>The registry\<close>

type_synonym stats_registry = "(string, api_stats) hashmap"

definition stats_registry_new :: stats_registry where
  "stats_registry_new = []"

definition for_api :: "string \<Rightarrow> stats_registry \<Rightarrow> stats_registry" where
  "for_api api_id reg = (if map_of reg api_id = None then AList.update api_id api_stats_default reg else reg)"

definition snapshot_of :: "string \<times> api_stats \<Rightarrow> api_stats_snapshot" where
  "snapshot_of e =
     (case e of (api_id, st) \<Rightarrow>
        \<lparr>sn_api_id = api_id, sn_requests = stt_requests st, sn_status_1xx = stt_classes st ! 0,
         sn_status_2xx = stt_classes st ! 1, sn_status_3xx = stt_classes st ! 2, sn_status_4xx = stt_classes st ! 3,
         sn_status_5xx = stt_classes st ! 4\<rparr>)"

definition stats_snapshot :: "stats_registry \<Rightarrow> api_stats_snapshot list" where
  "stats_snapshot reg = sort_key sn_api_id (map snapshot_of reg)"

section \<open>The layer\<close>

definition count_response :: "string \<Rightarrow> nat \<Rightarrow> stats_registry \<Rightarrow> stats_registry" where
  "count_response api_id status reg =
     (case map_of reg api_id of Some st \<Rightarrow> AList.update api_id (stats_record status st) reg | None \<Rightarrow> reg)"

definition stats_layer :: "('w \<Rightarrow> stats_registry) \<Rightarrow> (stats_registry \<Rightarrow> 'w \<Rightarrow> 'w) \<Rightarrow> string \<Rightarrow> ('h, 'w) service \<Rightarrow>
    ('h, 'w) service" where
  "stats_layer get put api_id inner req w =
     (case inner req w of
        (Some resp, w1) \<Rightarrow> (Some resp, put (count_response api_id (rs_status resp) (get w1)) w1)
      | (None, w1) \<Rightarrow> (None, w1))"

section \<open>Lemmas\<close>

text \<open>What happens to a registry: route builds ask for an API's counters, responses are counted.\<close>

datatype stats_event = Built string | Answered_with string nat

fun stats_apply :: "stats_event \<Rightarrow> stats_registry \<Rightarrow> stats_registry" where
  "stats_apply (Built a) reg = for_api a reg"
| "stats_apply (Answered_with a s) reg = count_response a s reg"

text \<open>The responses of API \<open>a\<close> since it was first built, in an event sequence.\<close>

fun counted :: "string \<Rightarrow> bool \<Rightarrow> stats_event list \<Rightarrow> nat list" where
  "counted a seen [] = []"
| "counted a seen (Built b # es) = counted a (seen \<or> b = a) es"
| "counted a seen (Answered_with b s # es) = (if seen \<and> b = a then s # counted a seen es else counted a seen es)"

definition class_count :: "nat list \<Rightarrow> nat \<Rightarrow> u64" where
  "class_count ss c = of_nat (length (filter (\<lambda>s. s div 100 = c) ss))"

text \<open>A cell after the responses with statuses \<open>ss\<close>.\<close>

definition tally :: "nat list \<Rightarrow> api_stats \<Rightarrow> api_stats" where
  "tally ss st = \<lparr>stt_requests = stt_requests st + of_nat (length ss),
     stt_classes = map (\<lambda>i. stt_classes st ! i + class_count ss (Suc i)) [0..<5]\<rparr>"

text \<open>What the dashboard shows after an event sequence.\<close>

definition dashboard :: "stats_event list \<Rightarrow> api_stats_snapshot list" where
  "dashboard es = stats_snapshot (fold stats_apply es stats_registry_new)"

lemma class_count_Cons: "class_count (s # ss) c = (if s div 100 = c then 1 else 0) + class_count ss c"
  by (simp add: class_count_def)

lemma stats_record_length [simp]: "length (stt_classes (stats_record s st)) = length (stt_classes st)"
  by (simp add: stats_record_def Let_def)

lemma stats_record_classes:
  assumes "length (stt_classes st) = 5" and "i < 5"
  shows "stt_classes (stats_record s st) ! i = stt_classes st ! i + (if s div 100 = Suc i then 1 else 0)"
  using assms by (auto simp: stats_record_def Let_def u64_max_def nth_list_update)

lemma stats_record_requests [simp]: "stt_requests (stats_record s st) = stt_requests st + 1"
  by (simp add: stats_record_def Let_def)

lemma tally_record:
  assumes "length (stt_classes st) = 5"
  shows "tally ss (stats_record s st) = tally (s # ss) st"
  using stats_record_classes [OF assms, of _ s]
  by (simp add: tally_def class_count_Cons add.assoc cong: map_cong)

lemma stats_apply_find:
  "map_of (stats_apply e reg) a =
     (case e of Built b \<Rightarrow> if b = a \<and> map_of reg a = None then Some api_stats_default else map_of reg a
      | Answered_with b s \<Rightarrow> if b = a then map_option (stats_record s) (map_of reg a) else map_of reg a)"
  by (auto simp: for_api_def count_response_def update_conv' split: stats_event.split option.split)

lemma stats_fold_find:
  assumes "\<And>st. map_of reg a = Some st \<Longrightarrow> length (stt_classes st) = 5"
  shows "map_of (fold stats_apply es reg) a =
    (case map_of reg a of
       Some st \<Rightarrow> Some (tally (counted a True es) st)
     | None \<Rightarrow> if Built a \<in> set es then Some (tally (counted a False es) api_stats_default) else None)"
  using assms
proof (induction es arbitrary: reg)
  case Nil
  have "tally [] st = st" if "length (stt_classes st) = 5" for st
    using map_nth [of "stt_classes st"] that by (simp add: tally_def class_count_def)
  with Nil show ?case by (auto split: option.splits)
next
  case (Cons e es)
  have l: "length (stt_classes st) = 5" if "map_of (stats_apply e reg) a = Some st" for st
    using that Cons.prems
    by (auto simp: stats_apply_find api_stats_default_def split: stats_event.splits if_splits)
  have "map_of (fold stats_apply (e # es) reg) a =
    (case map_of (stats_apply e reg) a of
       Some st \<Rightarrow> Some (tally (counted a True es) st)
     | None \<Rightarrow> if Built a \<in> set es then Some (tally (counted a False es) api_stats_default) else None)"
    using Cons.IH [of "stats_apply e reg"] l by simp
  with Cons.prems show ?case
    by (cases e; cases "map_of reg a") (auto simp: stats_apply_find tally_record simp del: stats_apply.simps)
qed

lemma stats_apply_distinct: "distinct (map fst reg) \<Longrightarrow> distinct (map fst (stats_apply e reg))"
  by (cases e) (auto simp: for_api_def count_response_def distinct_update split: option.splits)

lemma stats_fold_distinct: "distinct (map fst reg) \<Longrightarrow> distinct (map fst (fold stats_apply es reg))"
  by (induction es arbitrary: reg) (simp_all add: stats_apply_distinct)

section \<open>Properties\<close>

text \<open>
  The dashboard counts every response once: whatever route builds and responses have
  happened in whatever order, the snapshot is sorted by API, lists exactly the APIs that were
  built, each once, and its numbers are the responses of that API since it was first built, in
  total and per status class, modulo the width of the counters. Building an API again (a
  reload) resets nothing.
\<close>

theorem snapshot_counts_responses:
  "sorted (map sn_api_id (dashboard es)) \<and> distinct (map sn_api_id (dashboard es))
    \<and> set (dashboard es) = {\<lparr>sn_api_id = a, sn_requests = of_nat (length (counted a False es)),
        sn_status_1xx = class_count (counted a False es) 1, sn_status_2xx = class_count (counted a False es) 2,
        sn_status_3xx = class_count (counted a False es) 3, sn_status_4xx = class_count (counted a False es) 4,
        sn_status_5xx = class_count (counted a False es) 5\<rparr> | a. Built a \<in> set es}"
proof (intro conjI)
  let ?reg = "fold stats_apply es stats_registry_new"
  have d: "distinct (map fst ?reg)" by (rule stats_fold_distinct) (simp add: stats_registry_new_def)
  have ids: "map sn_api_id (map snapshot_of l) = map fst l" for l by (auto simp: snapshot_of_def)
  show "sorted (map sn_api_id (dashboard es))" by (simp add: dashboard_def stats_snapshot_def)
  have "mset (map sn_api_id (dashboard es)) = mset (map fst ?reg)"
    unfolding dashboard_def stats_snapshot_def ids [symmetric] by (simp del: map_map add: mset_map)
  with d show "distinct (map sn_api_id (dashboard es))" by (metis mset_eq_imp_distinct_iff)
  have m: "map_of ?reg a = (if Built a \<in> set es then Some (tally (counted a False es) api_stats_default) else None)" for a
    using stats_fold_find [of stats_registry_new a es] by (simp add: stats_registry_new_def)
  have "(a, st) \<in> set ?reg \<longleftrightarrow> Built a \<in> set es \<and> st = tally (counted a False es) api_stats_default" for a st
    using m [of a] map_of_eq_Some_iff [OF d, of a st] by (auto split: if_splits)
  then have "set ?reg = {(a, tally (counted a False es) api_stats_default) | a. Built a \<in> set es}" by auto
  then show "set (dashboard es) = {\<lparr>sn_api_id = a, sn_requests = of_nat (length (counted a False es)),
        sn_status_1xx = class_count (counted a False es) 1, sn_status_2xx = class_count (counted a False es) 2,
        sn_status_3xx = class_count (counted a False es) 3, sn_status_4xx = class_count (counted a False es) 4,
        sn_status_5xx = class_count (counted a False es) 5\<rparr> | a. Built a \<in> set es}"
    unfolding dashboard_def stats_snapshot_def
    by (auto simp: snapshot_of_def tally_def api_stats_default_def upt_rec eval_nat_numeral image_iff)
qed

end
