(* ===== verification/Analytics.thy ===== *)
theory Analytics
  imports Rewrite Storage "HOL-Library.List_Lexorder" "HOL-Library.Char_ord"
begin

text \<open>
  Traffic analytics from the request to the sink: the record (\<open>g2-core/src/analytics.rs\<close>), the
  bounded channel and the layer that feeds it (\<open>g2-middleware/src/analytics.rs\<close>), the batching
  worker and the Redis list sink (\<open>g2-telemetry/src/analytics.rs\<close>). The worker runs beside the
  producers, so it is a step relation: producers may act between any two steps of the worker.
  JSON serialization is a parameter; the stdout and OTLP sinks are output only.
\<close>

section \<open>Records and the channel\<close>

definition analytics_records_key :: "string \<Rightarrow> string" where
  "analytics_records_key org_id = ''g2:'' @ org_id @ '':analytics:records''"

record analytics_record =
  an_timestamp_unix_ms :: nat
  an_api_id :: string
  an_org_id :: string
  an_method :: string
  an_path :: string
  an_status :: nat
  an_latency_ms :: nat
  an_upstream_latency_ms :: "nat option"
  an_key_hash :: "string option"
  an_key_alias :: "string option"
  an_client_ip :: "string option"
  an_user_agent :: "string option"
  an_request_content_length :: "nat option"
  an_response_content_length :: "nat option"

text \<open>The channel of \<open>tokio::sync::mpsc\<close> both halves share, with the drop counter of the handle.\<close>

record 'r analytics_channel =
  ch_queue :: "'r list"
  ch_capacity :: nat
  ch_open :: bool
  ch_dropped :: u64

definition analytics_channel_of :: "nat \<Rightarrow> 'r analytics_channel" where
  "analytics_channel_of capacity = \<lparr>ch_queue = [], ch_capacity = capacity, ch_open = True, ch_dropped = 0\<rparr>"

definition try_send :: "'r \<Rightarrow> 'r analytics_channel \<Rightarrow> 'r analytics_channel option" where
  "try_send r ch =
     (if ch_open ch \<and> length (ch_queue ch) < ch_capacity ch then Some (ch\<lparr>ch_queue := ch_queue ch @ [r]\<rparr>) else None)"

definition handle_record :: "'r \<Rightarrow> 'r analytics_channel \<Rightarrow> 'r analytics_channel" where
  "handle_record r ch =
     (case try_send r ch of
        Some ch1 \<Rightarrow> ch1
      | None \<Rightarrow> ch\<lparr>ch_dropped := ch_dropped ch + 1\<rparr>)"

section \<open>The layer\<close>

definition content_length :: "'h http_ext \<Rightarrow> 'h \<Rightarrow> nat option" where
  "content_length X h = Option.bind (Option.bind (hm_get X h ''content-length'') (hv_to_str X)) parse_u64"

text \<open>Milliseconds of the wall clock since the epoch, saturating.\<close>

definition unix_ms_now :: "duration option \<Rightarrow> nat" where
  "unix_ms_now since_epoch = (case since_epoch of Some d \<Rightarrow> sat_u64 (as_millis d) | None \<Rightarrow> 0)"

record 'w analytics_clock =
  ay_unix :: "'w \<Rightarrow> duration option"
  ay_now :: "'w \<Rightarrow> instant"

definition analytics_of :: "'h http_ext \<Rightarrow> request_context \<Rightarrow> 'h request \<Rightarrow> nat \<Rightarrow> duration \<Rightarrow> 'h response \<Rightarrow>
    analytics_record" where
  "analytics_of X ctx req timestamp elapsed resp =
     \<lparr>an_timestamp_unix_ms = timestamp, an_api_id = cx_api_id ctx, an_org_id = cx_org_id ctx,
      an_method = rq_method req, an_path = rq_path req, an_status = rs_status resp,
      an_latency_ms = sat_u64 (as_millis elapsed),
      an_upstream_latency_ms = map_option (\<lambda>d. sat_u64 (as_millis d)) (rs_latency resp),
      an_key_hash = map_option sc_key_hash (rs_session resp),
      an_key_alias = Option.bind (rs_session resp) (\<lambda>s. ks_alias (sc_session s)),
      an_client_ip = map_option show_ip (rq_client_addr req),
      an_user_agent = Option.bind (hm_get X (rq_headers req) ''user-agent'') (hv_to_str X),
      an_request_content_length = content_length X (rq_headers req),
      an_response_content_length = content_length X (rs_headers resp)\<rparr>"

definition analytics_layer :: "'h http_ext \<Rightarrow> 'w analytics_clock \<Rightarrow> ('w \<Rightarrow> analytics_record analytics_channel) \<Rightarrow>
    (analytics_record analytics_channel \<Rightarrow> 'w \<Rightarrow> 'w) \<Rightarrow> request_context \<Rightarrow> ('h, 'w) service \<Rightarrow> ('h, 'w) service" where
  "analytics_layer X ck get put ctx inner req w =
     (let started = ay_now ck w; timestamp = unix_ms_now (ay_unix ck w)
      in case inner req w of
           (None, w1) \<Rightarrow> (None, w1)
         | (Some resp, w1) \<Rightarrow>
             (Some resp, put (handle_record (analytics_of X ctx req timestamp (ay_now ck w1 - started) resp) (get w1)) w1))"

section \<open>Sinks\<close>

type_synonym ('r, 'k) sink = "'r list \<Rightarrow> 'k \<Rightarrow> (string, unit) res \<times> 'k"

text \<open>The records of a batch by organization, in the order of the \<open>BTreeMap\<close>; the first record that does not serialize fails the batch.\<close>

fun push_by_org :: "string \<Rightarrow> string \<Rightarrow> (string \<times> string list) list \<Rightarrow> (string \<times> string list) list" where
  "push_by_org org json [] = [(org, [json])]"
| "push_by_org org json ((o', js) # rest) =
     (if org = o' then (o', js @ [json]) # rest
      else if org < o' then (org, [json]) # (o', js) # rest
      else (o', js) # push_by_org org json rest)"

fun group_by_org :: "(analytics_record \<Rightarrow> (string, string) res) \<Rightarrow> analytics_record list \<Rightarrow> (string \<times> string list) list \<Rightarrow>
    (string, (string \<times> string list) list) res" where
  "group_by_org to_json [] acc = Ok acc"
| "group_by_org to_json (r # rs) acc =
     bind_res (to_json r) (\<lambda>json. group_by_org to_json rs (push_by_org (an_org_id r) json acc))"

fun append_orgs :: "'s storage_ops \<Rightarrow> (storage_error \<Rightarrow> string) \<Rightarrow> instant \<Rightarrow> nat \<Rightarrow> (string \<times> string list) list \<Rightarrow> 's \<Rightarrow>
    (string, unit) res \<times> 's" where
  "append_orgs S show_err now max_records [] s = (Ok (), s)"
| "append_orgs S show_err now max_records ((org, values) # rest) s =
     (case st_list_append S s now (analytics_records_key org) values (Some max_records) of
        (Ok _, s1) \<Rightarrow> append_orgs S show_err now max_records rest s1
      | (Err e, s1) \<Rightarrow> (Err (show_err e), s1)
      | (Panic, s1) \<Rightarrow> (Panic, s1))"

definition redis_list_emit :: "'s storage_ops \<Rightarrow> (analytics_record \<Rightarrow> (string, string) res) \<Rightarrow> (storage_error \<Rightarrow> string) \<Rightarrow>
    instant \<Rightarrow> nat \<Rightarrow> (analytics_record, 's) sink" where
  "redis_list_emit S to_json show_err now max_records records s =
     (case group_by_org to_json records [] of
        Ok by_org \<Rightarrow> append_orgs S show_err now max_records by_org s
      | Err e \<Rightarrow> (Err e, s)
      | Panic \<Rightarrow> (Panic, s))"

definition DEFAULT_MAX_RECORDS :: nat where
  "DEFAULT_MAX_RECORDS = 100000"

definition logs_endpoint :: "string \<Rightarrow> string" where
  "logs_endpoint base =
     (let trimmed = trim_end_matches (CHR ''/'') base
      in if suffix ''/v1/logs'' trimmed then trimmed else trimmed @ ''/v1/logs'')"

section \<open>The worker\<close>

definition BATCH_SIZE :: nat where
  "BATCH_SIZE = 512"

text \<open>A failed delivery drops the batch: the buffer is empty afterwards either way.\<close>

definition flush :: "('r, 'k) sink \<Rightarrow> 'r list \<Rightarrow> 'k \<Rightarrow> 'r list \<times> 'k" where
  "flush emit buf k = (if buf = [] then (buf, k) else ([], snd (emit buf k)))"

text \<open>
  \<open>Closing\<close> is the time between the last empty \<open>try_recv\<close> and the end of the task, when the receiver is
  dropped: producers can still send, and nobody will read what they send.
\<close>

datatype worker_phase = Running | Draining | Closing | Stopped

record ('r, 'k) worker =
  wk_chan :: "'r analytics_channel"
  wk_buf :: "'r list"
  wk_sink :: 'k
  wk_phase :: worker_phase

definition worker_start :: "nat \<Rightarrow> 'k \<Rightarrow> ('r, 'k) worker" where
  "worker_start capacity k = \<lparr>wk_chan = analytics_channel_of capacity, wk_buf = [], wk_sink = k, wk_phase = Running\<rparr>"

definition worker_flush :: "('r, 'k) sink \<Rightarrow> ('r, 'k) worker \<Rightarrow> ('r, 'k) worker" where
  "worker_flush emit w = (case flush emit (wk_buf w) (wk_sink w) of (b, k) \<Rightarrow> w\<lparr>wk_buf := b, wk_sink := k\<rparr>)"

text \<open>One received record: both loops push it and flush a full buffer.\<close>

definition worker_take :: "('r, 'k) sink \<Rightarrow> 'r \<Rightarrow> 'r list \<Rightarrow> ('r, 'k) worker \<Rightarrow> ('r, 'k) worker" where
  "worker_take emit r rest w =
     (let w1 = w\<lparr>wk_chan := (wk_chan w)\<lparr>ch_queue := rest\<rparr>, wk_buf := wk_buf w @ [r]\<rparr>
      in if length (wk_buf w1) \<ge> BATCH_SIZE then worker_flush emit w1 else w1)"

inductive worker_step :: "('r, 'k) sink \<Rightarrow> ('r, 'k) worker \<Rightarrow> ('r, 'k) worker \<Rightarrow> bool" for emit :: "('r, 'k) sink" where
  received: "wk_phase w = Running \<Longrightarrow> ch_queue (wk_chan w) = r # rest \<Longrightarrow> worker_step emit w (worker_take emit r rest w)"
| producers_gone: "wk_phase w = Running \<Longrightarrow> ch_queue (wk_chan w) = [] \<Longrightarrow> worker_step emit w (w\<lparr>wk_phase := Draining\<rparr>)"
| tick: "wk_phase w = Running \<Longrightarrow> worker_step emit w (worker_flush emit w)"
| stop_signal: "wk_phase w = Running \<Longrightarrow> worker_step emit w (w\<lparr>wk_phase := Draining\<rparr>)"
| drained_one: "wk_phase w = Draining \<Longrightarrow> ch_queue (wk_chan w) = r # rest \<Longrightarrow> worker_step emit w (worker_take emit r rest w)"
| drained_all: "wk_phase w = Draining \<Longrightarrow> ch_queue (wk_chan w) = [] \<Longrightarrow> worker_step emit w ((worker_flush emit w)\<lparr>wk_phase := Closing\<rparr>)"
| dropped_receiver: "wk_phase w = Closing \<Longrightarrow> worker_step emit w (w\<lparr>wk_phase := Stopped, wk_chan := (wk_chan w)\<lparr>ch_open := False\<rparr>\<rparr>)"

text \<open>
  The worker and its producers from the start; the list is what was produced, in order. What is
  in the queue when the receiver is dropped stays there in the model, unread.
\<close>

inductive worker_reach :: "('r, 'k) sink \<Rightarrow> nat \<Rightarrow> 'k \<Rightarrow> 'r list \<Rightarrow> ('r, 'k) worker \<Rightarrow> bool"
  for emit :: "('r, 'k) sink" and capacity and k0 where
  start: "worker_reach emit capacity k0 [] (worker_start capacity k0)"
| produce: "worker_reach emit capacity k0 rs w \<Longrightarrow>
    worker_reach emit capacity k0 (rs @ [r]) (w\<lparr>wk_chan := handle_record r (wk_chan w)\<rparr>)"
| work: "worker_reach emit capacity k0 rs w \<Longrightarrow> worker_step emit w w' \<Longrightarrow> worker_reach emit capacity k0 rs w'"

inductive_cases worker_stepE: "worker_step emit w w'"

section \<open>Lemmas\<close>

text \<open>A sink that keeps every batch it is handed, whether or not it then fails to deliver it.\<close>

definition logging_sink :: "('r list \<Rightarrow> bool) \<Rightarrow> ('r, 'r list list) sink" where
  "logging_sink ok batch handed = ((if ok batch then Ok () else Err ''sink''), handed @ [batch])"

text \<open>What the worker has taken over and still holds, in order.\<close>

definition accepted :: "('r, 'r list list) worker \<Rightarrow> 'r list" where
  "accepted w = concat (wk_sink w) @ wk_buf w @ ch_queue (wk_chan w)"

definition worker_inv :: "nat \<Rightarrow> 'r list \<Rightarrow> ('r, 'r list list) worker \<Rightarrow> bool" where
  "worker_inv capacity rs w \<longleftrightarrow>
     subseq (accepted w) rs
     \<and> ch_dropped (wk_chan w) = of_nat (length rs - length (accepted w))
     \<and> length (ch_queue (wk_chan w)) \<le> capacity \<and> ch_capacity (wk_chan w) = capacity
     \<and> length (wk_buf w) < BATCH_SIZE
     \<and> list_all (\<lambda>b. b \<noteq> [] \<and> length b \<le> BATCH_SIZE) (wk_sink w)
     \<and> (ch_open (wk_chan w) \<longleftrightarrow> wk_phase w \<noteq> Stopped)
     \<and> (wk_phase w = Closing \<or> wk_phase w = Stopped \<longrightarrow> wk_buf w = [])"

lemma worker_flush_logging:
  "worker_flush (logging_sink ok) w =
     (if wk_buf w = [] then w else w\<lparr>wk_buf := [], wk_sink := wk_sink w @ [wk_buf w]\<rparr>)"
  by (simp add: worker_flush_def flush_def logging_sink_def)

lemma worker_take_logging:
  "worker_take (logging_sink ok) r rest w =
     (if length (wk_buf w) + 1 < BATCH_SIZE
      then w\<lparr>wk_chan := (wk_chan w)\<lparr>ch_queue := rest\<rparr>, wk_buf := wk_buf w @ [r]\<rparr>
      else w\<lparr>wk_chan := (wk_chan w)\<lparr>ch_queue := rest\<rparr>, wk_buf := [], wk_sink := wk_sink w @ [wk_buf w @ [r]]\<rparr>)"
  by (simp add: worker_take_def worker_flush_logging Let_def)

text \<open>A step of the worker moves records along and loses none.\<close>

lemma worker_step_accepted:
  "worker_step (logging_sink ok) w w' \<Longrightarrow> accepted w' = accepted w \<and> ch_dropped (wk_chan w') = ch_dropped (wk_chan w)"
  by (cases rule: worker_step.cases, assumption)
    (auto simp: accepted_def worker_take_logging worker_flush_logging)

lemma worker_inv_step:
  assumes "worker_step (logging_sink ok) w w'" and "worker_inv capacity rs w"
  shows "worker_inv capacity rs w'"
  using assms(1)
proof cases
  case (received r rest)
  with assms(2) worker_step_accepted [OF assms(1)] show ?thesis
    by (auto simp: worker_inv_def worker_take_logging BATCH_SIZE_def)
next
  case (drained_one r rest)
  with assms(2) worker_step_accepted [OF assms(1)] show ?thesis
    by (auto simp: worker_inv_def worker_take_logging BATCH_SIZE_def)
qed (use assms(2) worker_step_accepted [OF assms(1)] in \<open>auto simp: worker_inv_def worker_flush_logging BATCH_SIZE_def\<close>)

lemma worker_inv_produce:
  assumes "worker_inv capacity rs w"
  shows "worker_inv capacity (rs @ [r]) (w\<lparr>wk_chan := handle_record r (wk_chan w)\<rparr>)"
proof (cases "ch_open (wk_chan w) \<and> length (ch_queue (wk_chan w)) < ch_capacity (wk_chan w)")
  case True
  with assms show ?thesis
    by (auto simp: worker_inv_def handle_record_def try_send_def accepted_def subseq_append_iff intro: list_emb_append_mono
        simp flip: append_assoc)
next
  case False
  have "length (accepted w) \<le> length rs" using assms list_emb_length by (auto simp: worker_inv_def)
  with False assms show ?thesis
    by (auto simp: worker_inv_def handle_record_def try_send_def accepted_def Suc_diff_le)
qed

lemma worker_reach_inv:
  "worker_reach (logging_sink ok) capacity [] rs w \<Longrightarrow> worker_inv capacity rs w"
proof (induction rule: worker_reach.induct)
  case start
  then show ?case
    by (simp add: worker_inv_def worker_start_def analytics_channel_of_def accepted_def BATCH_SIZE_def)
next
  case (produce rs w r)
  show ?case by (rule worker_inv_produce [OF produce.IH])
next
  case (work rs w w')
  then show ?case using worker_inv_step by blast
qed

text \<open>A run from a given state on: how many steps the worker made, and what was produced meanwhile.\<close>

inductive worker_tail :: "('r, 'k) sink \<Rightarrow> ('r, 'k) worker \<Rightarrow> nat \<Rightarrow> 'r list \<Rightarrow> ('r, 'k) worker \<Rightarrow> bool"
  for emit :: "('r, 'k) sink" and w where
  here: "worker_tail emit w 0 [] w"
| worked: "worker_tail emit w n rs w1 \<Longrightarrow> worker_step emit w1 w2 \<Longrightarrow> worker_tail emit w (Suc n) rs w2"
| produced: "worker_tail emit w n rs w1 \<Longrightarrow> worker_tail emit w n (rs @ [r]) (w1\<lparr>wk_chan := handle_record r (wk_chan w1)\<rparr>)"

text \<open>Every step of the shutdown takes a record from the queue or brings the end nearer.\<close>

definition shutdown_left :: "('r, 'k) worker \<Rightarrow> nat" where
  "shutdown_left w = (case wk_phase w of Draining \<Rightarrow> length (ch_queue (wk_chan w)) + 2 | Closing \<Rightarrow> 1 | _ \<Rightarrow> 0)"

lemma shutdown_left_step:
  "worker_step emit w w' \<Longrightarrow> wk_phase w \<noteq> Running \<Longrightarrow> shutdown_left w' < shutdown_left w \<and> wk_phase w' \<noteq> Running"
  by (cases rule: worker_step.cases, assumption)
    (auto simp: shutdown_left_def worker_take_def worker_flush_def Let_def split: prod.splits)

lemma shutdown_left_produce: "shutdown_left (w\<lparr>wk_chan := handle_record r (wk_chan w)\<rparr>) \<le> shutdown_left w + 1"
  by (auto simp: shutdown_left_def handle_record_def try_send_def split: worker_phase.splits)

lemma shutdown_steps: "wk_phase w \<in> {Draining, Closing} \<Longrightarrow> \<exists>w'. worker_step emit w w'"
  by (cases "ch_queue (wk_chan w)") (auto intro: worker_step.drained_one worker_step.drained_all worker_step.dropped_receiver)

lemma shutdown_bound:
  "worker_tail emit w n late w' \<Longrightarrow> wk_phase w \<noteq> Running \<Longrightarrow>
     n + shutdown_left w' \<le> shutdown_left w + length late \<and> wk_phase w' \<noteq> Running"
proof (induction rule: worker_tail.induct)
  case (worked n rs w1 w2)
  then show ?case using shutdown_left_step [OF worked.hyps(2)] by auto
next
  case (produced n rs w1 r)
  then show ?case using shutdown_left_produce [of r w1] by auto
qed simp

text \<open>What the shutdown has handed over: all that was accepted before it began, then more, in order.\<close>

lemma shutdown_accepted:
  assumes "worker_tail (logging_sink ok) w n late w'" and "wk_phase w = Draining"
  shows "\<exists>more. accepted w' = accepted w @ more \<and> subseq more late
    \<and> (wk_phase w' \<in> {Closing, Stopped} \<longrightarrow> prefix (accepted w) (concat (wk_sink w') @ wk_buf w'))"
  using assms(1)
proof (induction rule: worker_tail.induct)
  case here
  then show ?case using assms(2) by auto
next
  case (worked n rs w1 w2)
  then obtain more where m: "accepted w1 = accepted w @ more" "subseq more rs"
    "wk_phase w1 \<in> {Closing, Stopped} \<longrightarrow> prefix (accepted w) (concat (wk_sink w1) @ wk_buf w1)" by blast
  have "wk_phase w1 \<noteq> Running" using shutdown_bound [OF worked.hyps(1)] assms(2) by simp
  with worked.hyps(2) m have "wk_phase w2 \<in> {Closing, Stopped} \<longrightarrow> prefix (accepted w) (concat (wk_sink w2) @ wk_buf w2)"
    by (cases rule: worker_step.cases) (auto simp: worker_take_logging worker_flush_logging accepted_def)
  with m worker_step_accepted [OF worked.hyps(2)] show ?case by auto
next
  case (produced n rs w1 r)
  then obtain more where m: "accepted w1 = accepted w @ more" "subseq more rs"
    "wk_phase w1 \<in> {Closing, Stopped} \<longrightarrow> prefix (accepted w) (concat (wk_sink w1) @ wk_buf w1)" by blast
  have "accepted (w1\<lparr>wk_chan := handle_record r (wk_chan w1)\<rparr>) = accepted w1 @ (if ch_open (wk_chan w1)
      \<and> length (ch_queue (wk_chan w1)) < ch_capacity (wk_chan w1) then [r] else [])"
    by (simp add: accepted_def handle_record_def try_send_def)
  with m show ?case by (auto intro: list_emb_append_mono)
qed

lemma worker_tail_reach:
  "worker_tail emit w n late w' \<Longrightarrow> worker_reach emit c k rs w \<Longrightarrow> worker_reach emit c k (rs @ late) w'"
proof (induction rule: worker_tail.induct)
  case (produced n late w1 r)
  then show ?case using worker_reach.produce [of emit c k "rs @ late" w1 r] by simp
qed (auto intro: worker_reach.work)

text \<open>The list an organization's batch goes to.\<close>

definition org_list :: "(string \<times> string list) list \<Rightarrow> string \<Rightarrow> string list" where
  "org_list acc org = (case map_of acc org of Some js \<Rightarrow> js | None \<Rightarrow> [])"

lemma push_by_org_find:
  assumes "sorted_wrt (<) (map fst acc)"
  shows "map_of (push_by_org org j acc) x = (if x = org then Some (org_list acc org @ [j]) else map_of acc x)"
  using assms
proof (induction acc)
  case (Cons e acc)
  obtain o' js where e: "e = (o', js)" by fastforce
  have "map_of acc org = None" if "org < o'"
    using Cons.prems that by (force simp: e map_of_eq_None_iff)
  with Cons show ?case by (auto simp: e org_list_def)
qed (simp add: org_list_def)

lemma push_by_org_keys: "fst ` set (push_by_org org j acc) = insert org (fst ` set acc)"
  by (induction org j acc rule: push_by_org.induct) (simp_all add: insert_commute)

lemma push_by_org_sorted: "sorted_wrt (<) (map fst acc) \<Longrightarrow> sorted_wrt (<) (map fst (push_by_org org j acc))"
proof (induction acc)
  case (Cons e acc)
  obtain o' js where e: "e = (o', js)" by fastforce
  have "\<forall>x \<in> fst ` set (push_by_org org j acc). o' < x" if "\<not> org < o'" "org \<noteq> o'"
    using Cons.prems that unfolding push_by_org_keys by (auto simp: e)
  with Cons show ?case by (auto simp: e)
qed simp

lemma group_by_org_Ok:
  assumes "\<forall>r \<in> set rs. to_json r = Ok (f r)" and "sorted_wrt (<) (map fst acc)"
  shows "\<exists>g. group_by_org to_json rs acc = Ok g \<and> sorted_wrt (<) (map fst g)
    \<and> (\<forall>org. map_of g org = (let js = map f (filter (\<lambda>r. an_org_id r = org) rs) in
         if js = [] then map_of acc org else Some (org_list acc org @ js)))"
  using assms
proof (induction rs arbitrary: acc)
  case (Cons r rs)
  let ?acc = "push_by_org (an_org_id r) (f r) acc"
  have find: "map_of ?acc x = (if x = an_org_id r then Some (org_list acc x @ [f r]) else map_of acc x)"
    and lists: "org_list ?acc x = (if x = an_org_id r then org_list acc x @ [f r] else org_list acc x)" for x
    using push_by_org_find [OF Cons.prems(2), of "an_org_id r" "f r" x] by (auto simp: org_list_def)
  obtain g where "group_by_org to_json rs ?acc = Ok g" "sorted_wrt (<) (map fst g)"
    "\<And>org. map_of g org = (let js = map f (filter (\<lambda>r. an_org_id r = org) rs) in
         if js = [] then map_of ?acc org else Some (org_list ?acc org @ js))"
    using Cons.IH [of ?acc] Cons.prems push_by_org_sorted by auto
  moreover have "to_json r = Ok (f r)" using Cons.prems by simp
  ultimately show ?case by (auto simp: bind_res_def find lists Let_def)
qed simp

lemma group_by_org_fails:
  "\<not> list_all (\<lambda>r. \<exists>j. to_json r = Ok j) rs \<Longrightarrow> \<nexists>g. group_by_org to_json rs acc = Ok g"
  by (induction rs arbitrary: acc) (auto simp: bind_res_def split: res.splits)

section \<open>Properties\<close>


text \<open>A worker for numbers, with a channel for one.\<close>

abbreviation sample_worker :: "nat list \<Rightarrow> bool \<Rightarrow> u64 \<Rightarrow> nat list \<Rightarrow> nat list list \<Rightarrow> worker_phase \<Rightarrow> (nat, nat list list) worker" where
  "sample_worker q op d buf k ph \<equiv>
     \<lparr>wk_chan = \<lparr>ch_queue = q, ch_capacity = 1, ch_open = op, ch_dropped = d\<rparr>, wk_buf = buf, wk_sink = k, wk_phase = ph\<rparr>"

abbreviation sample_sink :: "(nat, nat list list) sink" where
  "sample_sink \<equiv> logging_sink (\<lambda>_. True)"

lemma sample_worker_draining: "worker_reach sample_sink 1 [] [1, 2] (sample_worker [1] True 1 [] [] Draining)"
proof -
  have "worker_reach sample_sink 1 [] [] (sample_worker [] True 0 [] [] Running)"
    using worker_reach.start [of sample_sink 1 "[]"] by (simp add: worker_start_def analytics_channel_of_def)
  from worker_reach.produce [OF this, of 1] have "worker_reach sample_sink 1 [] [1] (sample_worker [1] True 0 [] [] Running)"
    by (simp add: handle_record_def try_send_def)
  from worker_reach.produce [OF this, of 2] have "worker_reach sample_sink 1 [] [1, 2] (sample_worker [1] True 1 [] [] Running)"
    by (simp add: handle_record_def try_send_def)
  from worker_reach.work [OF this worker_step.stop_signal] show ?thesis by simp
qed

text \<open>The drain hands over the queued record; the one sent during the last flush stays behind.\<close>

lemma sample_worker_tail:
  "worker_tail sample_sink (sample_worker [1] True 1 [] [] Draining) 3 [3] (sample_worker [3] False 1 [] [[1]] Stopped)"
proof -
  let ?w = "sample_worker [1] True 1 [] [] Draining"
  have "worker_tail sample_sink ?w (Suc 0) [] (sample_worker [] True 1 [1] [] Draining)"
    using worker_tail.worked [OF worker_tail.here worker_step.drained_one [of ?w 1 "[]" sample_sink]]
    by (simp add: worker_take_logging BATCH_SIZE_def)
  from worker_tail.worked [OF this worker_step.drained_all]
  have "worker_tail sample_sink ?w 2 [] (sample_worker [] True 1 [] [[1]] Closing)" by (simp add: worker_flush_logging numeral_2_eq_2)
  from worker_tail.produced [OF this, of 3] have "worker_tail sample_sink ?w 2 [3] (sample_worker [3] True 1 [] [[1]] Closing)"
    by (simp add: handle_record_def try_send_def)
  from worker_tail.worked [OF this worker_step.dropped_receiver] show ?thesis by (simp add: numeral_3_eq_3)
qed


text \<open>
  The record sent between the last empty \<open>try_recv\<close> and the drop of the receiver is accepted by the
  channel, is never handed to the sink and is not in the drop counter.
\<close>

lemma late_record_lost:
  "\<exists>w. worker_reach sample_sink 1 [] [1, 2, 3] w \<and> wk_phase w = Stopped \<and> 3 \<notin> set (concat (wk_sink w)) \<and> ch_dropped (wk_chan w) = 1
    \<and> (\<nexists>w'. worker_step sample_sink w w')"
proof -
  have "worker_reach sample_sink 1 [] [1, 2, 3] (sample_worker [3] False 1 [] [[1]] Stopped)"
    using worker_tail_reach [OF sample_worker_tail sample_worker_draining] by simp
  moreover have "\<nexists>w'. worker_step sample_sink (sample_worker [3] False 1 [] [[1]] Stopped) w'" by (auto elim: worker_stepE)
  ultimately show ?thesis by force
qed



text \<open>
  The Redis sink keeps each organization's records apart and in order: a batch that
  serializes becomes, per organization, one append of exactly that organization's records in
  arrival order to the organization's list, in ascending order of the organizations, under
  the cap; a batch with a record that does not serialize appends nothing.
\<close>

theorem redis_list_emit_per_org:
  "(if list_all (\<lambda>r. \<exists>j. to_json r = Ok j) records
    then (\<exists>g. redis_list_emit S to_json show_err now cap records s = append_orgs S show_err now cap g s
        \<and> sorted_wrt (<) (map fst g) \<and> fst ` set g = an_org_id ` set records
        \<and> list_all (\<lambda>(org, js). map Ok js = map to_json (filter (\<lambda>r. an_org_id r = org) records)) g)
    else snd (redis_list_emit S to_json show_err now cap records s) = s)"
proof (cases "list_all (\<lambda>r. \<exists>j. to_json r = Ok j) records")
  case True
  define f where "f r = (case to_json r of Ok j \<Rightarrow> j | _ \<Rightarrow> [])" for r
  have f: "\<forall>r \<in> set records. to_json r = Ok (f r)" using True by (auto simp: f_def list_all_iff split: res.splits)
  obtain g where g: "group_by_org to_json records [] = Ok g" "sorted_wrt (<) (map fst g)"
    "\<And>org. map_of g org = (let js = map f (filter (\<lambda>r. an_org_id r = org) records) in if js = [] then None else Some js)"
    using group_by_org_Ok [OF f, of "[]"] by (auto simp: org_list_def Let_def)
  have d: "distinct (map fst g)" using g(2) by (simp add: strict_sorted_iff)
  have "fst ` set g = an_org_id ` set records"
  proof -
    have "org \<in> fst ` set g \<longleftrightarrow> map_of g org \<noteq> None" for org by (simp add: map_of_eq_None_iff)
    also have "\<dots> org \<longleftrightarrow> org \<in> an_org_id ` set records" for org
      by (auto simp: g(3) Let_def filter_empty_conv)
    finally show ?thesis by blast
  qed
  moreover have "list_all (\<lambda>(org, js). map Ok js = map to_json (filter (\<lambda>r. an_org_id r = org) records)) g"
  proof -
    have "map Ok js = map to_json (filter (\<lambda>r. an_org_id r = org) records)" if "(org, js) \<in> set g" for org js
    proof -
      have "map_of g org = Some js" using that d by simp
      then have "js = map f (filter (\<lambda>r. an_org_id r = org) records)" by (auto simp: g(3) Let_def split: if_splits)
      with f show ?thesis by simp
    qed
    then show ?thesis by (auto simp: list_all_iff)
  qed
  ultimately show ?thesis using True g(1,2) by (auto simp: redis_list_emit_def)
next
  case False
  then show ?thesis using group_by_org_fails [OF False, of "[]"]
    by (auto simp: redis_list_emit_def split: res.splits)
qed

end
