(* ===== verification/Forward.thy ===== *)
theory Forward
  imports Rewrite Breaker
begin

text \<open>
  The forwarding service of \<open>g2-proxy/src/forward.rs\<close>: the attempt loop over the rotation,
  the retry gate, the circuit breaker around the exchange, protocol upgrades and the mapping
  of every outcome to a response. The HTTP client is a parameter: what it answers to a
  request, and how long that takes, is any function of its own state. The per-API timeout
  cancels the attempt loop at its awaits, so the loop carries the time that is left.
\<close>

section \<open>Errors of the body and the client\<close>

text \<open>An error with its source chain, outermost first.\<close>

datatype cause = TooLarge nat | LengthLimit | OtherCause string

type_synonym client_error = "cause list"

fun is_request_too_large :: "client_error \<Rightarrow> bool" where
  "is_request_too_large [] = False"
| "is_request_too_large (TooLarge limit # cs) = True"
| "is_request_too_large (_ # cs) = is_request_too_large cs"

definition is_over_limit :: "client_error \<Rightarrow> bool" where
  "is_over_limit err = (if is_request_too_large err then True else LengthLimit \<in> set err)"

section \<open>The upstream client\<close>

record 'h upstream_request =
  ur_method :: string
  ur_scheme :: string
  ur_authority :: string
  ur_path_and_query :: string
  ur_http2 :: bool
  ur_headers :: 'h
  ur_body :: body

datatype 'h exchange = Answered duration "'h response" | Broke duration client_error | Hangs

record ('h, 'u) client_ext =
  cl_uri_ok :: "string \<Rightarrow> string \<Rightarrow> string \<Rightarrow> bool"
  cl_request :: "'h upstream_request \<Rightarrow> 'u \<Rightarrow> 'h exchange \<times> 'u"

text \<open>Spawned connection splices: the opaque copy, or the policed relay with its subprotocol.\<close>

datatype splice = OpaqueCopy | PolicedRelay "string option"

text \<open>
  What forwarding reads and changes: the current target set, the cursor, the breaker, the
  clock, the client's side, and the tasks spawned.
\<close>

record 'u route_state =
  fs_targets :: target_set
  fs_cursor :: u64
  fs_breaker :: "circuit_breaker option"
  fs_now :: instant
  fs_up :: 'u
  fs_spawned :: "splice list"

section \<open>The attempt loop\<close>

definition is_idempotent :: "string \<Rightarrow> bool" where
  "is_idempotent m \<longleftrightarrow> m \<in> {''GET'', ''HEAD'', ''PUT'', ''DELETE'', ''OPTIONS'', ''TRACE''}"

text \<open>The request's parts as the loop uses them.\<close>

record 'h parts =
  pa_method :: string
  pa_path :: string
  pa_query :: "string option"
  pa_http2 :: bool
  pa_headers :: 'h

datatype attempt_error = BadUri | Client client_error

text \<open>How the attempts under the timeout end; \<open>Panicked\<close> is the unreachable exit of the loop.\<close>

datatype 'h outcome = Responded "'h response" | Failed attempt_error | Elapsed | Panicked

datatype ('h, 'u) attempt_end =
    Stop "'h outcome" "'u route_state"
  | Broken client_error duration "'u route_state"

definition upstream_req :: "'r regex_ext \<Rightarrow> 'r upstream_target \<Rightarrow> upstream_addr \<Rightarrow> 'h parts \<Rightarrow> body \<Rightarrow>
    'h upstream_request" where
  "upstream_req R target addr parts body =
     \<lparr>ur_method = pa_method parts, ur_scheme = ua_scheme addr, ur_authority = ua_authority addr,
      ur_path_and_query = upstream_path_and_query R target addr (pa_path parts) (pa_query parts),
      ur_http2 = pa_http2 parts, ur_headers = pa_headers parts, ur_body = body\<rparr>"

definition attempt :: "('h, 'u) client_ext \<Rightarrow> 'r regex_ext \<Rightarrow> 'r upstream_target \<Rightarrow> 'h parts \<Rightarrow> body \<Rightarrow> duration \<Rightarrow>
    'u route_state \<Rightarrow> ('h, 'u) attempt_end" where
  "attempt C R target parts body budget s =
     (case next_addr (fs_targets s) (fs_cursor s) of
        (None, cur) \<Rightarrow> Stop Panicked (s\<lparr>fs_cursor := cur\<rparr>)
      | (Some i, cur) \<Rightarrow>
          let req = upstream_req R target (ts_addrs (fs_targets s) ! i) parts body;
              s1 = s\<lparr>fs_cursor := cur\<rparr>
          in if \<not> cl_uri_ok C (ur_scheme req) (ur_authority req) (ur_path_and_query req)
             then Stop (Failed BadUri) s1
             else case cl_request C req (fs_up s) of (answer, up) \<Rightarrow>
               (let after = (\<lambda>d. s1\<lparr>fs_up := up, fs_now := fs_now s + d\<rparr>)
                in case answer of
                     Hangs \<Rightarrow> Stop Elapsed (after budget)
                   | Answered d resp \<Rightarrow>
                       if d \<le> budget then Stop (Responded resp) (after d) else Stop Elapsed (after budget)
                   | Broke d err \<Rightarrow>
                       if d \<le> budget then Broken err (budget - d) (after d)
                       else Stop Elapsed (after budget)))"

fun run_attempts :: "('h, 'u) client_ext \<Rightarrow> 'r regex_ext \<Rightarrow> 'r upstream_target \<Rightarrow> 'h parts \<Rightarrow> body \<Rightarrow> nat \<Rightarrow>
    duration \<Rightarrow> 'u route_state \<Rightarrow> 'h outcome \<times> 'u route_state" where
  "run_attempts C R target parts body 0 budget s = (Panicked, s)"
| "run_attempts C R target parts body (Suc left) budget s =
     (case attempt C R target parts (if left = 0 then body else body_empty) budget s of
        Stop out s' \<Rightarrow> (out, s')
      | Broken err budget' s' \<Rightarrow>
          if 0 < left \<and> \<not> is_request_too_large err
          then run_attempts C R target parts body left budget' s'
          else (Failed (Client err), s'))"

section \<open>One request\<close>

definition error_response :: "'h http_ext \<Rightarrow> nat \<Rightarrow> string \<Rightarrow> 'h response" where
  "error_response X status message =
     (let resp = response_new X (body_full (''{\"error\":'' @ json_str X message @ ''}''))
      in resp\<lparr>rs_status := status,
              rs_headers := hm_insert X (rs_headers resp) ''content-type'' ''application/json''\<rparr>)"

definition upgrade_of :: "'h http_ext \<Rightarrow> 'r upstream_target \<Rightarrow> 'h request \<Rightarrow>
    (string \<times> (string option \<Rightarrow> bool) option) option" where
  "upgrade_of X target req =
     (if tg_upgrades_enabled target then
        (case hm_get X (rq_headers req) ''upgrade'' of
           Some protocol \<Rightarrow> (if rq_on_upgrade req then Some (protocol, rq_tunnel req) else None)
         | None \<Rightarrow> None)
      else None)"

definition keep_te :: "'h http_ext \<Rightarrow> 'r upstream_target \<Rightarrow> 'h \<Rightarrow> bool" where
  "keep_te X target h \<longleftrightarrow>
     tg_http2 target
     \<and> (case Option.bind (hm_get X h ''te'') (hv_to_str X) of
          Some value \<Rightarrow> list_ex (\<lambda>token. eq_ignore_ascii_case (trim token) ''trailers'') (split_on (CHR '','') value)
        | None \<Rightarrow> False)"

definition forwarded_headers :: "'h http_ext \<Rightarrow> 'r upstream_target \<Rightarrow> 'h request \<Rightarrow> 'h" where
  "forwarded_headers X target req =
     (let client_ip = (case rq_client_addr req of Some a \<Rightarrow> a | None \<Rightarrow> V4 0);
          tls = (case rq_conn req of Some conn \<Rightarrow> cn_tls conn | None \<Rightarrow> False);
          h1 = prepare_upstream_headers X target (rq_headers req) client_ip tls;
          h2 = (if keep_te X target (rq_headers req) then hm_insert X h1 ''te'' ''trailers'' else h1)
      in case upgrade_of X target req of
           Some (protocol, _) \<Rightarrow> hm_insert X (hm_insert X h2 ''connection'' ''upgrade'') ''upgrade'' protocol
         | None \<Rightarrow> h2)"

definition forward_method :: "'r upstream_target \<Rightarrow> 'h request \<Rightarrow> string" where
  "forward_method target req = (case tg_method_override target of Some m \<Rightarrow> m | None \<Rightarrow> rq_method req)"

definition forward_parts :: "'h http_ext \<Rightarrow> 'r upstream_target \<Rightarrow> 'h request \<Rightarrow> 'h parts" where
  "forward_parts X target req =
     \<lparr>pa_method = forward_method target req, pa_path = rq_path req, pa_query = rq_query req,
      pa_http2 = tg_http2 target, pa_headers = forwarded_headers X target req\<rparr>"

definition max_attempts :: "'r upstream_target \<Rightarrow> string \<Rightarrow> body \<Rightarrow> nat" where
  "max_attempts target method body =
     (if tg_retries target > 0 \<and> is_idempotent method \<and> bd_end body
      then sat_u32 (tg_retries target + 1) else 1)"

text \<open>A \<open>101\<close> is passed on only after the tunnel, if there is one, accepts the subprotocol.\<close>

definition upgrade_response :: "'h http_ext \<Rightarrow> 'h response \<Rightarrow> (string option \<Rightarrow> bool) option \<Rightarrow> 'u route_state \<Rightarrow>
    'h response \<times> 'u route_state" where
  "upgrade_response X resp tunnel s =
     (let protocol = hm_get X (rs_headers resp) ''upgrade'';
          negotiated = hm_get X (rs_headers resp) ''sec-websocket-protocol''
      in if (case tunnel of Some accepts \<Rightarrow> \<not> accepts negotiated | None \<Rightarrow> False)
         then (error_response X 502 ''upstream negotiated an unsupported WebSocket subprotocol'', s)
         else
           (let h1 = strip_hop_by_hop_headers X (rs_headers resp);
                h2 = hm_insert X h1 ''connection'' ''upgrade'';
                h3 = (case protocol of Some p \<Rightarrow> hm_insert X h2 ''upgrade'' p | None \<Rightarrow> h2);
                task = (case tunnel of Some _ \<Rightarrow> PolicedRelay negotiated | None \<Rightarrow> OpaqueCopy)
            in (resp\<lparr>rs_headers := h3\<rparr>, s\<lparr>fs_spawned := fs_spawned s @ [task]\<rparr>)))"

definition record_outcome :: "bool \<Rightarrow> 'u route_state \<Rightarrow> 'u route_state" where
  "record_outcome ok s =
     s\<lparr>fs_breaker := map_option (\<lambda>cb. if ok then record_success cb else record_failure cb (fs_now s)) (fs_breaker s)\<rparr>"

definition settle :: "'h http_ext \<Rightarrow> (string \<times> (string option \<Rightarrow> bool) option) option \<Rightarrow> 'h outcome \<Rightarrow>
    'u route_state \<Rightarrow> 'h response option \<times> 'u route_state" where
  "settle X upgrade out s =
     (case out of
        Responded resp \<Rightarrow>
          let s1 = record_outcome (\<not> (500 \<le> rs_status resp \<and> rs_status resp < 600)) s
          in if rs_status resp = 101 then
               (case upgrade of
                  Some (_, tunnel) \<Rightarrow> (case upgrade_response X resp tunnel s1 of (r, s2) \<Rightarrow> (Some r, s2))
                | None \<Rightarrow> (Some (error_response X 502 ''unexpected upgrade response from upstream''), s1))
             else (Some (resp\<lparr>rs_headers := strip_hop_by_hop_headers X (rs_headers resp)\<rparr>), s1)
      | Failed (Client err) \<Rightarrow>
          if is_request_too_large err then (Some (error_response X 413 ''request body too large''), s)
          else (Some (error_response X 502 ''upstream request failed''), record_outcome False s)
      | Failed BadUri \<Rightarrow> (Some (error_response X 502 ''invalid upstream request''), s)
      | Elapsed \<Rightarrow> (Some (error_response X 504 ''upstream request timed out''), record_outcome False s)
      | Panicked \<Rightarrow> (None, s))"

definition acquire :: "'u route_state \<Rightarrow> bool \<times> 'u route_state" where
  "acquire s =
     (case fs_breaker s of
        None \<Rightarrow> (True, s)
      | Some cb \<Rightarrow> (case try_acquire cb (fs_now s) of (ok, cb') \<Rightarrow> (ok, s\<lparr>fs_breaker := Some cb'\<rparr>)))"

definition forward :: "('h, 'u) client_ext \<Rightarrow> 'h http_ext \<Rightarrow> 'r regex_ext \<Rightarrow> 'r upstream_target \<Rightarrow>
    ('h, 'u route_state) service" where
  "forward C X R target req s =
     (case acquire s of (ok, s1) \<Rightarrow>
        if \<not> ok then (Some (error_response X 503 ''upstream circuit open''), s1)
        else
          (let method = forward_method target req
           in case run_attempts C R target (forward_parts X target req) (rq_body req)
                     (max_attempts target method (rq_body req)) (tg_timeout target) s1 of (out, s2) \<Rightarrow>
                (case settle X (upgrade_of X target req) out s2 of (resp, s3) \<Rightarrow>
                   (map_option (\<lambda>r. r\<lparr>rs_latency := Some (fs_now s2 - fs_now s1)\<rparr>) resp, s3))))"

section \<open>Scripted upstreams\<close>

text \<open>
  Any behaviour of the upstream during one request is a sequence of exchanges; the scripted
  client plays one back, logs the requests it was sent, and hangs when the script is over.
\<close>

fun scripted_request :: "'h upstream_request \<Rightarrow> 'h upstream_request list \<times> 'h exchange list \<Rightarrow>
    'h exchange \<times> 'h upstream_request list \<times> 'h exchange list" where
  "scripted_request r (log, []) = (Hangs, log @ [r], [])"
| "scripted_request r (log, e # es) = (e, log @ [r], es)"

definition scripted :: "('h, 'h upstream_request list \<times> 'h exchange list) client_ext" where
  "scripted = \<lparr>cl_uri_ok = (\<lambda>_ _ _. True), cl_request = scripted_request\<rparr>"

text \<open>A transport failure after \<open>d\<close> that is not the request's own size limit.\<close>

fun transport_failure :: "'h exchange \<Rightarrow> bool" where
  "transport_failure (Broke d err) = (\<not> is_request_too_large err)"
| "transport_failure _ = False"

fun exchange_time :: "'h exchange \<Rightarrow> duration" where
  "exchange_time (Answered d r) = d"
| "exchange_time (Broke d err) = d"
| "exchange_time Hangs = 0"

section \<open>Lemmas\<close>

lemma pick_loop_bound: "pick_loop n count health cur = (Some i, cur') \<Longrightarrow> 0 < count \<Longrightarrow> i < count"
  by (induction n arbitrary: cur) (auto simp: Let_def split: if_splits)

lemma next_addr_total:
  assumes "ts_addrs ts \<noteq> []"
  obtains i cur' where "next_addr ts cur = (Some i, cur')" and "i < length (ts_addrs ts)"
proof -
  let ?n = "length (ts_addrs ts)"
  have n: "0 < ?n" using assms by simp
  show thesis
  proof (cases "?n = 1")
    case True
    then show ?thesis by (intro that [of 0 cur]) (simp_all add: next_addr_def)
  next
    case False
    obtain p c where p: "pick_loop ?n ?n (ts_health ts) cur = (p, c)" by fastforce
    show ?thesis
    proof (cases p)
      case None
      with False p n show ?thesis
        by (intro that [of "unat c mod ?n" "c + 1"]) (simp_all add: next_addr_def)
    next
      case (Some i)
      with False p n show ?thesis
        by (intro that [of i c]) (simp_all add: next_addr_def pick_loop_bound)
    qed
  qed
qed

text \<open>An attempt against the scripted client, whatever the rotation is.\<close>

lemma scripted_attempt:
  assumes "ts_addrs (fs_targets s) \<noteq> []" and "fs_up s = (log, script)"
  obtains addr cur where "addr \<in> set (ts_addrs (fs_targets s))"
    and "attempt scripted R target parts body budget s =
      (let s' = (\<lambda>d. s\<lparr>fs_cursor := cur, fs_up := (log @ [upstream_req R target addr parts body], tl script),
                     fs_now := fs_now s + d\<rparr>)
       in case script of
            [] \<Rightarrow> Stop Elapsed (s' budget)
          | Hangs # _ \<Rightarrow> Stop Elapsed (s' budget)
          | Answered d r # _ \<Rightarrow> (if d \<le> budget then Stop (Responded r) (s' d) else Stop Elapsed (s' budget))
          | Broke d err # _ \<Rightarrow> (if d \<le> budget then Broken err (budget - d) (s' d) else Stop Elapsed (s' budget)))"
proof -
  obtain i cur where i: "next_addr (fs_targets s) (fs_cursor s) = (Some i, cur)"
    "i < length (ts_addrs (fs_targets s))"
    using next_addr_total [OF assms(1)] by blast
  have "ts_addrs (fs_targets s) ! i \<in> set (ts_addrs (fs_targets s))" using i(2) by simp
  moreover have "attempt scripted R target parts body budget s =
      (let s' = (\<lambda>d. s\<lparr>fs_cursor := cur,
                 fs_up := (log @ [upstream_req R target (ts_addrs (fs_targets s) ! i) parts body], tl script),
                 fs_now := fs_now s + d\<rparr>)
       in case script of
            [] \<Rightarrow> Stop Elapsed (s' budget)
          | Hangs # _ \<Rightarrow> Stop Elapsed (s' budget)
          | Answered d r # _ \<Rightarrow> (if d \<le> budget then Stop (Responded r) (s' d) else Stop Elapsed (s' budget))
          | Broke d err # _ \<Rightarrow> (if d \<le> budget then Broken err (budget - d) (s' d) else Stop Elapsed (s' budget)))"
    using i assms(2)
    by (cases script) (auto simp: attempt_def scripted_def Let_def split: exchange.splits)
  ultimately show thesis by (rule that)
qed

text \<open>What the loop can have sent, for every script.\<close>

lemma run_attempts_sent:
  assumes "ts_addrs (fs_targets s) \<noteq> []" and "0 < n"
    and "run_attempts scripted R target parts body n budget s = (out, s')"
  shows "\<exists>sent. fst (fs_up s') = fst (fs_up s) @ sent \<and> sent \<noteq> [] \<and> length sent \<le> n
    \<and> (\<forall>r \<in> set sent. \<exists>addr \<in> set (ts_addrs (fs_targets s)). \<exists>b. r = upstream_req R target addr parts b)
    \<and> (\<forall>r \<in> set (butlast sent). ur_body r = body_empty)
    \<and> (ur_body (last sent) = (if length sent = n then body else body_empty))
    \<and> out \<noteq> Panicked \<and> out \<noteq> Failed BadUri
    \<and> fs_breaker s' = fs_breaker s \<and> fs_spawned s' = fs_spawned s \<and> fs_now s' \<le> fs_now s + budget
    \<and> fs_now s \<le> fs_now s'"
  using assms
proof (induction n arbitrary: budget s)
  case 0
  then show ?case by simp
next
  case (Suc n)
  let ?b = "if n = 0 then body else body_empty"
  obtain log script where up: "fs_up s = (log, script)" by fastforce
  obtain addr cur where addr: "addr \<in> set (ts_addrs (fs_targets s))"
    and a: "attempt scripted R target parts ?b budget s =
      (let s' = (\<lambda>d. s\<lparr>fs_cursor := cur, fs_up := (log @ [upstream_req R target addr parts ?b], tl script),
                     fs_now := fs_now s + d\<rparr>)
       in case script of
            [] \<Rightarrow> Stop Elapsed (s' budget)
          | Hangs # _ \<Rightarrow> Stop Elapsed (s' budget)
          | Answered d r # _ \<Rightarrow> (if d \<le> budget then Stop (Responded r) (s' d) else Stop Elapsed (s' budget))
          | Broke d err # _ \<Rightarrow> (if d \<le> budget then Broken err (budget - d) (s' d) else Stop Elapsed (s' budget)))"
    using scripted_attempt [OF Suc.prems(1) up] by blast
  let ?r = "upstream_req R target addr parts ?b"
  show ?case
  proof (cases "attempt scripted R target parts ?b budget s")
    case (Stop out1 s1)
    then have "s' = s1" "out = out1" using Suc.prems(3) by simp_all
    moreover from Stop a have "fs_up s1 = (log @ [?r], tl script)" "fs_breaker s1 = fs_breaker s"
      "fs_spawned s1 = fs_spawned s" "fs_now s1 \<le> fs_now s + budget" "fs_now s \<le> fs_now s1"
      "out1 \<noteq> Panicked" "out1 \<noteq> Failed BadUri"
      by (auto simp: Let_def split: list.splits exchange.splits if_splits)
    ultimately show ?thesis
      using addr by (intro exI [of _ "[?r]"]) (auto simp: up upstream_req_def)
  next
    case (Broken err budget1 s1)
    from this a have s1: "fs_up s1 = (log @ [?r], tl script)" "fs_breaker s1 = fs_breaker s"
      "fs_spawned s1 = fs_spawned s" "fs_now s1 + budget1 = fs_now s + budget" "fs_targets s1 = fs_targets s"
      "fs_now s \<le> fs_now s1"
      by (auto simp: Let_def split: list.splits exchange.splits if_splits)
    show ?thesis
    proof (cases "0 < n \<and> \<not> is_request_too_large err")
      case False
      then have "s' = s1" "out = Failed (Client err)" using Suc.prems(3) Broken by auto
      with s1 addr show ?thesis
        by (intro exI [of _ "[?r]"]) (auto simp: up upstream_req_def)
    next
      case True
      then have run: "run_attempts scripted R target parts body n budget1 s1 = (out, s')"
        using Suc.prems(3) Broken by simp
      obtain sent where IH: "fst (fs_up s') = fst (fs_up s1) @ sent" "sent \<noteq> []" "length sent \<le> n"
        "\<forall>r \<in> set sent. \<exists>addr \<in> set (ts_addrs (fs_targets s)). \<exists>b. r = upstream_req R target addr parts b"
        "\<forall>r \<in> set (butlast sent). ur_body r = body_empty"
        "ur_body (last sent) = (if length sent = n then body else body_empty)"
        "out \<noteq> Panicked" "out \<noteq> Failed BadUri" "fs_breaker s' = fs_breaker s1" "fs_spawned s' = fs_spawned s1"
        "fs_now s' \<le> fs_now s1 + budget1" "fs_now s1 \<le> fs_now s'"
        using Suc.IH [OF _ _ run] Suc.prems(1) True s1 by auto
      then show ?thesis
        using True s1 addr
        by (intro exI [of _ "?r # sent"]) (auto simp: up upstream_req_def)
    qed
  qed
qed

text \<open>Transport failures within the budget are masked while attempts are left.\<close>

lemma run_attempts_masks:
  assumes "ts_addrs (fs_targets s) \<noteq> []" and "list_all transport_failure fails" and "length fails < n"
    and "sum_list (map exchange_time fails) \<le> budget" and "fs_up s = (log, fails @ script)"
  obtains s' log' where
    "run_attempts scripted R target parts body n budget s =
       run_attempts scripted R target parts body (n - length fails) (budget - sum_list (map exchange_time fails)) s'"
    and "fs_up s' = (log', script)" and "length log' = length log + length fails"
    and "fs_now s' = fs_now s + sum_list (map exchange_time fails)" and "fs_targets s' = fs_targets s"
    and "fs_breaker s' = fs_breaker s" and "fs_spawned s' = fs_spawned s"
proof -
  have "\<exists>s' log'. run_attempts scripted R target parts body n budget s =
       run_attempts scripted R target parts body (n - length fails) (budget - sum_list (map exchange_time fails)) s'
    \<and> fs_up s' = (log', script) \<and> length log' = length log + length fails
    \<and> fs_now s' = fs_now s + sum_list (map exchange_time fails) \<and> fs_targets s' = fs_targets s
    \<and> fs_breaker s' = fs_breaker s \<and> fs_spawned s' = fs_spawned s"
    using assms
  proof (induction fails arbitrary: s n budget log)
    case Nil
    then show ?case by (intro exI [of _ s] exI [of _ log]) simp
  next
    case (Cons e fails)
    obtain d err where e: "e = Broke d err" and tl: "\<not> is_request_too_large err"
      using Cons.prems(2) by (cases e) auto
    obtain m where m: "n = Suc m" "0 < m" using Cons.prems(3) by (cases n) auto
    have up: "fs_up s = (log, Broke d err # fails @ script)" using Cons.prems(5) e by simp
    obtain addr cur where a: "attempt scripted R target parts body_empty budget s =
        Broken err (budget - d) (s\<lparr>fs_cursor := cur,
          fs_up := (log @ [upstream_req R target addr parts body_empty], fails @ script), fs_now := fs_now s + d\<rparr>)"
      by (rule scripted_attempt [OF Cons.prems(1) up, of R target parts body_empty budget], rule that)
        (use Cons.prems(4) e in \<open>simp add: Let_def\<close>)
    let ?s1 = "s\<lparr>fs_cursor := cur,
      fs_up := (log @ [upstream_req R target addr parts body_empty], fails @ script), fs_now := fs_now s + d\<rparr>"
    have fits: "sum_list (map exchange_time fails) \<le> budget - d" using Cons.prems(4) e by simp
    have "run_attempts scripted R target parts body n budget s
        = run_attempts scripted R target parts body m (budget - d) ?s1"
      using m a tl by simp
    moreover obtain s' log' where
      "run_attempts scripted R target parts body m (budget - d) ?s1 =
         run_attempts scripted R target parts body (m - length fails) (budget - d - sum_list (map exchange_time fails)) s'"
      "fs_up s' = (log', script)" "length log' = length (log @ [upstream_req R target addr parts body_empty]) + length fails"
      "fs_now s' = fs_now ?s1 + sum_list (map exchange_time fails)" "fs_targets s' = fs_targets ?s1"
      "fs_breaker s' = fs_breaker ?s1" "fs_spawned s' = fs_spawned ?s1"
      using Cons.IH [of ?s1 m "budget - d" "log @ [upstream_req R target addr parts body_empty]"] Cons.prems m e fits
      by auto
    ultimately show ?case
      using m e by (intro exI [of _ s'] exI [of _ log']) (simp add: algebra_simps)
  qed
  then show thesis using that by blast
qed

lemma acquire_keeps:
  "acquire s = (ok, s1) \<Longrightarrow> fs_up s1 = fs_up s \<and> fs_targets s1 = fs_targets s \<and> fs_now s1 = fs_now s
     \<and> fs_spawned s1 = fs_spawned s \<and> fs_cursor s1 = fs_cursor s"
  by (auto simp: acquire_def split: option.splits prod.splits)

lemma record_outcome_keeps [simp]:
  "fs_up (record_outcome ok s) = fs_up s" "fs_spawned (record_outcome ok s) = fs_spawned s"
  "fs_now (record_outcome ok s) = fs_now s" "fs_targets (record_outcome ok s) = fs_targets s"
  "fs_breaker (record_outcome ok s)
     = map_option (\<lambda>cb. if ok then record_success cb else record_failure cb (fs_now s)) (fs_breaker s)"
  by (simp_all add: record_outcome_def)

lemma settle_up: "settle X upgrade out s = (r, s') \<Longrightarrow> fs_up s' = fs_up s"
  by (auto simp: settle_def upgrade_response_def Let_def
        split: outcome.splits attempt_error.splits if_splits option.splits prod.splits)

lemma max_attempts_pos [simp]: "0 < max_attempts target method body"
  by (simp add: max_attempts_def sat_u32_def u32_max_def)

lemma error_response_status [simp]: "rs_status (error_response X st m) = st"
  by (simp add: error_response_def Let_def)

section \<open>Properties\<close>

text \<open>
  C4. Requests are replayed only when that is safe: whatever the upstream does, one
  request leads to at most one upstream exchange unless retries are configured, the method
  (after any override) is idempotent and the body is already at its end, and then to at most
  \<open>upstream_retries + 1\<close>; every exchange carries the same method and prepared headers to an
  address of the target set, all but the last attempt an empty body; an open circuit sends
  nothing; the time spent never exceeds the API's timeout, and the loop never panics.
\<close>

theorem forward_replays_only_when_safe:
  assumes "ts_addrs (fs_targets s) \<noteq> []" and "forward scripted X R target req s = (resp, s')"
  shows "\<exists>sent. fst (fs_up s') = fst (fs_up s) @ sent
    \<and> (sent = [] \<longleftrightarrow> \<not> fst (acquire s))
    \<and> length sent \<le> (if tg_retries target > 0 \<and> is_idempotent (forward_method target req) \<and> bd_end (rq_body req)
                      then tg_retries target + 1 else 1)
    \<and> (\<forall>r \<in> set sent. ur_method r = forward_method target req \<and> ur_headers r = forwarded_headers X target req
         \<and> (\<exists>addr \<in> set (ts_addrs (fs_targets s)). ur_authority r = ua_authority addr \<and> ur_scheme r = ua_scheme addr))
    \<and> (\<forall>r \<in> set (butlast sent). ur_body r = body_empty)
    \<and> fs_now s' \<le> fs_now s + tg_timeout target \<and> resp \<noteq> None"
proof -
  obtain ok s1 where a: "acquire s = (ok, s1)" by fastforce
  note keeps = acquire_keeps [OF a]
  show ?thesis
  proof (cases ok)
    case False
    with assms(2) a show ?thesis
      using keeps by (auto simp: forward_def)
  next
    case True
    let ?n = "max_attempts target (forward_method target req) (rq_body req)"
    obtain out s2 where run: "run_attempts scripted R target (forward_parts X target req) (rq_body req)
        ?n (tg_timeout target) s1 = (out, s2)" by fastforce
    obtain r s3 where st: "settle X (upgrade_of X target req) out s2 = (r, s3)" by fastforce
    have fw: "s' = s3" "resp = map_option (\<lambda>r. r\<lparr>rs_latency := Some (fs_now s2 - fs_now s1)\<rparr>) r"
      using assms(2) a True run st by (auto simp: forward_def Let_def)
    obtain sent where sent: "fst (fs_up s2) = fst (fs_up s1) @ sent" "sent \<noteq> []" "length sent \<le> ?n"
      "\<forall>r \<in> set sent. \<exists>addr \<in> set (ts_addrs (fs_targets s1)). \<exists>b.
         r = upstream_req R target addr (forward_parts X target req) b"
      "\<forall>r \<in> set (butlast sent). ur_body r = body_empty"
      "out \<noteq> Panicked" "fs_now s2 \<le> fs_now s1 + tg_timeout target"
      using run_attempts_sent [OF _ _ run] assms(1) keeps by auto
    have "fs_now s3 = fs_now s2" "r \<noteq> None"
      using st sent(6) by (auto simp: settle_def upgrade_response_def Let_def
        split: outcome.splits attempt_error.splits if_splits option.splits prod.splits)
    moreover have "?n \<le> (if tg_retries target > 0 \<and> is_idempotent (forward_method target req) \<and> bd_end (rq_body req)
                      then tg_retries target + 1 else 1)"
      by (simp add: max_attempts_def sat_u32_def)
    moreover have "fst (fs_up s') = fst (fs_up s) @ sent" "fst (acquire s)"
      using sent(1) keeps settle_up [OF st] fw a True by simp_all
    moreover have "\<forall>r \<in> set sent. ur_method r = forward_method target req \<and> ur_headers r = forwarded_headers X target req
         \<and> (\<exists>addr \<in> set (ts_addrs (fs_targets s)). ur_authority r = ua_authority addr \<and> ur_scheme r = ua_scheme addr)"
      using sent(4) keeps by (fastforce simp: upstream_req_def forward_parts_def)
    ultimately show ?thesis
      using sent keeps fw by (intro exI [of _ sent]) auto
  qed
qed

definition plain_target :: "nat \<Rightarrow> duration \<Rightarrow> string upstream_target" where
  "plain_target retries timeout =
     \<lparr>tg_api_id = ''a'', tg_listen_prefix = ''/a'', tg_strip_listen_path = True, tg_preserve_host_header = False,
      tg_timeout = timeout, tg_rewrites = [], tg_method_override = None, tg_retries = retries,
      tg_upgrades_enabled = False, tg_http2 = False\<rparr>"

definition plain_state :: "string list \<Rightarrow> 'u \<Rightarrow> 'u route_state" where
  "plain_state hosts up =
     \<lparr>fs_targets = target_set_new 0 (map (\<lambda>h. \<lparr>ua_scheme = ''http'', ua_authority = h, ua_base_path = []\<rparr>) hosts) False,
      fs_cursor = 0, fs_breaker = None, fs_now = 0, fs_up = up, fs_spawned = []\<rparr>"

lemma plain_state_sel [simp]:
  "fs_breaker (plain_state hosts up) = None" "fs_now (plain_state hosts up) = 0" "fs_up (plain_state hosts up) = up"
  "fs_cursor (plain_state hosts up) = 0" "ts_health (fs_targets (plain_state hosts up)) = None"
  "ts_addrs (fs_targets (plain_state hosts up))
     = map (\<lambda>h. \<lparr>ua_scheme = ''http'', ua_authority = h, ua_base_path = []\<rparr>) hosts"
  "acquire (plain_state hosts up) = (True, plain_state hosts up)"
  by (simp_all add: plain_state_def target_set_new_def acquire_def)

theorem forward_replays_only_when_safe_witness:
  "\<exists>sent. fst (fs_up (snd (forward scripted alist_ext literal_ext (plain_target 3 9)
      (sample_request ''POST'' ''/a/x'') (plain_state [''h'', ''g''] ([], [Broke 1 [], Broke 1 []]))))) = sent
    \<and> length sent = 1"
proof -
  let ?s = "plain_state [''h'', ''g''] ([], [Broke 1 [], Broke 1 [] :: alist_headers exchange])"
  have "\<not> is_idempotent (forward_method (plain_target 3 9) (sample_request ''POST'' ''/a/x''))"
    by (simp add: is_idempotent_def forward_method_def plain_target_def sample_request_def)
  then obtain sent where "fst (fs_up (snd (forward scripted alist_ext literal_ext (plain_target 3 9)
      (sample_request ''POST'' ''/a/x'') ?s))) = sent" "sent \<noteq> []" "length sent \<le> 1"
    using forward_replays_only_when_safe [of ?s alist_ext literal_ext "plain_target 3 9" "sample_request ''POST'' ''/a/x''", OF _ prod.collapse [symmetric]]
    by (force split: if_splits)
  then show ?thesis by (cases sent) auto
qed

lemma run_attempts_final:
  assumes "ts_addrs (fs_targets s) \<noteq> []" and "fs_up s = (log, final # rest)" and "0 < n"
  obtains cur up where "length (fst up) = length log + 1"
    and "\<And>d r. final = Answered d r \<Longrightarrow> d \<le> budget \<Longrightarrow> run_attempts scripted R target parts body n budget s
      = (Responded r, s\<lparr>fs_cursor := cur, fs_up := up, fs_now := fs_now s + d\<rparr>)"
    and "\<And>d err. final = Broke d err \<Longrightarrow> d \<le> budget \<Longrightarrow> is_request_too_large err \<or> n = 1 \<Longrightarrow>
      run_attempts scripted R target parts body n budget s
      = (Failed (Client err), s\<lparr>fs_cursor := cur, fs_up := up, fs_now := fs_now s + d\<rparr>)"
    and "final = Hangs \<or> budget < exchange_time final \<Longrightarrow> run_attempts scripted R target parts body n budget s
      = (Elapsed, s\<lparr>fs_cursor := cur, fs_up := up, fs_now := fs_now s + budget\<rparr>)"
proof -
  obtain m where m: "n = Suc m" using assms(3) by (cases n) auto
  let ?b = "if m = 0 then body else body_empty"
  obtain addr cur where a: "attempt scripted R target parts ?b budget s =
      (let s' = (\<lambda>d. s\<lparr>fs_cursor := cur, fs_up := (log @ [upstream_req R target addr parts ?b], rest),
                     fs_now := fs_now s + d\<rparr>)
       in case final of
            Hangs \<Rightarrow> Stop Elapsed (s' budget)
          | Answered d r \<Rightarrow> (if d \<le> budget then Stop (Responded r) (s' d) else Stop Elapsed (s' budget))
          | Broke d err \<Rightarrow> (if d \<le> budget then Broken err (budget - d) (s' d) else Stop Elapsed (s' budget)))"
    by (rule scripted_attempt [OF assms(1,2), of R target parts ?b budget], rule that) (simp add: Let_def)
  show thesis
    by (rule that [of "(log @ [upstream_req R target addr parts ?b], rest)" cur])
      (use a in \<open>auto simp: m Let_def split: exchange.splits\<close>)
qed

text \<open>
  C8. A request is judged by its final exchange: with fewer transport failures than attempts
  before it, all within the timeout, the last exchange alone decides the response and what
  the breaker records. An answer other than \<open>101\<close> is passed on with its hop-by-hop headers
  stripped and counts as a failure exactly when it is a server error; a transport failure
  that exhausts the attempts is a \<open>502\<close> and one failure, however many attempts failed; the
  request's own size limit is a \<open>413\<close> and no record; running out of time is a \<open>504\<close> and a
  failure.
\<close>

theorem forward_judged_by_final_exchange:
  assumes "ts_addrs (fs_targets s) \<noteq> []" and "acquire s = (True, s1)"
    and "fs_up s = (log, fails @ final # rest)" and "list_all transport_failure fails"
    and "length fails < n" and "n = max_attempts target (forward_method target req) (rq_body req)"
    and "before = sum_list (map exchange_time fails)" and "before \<le> tg_timeout target"
    and "forward scripted X R target req s = (resp, s')"
  shows "(\<forall>d r. final = Answered d r \<and> before + d \<le> tg_timeout target \<and> rs_status r \<noteq> 101 \<longrightarrow>
        resp = Some (r\<lparr>rs_headers := strip_hop_by_hop_headers X (rs_headers r), rs_latency := Some (before + d)\<rparr>)
        \<and> fs_breaker s' = map_option (\<lambda>cb. if 500 \<le> rs_status r \<and> rs_status r < 600
              then record_failure cb (fs_now s + before + d) else record_success cb) (fs_breaker s1))
    \<and> (\<forall>d err. final = Broke d err \<and> before + d \<le> tg_timeout target \<longrightarrow>
        (is_request_too_large err \<longrightarrow> map_option rs_status resp = Some 413 \<and> fs_breaker s' = fs_breaker s1)
        \<and> (\<not> is_request_too_large err \<and> length fails + 1 = n \<longrightarrow> map_option rs_status resp = Some 502
            \<and> fs_breaker s' = map_option (\<lambda>cb. record_failure cb (fs_now s + before + d)) (fs_breaker s1)))
    \<and> (final = Hangs \<or> tg_timeout target < before + exchange_time final \<longrightarrow>
        map_option rs_status resp = Some 504 \<and> Option.bind resp rs_latency = Some (tg_timeout target)
        \<and> fs_breaker s' = map_option (\<lambda>cb. record_failure cb (fs_now s + tg_timeout target)) (fs_breaker s1))"
proof -
  note keeps = acquire_keeps [OF assms(2)]
  let ?run = "run_attempts scripted R target (forward_parts X target req) (rq_body req)"
  let ?t = "tg_timeout target"
  obtain s2 log2 where masked: "?run n ?t s1 = ?run (n - length fails) (?t - before) s2"
    and s2: "fs_up s2 = (log2, final # rest)" "fs_now s2 = fs_now s + before" "fs_targets s2 = fs_targets s"
      "fs_breaker s2 = fs_breaker s1"
    using run_attempts_masks [of s1 fails n ?t log "final # rest" R target "forward_parts X target req" "rq_body req"]
      assms(1,3-5,7,8) keeps by metis
  have addrs: "ts_addrs (fs_targets s2) \<noteq> []" and pos: "0 < n - length fails" using assms(1,5) s2(3) by auto
  obtain cur up where fin:
    "\<And>d r. final = Answered d r \<Longrightarrow> d \<le> ?t - before \<Longrightarrow> ?run (n - length fails) (?t - before) s2
      = (Responded r, s2\<lparr>fs_cursor := cur, fs_up := up, fs_now := fs_now s2 + d\<rparr>)"
    "\<And>d err. final = Broke d err \<Longrightarrow> d \<le> ?t - before \<Longrightarrow> is_request_too_large err \<or> n - length fails = 1 \<Longrightarrow>
      ?run (n - length fails) (?t - before) s2
      = (Failed (Client err), s2\<lparr>fs_cursor := cur, fs_up := up, fs_now := fs_now s2 + d\<rparr>)"
    "final = Hangs \<or> ?t - before < exchange_time final \<Longrightarrow> ?run (n - length fails) (?t - before) s2
      = (Elapsed, s2\<lparr>fs_cursor := cur, fs_up := up, fs_now := fs_now s2 + (?t - before)\<rparr>)"
    by (rule run_attempts_final [OF addrs s2(1) pos, of "?t - before" R target "forward_parts X target req" "rq_body req"],
        rule that)
  have fw: "forward scripted X R target req s =
      (case ?run (n - length fails) (?t - before) s2 of (out, s2) \<Rightarrow>
         (case settle X (upgrade_of X target req) out s2 of (r, s3) \<Rightarrow>
            (map_option (\<lambda>r. r\<lparr>rs_latency := Some (fs_now s2 - fs_now s1)\<rparr>) r, s3)))"
    unfolding masked [symmetric] by (simp add: forward_def assms(2,6) Let_def)
  have answered: "resp = Some (r\<lparr>rs_headers := strip_hop_by_hop_headers X (rs_headers r), rs_latency := Some (before + d)\<rparr>)
        \<and> fs_breaker s' = map_option (\<lambda>cb. if 500 \<le> rs_status r \<and> rs_status r < 600
              then record_failure cb (fs_now s + before + d) else record_success cb) (fs_breaker s1)"
    if "final = Answered d r" "before + d \<le> ?t" "rs_status r \<noteq> 101" for d r
    using fw assms(9) fin(1) [OF that(1)] that s2 keeps
    by (auto simp: settle_def Let_def fun_eq_iff intro!: option.map_cong0)
  have too_large: "map_option rs_status resp = Some 413 \<and> fs_breaker s' = fs_breaker s1"
    if "final = Broke d err" "before + d \<le> ?t" "is_request_too_large err" for d err
    using fw assms(9) fin(2) [OF that(1)] that s2 keeps by (auto simp: settle_def)
  have broken: "map_option rs_status resp = Some 502
      \<and> fs_breaker s' = map_option (\<lambda>cb. record_failure cb (fs_now s + before + d)) (fs_breaker s1)"
    if "final = Broke d err" "before + d \<le> ?t" "\<not> is_request_too_large err" "length fails + 1 = n" for d err
    using fw assms(9) fin(2) [OF that(1)] that s2 keeps by (auto simp: settle_def)
  have elapsed: "map_option rs_status resp = Some 504 \<and> Option.bind resp rs_latency = Some ?t
      \<and> fs_breaker s' = map_option (\<lambda>cb. record_failure cb (fs_now s + ?t)) (fs_breaker s1)"
    if "final = Hangs \<or> ?t < before + exchange_time final"
  proof -
    have "?run (n - length fails) (?t - before) s2
        = (Elapsed, s2\<lparr>fs_cursor := cur, fs_up := up, fs_now := fs_now s2 + (?t - before)\<rparr>)"
      using that assms(8) by (intro fin(3)) auto
    then show ?thesis
      using fw assms(8,9) s2 keeps by (auto simp: settle_def)
  qed
  show ?thesis
    by (intro conjI allI impI; (elim conjE)?;
        (rule answered [THEN conjunct1] answered [THEN conjunct2] too_large [THEN conjunct1] too_large [THEN conjunct2]
           broken [THEN conjunct1] broken [THEN conjunct2] elapsed [THEN conjunct1] elapsed [THEN conjunct2, THEN conjunct1]
           elapsed [THEN conjunct2, THEN conjunct2]; assumption))
qed

theorem forward_judged_by_final_exchange_witness:
  "map_option rs_status (fst (forward scripted alist_ext literal_ext (plain_target 2 9)
      (sample_request ''GET'' ''/a/x'')
      (plain_state [''h'', ''g''] ([], [Broke 1 [], Broke 2 [], Answered 3 (response_new alist_ext body_empty)]))))
   = Some 200"
proof -
  let ?r = "response_new alist_ext body_empty"
  let ?s = "plain_state [''h'', ''g''] ([], [Broke 1 [], Broke 2 []] @ Answered 3 ?r # [])"
  let ?req = "sample_request ''GET'' ''/a/x''"
  have n: "3 = max_attempts (plain_target 2 9) (forward_method (plain_target 2 9) ?req) (rq_body ?req)"
    by (simp add: max_attempts_def plain_target_def forward_method_def sample_request_def is_idempotent_def
        body_empty_def sat_u32_def u32_max_def)
  obtain resp s' where f: "forward scripted alist_ext literal_ext (plain_target 2 9) ?req ?s = (resp, s')" by fastforce
  have "resp = Some (?r\<lparr>rs_headers := strip_hop_by_hop_headers alist_ext (rs_headers ?r), rs_latency := Some (3 + 3)\<rparr>)"
    using forward_judged_by_final_exchange
      [of ?s ?s "[]" "[Broke 1 [], Broke 2 []]" "Answered 3 ?r" "[]" 3 "plain_target 2 9" ?req 3
        alist_ext literal_ext resp s', OF _ _ _ _ _ n _ _ f]
    by (simp add: plain_target_def response_new_def)
  then show ?thesis using f by (simp add: response_new_def)
qed

definition partly_up :: "string set \<Rightarrow> duration \<Rightarrow> (string \<Rightarrow> 'h response) \<Rightarrow> ('h, 'u) client_ext" where
  "partly_up live d answer =
     \<lparr>cl_uri_ok = (\<lambda>_ _ _. True),
      cl_request = (\<lambda>r u. ((if ur_authority r \<in> live then Answered d (answer (ur_authority r)) else Broke d []), u))\<rparr>"

lemma attempt_unchecked:
  assumes "ts_health (fs_targets s) = None" and "n = length (ts_addrs (fs_targets s))" and "0 < n"
    and "unat (fs_cursor s) < 2 ^ 64 - 1" and "d \<le> budget"
    and "h = ua_authority (ts_addrs (fs_targets s) ! (unat (fs_cursor s) mod n))"
  obtains cur where "attempt (partly_up live d answer) R target parts body budget s =
      (let s' = s\<lparr>fs_cursor := cur, fs_now := fs_now s + d\<rparr>
       in if h \<in> live then Stop (Responded (answer h)) s' else Broken [] (budget - d) s')"
    and "n = 1 \<or> unat cur = unat (fs_cursor s) + 1"
proof (cases "n = 1")
  case True
  then have "next_addr (fs_targets s) (fs_cursor s) = (Some 0, fs_cursor s)"
    using assms(2) by (simp add: next_addr_def)
  with True show ?thesis
    using assms(5,6) by (intro that [of "fs_cursor s"]) (simp_all add: attempt_def partly_up_def upstream_req_def)
next
  case False
  with assms(3) obtain m where m: "n = Suc (Suc m)" by (cases n; cases "n - 1") auto
  have suc: "unat (fs_cursor s + 1) = unat (fs_cursor s) + 1"
    using assms(4) by (simp add: unat_word_ariths)
  have "next_addr (fs_targets s) (fs_cursor s) = (Some (unat (fs_cursor s) mod n), fs_cursor s + 1)"
    using assms(1) unfolding next_addr_def assms(2) [symmetric] m by simp
  then show ?thesis
    using assms(5,6) suc
    by (intro that [of "fs_cursor s + 1"]) (simp_all add: attempt_def partly_up_def upstream_req_def)
qed

lemma run_attempts_failover:
  assumes "ts_health (fs_targets s) = None" and "n = length (ts_addrs (fs_targets s))" and "0 < n"
    and "k < tries" and "unat (fs_cursor s) + tries < 2 ^ 64" and "tries * d \<le> budget"
    and "ua_authority (ts_addrs (fs_targets s) ! ((unat (fs_cursor s) + k) mod n)) \<in> live"
  shows "\<exists>h s'. run_attempts (partly_up live d answer) R target parts body tries budget s = (Responded (answer h), s')
    \<and> h \<in> live"
  using assms
proof (induction tries arbitrary: s k budget)
  case 0
  then show ?case by simp
next
  case (Suc tries)
  let ?h = "ua_authority (ts_addrs (fs_targets s) ! (unat (fs_cursor s) mod n))"
  have prems: "unat (fs_cursor s) < 2 ^ 64 - 1 \<and> d \<le> budget" using Suc.prems(5,6) by simp
  obtain cur where a: "attempt (partly_up live d answer) R target parts (if tries = 0 then body else body_empty) budget s =
      (let s' = s\<lparr>fs_cursor := cur, fs_now := fs_now s + d\<rparr>
       in if ?h \<in> live then Stop (Responded (answer ?h)) s' else Broken [] (budget - d) s')"
    and cur: "n = 1 \<or> unat cur = unat (fs_cursor s) + 1"
    by (rule attempt_unchecked [OF Suc.prems(1-3), of d budget _ live answer R target parts
          "if tries = 0 then body else body_empty"], rule prems [THEN conjunct1], rule prems [THEN conjunct2],
        rule refl, rule that)
  show ?case
  proof (cases "?h \<in> live")
    case True
    then show ?thesis using a by (auto simp: Let_def)
  next
    case False
    let ?s1 = "s\<lparr>fs_cursor := cur, fs_now := fs_now s + d\<rparr>"
    have "n \<noteq> 1" using False Suc.prems(7) by (cases "n = 1") simp_all
    with False Suc.prems(7) obtain j where j: "n \<noteq> 1" "k = Suc j" by (cases k) auto
    then have "unat cur = unat (fs_cursor s) + 1" using cur by simp
    then have "\<exists>h s'. run_attempts (partly_up live d answer) R target parts body tries (budget - d) ?s1
        = (Responded (answer h), s') \<and> h \<in> live"
      using Suc.prems j by (intro Suc.IH [of _ j]) auto
    with False a j Suc.prems(4) show ?thesis by (auto simp: Let_def)
  qed
qed

text \<open>
  Failover reaches a live address: when at least one address of an unchecked rotation of
  \<open>n\<close> answers and the others refuse quickly enough, a replayable request with at least
  \<open>n - 1\<close> retries is answered by a live address, wherever the cursor stands.
\<close>

theorem forward_failover:
  assumes "ts_health (fs_targets s) = None" and "n = length (ts_addrs (fs_targets s))"
    and "i < n" and "ua_authority (ts_addrs (fs_targets s) ! i) \<in> live"
    and "n \<le> tg_retries target + 1" and "tg_retries target < u32_max"
    and "is_idempotent (forward_method target req)" and "bd_end (rq_body req)"
    and "unat (fs_cursor s) + (tg_retries target + 1) < 2 ^ 64"
    and "(tg_retries target + 1) * d \<le> tg_timeout target"
    and "fst (acquire s)" and "\<And>h. rs_status (answer h) \<noteq> 101"
  shows "\<exists>h \<in> live. \<exists>resp. fst (forward (partly_up live d answer) X R target req s) = Some resp
    \<and> rs_status resp = rs_status (answer h) \<and> rs_body resp = rs_body (answer h)"
proof -
  obtain s1 where a: "acquire s = (True, s1)" using assms(11) by (cases "acquire s") auto
  note keeps = acquire_keeps [OF a]
  have n: "0 < n" using assms(3) by simp
  obtain k where k: "k < n" "(unat (fs_cursor s) + k) mod n = i"
    using residues_covered [OF n assms(3)] by blast
  obtain m where m: "max_attempts target (forward_method target req) (rq_body req) = m"
    "n \<le> m" "m \<le> tg_retries target + 1"
    using assms(5,6,7,8) n by (auto simp: max_attempts_def sat_u32_def)
  have "m * d \<le> tg_timeout target"
    using mult_le_mono1 [OF m(3), of d] assms(10) by linarith
  then obtain h s2 where "run_attempts (partly_up live d answer) R target (forward_parts X target req) (rq_body req)
      m (tg_timeout target) s1 = (Responded (answer h), s2)" "h \<in> live"
    using run_attempts_failover [of s1 n k m d "tg_timeout target" live answer R target "forward_parts X target req" "rq_body req"]
      assms(1,2,4,9) n k m keeps by auto
  then show ?thesis
    using assms(12) m(1) by (intro bexI [of _ h]) (simp_all add: forward_def a settle_def Let_def)
qed

theorem forward_failover_witness:
  "\<exists>h \<in> {''up''}. \<exists>resp. fst (forward (partly_up {''up''} 2 (\<lambda>h. response_new alist_ext (body_full h))) alist_ext literal_ext
      (plain_target 2 9) (sample_request ''GET'' ''/a/x'') (plain_state [''down'', ''up'', ''dead''] ())) = Some resp
    \<and> rs_status resp = 200 \<and> rs_body resp = body_full h"
  using forward_failover [of "plain_state [''down'', ''up'', ''dead''] ()" 3 1 "{''up''}" "plain_target 2 9"
      "sample_request ''GET'' ''/a/x''" 2 "\<lambda>h. response_new alist_ext (body_full h)" alist_ext literal_ext]
  by (simp add: plain_target_def sample_request_def forward_method_def is_idempotent_def body_empty_def u32_max_def
      response_new_def)

lemma settle_switch:
  assumes "settle X upgrade out s = (Some resp, s')" and "out \<noteq> Panicked"
  shows "(rs_status resp = 101 \<longleftrightarrow>
      (\<exists>r protocol tunnel. out = Responded r \<and> rs_status r = 101 \<and> upgrade = Some (protocol, tunnel)
         \<and> (\<forall>accepts. tunnel = Some accepts \<longrightarrow> accepts (hm_get X (rs_headers r) ''sec-websocket-protocol''))))
    \<and> fs_spawned s' = fs_spawned s @ (if rs_status resp = 101 then
        [case upgrade of Some (_, Some _) \<Rightarrow>
           PolicedRelay (case out of Responded r \<Rightarrow> hm_get X (rs_headers r) ''sec-websocket-protocol'' | _ \<Rightarrow> None)
         | _ \<Rightarrow> OpaqueCopy] else [])"
  using assms
  by (auto simp: settle_def upgrade_response_def Let_def
      split: outcome.splits attempt_error.splits if_splits option.splits prod.splits)

lemma run_attempts_answer:
  assumes "ts_addrs (fs_targets s) \<noteq> []"
    and "run_attempts scripted R target parts body n budget s = (Responded r, s')"
  shows "\<exists>d. Answered d r \<in> set (snd (fs_up s))"
  using assms
proof (induction n arbitrary: budget s)
  case 0
  then show ?case by simp
next
  case (Suc n)
  obtain log script where up: "fs_up s = (log, script)" by fastforce
  show ?case
  proof (rule scripted_attempt [OF Suc.prems(1) up, of R target parts "if n = 0 then body else body_empty" budget])
    fix addr cur
    assume a: "attempt scripted R target parts (if n = 0 then body else body_empty) budget s =
      (let s' = (\<lambda>d. s\<lparr>fs_cursor := cur, fs_up := (log @ [upstream_req R target addr parts
                       (if n = 0 then body else body_empty)], tl script), fs_now := fs_now s + d\<rparr>)
       in case script of
            [] \<Rightarrow> Stop Elapsed (s' budget)
          | Hangs # _ \<Rightarrow> Stop Elapsed (s' budget)
          | Answered d r # _ \<Rightarrow> (if d \<le> budget then Stop (Responded r) (s' d) else Stop Elapsed (s' budget))
          | Broke d err # _ \<Rightarrow> (if d \<le> budget then Broken err (budget - d) (s' d) else Stop Elapsed (s' budget)))"
    show ?thesis
    proof (cases "attempt scripted R target parts (if n = 0 then body else body_empty) budget s")
      case (Stop out1 s1)
      with Suc.prems(2) have "out1 = Responded r" by simp
      with Stop a show ?thesis
        by (cases script) (auto simp: up Let_def split: exchange.splits if_splits)
    next
      case (Broken err budget1 s1)
      with a have s1: "snd (fs_up s1) = tl script" "fs_targets s1 = fs_targets s"
        by (auto simp: Let_def split: list.splits exchange.splits if_splits)
      from Broken Suc.prems(2) have "run_attempts scripted R target parts body n budget1 s1 = (Responded r, s')"
        by (simp split: if_splits)
      then obtain d where "Answered d r \<in> set (tl script)" using Suc.IH [of s1] Suc.prems(1) s1 by auto
      then show ?thesis using up by (cases script) auto
    qed
  qed
qed

text \<open>
  A protocol switch reaches the client only when it was asked for and can be policed:
  the response has status \<open>101\<close> exactly when the upstream's final answer is a \<open>101\<close>, the API
  enables upgrades, the client's connection can upgrade and its request carries an \<open>Upgrade\<close>
  header, and the policed tunnel, if the request carries one, accepts the negotiated
  subprotocol; exactly then one splice is started, and with a policed tunnel it is the
  policed relay, never the opaque copy.
\<close>

theorem upgrade_policed:
  assumes "ts_addrs (fs_targets s) \<noteq> []" and "fs_up s = ([], script)"
    and "forward scripted X R target req s = (Some resp, s')"
  shows "(rs_status resp = 101 \<longrightarrow>
      tg_upgrades_enabled target \<and> rq_on_upgrade req \<and> hm_get X (rq_headers req) ''upgrade'' \<noteq> None
      \<and> (\<exists>d r. Answered d r \<in> set script \<and> rs_status r = 101
          \<and> (\<forall>accepts. rq_tunnel req = Some accepts \<longrightarrow> accepts (hm_get X (rs_headers r) ''sec-websocket-protocol''))))
    \<and> (\<exists>tasks. fs_spawned s' = fs_spawned s @ tasks
        \<and> length tasks = (if rs_status resp = 101 then 1 else 0)
        \<and> (rq_tunnel req \<noteq> None \<longrightarrow> OpaqueCopy \<notin> set tasks))"
proof -
  obtain s1 where a: "acquire s = (True, s1) \<or> acquire s = (False, s1)" by (cases "acquire s") auto
  then have keeps: "fs_up s1 = fs_up s" "fs_targets s1 = fs_targets s" "fs_spawned s1 = fs_spawned s"
    using acquire_keeps by blast+
  show ?thesis
  proof (cases "acquire s = (True, s1)")
    case False
    with a have "acquire s = (False, s1)" by simp
    with assms(3) keeps show ?thesis by (auto simp: forward_def)
  next
    case True
    obtain out s2 where run: "run_attempts scripted R target (forward_parts X target req) (rq_body req)
        (max_attempts target (forward_method target req) (rq_body req)) (tg_timeout target) s1 = (out, s2)" by fastforce
    obtain r where st: "settle X (upgrade_of X target req) out s2 = (Some r, s')"
      and resp: "rs_status resp = rs_status r"
      using assms(3) True run by (auto simp: forward_def Let_def split: prod.splits)
    have sent: "out \<noteq> Panicked" "fs_spawned s2 = fs_spawned s"
      using run_attempts_sent [OF _ _ run] assms(1) keeps by auto
    note sw = settle_switch [OF st sent(1)]
    have answer: "\<exists>d. Answered d r \<in> set script" if "out = Responded r" for r
      using run_attempts_answer [of s1] run that assms(1,2) keeps by fastforce
    have up: "tg_upgrades_enabled target \<and> rq_on_upgrade req \<and> hm_get X (rq_headers req) ''upgrade'' \<noteq> None
        \<and> tunnel = rq_tunnel req" if "upgrade_of X target req = Some (protocol, tunnel)" for protocol tunnel
      using that by (auto simp: upgrade_of_def split: if_splits option.splits)
    show ?thesis
    proof (cases "rs_status resp = 101")
      case False
      then have "fs_spawned s' = fs_spawned s" using conjunct2 [OF sw] sent(2) resp by simp
      with False show ?thesis by simp
    next
      case True
      with sw resp obtain r protocol tunnel where o: "out = Responded r" "rs_status r = 101"
        "upgrade_of X target req = Some (protocol, tunnel)"
        "\<forall>accepts. tunnel = Some accepts \<longrightarrow> accepts (hm_get X (rs_headers r) ''sec-websocket-protocol'')"
        by auto
      with up [OF o(3)] answer [OF o(1)] sw resp True sent(2) show ?thesis
        by (auto split: option.splits)
    qed
  qed
qed

theorem upgrade_policed_witness:
  "\<exists>s' resp. forward scripted alist_ext literal_ext (plain_target 0 9\<lparr>tg_upgrades_enabled := True\<rparr>)
      (sample_request ''GET'' ''/a/x''\<lparr>rq_headers := [(''upgrade'', [''websocket''])], rq_on_upgrade := True,
         rq_tunnel := Some (\<lambda>p. p = Some ''graphql-transport-ws'')\<rparr>)
      (plain_state [''h''] ([], [Answered 1 \<lparr>rs_status = 101, rs_headers = [], rs_body = body_empty, rs_latency = None, rs_session = None\<rparr>]))
    = (Some resp, s') \<and> rs_status resp \<noteq> 101 \<and> fs_spawned s' = []"
proof -
  let ?r = "\<lparr>rs_status = 101, rs_headers = [], rs_body = body_empty, rs_latency = None, rs_session = None\<rparr> :: alist_headers response"
  let ?s = "plain_state [''h''] ([] :: alist_headers upstream_request list, [Answered 1 ?r])"
  let ?t = "plain_target 0 9\<lparr>tg_upgrades_enabled := True\<rparr>"
  let ?q = "sample_request ''GET'' ''/a/x''\<lparr>rq_headers := [(''upgrade'', [''websocket''])], rq_on_upgrade := True,
         rq_tunnel := Some (\<lambda>p. p = Some ''graphql-transport-ws'')\<rparr>"
  have "fst (forward scripted alist_ext literal_ext ?t ?q ?s) \<noteq> None"
    by (simp add: forward_def max_attempts_def plain_target_def attempt_def next_addr_def scripted_def Let_def
        settle_def split: option.splits prod.splits)
  then obtain resp s' where f: "forward scripted alist_ext literal_ext ?t ?q ?s = (Some resp, s')"
    by (metis option.exhaust prod.collapse)
  have "hm_get alist_ext [] n = None" for n by (simp add: hm_get_def alist_ext_def al_get_def)
  then have "rs_status resp \<noteq> 101 \<and> fs_spawned s' = fs_spawned ?s"
    using upgrade_policed [of ?s "[Answered 1 ?r]", OF _ _ f] by auto
  with f show ?thesis by (auto simp: plain_state_def)
qed

end
