(* ===== verification/Transform_Body.thy ===== *)
theory Transform_Body
  imports Api_Definition Forward Json
begin

text \<open>
  Body transforms: the configuration and its validation (\<open>g2-core/src/body_transform.rs\<close>), the
  compilation of the rules and the layer (\<open>g2-middleware/src/transform_body.rs\<close>). The template
  engine (minijinja), JSON parsing, lossy UTF-8 decoding and the key iteration of a header map
  are parameters. A body is read whole through \<open>http_body_util::Limited\<close>.
\<close>

section \<open>Configuration\<close>

record body_transform_rule =
  br_pattern :: string
  br_methods :: "string list"
  br_template :: string
  br_content_type :: string

record body_transforms =
  bts_request :: "body_transform_rule list"
  bts_response :: "body_transform_rule list"
  bts_max_response_body_bytes :: nat

definition DEFAULT_MAX_RESPONSE_BODY_BYTES :: nat where
  "DEFAULT_MAX_RESPONSE_BODY_BYTES = 1048576"

record 'h template_ext =
  tx_compile :: "string \<Rightarrow> string option"
  tx_render :: "string \<Rightarrow> json \<Rightarrow> string + string"
  tx_json_parse :: "string \<Rightarrow> json option"
  tx_lossy :: "string \<Rightarrow> string"
  tx_keys :: "'h \<Rightarrow> string list"

text \<open>\<open>tx_compile\<close> gives the syntax error of a template, if it has one.\<close>

definition body_rule_validate :: "'h http_ext \<Rightarrow> 'r regex_ext \<Rightarrow> 'h template_ext \<Rightarrow> body_transform_rule \<Rightarrow> string \<Rightarrow>
    string \<Rightarrow> nat \<Rightarrow> (error, unit) res" where
  "body_rule_validate X R T rule api direction index =
     (let lst = ''transform_body.'' @ direction; fail = InvalidApiDefinition api;
          at = ''`'' @ lst @ ''['' @ show_nat index @ '']''
      in and_then (validate_pattern R (br_pattern rule) api lst index)
         (and_then (validate_methods (br_methods rule) api lst index)
         (and_then (require (br_template rule \<noteq> []) (fail (at @ ''.template` must not be empty'')))
         (and_then (case tx_compile T (br_template rule) of
                      None \<Rightarrow> Ok ()
                    | Some err \<Rightarrow> Err (fail (at @ ''.template` is not a valid minijinja template: '' @ err)))
                   (require (hv_from_str X (br_content_type rule) \<noteq> None)
                      (fail (at @ ''.content_type` is not a valid header value'')))))))"

definition body_transforms_is_empty :: "body_transforms \<Rightarrow> bool" where
  "body_transforms_is_empty c \<longleftrightarrow> bts_request c = [] \<and> bts_response c = []"

definition body_transforms_validate :: "'h http_ext \<Rightarrow> 'r regex_ext \<Rightarrow> 'h template_ext \<Rightarrow> body_transforms \<Rightarrow> string \<Rightarrow>
    (error, unit) res" where
  "body_transforms_validate X R T c api =
     (let fail = InvalidApiDefinition api
      in and_then (require (\<not> body_transforms_is_empty c)
           (fail (''`transform_body` must declare at least one request or response rule '' @
                  ''(omit the block entirely to disable body transforms)'')))
         (and_then (require (bts_max_response_body_bytes c \<noteq> 0)
           (fail ''`transform_body.max_response_body_bytes` must be greater than zero''))
         (and_then (validate_each (\<lambda>i r. body_rule_validate X R T r api ''request'' i) 0 (bts_request c))
                   (validate_each (\<lambda>i r. body_rule_validate X R T r api ''response'' i) 0 (bts_response c)))))"

section \<open>Compilation\<close>

definition DEFAULT_MAX_BODY_BYTES :: nat where
  "DEFAULT_MAX_BODY_BYTES = 1048576"

text \<open>The environment's template is kept with its rule; each name is registered once.\<close>

record 'r compiled_body_rule =
  cr_pattern :: 'r
  cr_methods :: "string list"
  cr_name :: string
  cr_template :: string
  cr_content_type :: string

record 'r transform_state =
  ts_request :: "'r compiled_body_rule list"
  ts_response :: "'r compiled_body_rule list"
  ts_max_request_bytes :: nat
  ts_max_response_bytes :: nat

definition compile_rule :: "'h http_ext \<Rightarrow> 'r regex_ext \<Rightarrow> 'h template_ext \<Rightarrow> string \<Rightarrow> string \<Rightarrow>
    nat \<times> body_transform_rule \<Rightarrow> (error, 'r compiled_body_rule) res" where
  "compile_rule X R T direction api_id ir =
     (case ir of (index, rule) \<Rightarrow>
       (let fail = InvalidApiDefinition api_id; name = direction @ ''['' @ show_nat index @ '']''
        in bind_res (case rx_new R (br_pattern rule) of
                       Inr p \<Rightarrow> Ok p
                     | Inl err \<Rightarrow> Err (fail (''invalid `transform_body.'' @ name @ ''` pattern: '' @ err))) (\<lambda>pattern.
           bind_res (traverse (\<lambda>m. case method_parse X (to_ascii_uppercase m) of
                       Some m' \<Rightarrow> Ok m'
                     | None \<Rightarrow> Err (fail (''invalid `transform_body.'' @ name @ ''` method: `'' @ m @ ''`'')))
                   (br_methods rule)) (\<lambda>methods.
           bind_res (case hv_from_str X (br_content_type rule) of
                       Some v \<Rightarrow> Ok v
                     | None \<Rightarrow> Err (fail (''invalid `transform_body.'' @ name @ ''` content type''))) (\<lambda>ct.
           case tx_compile T (br_template rule) of
             Some err \<Rightarrow> Err (fail (''invalid `transform_body.'' @ name @ ''` template: '' @ err))
           | None \<Rightarrow> Ok \<lparr>cr_pattern = pattern, cr_methods = methods, cr_name = name,
                         cr_template = br_template rule, cr_content_type = ct\<rparr>)))))"

definition compile_rules :: "'h http_ext \<Rightarrow> 'r regex_ext \<Rightarrow> 'h template_ext \<Rightarrow> body_transform_rule list \<Rightarrow> string \<Rightarrow>
    string \<Rightarrow> (error, 'r compiled_body_rule list) res" where
  "compile_rules X R T rules direction api_id =
     traverse (compile_rule X R T direction api_id) (List.enumerate 0 rules)"

definition body_transform_from_config :: "'h http_ext \<Rightarrow> 'r regex_ext \<Rightarrow> 'h template_ext \<Rightarrow> body_transforms \<Rightarrow>
    nat option \<Rightarrow> string \<Rightarrow> (error, 'r transform_state option) res" where
  "body_transform_from_config X R T c max_request_body_bytes api_id =
     (if body_transforms_is_empty c then Ok None
      else bind_res (compile_rules X R T (bts_request c) ''request'' api_id) (\<lambda>rq.
           bind_res (compile_rules X R T (bts_response c) ''response'' api_id) (\<lambda>rs.
             Ok (Some \<lparr>ts_request = rq, ts_response = rs,
                   ts_max_request_bytes = (case max_request_body_bytes of Some n \<Rightarrow> n | None \<Rightarrow> DEFAULT_MAX_BODY_BYTES),
                   ts_max_response_bytes = bts_max_response_body_bytes c\<rparr>))))"

section \<open>The layer\<close>

definition body_rule_matches :: "'r regex_ext \<Rightarrow> 'r compiled_body_rule \<Rightarrow> string \<Rightarrow> string \<Rightarrow> bool" where
  "body_rule_matches R rule method path \<longleftrightarrow>
     (cr_methods rule = [] \<or> method \<in> set (cr_methods rule)) \<and> rx_is_match R (cr_pattern rule) path"

definition first_body_rule :: "'r regex_ext \<Rightarrow> 'r compiled_body_rule list \<Rightarrow> string \<Rightarrow> string \<Rightarrow> 'r compiled_body_rule option" where
  "first_body_rule R rules method path = find (\<lambda>r. body_rule_matches R r method path) rules"

record request_meta =
  me_method :: string
  me_path :: string
  me_query :: string
  me_headers :: json
  me_session_alias :: "string option"

definition meta_capture :: "'h http_ext \<Rightarrow> 'h template_ext \<Rightarrow> 'h request \<Rightarrow> request_meta" where
  "meta_capture X T req =
     \<lparr>me_method = rq_method req, me_path = rq_path req,
      me_query = (case rq_query req of Some q \<Rightarrow> q | None \<Rightarrow> []),
      me_headers = JObject (concat (map (\<lambda>n. case hm_get X (rq_headers req) n of
         Some v \<Rightarrow> [(n, JString (tx_lossy T v))] | None \<Rightarrow> []) (tx_keys T (rq_headers req)))),
      me_session_alias = Option.bind (rq_session req) (\<lambda>s. ks_alias (sc_session s))\<rparr>"

definition render_context :: "'h template_ext \<Rightarrow> request_meta \<Rightarrow> string \<Rightarrow> nat option \<Rightarrow> json" where
  "render_context T m payload status =
     JObject
       [(''body'', case tx_json_parse T payload of Some v \<Rightarrow> v | None \<Rightarrow> JNull),
        (''raw'', JString (tx_lossy T payload)),
        (''_g2'', JObject
           ([(''method'', JString (me_method m)), (''path'', JString (me_path m)), (''query'', JString (me_query m)),
             (''headers'', me_headers m),
             (''session'', case me_session_alias m of Some a \<Rightarrow> JObject [(''alias'', JString a)] | None \<Rightarrow> JNull)]
            @ (case status of Some st \<Rightarrow> [(''status'', JNumber (PosInt st))] | None \<Rightarrow> [])))]"

definition set_framing_headers :: "'h http_ext \<Rightarrow> 'h \<Rightarrow> string \<Rightarrow> nat \<Rightarrow> 'h" where
  "set_framing_headers X h content_type len =
     hm_insert X (hm_insert X (hm_remove X (hm_remove X h ''transfer-encoding'') ''content-encoding'')
       ''content-type'' content_type) ''content-length'' (show_nat len)"

text \<open>\<open>Limited::new(body, n).collect()\<close>: the bytes and whether there were trailers, or the first error.\<close>

fun collect_limited :: "nat \<Rightarrow> frame list \<Rightarrow> body_error option \<Rightarrow> client_error + (string \<times> bool)" where
  "collect_limited rem [] (Some (RequestTooLarge limit)) = Inl [TooLarge limit]"
| "collect_limited rem [] (Some OtherBodyError) = Inl [OtherCause ''body'']"
| "collect_limited rem [] None = Inr ([], False)"
| "collect_limited rem (Data d # fs) err =
     (if rem < length d then Inl [LengthLimit]
      else case collect_limited (rem - length d) fs err of
             Inl e \<Rightarrow> Inl e
           | Inr (buf, trailers) \<Rightarrow> Inr (d @ buf, trailers))"
| "collect_limited rem (Trailers # fs) err =
     (case collect_limited rem fs err of Inl e \<Rightarrow> Inl e | Inr (buf, _) \<Rightarrow> Inr (buf, True))"

definition buffered_body :: "string \<Rightarrow> bool \<Rightarrow> body" where
  "buffered_body data trailers =
     \<lparr>bd_frames = Data data # (if trailers then [Trailers] else []), bd_error = None, bd_end = False\<rparr>"

text \<open>The request side: the rejection, or the request as it goes on.\<close>

definition transform_request :: "'h http_ext \<Rightarrow> 'h template_ext \<Rightarrow> 'r transform_state \<Rightarrow> request_meta \<Rightarrow> 'r compiled_body_rule \<Rightarrow>
    'h request \<Rightarrow> 'h response + 'h request" where
  "transform_request X T st m rule req =
     (case collect_limited (ts_max_request_bytes st) (bd_frames (rq_body req)) (bd_error (rq_body req)) of
        Inl e \<Rightarrow>
          Inl (if is_over_limit e then json_error X 413 ''request body too large''
               else json_error X 400 ''failed to read the request body'')
      | Inr (payload, _) \<Rightarrow>
          (case tx_render T (cr_template rule) (render_context T m payload None) of
             Inl err \<Rightarrow> Inl (json_error X 500 ''body transform failed'')
           | Inr rendered \<Rightarrow>
               Inr (req\<lparr>rq_headers := set_framing_headers X (rq_headers req) (cr_content_type rule) (length rendered),
                        rq_body := body_full rendered\<rparr>)))"

definition transform_response :: "'h http_ext \<Rightarrow> 'h template_ext \<Rightarrow> 'r transform_state \<Rightarrow> request_meta \<Rightarrow> 'r compiled_body_rule \<Rightarrow>
    'h response \<Rightarrow> 'h response" where
  "transform_response X T st m rule resp =
     (if 100 \<le> rs_status resp \<and> rs_status resp < 200 then resp
      else case collect_limited (ts_max_response_bytes st) (bd_frames (rs_body resp)) (bd_error (rs_body resp)) of
             Inl e \<Rightarrow>
               json_error X 502 (if is_over_limit e then ''upstream response too large to transform''
                 else ''failed to read the upstream response body'')
           | Inr (payload, trailers) \<Rightarrow>
               (case tx_render T (cr_template rule) (render_context T m payload (Some (rs_status resp))) of
                  Inl err \<Rightarrow> json_error X 502 ''body transform failed''
                | Inr rendered \<Rightarrow>
                    resp\<lparr>rs_headers := set_framing_headers X (rs_headers resp) (cr_content_type rule) (length rendered),
                         rs_body := buffered_body rendered trailers\<rparr>))"

definition body_transformer :: "'h http_ext \<Rightarrow> 'r regex_ext \<Rightarrow> 'h template_ext \<Rightarrow> 'r transform_state \<Rightarrow> ('h, 'w) service \<Rightarrow>
    ('h, 'w) service" where
  "body_transformer X R T st inner req w =
     (let request_rule = first_body_rule R (ts_request st) (rq_method req) (rq_path req);
          response_rule = first_body_rule R (ts_response st) (rq_method req) (rq_path req)
      in if request_rule = None \<and> response_rule = None then inner req w
         else
           (let m = meta_capture X T req
            in case (case request_rule of Some rule \<Rightarrow> transform_request X T st m rule req | None \<Rightarrow> Inr req) of
                 Inl rejection \<Rightarrow> (Some rejection, w)
               | Inr req1 \<Rightarrow>
                   (case inner req1 w of
                      (None, w1) \<Rightarrow> (None, w1)
                    | (Some resp, w1) \<Rightarrow>
                        (Some (case response_rule of Some rule \<Rightarrow> transform_response X T st m rule resp | None \<Rightarrow> resp), w1))))"

section \<open>Lemmas\<close>

text \<open>A body is collected exactly when it ends cleanly within the cap, and then it is collected whole.\<close>

lemma collect_limited_Inr:
  "collect_limited rem fs err = Inr (payload, trailers) \<longleftrightarrow>
     err = None \<and> length (frames_data fs) \<le> rem \<and> payload = frames_data fs \<and> trailers = (Trailers \<in> set fs)"
proof (induction rem fs err arbitrary: payload trailers rule: collect_limited.induct)
  case (4 rem d fs err)
  show ?case
  proof (cases "rem < length d")
    case False
    note IH = 4 [OF False]
    show ?thesis
    proof (cases "collect_limited (rem - length d) fs err")
      case (Inl e)
      with IH [of "frames_data fs" "Trailers \<in> set fs"] False show ?thesis by auto
    next
      case (Inr pt)
      with IH [of "fst pt" "snd pt"] False show ?thesis by (cases pt) auto
    qed
  qed auto
next
  case (5 rem fs err)
  show ?case
  proof (cases "collect_limited rem fs err")
    case (Inl e)
    with 5 [of "frames_data fs" "Trailers \<in> set fs"] show ?thesis by auto
  next
    case (Inr pt)
    with 5 [of "fst pt" "snd pt"] show ?thesis by (cases pt) auto
  qed
qed auto

lemma framing_headers:
  assumes "header_map X"
  shows "hm_get_all X (set_framing_headers X h ct len) n =
    (if n = ''content-length'' then [show_nat len] else if n = ''content-type'' then [ct]
     else if n = ''content-encoding'' \<or> n = ''transfer-encoding'' then [] else hm_get_all X h n)"
  by (simp add: set_framing_headers_def header_map.get_all_insert [OF assms] header_map.get_all_remove [OF assms])

section \<open>Properties\<close>

text \<open>
  C34. Request transforms fail closed: on a matching request the layers below either see
  nothing, the answer being \<open>400\<close>, \<open>413\<close> or \<open>500\<close> whatever they are, or they see, once, this
  request with its body replaced by the template's rendering of the whole payload, read to a
  clean end within the cap, with the true length declared and no encoding left. The original
  body reaches them in no case.
\<close>

theorem body_transform_request_closed:
  assumes "header_map X"
    and "first_body_rule R (ts_request st) (rq_method req) (rq_path req) = Some rule"
  shows "(\<exists>r. rs_status r \<in> {400, 413, 500} \<and> (\<forall>inner. body_transformer X R T st inner req w = (Some r, w)))
    \<or> (\<exists>t h. bd_error (rq_body req) = None
        \<and> length (frames_data (bd_frames (rq_body req))) \<le> ts_max_request_bytes st
        \<and> tx_render T (cr_template rule)
            (render_context T (meta_capture X T req) (frames_data (bd_frames (rq_body req))) None) = Inr t
        \<and> hm_get_all X h ''content-length'' = [show_nat (length t)] \<and> hm_get_all X h ''transfer-encoding'' = []
        \<and> hm_get_all X h ''content-encoding'' = []
        \<and> (\<forall>inner. body_transformer X R T st inner req w =
             (case inner (req\<lparr>rq_headers := h, rq_body := body_full t\<rparr>) w of
                (None, w1) \<Rightarrow> (None, w1)
              | (Some resp, w1) \<Rightarrow>
                  (Some (case first_body_rule R (ts_response st) (rq_method req) (rq_path req) of
                     Some rule' \<Rightarrow> transform_response X T st (meta_capture X T req) rule' resp
                   | None \<Rightarrow> resp), w1))))"
proof (cases "transform_request X T st (meta_capture X T req) rule req")
  case (Inl r)
  have "rs_status r \<in> {400, 413, 500}"
    using Inl by (auto simp: transform_request_def json_error_def Let_def split: sum.splits if_splits)
  moreover have "body_transformer X R T st inner req w = (Some r, w)" for inner
    using assms(2) Inl by (simp add: body_transformer_def Let_def)
  ultimately show ?thesis by blast
next
  case (Inr q)
  then obtain payload tr t where
    c: "collect_limited (ts_max_request_bytes st) (bd_frames (rq_body req)) (bd_error (rq_body req)) = Inr (payload, tr)"
    and t: "tx_render T (cr_template rule) (render_context T (meta_capture X T req) payload None) = Inr t"
    and q: "q = req\<lparr>rq_headers := set_framing_headers X (rq_headers req) (cr_content_type rule) (length t),
                    rq_body := body_full t\<rparr>"
    by (auto simp: transform_request_def split: sum.splits)
  let ?h = "set_framing_headers X (rq_headers req) (cr_content_type rule) (length t)"
  have "body_transformer X R T st inner req w =
     (case inner (req\<lparr>rq_headers := ?h, rq_body := body_full t\<rparr>) w of
        (None, w1) \<Rightarrow> (None, w1)
      | (Some resp, w1) \<Rightarrow>
          (Some (case first_body_rule R (ts_response st) (rq_method req) (rq_path req) of
             Some rule' \<Rightarrow> transform_response X T st (meta_capture X T req) rule' resp
           | None \<Rightarrow> resp), w1))" for inner
    using assms(2) Inr q by (simp add: body_transformer_def Let_def)
  moreover have "hm_get_all X ?h ''content-length'' = [show_nat (length t)]" "hm_get_all X ?h ''transfer-encoding'' = []"
    "hm_get_all X ?h ''content-encoding'' = []"
    by (simp_all add: framing_headers [OF assms(1)])
  ultimately show ?thesis using c t unfolding collect_limited_Inr by blast
qed

definition sample_templates :: "alist_headers template_ext" where
  "sample_templates = \<lparr>tx_compile = (\<lambda>_. None), tx_render = (\<lambda>t c. Inr t), tx_json_parse = (\<lambda>_. None),
     tx_lossy = (\<lambda>s. s), tx_keys = map fst\<rparr>"

definition sample_body_rule :: "string compiled_body_rule" where
  "sample_body_rule = \<lparr>cr_pattern = ''/a'', cr_methods = [], cr_name = ''request[0]'', cr_template = ''redacted'',
     cr_content_type = ''text/plain''\<rparr>"

definition sample_transform :: "string compiled_body_rule list \<Rightarrow> string compiled_body_rule list \<Rightarrow> string transform_state" where
  "sample_transform rq rs = \<lparr>ts_request = rq, ts_response = rs, ts_max_request_bytes = 6, ts_max_response_bytes = 6\<rparr>"

theorem body_transform_request_closed_witness:
  "\<exists>r. rs_status r = 413 \<and> (\<forall>inner. body_transformer alist_ext literal_ext sample_templates
      (sample_transform [sample_body_rule] []) inner ((sample_request ''POST'' ''/a'')\<lparr>rq_body := body_full ''secrets''\<rparr>) ()
    = (Some r, ()))"
proof -
  let ?q = "(sample_request ''POST'' ''/a'')\<lparr>rq_body := body_full ''secrets''\<rparr>"
  let ?st = "sample_transform [sample_body_rule] []"
  have m: "first_body_rule literal_ext (ts_request ?st) (rq_method ?q) (rq_path ?q) = Some sample_body_rule"
    by (simp add: first_body_rule_def body_rule_matches_def sample_transform_def sample_body_rule_def sample_request_def
        literal_ext_def)
  have "transform_request alist_ext sample_templates ?st n sample_body_rule ?q =
      Inl (json_error alist_ext 413 ''request body too large'')" for n
    by (simp add: transform_request_def sample_transform_def body_full_def is_over_limit_def)
  then have "body_transformer alist_ext literal_ext sample_templates ?st inner ?q () =
      (Some (json_error alist_ext 413 ''request body too large''), ())" for inner
    using m by (simp add: body_transformer_def Let_def)
  then show ?thesis
    using body_transform_request_closed [OF alist.header_map_axioms m, of sample_templates "()"]
    by (auto simp: json_error_def Let_def)
qed

text \<open>
  Response transforms fail closed: whenever a response rule matches the request and the
  inner service answers with a final status, the client gets either the rendering of the whole
  upstream body, under the upstream's status, with its true length and the upstream's trailers
  and nothing else, or one of three fixed \<open>502\<close> answers. No other byte of the upstream body
  passes.
\<close>

theorem body_transform_response_closed:
  assumes "header_map X" and "\<not> (100 \<le> rs_status resp \<and> rs_status resp < 200)"
    and "first_body_rule R (ts_request st) (rq_method req) (rq_path req) = None"
    and "first_body_rule R (ts_response st) (rq_method req) (rq_path req) = Some rule"
    and "inner req w = (Some resp, w1)"
  shows "\<exists>r. body_transformer X R T st inner req w = (Some r, w1)
    \<and> ((\<exists>t. tx_render T (cr_template rule) (render_context T (meta_capture X T req)
             (frames_data (bd_frames (rs_body resp))) (Some (rs_status resp))) = Inr t
           \<and> rs_status r = rs_status resp \<and> frames_data (bd_frames (rs_body r)) = t \<and> bd_error (rs_body r) = None
           \<and> (Trailers \<in> set (bd_frames (rs_body r)) \<longleftrightarrow> Trailers \<in> set (bd_frames (rs_body resp)))
           \<and> hm_get_all X (rs_headers r) ''content-length'' = [show_nat (length t)]
           \<and> hm_get_all X (rs_headers r) ''content-encoding'' = [])
       \<or> (\<exists>msg. r = json_error X 502 msg \<and> msg \<in> {''upstream response too large to transform'',
             ''failed to read the upstream response body'', ''body transform failed''}))"
proof -
  let ?m = "meta_capture X T req"
  let ?r = "transform_response X T st ?m rule resp"
  have b: "body_transformer X R T st inner req w = (Some ?r, w1)"
    using assms(3-5) by (simp add: body_transformer_def Let_def)
  show ?thesis
  proof (cases "collect_limited (ts_max_response_bytes st) (bd_frames (rs_body resp)) (bd_error (rs_body resp))")
    case (Inl e)
    with assms(2) b show ?thesis by (auto simp: transform_response_def)
  next
    case (Inr pt)
    then obtain payload tr where c: "collect_limited (ts_max_response_bytes st) (bd_frames (rs_body resp))
        (bd_error (rs_body resp)) = Inr (payload, tr)" by (metis surj_pair)
    then have p: "payload = frames_data (bd_frames (rs_body resp))" "tr = (Trailers \<in> set (bd_frames (rs_body resp)))"
      unfolding collect_limited_Inr by simp_all
    show ?thesis
    proof (cases "tx_render T (cr_template rule) (render_context T ?m payload (Some (rs_status resp)))")
      case (Inl err)
      then have "?r = json_error X 502 ''body transform failed''" using c assms(2) by (auto simp: transform_response_def)
      with b show ?thesis by blast
    next
      case (Inr t)
      then have r: "?r = resp\<lparr>rs_headers := set_framing_headers X (rs_headers resp) (cr_content_type rule) (length t),
          rs_body := buffered_body t tr\<rparr>" using c assms(2) by (auto simp: transform_response_def)
      show ?thesis
        using b Inr unfolding r p by (auto simp: buffered_body_def framing_headers [OF assms(1)])
    qed
  qed
qed

theorem body_transform_response_closed_witness:
  "\<exists>r. body_transformer alist_ext literal_ext sample_templates (sample_transform [] [sample_body_rule])
      (\<lambda>q w. (Some (response_new alist_ext (body_full ''secret'')), w)) (sample_request ''GET'' ''/a'') () = (Some r, ())
    \<and> frames_data (bd_frames (rs_body r)) = ''redacted''"
proof -
  let ?q = "sample_request ''GET'' ''/a''"
  let ?st = "sample_transform [] [sample_body_rule]"
  let ?resp = "response_new alist_ext (body_full ''secret'')"
  let ?inner = "\<lambda>q w. (Some ?resp, w)"
  have m: "first_body_rule literal_ext (ts_request ?st) (rq_method ?q) (rq_path ?q) = None"
    "first_body_rule literal_ext (ts_response ?st) (rq_method ?q) (rq_path ?q) = Some sample_body_rule"
    by (simp_all add: first_body_rule_def body_rule_matches_def sample_transform_def sample_body_rule_def sample_request_def
        literal_ext_def)
  have s: "\<not> (100 \<le> rs_status ?resp \<and> rs_status ?resp < 200)" by (simp add: response_new_def)
  have "transform_response alist_ext sample_templates ?st n sample_body_rule ?resp \<noteq> json_error alist_ext 502 msg" for n msg
    by (simp add: transform_response_def response_new_def sample_transform_def body_full_def sample_templates_def
        json_error_def Let_def)
  then have "body_transformer alist_ext literal_ext sample_templates ?st ?inner ?q () \<noteq> (Some (json_error alist_ext 502 msg), ())"
    for msg
    using m by (simp add: body_transformer_def Let_def)
  then show ?thesis
    using body_transform_response_closed [OF alist.header_map_axioms s m, of ?inner "()" "()" sample_templates]
    by (auto simp: sample_templates_def sample_body_rule_def)
qed

end
