(* ===== verification/Plugins.thy ===== *)
theory Plugins
  imports Api_Definition Json
begin

text \<open>
  Plugin hooks: the configuration and its validation (\<open>g2-core/src/plugins.rs\<close>) and the layer
  that runs an API's hooks in order (\<open>g2-middleware/src/plugin.rs\<close>). What a loaded plugin
  answers is a parameter, a function of the invocation and of the world it may change; the
  WebAssembly host (\<open>g2-plugin\<close>) is not modelled.
\<close>

section \<open>Configuration\<close>

definition DEFAULT_TIMEOUT_MS :: nat where "DEFAULT_TIMEOUT_MS = 50"

definition MAX_TIMEOUT_MS :: nat where "MAX_TIMEOUT_MS = 1000"

definition DEFAULT_MAX_MEMORY_BYTES :: nat where "DEFAULT_MAX_MEMORY_BYTES = 16 * 1024 * 1024"

definition MIN_MEMORY_BYTES :: nat where "MIN_MEMORY_BYTES = 64 * 1024"

definition MAX_MEMORY_BYTES :: nat where "MAX_MEMORY_BYTES = 256 * 1024 * 1024"

record plugin_ref =
  pl_name :: string
  pl_path :: string
  pl_config :: json
  pl_timeout_ms :: "nat option"
  pl_max_memory_bytes :: "nat option"

record plugins_config =
  pc_pre :: "plugin_ref list"
  pc_post :: "plugin_ref list"

definition effective_timeout_ms :: "plugin_ref \<Rightarrow> nat" where
  "effective_timeout_ms p = (case pl_timeout_ms p of Some ms \<Rightarrow> ms | None \<Rightarrow> DEFAULT_TIMEOUT_MS)"

definition effective_max_memory_bytes :: "plugin_ref \<Rightarrow> nat" where
  "effective_max_memory_bytes p = (case pl_max_memory_bytes p of Some n \<Rightarrow> n | None \<Rightarrow> DEFAULT_MAX_MEMORY_BYTES)"

text \<open>
  \<open>Path::components\<close> on Unix: a leading slash is the root, empty and \<open>.\<close> components stand for
  nothing, \<open>..\<close> is the parent, everything else is a name.
\<close>

definition check_module_path :: "string \<Rightarrow> (string, unit) res" where
  "check_module_path path =
     (if trim path = [] then Err ''must not be empty''
      else if CHR 0x5c \<in> set path then Err ''must use `/` separators (backslash rejected)''
      else if CHR 0x00 \<in> set path then Err ''must not contain NUL bytes''
      else if prefix ''/'' path then Err ''must be relative to the plugins directory''
      else if ''..'' \<in> set (split_on (CHR ''/'') path) then Err ''must not contain `..` components''
      else Ok ())"

definition plugin_ref_validate :: "plugin_ref \<Rightarrow> string \<Rightarrow> string \<Rightarrow> nat \<Rightarrow> (error, unit) res" where
  "plugin_ref_validate p api lst index =
     (let fail = (\<lambda>reason. InvalidApiDefinition api (''`plugins.'' @ lst @ ''['' @ show_nat index @ '']` '' @ reason))
      in and_then (require (trim (pl_name p) \<noteq> []) (fail ''`name` must not be empty''))
         (and_then (wrap_err (\<lambda>reason. fail (''`path` '' @ reason)) (check_module_path (pl_path p)))
         (and_then (case pl_timeout_ms p of
                      None \<Rightarrow> Ok ()
                    | Some ms \<Rightarrow> require (0 < ms \<and> ms \<le> MAX_TIMEOUT_MS)
                        (fail (''`timeout_ms` must be between 1 and '' @ show_nat MAX_TIMEOUT_MS @
                               '' (got '' @ show_nat ms @ '')'')))
                   (case pl_max_memory_bytes p of
                      None \<Rightarrow> Ok ()
                    | Some n \<Rightarrow> require (MIN_MEMORY_BYTES \<le> n \<and> n \<le> MAX_MEMORY_BYTES)
                        (fail (''`max_memory_bytes` must be between '' @ show_nat MIN_MEMORY_BYTES @ '' and '' @
                               show_nat MAX_MEMORY_BYTES @ '' (got '' @ show_nat n @ '')''))))))"

definition plugins_validate :: "plugins_config \<Rightarrow> string \<Rightarrow> (error, unit) res" where
  "plugins_validate c api =
     and_then (require (\<not> (pc_pre c = [] \<and> pc_post c = []))
        (InvalidApiDefinition api (''`plugins` must declare at least one `pre` or `post` hook '' @
           ''(omit the block entirely for no plugins)'')))
     (and_then (validate_each (\<lambda>i p. plugin_ref_validate p api ''pre'' i) 0 (pc_pre c))
               (validate_each (\<lambda>i p. plugin_ref_validate p api ''post'' i) 0 (pc_post c)))"

section \<open>Hooks\<close>

datatype hook_kind = Pre | Post

definition hook_kind_str :: "hook_kind \<Rightarrow> string" where
  "hook_kind_str k = (case k of Pre \<Rightarrow> ''pre'' | Post \<Rightarrow> ''post'')"

record 'h hook_invocation =
  hk_kind :: hook_kind
  hk_api_id :: string
  hk_org_id :: string
  hk_method :: string
  hk_path :: string
  hk_query :: "string option"
  hk_headers :: 'h
  hk_client_addr :: "ip_addr option"
  hk_session_alias :: "string option"

datatype 'h hook_outcome =
    Continue (set_headers: "(string \<times> string) list") (remove_headers: "string list")
  | Respond "'h response"

type_synonym ('h, 'w) plugin_exec = "'h hook_invocation \<Rightarrow> 'w \<Rightarrow> (string + 'h hook_outcome) \<times> 'w"

type_synonym ('h, 'w) plugin_loader = "string \<Rightarrow> hook_kind \<Rightarrow> plugin_ref \<Rightarrow> string + ('h, 'w) plugin_exec"

definition plugin_from_config :: "hook_kind \<Rightarrow> plugin_ref list \<Rightarrow> ('h, 'w) plugin_loader option \<Rightarrow> string \<Rightarrow>
    (error, ('h, 'w) plugin_exec list option) res" where
  "plugin_from_config kind refs loader api_id =
     (if refs = [] then Ok None
      else case loader of
             None \<Rightarrow> Err (InvalidApiDefinition api_id (''definition declares `plugins` but the gateway has no plugins '' @
                ''directory configured (start it with `--plugins-dir`)''))
           | Some load \<Rightarrow>
               bind_res (traverse (\<lambda>r. case load api_id kind r of
                    Inr exec \<Rightarrow> Ok exec
                  | Inl reason \<Rightarrow> Err (InvalidApiDefinition api_id
                      (''plugin `'' @ pl_name r @ ''` failed to load: '' @ reason))) refs) (\<lambda>ps. Ok (Some ps)))"

section \<open>The layer\<close>

definition invocation :: "hook_kind \<Rightarrow> 'h request \<Rightarrow> 'h hook_invocation" where
  "invocation kind req =
     \<lparr>hk_kind = kind,
      hk_api_id = (case rq_context req of Some c \<Rightarrow> cx_api_id c | None \<Rightarrow> []),
      hk_org_id = (case rq_context req of Some c \<Rightarrow> cx_org_id c | None \<Rightarrow> []),
      hk_method = rq_method req, hk_path = rq_path req, hk_query = rq_query req, hk_headers = rq_headers req,
      hk_client_addr = rq_client_addr req,
      hk_session_alias = (case kind of Pre \<Rightarrow> None
         | Post \<Rightarrow> Option.bind (rq_session req) (\<lambda>s. ks_alias (sc_session s)))\<rparr>"

definition apply_mutations :: "'h http_ext \<Rightarrow> (string \<times> string) list \<Rightarrow> string list \<Rightarrow> 'h request \<Rightarrow> 'h request" where
  "apply_mutations X sets removes req =
     req\<lparr>rq_headers := foldl (\<lambda>h (n, v). hm_insert X h n v) (foldl (hm_remove X) (rq_headers req) removes) sets\<rparr>"

text \<open>The hooks of a slot: the answer of the hook that stopped the request, or the request after all of them.\<close>

fun run_hooks :: "'h http_ext \<Rightarrow> hook_kind \<Rightarrow> ('h, 'w) plugin_exec list \<Rightarrow> 'h request \<Rightarrow> 'w \<Rightarrow>
    ('h response + 'h request) \<times> 'w" where
  "run_hooks X kind [] req w = (Inr req, w)"
| "run_hooks X kind (exec # rest) req w =
     (case exec (invocation kind req) w of
        (Inr (Continue sets removes), w1) \<Rightarrow> run_hooks X kind rest (apply_mutations X sets removes req) w1
      | (Inr (Respond resp), w1) \<Rightarrow> (Inl resp, w1)
      | (Inl reason, w1) \<Rightarrow> (Inl (json_error X 500 ''plugin execution failed''), w1))"

definition plugin_layer :: "'h http_ext \<Rightarrow> hook_kind \<Rightarrow> ('h, 'w) plugin_exec list \<Rightarrow> ('h, 'w) service \<Rightarrow> ('h, 'w) service" where
  "plugin_layer X kind plugins inner req w =
     (case run_hooks X kind plugins req w of
        (Inl resp, w1) \<Rightarrow> (Some resp, w1)
      | (Inr req1, w1) \<Rightarrow> inner req1 w1)"

section \<open>Lemmas\<close>

lemma run_hooks_append:
  "run_hooks X kind (as @ bs) req w =
     (case run_hooks X kind as req w of (Inl r, w1) \<Rightarrow> (Inl r, w1) | (Inr q, w1) \<Rightarrow> run_hooks X kind bs q w1)"
  by (induction as arbitrary: req w) (auto split: prod.split sum.split hook_outcome.split)

text \<open>Hooks change nothing of a request but its headers.\<close>

lemma run_hooks_headers_only:
  "run_hooks X kind ps req w = (Inr q, w1) \<Longrightarrow> \<exists>h. q = req\<lparr>rq_headers := h\<rparr>"
proof (induction ps arbitrary: req w)
  case Nil
  then have "q = req\<lparr>rq_headers := rq_headers req\<rparr>" by simp
  then show ?case by blast
next
  case (Cons e ps)
  then show ?case
    by (auto simp: apply_mutations_def split: prod.splits sum.splits hook_outcome.splits) force
qed

lemma traverse_loads:
  "traverse f xs = Ok ys \<Longrightarrow> list_all2 (\<lambda>x y. f x = Ok y) xs ys"
  by (induction xs arbitrary: ys) (auto simp: bind_res_def split: res.splits)

section \<open>Properties\<close>

text \<open>
  Plugins fail closed and run in order: when the hooks before one let the request pass and
  that one fails or answers itself, the client gets \<open>500\<close> or that answer, whatever hooks follow
  and whatever the layers below would do; when all let it pass the layers below see the request
  with nothing changed but its headers.
\<close>

theorem plugins_fail_closed:
  assumes "run_hooks X kind before req w = (Inr q, w1)"
  shows "(\<forall>reason w2. exec (invocation kind q) w1 = (Inl reason, w2) \<longrightarrow>
      (\<forall>after inner. plugin_layer X kind (before @ exec # after) inner req w =
         (Some (json_error X 500 ''plugin execution failed''), w2)))
    \<and> (\<forall>resp w2. exec (invocation kind q) w1 = (Inr (Respond resp), w2) \<longrightarrow>
      (\<forall>after inner. plugin_layer X kind (before @ exec # after) inner req w = (Some resp, w2)))
    \<and> (\<forall>inner. plugin_layer X kind before inner req w = inner q w1)
    \<and> (\<exists>h. q = req\<lparr>rq_headers := h\<rparr>)"
  using assms run_hooks_headers_only [OF assms] by (auto simp: plugin_layer_def run_hooks_append)

theorem plugins_fail_closed_witness:
  "plugin_layer alist_ext Pre [\<lambda>i w. (Inr (Continue [] [''cookie'']), w + 1), \<lambda>i w. (Inl ''trap'', w + 1), \<lambda>i w. (Inl ''x'', w + 1)]
     (\<lambda>q w. (None, w)) (sample_request ''GET'' ''/a'') (0 :: nat) = (Some (json_error alist_ext 500 ''plugin execution failed''), 2)"
proof -
  let ?first = "\<lambda>i w. (Inr (Continue [] [''cookie'']), w + 1) :: (string + alist_headers hook_outcome) \<times> nat"
  let ?q = "apply_mutations alist_ext [] [''cookie''] (sample_request ''GET'' ''/a'')"
  have "run_hooks alist_ext Pre [?first] (sample_request ''GET'' ''/a'') 0 = (Inr ?q, 1)" by simp
  from plugins_fail_closed [OF this, of "\<lambda>i w. (Inl ''trap'', w + 1)"] show ?thesis by simp
qed

text \<open>
  A validated module path stays inside the plugins directory: it is relative, names no
  parent, and every accepted plugin has a timeout within the gateway's bound and a memory cap
  within its limits, by setting or by default.
\<close>

theorem validated_plugin_bounded:
  assumes "plugins_validate c api = Ok ()" and "p \<in> set (pc_pre c) \<union> set (pc_post c)"
  shows "\<not> prefix ''/'' (pl_path p) \<and> ''..'' \<notin> set (split_on (CHR ''/'') (pl_path p)) \<and> pl_path p \<noteq> []
    \<and> 1 \<le> effective_timeout_ms p \<and> effective_timeout_ms p \<le> MAX_TIMEOUT_MS
    \<and> MIN_MEMORY_BYTES \<le> effective_max_memory_bytes p \<and> effective_max_memory_bytes p \<le> MAX_MEMORY_BYTES"
proof -
  obtain l i where "plugin_ref_validate p api l i = Ok ()"
    using assms by (auto simp: plugins_validate_def dest!: validate_each_mem)
  then show ?thesis
    by (auto simp: plugin_ref_validate_def require_Ok wrap_err_Ok check_module_path_def Let_def trim_def trim_start_def trim_end_def
        effective_timeout_ms_def effective_max_memory_bytes_def DEFAULT_TIMEOUT_MS_def MAX_TIMEOUT_MS_def
        DEFAULT_MAX_MEMORY_BYTES_def MIN_MEMORY_BYTES_def MAX_MEMORY_BYTES_def split: option.splits if_splits)
qed

definition sample_plugin :: plugin_ref where
  "sample_plugin = \<lparr>pl_name = ''geo'', pl_path = ''a/b.wasm'', pl_config = JNull, pl_timeout_ms = Some 9,
     pl_max_memory_bytes = None\<rparr>"

theorem validated_plugin_bounded_witness:
  "plugins_validate \<lparr>pc_pre = [sample_plugin], pc_post = []\<rparr> ''a'' = Ok ()
    \<and> ''..'' \<notin> set (split_on (CHR ''/'') (pl_path sample_plugin)) \<and> effective_timeout_ms sample_plugin = 9"
proof -
  have "plugins_validate \<lparr>pc_pre = [sample_plugin], pc_post = []\<rparr> ''a'' = Ok ()"
    using trim_keeps_graphic [of "CHR ''g''" "''geo''"] trim_keeps_graphic [of "CHR ''b''" "''a/b.wasm''"]
    by (simp add: plugins_validate_def plugin_ref_validate_def sample_plugin_def check_module_path_def require_Ok
        wrap_err_Ok MAX_TIMEOUT_MS_def graphic_def)
  with validated_plugin_bounded [OF this, of sample_plugin] show ?thesis
    by (simp add: effective_timeout_ms_def) (simp add: sample_plugin_def)
qed

end
