(* ===== verification/Chain.thy ===== *)
theory Chain
  imports Router Auth Cache Stats Analytics Transform_Body Plugins
begin

text \<open>
  The middleware chain: \<open>ChainBuilder\<close> and its three builds (\<open>g2-middleware/src/chain.rs\<close>) and
  the version dispatcher (\<open>g2-middleware/src/versioning.rs\<close>). A layer wraps a service. The
  locale \<open>gate\<close> is the contract every layer keeps with what is below it: which requests, in
  which states of the world, it lets through. Gates compose, so what the innermost service of
  a whole chain can see is read off the contracts of its layers.
\<close>

section \<open>Building a chain\<close>

type_synonym ('h, 'w) layer = "('h, 'w) service \<Rightarrow> ('h, 'w) service"

definition option_layer :: "('h, 'w) layer option \<Rightarrow> ('h, 'w) layer" where
  "option_layer l inner = (case l of Some f \<Rightarrow> f inner | None \<Rightarrow> inner)"

record ('h, 'w) chain_builder =
  cb_ctx :: request_context
  cb_auth :: "('h, 'w) layer option"
  cb_rate_limit :: "('h, 'w) layer option"
  cb_stats :: "('h, 'w) layer option"
  cb_trace :: "('h, 'w) layer option"
  cb_metrics :: "('h, 'w) layer option"
  cb_analytics :: "('h, 'w) layer option"
  cb_ip_filter :: "('h, 'w) layer option"
  cb_cors :: "('h, 'w) layer option"
  cb_path_policy :: "('h, 'w) layer option"
  cb_size_limit :: "('h, 'w) layer option"
  cb_plugins_pre :: "('h, 'w) layer option"
  cb_plugins_post :: "('h, 'w) layer option"
  cb_graphql :: "('h, 'w) layer option"
  cb_transform_headers :: "('h, 'w) layer option"
  cb_transform_body :: "('h, 'w) layer option"
  cb_mock :: "('h, 'w) layer option"
  cb_cache :: "('h, 'w) layer option"

definition chain_builder_new :: "request_context \<Rightarrow> ('h, 'w) chain_builder" where
  "chain_builder_new ctx =
     \<lparr>cb_ctx = ctx, cb_auth = None, cb_rate_limit = None, cb_stats = None, cb_trace = None, cb_metrics = None,
      cb_analytics = None, cb_ip_filter = None, cb_cors = None, cb_path_policy = None, cb_size_limit = None,
      cb_plugins_pre = None, cb_plugins_post = None, cb_graphql = None, cb_transform_headers = None,
      cb_transform_body = None, cb_mock = None, cb_cache = None\<rparr>"

definition chain_build :: "'h http_ext \<Rightarrow> ('h, 'w) chain_builder \<Rightarrow> ('h, 'w) service \<Rightarrow> ('h, 'w) service" where
  "chain_build X b svc =
     option_layer (cb_trace b) (
     option_layer (cb_metrics b) (
     option_layer (cb_stats b) (
     option_layer (cb_analytics b) (
     set_context (cb_ctx b) (
     option_layer (cb_ip_filter b) (
     option_layer (cb_cors b) (
     option_layer (cb_path_policy b) (
     option_layer (cb_size_limit b) (
     option_layer (cb_plugins_pre b) (
     option_layer (cb_auth b) (
     option_layer (cb_rate_limit b) (
     option_layer (cb_plugins_post b) (
     option_layer (cb_graphql b) (
     option_layer (cb_transform_headers b) (
     option_layer (cb_transform_body b) (
     option_layer (cb_mock b) (
     option_layer (cb_cache b) (
     api_id_header X svc))))))))))))))))))"

definition chain_build_outer :: "('h, 'w) chain_builder \<Rightarrow> ('h, 'w) service \<Rightarrow> ('h, 'w) service" where
  "chain_build_outer b service =
     option_layer (cb_trace b) (
     option_layer (cb_metrics b) (
     option_layer (cb_stats b) (
     option_layer (cb_analytics b) (
     set_context (cb_ctx b) (
     option_layer (cb_ip_filter b) (
     option_layer (cb_cors b) service))))))"

definition chain_build_inner :: "'h http_ext \<Rightarrow> ('h, 'w) chain_builder \<Rightarrow> ('h, 'w) service \<Rightarrow> ('h, 'w) service" where
  "chain_build_inner X b svc =
     option_layer (cb_path_policy b) (
     option_layer (cb_size_limit b) (
     option_layer (cb_plugins_pre b) (
     option_layer (cb_auth b) (
     option_layer (cb_rate_limit b) (
     option_layer (cb_plugins_post b) (
     option_layer (cb_graphql b) (
     option_layer (cb_transform_headers b) (
     option_layer (cb_transform_body b) (
     option_layer (cb_mock b) (
     option_layer (cb_cache b) (
     api_id_header X svc)))))))))))"

section \<open>Version dispatch\<close>

datatype version_selector = SelHeader string | SelQueryParam string

record ('h, 'w) version_slot =
  vs_chain :: "('h, 'w) service"
  vs_expires_at :: "nat option"

record ('h, 'w) version_dispatch =
  vd_selector :: version_selector
  vd_default_version :: "string option"
  vd_versions :: "(string, ('h, 'w) version_slot) hashmap"

text \<open>The slots of the configured versions; each chain is taken out of the map that was built.\<close>

fun version_slots :: "string \<Rightarrow> (string \<times> ('b, 'g, 'p) version_overrides) list \<Rightarrow> (string, ('h, 'w) service) hashmap \<Rightarrow>
    (error, (string, ('h, 'w) version_slot) hashmap) res" where
  "version_slots api_id [] built = Ok []"
| "version_slots api_id ((name, ov) # rest) built =
     (case map_of built name of
        None \<Rightarrow> Err (InvalidApiDefinition api_id (''no chain was built for version `'' @ name @ ''`''))
      | Some chain \<Rightarrow>
          bind_res (version_slots api_id rest (AList.delete name built)) (\<lambda>slots.
            Ok ((name, \<lparr>vs_chain = chain, vs_expires_at = vo_expires_at ov\<rparr>) # slots)))"

definition version_dispatch_from_config :: "'h http_ext \<Rightarrow> ('b, 'g, 'p) versioning_config \<Rightarrow>
    (string, ('h, 'w) service) hashmap \<Rightarrow> string \<Rightarrow> (error, ('h, 'w) version_dispatch) res" where
  "version_dispatch_from_config X config built api_id =
     bind_res (case vc_location config of
                 VLHeader \<Rightarrow>
                   (case hn_parse X (vc_key config) of
                      Some n \<Rightarrow> Ok (SelHeader n)
                    | None \<Rightarrow> Err (InvalidApiDefinition api_id
                        (''`versioning.key` is not a valid header name: `'' @ vc_key config @ ''`'')))
               | VLQueryParam \<Rightarrow> Ok (SelQueryParam (vc_key config))) (\<lambda>selector.
     bind_res (version_slots api_id (vc_versions config) built) (\<lambda>versions.
       Ok \<lparr>vd_selector = selector, vd_default_version = vc_default_version config, vd_versions = versions\<rparr>))"

fun version_pair :: "string \<Rightarrow> string list \<Rightarrow> string option" where
  "version_pair param [] = None"
| "version_pair param (pair # pairs) =
     (case split_once (CHR ''='') pair of
        Some (k, v) \<Rightarrow> (if k = param then Some (trim v) else version_pair param pairs)
      | None \<Rightarrow> version_pair param pairs)"

definition requested :: "'h http_ext \<Rightarrow> version_selector \<Rightarrow> 'h request \<Rightarrow> string option" where
  "requested X sel req =
     (case (case sel of
              SelHeader name \<Rightarrow> map_option trim (Option.bind (hm_get X (rq_headers req) name) (hv_to_str X))
            | SelQueryParam param \<Rightarrow> Option.bind (rq_query req) (\<lambda>q. version_pair param (split_on (CHR ''&'') q))) of
        Some name \<Rightarrow> (if name = [] then None else Some name)
      | None \<Rightarrow> None)"

definition version_reject :: "'h http_ext \<Rightarrow> string \<Rightarrow> 'h response" where
  "version_reject X message = json_error X 403 message"

definition version_call :: "'h http_ext \<Rightarrow> ('w \<Rightarrow> nat) \<Rightarrow> ('h, 'w) version_dispatch \<Rightarrow> ('h, 'w) service" where
  "version_call X unix_now vd req w =
     (case (case requested X (vd_selector vd) req of Some name \<Rightarrow> Some name | None \<Rightarrow> vd_default_version vd) of
        None \<Rightarrow> (Some (version_reject X ''version information not found''), w)
      | Some name \<Rightarrow>
          (case map_of (vd_versions vd) name of
             None \<Rightarrow> (Some (version_reject X ''requested API version does not exist''), w)
           | Some slot \<Rightarrow>
               (case vs_expires_at slot of
                  Some at \<Rightarrow>
                    (if at \<le> unix_now w then (Some (version_reject X ''requested API version has expired''), w)
                     else vs_chain slot req w)
                | None \<Rightarrow> vs_chain slot req w)))"

section \<open>What a layer lets through\<close>

text \<open>
  \<open>reach (req, w) (q, v)\<close>: given \<open>req\<close> in world \<open>w\<close> the layer may hand \<open>q\<close> to the service
  below it in world \<open>v\<close>. The contract says that it consults that service nowhere else.
\<close>

locale gate =
  fixes layer :: "('h, 'w) layer"
    and reach :: "'h request \<times> 'w \<Rightarrow> 'h request \<times> 'w \<Rightarrow> bool"
  assumes consults: "(\<And>q v. reach (req, w) (q, v) \<Longrightarrow> inner q v = inner' q v) \<Longrightarrow> layer inner req w = layer inner' req w"
begin

text \<open>A request the layer lets nothing through for is answered without the service below.\<close>

lemma closed: "(\<And>q v. \<not> reach (req, w) (q, v)) \<Longrightarrow> layer inner req w = layer inner' req w"
  by (rule consults) blast

lemma weaken: "(\<And>p q. reach p q \<Longrightarrow> reach' p q) \<Longrightarrow> gate layer reach'"
  by unfold_locales (rule consults, blast)

end

text \<open>Gates compose, and an absent layer is a gate that is always open.\<close>

lemma gate_compose:
  assumes "gate (l :: ('h, 'w) layer) R" and "gate m Q"
  shows "gate (\<lambda>i. l (m i)) (R OO Q)"
proof (rule gate.intro)
  fix req w and inner inner' :: "('h, 'w) service"
  assume a: "\<And>q v. (R OO Q) (req, w) (q, v) \<Longrightarrow> inner q v = inner' q v"
  show "l (m inner) req w = l (m inner') req w"
    by (rule gate.consults [OF assms(1)], rule gate.consults [OF assms(2)], rule a) auto
qed

lemma gate_id: "gate (\<lambda>i. i) (=)"
  by unfold_locales auto

lemma gate_option:
  assumes "\<And>l. x = Some l \<Longrightarrow> gate l R"
  shows "gate (option_layer x) (case x of Some _ \<Rightarrow> R | None \<Rightarrow> (=))"
  using assms by (cases x) (auto simp: option_layer_def [abs_def] gate_id)

section \<open>The layers as gates\<close>

text \<open>What no layer below the address filter takes away from a request: who sent it, on which connection, to which API.\<close>

definition same_origin :: "'h request \<Rightarrow> 'h request \<Rightarrow> bool" where
  "same_origin req q \<longleftrightarrow> rq_client_addr q = rq_client_addr req \<and> rq_conn q = rq_conn req \<and> rq_context q = rq_context req"

text \<open>A layer that neither authenticates a request nor excuses it from authentication.\<close>

definition same_standing :: "'h request \<times> 'w \<Rightarrow> 'h request \<times> 'w \<Rightarrow> bool" where
  "same_standing p q \<longleftrightarrow> same_origin (fst p) (fst q)
     \<and> rq_session (fst q) = rq_session (fst p) \<and> rq_auth_bypass (fst q) = rq_auth_bypass (fst p)"

lemma same_standing_refl [simp]: "same_standing p p"
  by (simp add: same_standing_def same_origin_def)

lemma same_standing_trans: "same_standing p q \<Longrightarrow> same_standing q r \<Longrightarrow> same_standing p r"
  by (simp add: same_standing_def same_origin_def)

interpretation stats_gate: gate "stats_layer get put api_id" "(=)"
  for get :: "'w \<Rightarrow> stats_registry" and put api_id
  by unfold_locales (simp add: stats_layer_def)

interpretation analytics_gate: gate "analytics_layer X ck get put ctx" "(=)"
  for X :: "'h http_ext" and ck :: "'w analytics_clock" and get put ctx
  by unfold_locales (simp add: analytics_layer_def)

interpretation context_gate: gate "set_context ctx" "\<lambda>p q. q = ((fst p)\<lparr>rq_context := Some ctx\<rparr>, snd p)"
  for ctx
  by unfold_locales (simp add: set_context_def)

interpretation ip_gate: gate "ip_filter X N st"
    "\<lambda>p q. q = p \<and> (\<exists>addr. rq_client_addr (fst p) = Some addr \<and> permits N st addr)"
  for X :: "'h http_ext" and N st
  by unfold_locales (simp add: ip_filter_def split: option.splits)

interpretation cors_gate: gate "cors_layer X st" "(=)"
  for X :: "'h http_ext" and st
  by unfold_locales (auto simp: cors_layer_def Let_def split: option.splits)

interpretation path_gate: gate "path_policy X R st"
    "\<lambda>p q. \<not> any_match R (ps_block st) (rq_method (fst p)) (rq_path (fst p))
       \<and> (ps_allow st = [] \<or> any_match R (ps_allow st) (rq_method (fst p)) (rq_path (fst p)))
       \<and> q = (if any_match R (ps_ignore st) (rq_method (fst p)) (rq_path (fst p))
               then (fst p)\<lparr>rq_auth_bypass := True\<rparr> else fst p, snd p)"
  for X :: "'h http_ext" and R st
  by unfold_locales (auto simp: path_policy_def Let_def)

interpretation size_gate: gate "request_size_limit X limit"
    "\<lambda>p q. q = ((fst p)\<lparr>rq_body := limited_body limit (rq_body (fst p))\<rparr>, snd p)"
  for X :: "'h http_ext" and limit
  by unfold_locales (simp add: request_size_limit_def)

interpretation plugin_gate: gate "plugin_layer X kind plugins"
    "\<lambda>p q. run_hooks X kind plugins (fst p) (snd p) = (Inr (fst q), snd q)"
  for X :: "'h http_ext" and kind plugins
  by unfold_locales (auto simp: plugin_layer_def split: prod.splits sum.splits)

interpretation auth_gate: gate "auth_layer X A S J state get put clock"
    "\<lambda>p q. (rq_auth_bypass (fst p) \<and> q = p)
       \<or> (\<exists>ctx aw. authenticate X A S J (clock (snd p)) state (fst p) (get (snd p)) = (Ok ctx, aw)
            \<and> q = ((fst p)\<lparr>rq_session := Some ctx\<rparr>, put aw (snd p)))"
  for X :: "'h http_ext" and A S J state get put clock
  by unfold_locales (auto simp: auth_layer_def split: prod.splits res.splits)

interpretation rate_gate: gate "rate_limit_layer X R hash_one st clock"
    "\<lambda>p q. \<exists>s g. enforce X R hash_one st (clock (snd p)) (fst p) (wd_store (snd p), wd_guard (snd p)) = (Ok (), s, g)
       \<and> q = (fst p, (snd p)\<lparr>wd_store := s, wd_guard := g\<rparr>)"
  for X :: "'h http_ext" and R hash_one st clock
  by unfold_locales (auto simp: rate_limit_layer_def Let_def split: prod.splits res.splits)

interpretation header_gate: gate "header_transformer X rules"
    "\<lambda>p q. q = ((fst p)\<lparr>rq_headers := rules_apply X (fst rules) (rq_headers (fst p))\<rparr>, snd p)"
  for X :: "'h http_ext" and rules
  by unfold_locales (simp add: header_transformer_def)

interpretation body_gate: gate "body_transformer X R T st"
    "\<lambda>p q. \<exists>h b. q = ((fst p)\<lparr>rq_headers := h, rq_body := b\<rparr>, snd p)"
  for X :: "'h http_ext" and R T st
proof unfold_locales
  fix req w and inner inner' :: "('h, 'w) service"
  assume a: "\<And>q v. \<exists>h b. (q, v) = ((fst (req, w))\<lparr>rq_headers := h, rq_body := b\<rparr>, snd (req, w)) \<Longrightarrow> inner q v = inner' q v"
  have a': "inner (req\<lparr>rq_headers := h, rq_body := b\<rparr>) w = inner' (req\<lparr>rq_headers := h, rq_body := b\<rparr>) w" for h b
    by (rule a) auto
  have "inner req w = inner' req w" using a' [where h = "rq_headers req" and b = "rq_body req"] by simp
  then show "body_transformer X R T st inner req w = body_transformer X R T st inner' req w"
    by (auto simp: a' body_transformer_def transform_request_def Let_def split: option.splits sum.splits)
qed

interpretation mock_gate: gate "mock_layer X R rules"
    "\<lambda>p q. q = p \<and> find (\<lambda>m. mock_matches R m (rq_method (fst p)) (rq_path (fst p))) rules = None"
  for X :: "'h http_ext" and R rules
  by unfold_locales (auto simp: mock_layer_def split: option.splits)

interpretation cache_gate: gate "cache_layer X K sha S st clock eager"
    "\<lambda>p q. fst q = fst p"
  for X :: "'h http_ext" and K sha S st clock eager
  by unfold_locales (auto simp: cache_layer_def Let_def split: prod.splits res.splits option.splits)

interpretation api_id_gate: gate "api_id_header X"
    "\<lambda>p q. \<exists>h. q = ((fst p)\<lparr>rq_headers := h\<rparr>, snd p)
       \<and> h = (case Option.bind (rq_context (fst p)) (\<lambda>ctx. hv_from_str X (cx_api_id ctx)) of
                Some v \<Rightarrow> hm_insert X (rq_headers (fst p)) API_ID_HEADER v
              | None \<Rightarrow> hm_remove X (rq_headers (fst p)) API_ID_HEADER)"
  for X :: "'h http_ext"
  by unfold_locales (auto simp: api_id_header_def Let_def split: option.splits)

text \<open>A chain of layers that change no request's standing changes none.\<close>

lemma standing_option:
  assumes "\<And>l. x = Some l \<Longrightarrow> gate l same_standing"
  shows "gate (option_layer x) same_standing"
  by (rule gate.weaken [OF gate_option [OF assms]]) (auto split: option.splits)

lemma standing_compose:
  assumes "gate l same_standing" and "gate m same_standing"
  shows "gate (\<lambda>i. l (m i)) same_standing"
  by (rule gate.weaken [OF gate_compose [OF assms]]) (auto intro: same_standing_trans)

lemma standing_layers:
  "gate (request_size_limit X limit) same_standing" "gate (header_transformer X rules) same_standing"
  "gate (body_transformer X R T st) same_standing" "gate (mock_layer X R ms) same_standing"
  "gate (plugin_layer X kind plugins) same_standing"
  by (rule gate.weaken [OF size_gate.gate_axioms] gate.weaken [OF header_gate.gate_axioms]
      gate.weaken [OF body_gate.gate_axioms] gate.weaken [OF mock_gate.gate_axioms]
      gate.weaken [OF plugin_gate.gate_axioms];
    auto simp: same_standing_def same_origin_def dest: run_hooks_headers_only)+

section \<open>Lemmas\<close>

lemma chain_build_composed: "chain_build X b svc = chain_build_outer b (chain_build_inner X b svc)"
  by (simp add: chain_build_def chain_build_outer_def chain_build_inner_def)

lemma version_slots_Ok:
  assumes "distinct (map fst vs)" and "\<And>n. n \<in> fst ` set vs \<Longrightarrow> map_of built n \<noteq> None"
  shows "\<exists>slots. version_slots api vs built = Ok slots \<and> (\<forall>n. map_of slots n =
    (case map_of vs n of None \<Rightarrow> None
     | Some ov \<Rightarrow> map_option (\<lambda>c. \<lparr>vs_chain = c, vs_expires_at = vo_expires_at ov\<rparr>) (map_of built n)))"
  using assms
proof (induction vs arbitrary: built)
  case (Cons v vs)
  obtain name ov where v: "v = (name, ov)" by fastforce
  obtain c where c: "map_of built name = Some c" using Cons.prems(2) [of name] by (auto simp: v)
  have d: "map_of (AList.delete name built) n = (if n = name then None else map_of built n)" for n
    by (simp add: delete_conv')
  have "n \<in> fst ` set vs \<Longrightarrow> map_of (AList.delete name built) n \<noteq> None" for n
    using Cons.prems by (auto simp: v d)
  then obtain slots where "version_slots api vs (AList.delete name built) = Ok slots"
    "\<And>n. map_of slots n = (case map_of vs n of None \<Rightarrow> None
     | Some ov \<Rightarrow> map_option (\<lambda>c. \<lparr>vs_chain = c, vs_expires_at = vo_expires_at ov\<rparr>) (map_of (AList.delete name built) n))"
    using Cons.IH [of "AList.delete name built"] Cons.prems(1) by (auto simp: v)
  then show ?case using c by (auto simp: v bind_res_def d split: option.splits)
qed simp

section \<open>Properties\<close>

text \<open>
  One chain, two ways of building it: the full stack of an unversioned API is the shared
  outer stack around the per-version inner stack, so a versioned API's request passes the same
  layers in the same order, with the dispatcher between them.
\<close>

theorem chain_build_splits: "chain_build X b svc = chain_build_outer b (chain_build_inner X b svc)"
  by (rule chain_build_composed)

text \<open>
  C9. Version dispatch: the dispatcher of a versioned API sends a request to the chain of the
  version it names, or of the default when it names none, exactly when that version is
  configured and has not expired; every other request is answered \<open>403\<close> and reaches no chain,
  and the world stays as it was.
\<close>

theorem version_dispatch_exact:
  assumes "version_dispatch_from_config X config built api_id = Ok vd" and "distinct (map fst (vc_versions config))"
    and "\<And>n. n \<in> fst ` set (vc_versions config) \<Longrightarrow> map_of built n \<noteq> None"
  shows "version_call X unix_now vd req w =
    (let name = (case requested X (vd_selector vd) req of Some n \<Rightarrow> Some n | None \<Rightarrow> vc_default_version config);
         live = (\<lambda>ov. case vo_expires_at ov of Some at \<Rightarrow> unix_now w < at | None \<Rightarrow> True)
     in case Option.bind name (map_of (vc_versions config)) of
          Some ov \<Rightarrow> if live ov then the (map_of built (the name)) req w
                      else (Some (json_error X 403 ''requested API version has expired''), w)
        | None \<Rightarrow> (Some (json_error X 403 (if name = None then ''version information not found''
                      else ''requested API version does not exist'')), w))"
proof -
  obtain slots where s: "version_slots api_id (vc_versions config) built = Ok slots"
    "\<And>n. map_of slots n = (case map_of (vc_versions config) n of None \<Rightarrow> None
     | Some ov \<Rightarrow> map_option (\<lambda>c. \<lparr>vs_chain = c, vs_expires_at = vo_expires_at ov\<rparr>) (map_of built n))"
    using version_slots_Ok [OF assms(2,3), of api_id] by blast
  have v: "vd_default_version vd = vc_default_version config" "vd_versions vd = slots"
    using assms(1) s(1) by (auto simp: version_dispatch_from_config_def bind_res_def split: res.splits)
  have b: "\<exists>c. map_of built n = Some c" if "map_of (vc_versions config) n = Some ov" for n ov
    using assms(3) [of n] map_of_SomeD [OF that] by force
  show ?thesis
    unfolding version_call_def v s(2) version_reject_def Let_def
    by (auto split: option.splits dest: b)
qed

text \<open>Of two versions, the expired default is refused and the named one is served.\<close>

definition sample_override :: "nat option \<Rightarrow> (unit, unit, unit) version_overrides" where
  "sample_override at = (snd (hd (vc_versions sample_versioning)))\<lparr>vo_expires_at := at\<rparr>"

definition sample_two_versions :: "(unit, unit, unit) versioning_config" where
  "sample_two_versions = \<lparr>vc_location = VLQueryParam, vc_key = ''v'', vc_default_version = Some ''a'',
     vc_versions = [(''a'', sample_override (Some 9)), (''b'', sample_override None)]\<rparr>"

theorem version_dispatch_exact_witness:
  "\<exists>vd. version_dispatch_from_config alist_ext sample_two_versions
      [(''a'', \<lambda>q w. (None, 1)), (''b'', \<lambda>q w. (None, 2 :: nat))] ''api'' = Ok vd
    \<and> version_call alist_ext (\<lambda>w. 9) vd (sample_request ''GET'' ''/'') 0
      = (Some (json_error alist_ext 403 ''requested API version has expired''), 0)"
proof -
  let ?built = "[(''a'', \<lambda>q w. (None, 1)), (''b'', \<lambda>q w. (None, 2 :: nat))]"
  obtain vd where vd: "version_dispatch_from_config alist_ext sample_two_versions ?built ''api'' = Ok vd"
    "vd_selector vd = SelQueryParam ''v''"
    by (simp add: version_dispatch_from_config_def sample_two_versions_def bind_res_def)
  have "distinct (map fst (vc_versions sample_two_versions))"
    "\<And>n. n \<in> fst ` set (vc_versions sample_two_versions) \<Longrightarrow> map_of ?built n \<noteq> None"
    by (auto simp: sample_two_versions_def)
  from version_dispatch_exact [OF vd(1) this, of "\<lambda>w. 9" "sample_request ''GET'' ''/''" 0] vd show ?thesis
    by (simp add: requested_def sample_request_def sample_two_versions_def sample_override_def)
qed

end
