(* ===== verification/Gateway.thy ===== *)
theory Gateway
  imports Chain
begin

text \<open>
  Building a route, \<open>inner_layers\<close> and \<open>Route::build\<close> of \<open>g2-proxy/src/router.rs\<close>: the layers of
  one API from its definition, composed around the forwarder, once or per version. All layers
  of all routes run over one world: the store, the spike guard, the signing-key cache of each
  scope, the responses being recorded, the counters, the analytics channel, and the upstream
  state of each scope. GraphQL, tracing and metrics layers are parameters. The checker and
  refresher tasks a build spawns are modelled where they live (\<open>Upstream\<close>, \<open>Jwks\<close>); here the
  build returns what they are spawned for.
\<close>

section \<open>The world of the chains\<close>

record ('s, 'k, 'f, 'u, 'e) gateway_world =
  gw_store :: 's
  gw_guard :: "spike_guard option"
  gw_jwks :: "string \<Rightarrow> 'k jwks_cache"
  gw_fetch :: 'f
  gw_tees :: "recording_body list"
  gw_stats :: stats_registry
  gw_analytics :: "analytics_record analytics_channel"
  gw_upstreams :: "string \<Rightarrow> 'u route_state"
  gw_env :: 'e

text \<open>A layer or service over a part of the world, run over the whole of it.\<close>

definition focus_layer :: "('w \<Rightarrow> 'v) \<Rightarrow> ('v \<Rightarrow> 'w) \<Rightarrow> ('h, 'v) layer \<Rightarrow> ('h, 'w) layer" where
  "focus_layer get put l inner req w =
     (case l (\<lambda>q v. case inner q (put v) of (r, w1) \<Rightarrow> (r, get w1)) req (get w) of (r, v) \<Rightarrow> (r, put v))"

definition focus_service :: "('w \<Rightarrow> 'v) \<Rightarrow> ('v \<Rightarrow> 'w \<Rightarrow> 'w) \<Rightarrow> ('h, 'v) service \<Rightarrow> ('h, 'w) service" where
  "focus_service get put svc req w = (case svc req (get w) of (r, v) \<Rightarrow> (r, put v w))"

type_synonym ('s, 'k, 'f, 'u, 'e) gw = "('s, 'k, 'f, 'u, 'e) gateway_world"

definition auth_part :: "string \<Rightarrow> ('s, 'k, 'f, 'u, 'e) gw \<Rightarrow> ('s, 'k, 'f) auth_world" where
  "auth_part scope w = \<lparr>aw_store = gw_store w, aw_jwks = gw_jwks w scope, aw_fetch = gw_fetch w\<rparr>"

definition set_auth_part :: "string \<Rightarrow> ('s, 'k, 'f) auth_world \<Rightarrow> ('s, 'k, 'f, 'u, 'e) gw \<Rightarrow> ('s, 'k, 'f, 'u, 'e) gw" where
  "set_auth_part scope a w =
     w\<lparr>gw_store := aw_store a, gw_jwks := (gw_jwks w)(scope := aw_jwks a), gw_fetch := aw_fetch a\<rparr>"

definition rate_part :: "('s, 'k, 'f, 'u, 'e) gw \<Rightarrow> ('s, ('s, 'k, 'f, 'u, 'e) gw) world" where
  "rate_part w = \<lparr>wd_store = gw_store w, wd_guard = gw_guard w, wd_env = w\<rparr>"

definition of_rate_part :: "('s, ('s, 'k, 'f, 'u, 'e) gw) world \<Rightarrow> ('s, 'k, 'f, 'u, 'e) gw" where
  "of_rate_part v = (wd_env v)\<lparr>gw_store := wd_store v, gw_guard := wd_guard v\<rparr>"

definition cache_part :: "('s, 'k, 'f, 'u, 'e) gw \<Rightarrow> ('s, ('s, 'k, 'f, 'u, 'e) gw) cache_world" where
  "cache_part w = \<lparr>cw_store = gw_store w, cw_tees = gw_tees w, cw_env = w\<rparr>"

definition of_cache_part :: "('s, ('s, 'k, 'f, 'u, 'e) gw) cache_world \<Rightarrow> ('s, 'k, 'f, 'u, 'e) gw" where
  "of_cache_part v = (cw_env v)\<lparr>gw_store := cw_store v, gw_tees := cw_tees v\<rparr>"

section \<open>Resources\<close>

text \<open>\<open>RouteResources\<close>, with the libraries and clocks the layers use.\<close>

record ('h, 'r, 'n, 'k, 'f, 's, 'u, 'g, 'w) route_resources =
  rr_config :: "(body_transforms, 'g, plugins_config) config_ext"
  rr_http :: "'h http_ext"
  rr_regex :: "'r regex_ext"
  rr_net :: "'n ipnet_ext"
  rr_auth :: "'k auth_ext"
  rr_jwks :: "('k, 'f) jwks_ext"
  rr_cache :: "'h cache_ext"
  rr_templates :: "'h template_ext"
  rr_client :: "('h, 'u) client_ext"
  rr_storage :: "'s storage_ops"
  rr_hash_one :: "string \<Rightarrow> u64"
  rr_eager :: "'h response \<Rightarrow> bool"
  rr_auth_clock :: "'w \<Rightarrow> auth_clock"
  rr_rate_clock :: "'w \<Rightarrow> rl_clock"
  rr_cache_clock :: "'w \<Rightarrow> instant"
  rr_unix :: "'w \<Rightarrow> nat"
  rr_analytics_clock :: "'w analytics_clock"
  rr_plugin_loader :: "('h, 'w) plugin_loader option"
  rr_graphql :: "'g \<Rightarrow> (body_transforms, 'g, plugins_config) api_definition \<Rightarrow> string \<Rightarrow> (error, ('h, 'w) layer option) res"
  rr_trace :: "request_context \<Rightarrow> string \<Rightarrow> ('h, 'w) layer"
  rr_metrics :: "(request_context \<Rightarrow> string \<Rightarrow> ('h, 'w) layer) option"
  rr_stats :: bool
  rr_analytics :: bool

type_synonym 'g definition_ = "(body_transforms, 'g, plugins_config) api_definition"

type_synonym ('h, 'r, 'n, 'k, 'f, 's, 'u, 'e, 'g) resources =
  "('h, 'r, 'n, 'k, 'f, 's, 'u, 'g, ('s, 'k, 'f, 'u, 'e) gw) route_resources"

text \<open>The validators of the body-transform and plugin blocks are the modelled ones.\<close>

definition config_of :: "('h, 'r, 'n, 'k, 'f, 's, 'u, 'g, 'w) route_resources \<Rightarrow>
    (body_transforms, 'g, plugins_config) config_ext" where
  "config_of G = (rr_config G)
     \<lparr>ce_body_validate := body_transforms_validate (rr_http G) (rr_regex G) (rr_templates G),
      ce_plugins_validate := plugins_validate\<rparr>"

section \<open>The inner layers\<close>

text \<open>\<open>Option::map(..).transpose()\<close>.\<close>

definition transpose_res :: "('a \<Rightarrow> ('e, 'b) res) \<Rightarrow> 'a option \<Rightarrow> ('e, 'b option) res" where
  "transpose_res f x = (case x of None \<Rightarrow> Ok None | Some a \<Rightarrow> bind_res (f a) (\<lambda>b. Ok (Some b)))"

definition flatten :: "'a option option \<Rightarrow> 'a option" where
  "flatten x = (case x of Some y \<Rightarrow> y | None \<Rightarrow> None)"

definition inner_layers :: "('h, 'r, 'n, 'k, 'f, 's, 'u, 'e, 'g) resources \<Rightarrow> ('h, ('s, 'k, 'f, 'u, 'e) gw) chain_builder \<Rightarrow>
    'g definition_ \<Rightarrow> string \<Rightarrow>
    (error, ('h, ('s, 'k, 'f, 'u, 'e) gw) chain_builder \<times> ('k jwks_cache \<times> duration) option) res" where
  "inner_layers G builder d scope =
     (let X = rr_http G; R = rr_regex G; api_id = ad_api_id d; S = rr_storage G
      in bind_res (auth_from_config X (rr_auth G) (ad_auth d) api_id (ad_org_id d) True) (\<lambda>auth.
         bind_res (endpoint_limits_from_config X R (ad_endpoint_rate_limits d) api_id (ad_org_id d) scope) (\<lambda>endpoint_limits.
         bind_res (transpose_res (\<lambda>t. header_transform_from_config X t api_id) (ad_transform_headers d)) (\<lambda>transform_headers.
         bind_res (transpose_res (\<lambda>t. body_transform_from_config X R (rr_templates G) t (ad_max_request_body_bytes d) api_id)
                     (ad_transform_body d)) (\<lambda>transform_body.
         bind_res (path_policy_from_config X R (ad_allow_paths d) (ad_block_paths d) (ad_ignore_auth_paths d) api_id) (\<lambda>path.
         bind_res (mock_from_config X R (ad_mock_responses d) api_id) (\<lambda>mock.
         bind_res (transpose_res (\<lambda>g. rr_graphql G g d scope) (ad_graphql d)) (\<lambda>graphql.
         bind_res (case ad_plugins d of
                     Some p \<Rightarrow>
                       bind_res (plugin_from_config Pre (pc_pre p) (rr_plugin_loader G) api_id) (\<lambda>pre.
                       bind_res (plugin_from_config Post (pc_post p) (rr_plugin_loader G) api_id) (\<lambda>post. Ok (pre, post)))
                   | None \<Rightarrow> Ok (None, None)) (\<lambda>(plugins_pre, plugins_post).
           Ok (builder
             \<lparr>cb_path_policy := map_option (path_policy X R) path,
              cb_size_limit := map_option (request_size_limit X) (ad_max_request_body_bytes d),
              cb_plugins_pre := map_option (plugin_layer X Pre) plugins_pre,
              cb_auth := map_option (\<lambda>(state, _). auth_layer X (rr_auth G) S (rr_jwks G) state
                           (auth_part scope) (set_auth_part scope) (rr_auth_clock G)) auth,
              cb_rate_limit := (if auth \<noteq> None \<or> endpoint_limits \<noteq> None
                 then Some (focus_layer rate_part of_rate_part (rate_limit_layer X R (rr_hash_one G)
                        \<lparr>rs_api_id = api_id, rs_ops = S, rs_endpoint_limits = endpoint_limits\<rparr> (rr_rate_clock G \<circ> wd_env)))
                 else None),
              cb_plugins_post := map_option (plugin_layer X Post) plugins_post,
              cb_graphql := flatten graphql,
              cb_transform_headers := map_option (header_transformer X) transform_headers,
              cb_transform_body := map_option (body_transformer X R (rr_templates G)) (flatten transform_body),
              cb_mock := map_option (mock_layer X R) mock,
              cb_cache := map_option (\<lambda>c. focus_layer cache_part of_cache_part (cache_layer X (rr_cache G)
                 (au_sha256 (rr_auth G)) S (cache_new c scope (ad_org_id d)) (rr_cache_clock G \<circ> cw_env) (rr_eager G))) (ad_cache d)\<rparr>,
             Option.bind auth snd))))))))))"

section \<open>The route\<close>

definition forward_service :: "('h, 'r, 'n, 'k, 'f, 's, 'u, 'e, 'g) resources \<Rightarrow> string \<Rightarrow> 'r built_target \<Rightarrow>
    ('h, ('s, 'k, 'f, 'u, 'e) gw) service" where
  "forward_service G scope t =
     focus_service (\<lambda>w. gw_upstreams w scope) (\<lambda>s w. w\<lparr>gw_upstreams := (gw_upstreams w)(scope := s)\<rparr>)
       (forward (rr_client G) (rr_http G) (rr_regex G) (bt_target t))"

text \<open>What a build starts beside the chain, per scope: a target to check and refresh, and a key cache to refresh.\<close>

record ('r, 'k) scope_start =
  ss_scope :: string
  ss_target :: "'r built_target"
  ss_keys :: "('k jwks_cache \<times> duration) option"

definition span_name :: "'r built_target \<Rightarrow> string" where
  "span_name t = (if tg_listen_prefix (bt_target t) = [] then ''/'' else tg_listen_prefix (bt_target t))"

definition outer_builder :: "('h, 'r, 'n, 'k, 'f, 's, 'u, 'e, 'g) resources \<Rightarrow> 'g definition_ \<Rightarrow> string \<Rightarrow>
    'n filter_state option \<Rightarrow> cors_state option \<Rightarrow> ('h, ('s, 'k, 'f, 'u, 'e) gw) chain_builder" where
  "outer_builder G d span ipf cors =
     (let X = rr_http G; ctx = \<lparr>cx_api_id = ad_api_id d, cx_org_id = ad_org_id d\<rparr>
      in (chain_builder_new ctx)
           \<lparr>cb_trace := Some (rr_trace G ctx span),
            cb_metrics := map_option (\<lambda>m. m ctx span) (rr_metrics G),
            cb_stats := (if rr_stats G then Some (stats_layer gw_stats (\<lambda>r w. w\<lparr>gw_stats := r\<rparr>) (ad_api_id d)) else None),
            cb_analytics := (if rr_analytics G
               then Some (analytics_layer X (rr_analytics_clock G) gw_analytics (\<lambda>c w. w\<lparr>gw_analytics := c\<rparr>) ctx) else None),
            cb_ip_filter := map_option (ip_filter X (rr_net G)) ipf,
            cb_cors := map_option (cors_layer X) cors\<rparr>)"

definition version_scope :: "string \<Rightarrow> string \<Rightarrow> string" where
  "version_scope api_id name = api_id @ '':'' @ name"

text \<open>
  \<open>Forward::new(forwarder, target)\<close> is an argument \<open>fwd\<close> of the two builds, for the scope and target
  it is called with; \<open>Route::build\<close> is the build around \<open>forward_service\<close>.
\<close>

definition build_version :: "('h, 'r, 'n, 'k, 'f, 's, 'u, 'e, 'g) resources \<Rightarrow>
    (string \<Rightarrow> 'r built_target \<Rightarrow> ('h, ('s, 'k, 'f, 'u, 'e) gw) service) \<Rightarrow> (body_transforms, 'g, plugins_config) versioning_config \<Rightarrow>
    'g definition_ \<Rightarrow> string \<Rightarrow> (error, (string \<times> ('h, ('s, 'k, 'f, 'u, 'e) gw) service) \<times> ('r, 'k) scope_start) res" where
  "build_version G fwd v d name =
     (case versioning_apply v d name of
        None \<Rightarrow> Panic
      | Some vdef \<Rightarrow>
          bind_res (upstream_target_build (config_of G) (rr_http G) (rr_regex G) (rr_net G) vdef) (\<lambda>vtarget.
          let scope = version_scope (ad_api_id vdef) name
          in bind_res (inner_layers G (chain_builder_new \<lparr>cx_api_id = ad_api_id d, cx_org_id = ad_org_id d\<rparr>) vdef scope)
               (\<lambda>(builder, keys).
                 Ok ((name, chain_build_inner (rr_http G) builder (fwd scope vtarget)),
                     \<lparr>ss_scope = scope, ss_target = vtarget, ss_keys = keys\<rparr>))))"

definition route_around :: "('h, 'r, 'n, 'k, 'f, 's, 'u, 'e, 'g) resources \<Rightarrow>
    (string \<Rightarrow> 'r built_target \<Rightarrow> ('h, ('s, 'k, 'f, 'u, 'e) gw) service) \<Rightarrow> 'g definition_ \<Rightarrow>
    (error, ('g definition_, 'h, ('s, 'k, 'f, 'u, 'e) gw) route \<times> ('r, 'k) scope_start list) res" where
  "route_around G fwd d =
     bind_res (upstream_target_build (config_of G) (rr_http G) (rr_regex G) (rr_net G) d) (\<lambda>target.
     bind_res (ip_filter_from_config (rr_net G) (ad_allow_ips d) (ad_block_ips d) (ad_api_id d)) (\<lambda>ipf.
     bind_res (transpose_res (\<lambda>c. cors_from_config (rr_http G) c (ad_api_id d)) (ad_cors d)) (\<lambda>cors.
     let outer = outer_builder G d (span_name target) ipf cors
     in bind_res
          (case ad_versioning d of
             None \<Rightarrow>
               bind_res (inner_layers G outer d (ad_api_id d)) (\<lambda>(builder, keys).
                 Ok (chain_build (rr_http G) builder (fwd (ad_api_id d) target),
                     [\<lparr>ss_scope = ad_api_id d, ss_target = target, ss_keys = keys\<rparr>]))
           | Some v \<Rightarrow>
               bind_res (traverse (build_version G fwd v d) (map fst (vc_versions v))) (\<lambda>versions.
               bind_res (version_dispatch_from_config (rr_http G) v (map fst versions) (ad_api_id d)) (\<lambda>vd.
                 Ok (chain_build_outer outer (version_call (rr_http G) (rr_unix G) vd), map snd versions))))
          (\<lambda>(chain, starts).
             Ok (\<lparr>rt_def = d, rt_listen_prefix = tg_listen_prefix (bt_target target), rt_chain = chain\<rparr>, starts)))))"

definition route_build :: "('h, 'r, 'n, 'k, 'f, 's, 'u, 'e, 'g) resources \<Rightarrow> 'g definition_ \<Rightarrow>
    (error, ('g definition_, 'h, ('s, 'k, 'f, 'u, 'e) gw) route \<times> ('r, 'k) scope_start list) res" where
  "route_build G d = route_around G (forward_service G) d"

section \<open>What the chain lets through\<close>

text \<open>The contract of the layers that are parameters: tracing and metrics pass every request unchanged, GraphQL changes no request's standing.\<close>

definition layers_documented :: "('h, 'r, 'n, 'k, 'f, 's, 'u, 'e, 'g) resources \<Rightarrow> bool" where
  "layers_documented G \<longleftrightarrow>
     (\<forall>ctx span. gate (rr_trace G ctx span) (=)) \<and> (\<forall>m ctx span. rr_metrics G = Some m \<longrightarrow> gate (m ctx span) (=))
     \<and> (\<forall>g d scope l. rr_graphql G g d scope = Ok (Some l) \<longrightarrow> gate l same_standing)"

lemma focus_gate:
  assumes "gate l R"
  shows "gate (focus_layer get put l :: ('h, 'w) layer) (\<lambda>p q. \<exists>x. R (fst p, get (snd p)) (fst q, x) \<and> snd q = put x)"
proof (rule gate.intro)
  fix req w and inner inner' :: "('h, 'w) service"
  assume a: "\<And>q v. \<exists>x. R (fst (req, w), get (snd (req, w))) (fst (q, v), x) \<and> snd (q, v) = put x \<Longrightarrow> inner q v = inner' q v"
  have "l (\<lambda>q v. case inner q (put v) of (r, w1) \<Rightarrow> (r, get w1)) req (get w)
      = l (\<lambda>q v. case inner' q (put v) of (r, w1) \<Rightarrow> (r, get w1)) req (get w)"
  proof (rule gate.consults [OF assms])
    fix q v
    assume "R (req, get w) (q, v)"
    then have "inner q (put v) = inner' q (put v)" by (intro a) auto
    then show "(case inner q (put v) of (r, w1) \<Rightarrow> (r, get w1)) = (case inner' q (put v) of (r, w1) \<Rightarrow> (r, get w1))" by simp
  qed
  then show "focus_layer get put l inner req w = focus_layer get put l inner' req w"
    by (simp add: focus_layer_def)
qed

lemma standing_rate: "gate (focus_layer get put (rate_limit_layer X R h st ck)) same_standing"
  by (rule gate.weaken [OF focus_gate [OF rate_gate.gate_axioms]]) (auto simp: same_standing_def same_origin_def)

lemma standing_cache: "gate (focus_layer get put (cache_layer X K sha S st ck eager)) same_standing"
  by (rule gate.weaken [OF focus_gate [OF cache_gate.gate_axioms]]) (auto simp: same_standing_def same_origin_def)

text \<open>What the path policy of an API, if it has one, says of a request.\<close>

definition path_open :: "'r regex_ext \<Rightarrow> 'r policy_state option \<Rightarrow> 'h request \<Rightarrow> bool" where
  "path_open R path req \<longleftrightarrow>
     (case path of
        None \<Rightarrow> True
      | Some st \<Rightarrow> \<not> any_match R (ps_block st) (rq_method req) (rq_path req)
          \<and> (ps_allow st = [] \<or> any_match R (ps_allow st) (rq_method req) (rq_path req)))"

definition path_ignored :: "'r regex_ext \<Rightarrow> 'r policy_state option \<Rightarrow> 'h request \<Rightarrow> bool" where
  "path_ignored R path req \<longleftrightarrow> (case path of None \<Rightarrow> False | Some st \<Rightarrow> any_match R (ps_ignore st) (rq_method req) (rq_path req))"

text \<open>The session of a request comes from a successful authentication of a request of the same client.\<close>

definition authenticated_as :: "('h, 'r, 'n, 'k, 'f, 's, 'u, 'e, 'g) resources \<Rightarrow> string \<Rightarrow> 'k auth_state \<Rightarrow>
    'h request \<Rightarrow> session_context option \<Rightarrow> bool" where
  "authenticated_as G scope state req session \<longleftrightarrow>
     (\<exists>r v a ctx. same_origin req r \<and> session = Some ctx
        \<and> authenticate (rr_http G) (rr_auth G) (rr_storage G) (rr_jwks G) (rr_auth_clock G v) state r (auth_part scope v)
          = (Ok ctx, a))"

text \<open>What the inner stack lets through.\<close>

definition inner_passes :: "('h, 'r, 'n, 'k, 'f, 's, 'u, 'e, 'g) resources \<Rightarrow> string \<Rightarrow>
    ('k auth_state \<times> ('k jwks_cache \<times> duration) option) option \<Rightarrow> 'r policy_state option \<Rightarrow> 'h request \<Rightarrow> 'h request \<Rightarrow> bool" where
  "inner_passes G scope auth path req q \<longleftrightarrow>
     path_open (rr_regex G) path req \<and> same_origin req q
     \<and> (\<forall>state k. auth = Some (state, k) \<longrightarrow>
          rq_auth_bypass q \<and> (rq_auth_bypass req \<or> path_ignored (rr_regex G) path req)
          \<or> authenticated_as G scope state req (rq_session q))
     \<and> hm_get_all (rr_http G) (rq_headers q) API_ID_HEADER =
         (case Option.bind (rq_context req) (\<lambda>ctx. hv_from_str (rr_http G) (cx_api_id ctx)) of Some v \<Rightarrow> [v] | None \<Rightarrow> [])"

lemma gate_eq_option:
  assumes "\<And>l. x = Some l \<Longrightarrow> gate l (=)"
  shows "gate (option_layer x) (=)"
  using gate_option [of x "(=)", OF assms] by (cases x) auto

lemma outer_gate:
  assumes "layers_documented G"
  shows "gate (chain_build_outer (outer_builder G d span ipf cors))
    (\<lambda>p q. fst q = (fst p)\<lparr>rq_context := Some \<lparr>cx_api_id = ad_api_id d, cx_org_id = ad_org_id d\<rparr>\<rparr>
       \<and> (\<forall>f. ipf = Some f \<longrightarrow> (\<exists>addr. rq_client_addr (fst p) = Some addr \<and> permits (rr_net G) f addr)))"
proof -
  let ?b = "outer_builder G d span ipf cors"
  have obs: "gate (option_layer (cb_trace ?b)) (=)" "gate (option_layer (cb_metrics ?b)) (=)"
    "gate (option_layer (cb_stats ?b)) (=)" "gate (option_layer (cb_analytics ?b)) (=)" "gate (option_layer (cb_cors ?b)) (=)"
    using assms
    by (auto intro!: gate_eq_option simp: outer_builder_def layers_documented_def Let_def stats_gate.gate_axioms
        analytics_gate.gate_axioms cors_gate.gate_axioms split: if_splits)
  have ip: "gate (option_layer (cb_ip_filter ?b)) (case cb_ip_filter ?b of
      Some _ \<Rightarrow> (\<lambda>p q. q = p \<and> (\<exists>addr. rq_client_addr (fst p) = Some addr \<and> permits (rr_net G) (the ipf) addr)) | None \<Rightarrow> (=))"
    by (rule gate_option) (auto simp: outer_builder_def Let_def intro: ip_gate.gate_axioms)
  have ctx: "cb_ctx ?b = \<lparr>cx_api_id = ad_api_id d, cx_org_id = ad_org_id d\<rparr>" "cb_ip_filter ?b = map_option (ip_filter (rr_http G) (rr_net G)) ipf"
    by (simp_all add: outer_builder_def chain_builder_new_def Let_def)
  show ?thesis
    unfolding chain_build_outer_def [abs_def]
    by (rule gate.weaken [OF gate_compose [OF obs(1) gate_compose [OF obs(2) gate_compose [OF obs(3) gate_compose [OF obs(4)
          gate_compose [OF context_gate.gate_axioms gate_compose [OF ip obs(5)]]]]]]])
      (auto simp: ctx OO_def split: option.splits)
qed

lemma path_option_gate:
  "gate (option_layer (map_option (path_policy X R) path))
     (\<lambda>p q. path_open R path (fst p)
        \<and> q = (if path_ignored R path (fst p) then (fst p)\<lparr>rq_auth_bypass := True\<rparr> else fst p, snd p))"
proof (cases path)
  case None
  then show ?thesis by (simp add: option_layer_def [abs_def] path_open_def path_ignored_def gate_def)
next
  case (Some st)
  then show ?thesis
    by (auto simp: option_layer_def [abs_def] path_open_def path_ignored_def intro: gate.weaken [OF path_gate.gate_axioms])
qed

text \<open>The slots of an inner stack, each with the layer that \<open>inner_layers\<close> puts there.\<close>

lemma inner_layers_slots:
  assumes "inner_layers G b0 d scope = Ok (b, keys)"
    and "auth_from_config (rr_http G) (rr_auth G) (ad_auth d) (ad_api_id d) (ad_org_id d) True = Ok auth"
    and "path_policy_from_config (rr_http G) (rr_regex G) (ad_allow_paths d) (ad_block_paths d) (ad_ignore_auth_paths d)
           (ad_api_id d) = Ok path"
  shows "cb_path_policy b = map_option (path_policy (rr_http G) (rr_regex G)) path"
    and "cb_auth b = map_option (\<lambda>(state, _). auth_layer (rr_http G) (rr_auth G) (rr_storage G) (rr_jwks G) state (auth_part scope)
           (set_auth_part scope) (rr_auth_clock G)) auth"
    and "\<And>l. cb_size_limit b = Some l \<Longrightarrow> gate l same_standing" and "\<And>l. cb_plugins_pre b = Some l \<Longrightarrow> gate l same_standing"
    and "\<And>l. cb_rate_limit b = Some l \<Longrightarrow> gate l same_standing" and "\<And>l. cb_plugins_post b = Some l \<Longrightarrow> gate l same_standing"
    and "\<And>l. cb_transform_headers b = Some l \<Longrightarrow> gate l same_standing"
    and "\<And>l. cb_transform_body b = Some l \<Longrightarrow> gate l same_standing"
    and "\<And>l. cb_mock b = Some l \<Longrightarrow> gate l same_standing" and "\<And>l. cb_cache b = Some l \<Longrightarrow> gate l same_standing"
    and "\<And>l. layers_documented G \<Longrightarrow> cb_graphql b = Some l \<Longrightarrow> gate l same_standing"
proof -
  let ?X = "rr_http G" and ?R = "rr_regex G"
  from assms obtain limits th tb mock gql pre post where
    g: "transpose_res (\<lambda>g. rr_graphql G g d scope) (ad_graphql d) = Ok gql"
    and b: "cb_path_policy b = map_option (path_policy ?X ?R) path"
      "cb_size_limit b = map_option (request_size_limit ?X) (ad_max_request_body_bytes d)"
      "cb_plugins_pre b = map_option (plugin_layer ?X Pre) pre"
      "cb_auth b = map_option (\<lambda>(state, _). auth_layer ?X (rr_auth G) (rr_storage G) (rr_jwks G) state (auth_part scope)
           (set_auth_part scope) (rr_auth_clock G)) auth"
      "cb_rate_limit b = (if auth \<noteq> None \<or> limits \<noteq> None then Some (focus_layer rate_part of_rate_part (rate_limit_layer ?X ?R (rr_hash_one G)
          \<lparr>rs_api_id = ad_api_id d, rs_ops = rr_storage G, rs_endpoint_limits = limits\<rparr> (rr_rate_clock G \<circ> wd_env))) else None)"
      "cb_plugins_post b = map_option (plugin_layer ?X Post) post" "cb_graphql b = flatten gql"
      "cb_transform_headers b = map_option (header_transformer ?X) th"
      "cb_transform_body b = map_option (body_transformer ?X ?R (rr_templates G)) (flatten tb)"
      "cb_mock b = map_option (mock_layer ?X ?R) mock"
      "cb_cache b = map_option (\<lambda>c. focus_layer cache_part of_cache_part (cache_layer ?X (rr_cache G)
          (au_sha256 (rr_auth G)) (rr_storage G) (cache_new c scope (ad_org_id d)) (rr_cache_clock G \<circ> cw_env) (rr_eager G))) (ad_cache d)"
    unfolding inner_layers_def Let_def bind_res_Ok by clarsimp
  show "cb_path_policy b = map_option (path_policy ?X ?R) path" by (rule b)
  show "cb_auth b = map_option (\<lambda>(state, _). auth_layer ?X (rr_auth G) (rr_storage G) (rr_jwks G) state (auth_part scope)
           (set_auth_part scope) (rr_auth_clock G)) auth" by (rule b)
  fix l
  show "cb_size_limit b = Some l \<Longrightarrow> gate l same_standing" "cb_plugins_pre b = Some l \<Longrightarrow> gate l same_standing"
    "cb_rate_limit b = Some l \<Longrightarrow> gate l same_standing" "cb_plugins_post b = Some l \<Longrightarrow> gate l same_standing"
    "cb_transform_headers b = Some l \<Longrightarrow> gate l same_standing" "cb_transform_body b = Some l \<Longrightarrow> gate l same_standing"
    "cb_mock b = Some l \<Longrightarrow> gate l same_standing" "cb_cache b = Some l \<Longrightarrow> gate l same_standing"
    unfolding b by (auto simp: standing_layers standing_rate standing_cache split: if_splits)
  show "layers_documented G \<Longrightarrow> cb_graphql b = Some l \<Longrightarrow> gate l same_standing"
    unfolding b using g
    by (auto simp: flatten_def transpose_res_def bind_res_Ok layers_documented_def split: option.splits)
qed

lemma inner_gate:
  assumes "layers_documented G" and "header_map (rr_http G)" and "inner_layers G b0 d scope = Ok (b, keys)"
    and "auth_from_config (rr_http G) (rr_auth G) (ad_auth d) (ad_api_id d) (ad_org_id d) True = Ok auth"
    and "path_policy_from_config (rr_http G) (rr_regex G) (ad_allow_paths d) (ad_block_paths d) (ad_ignore_auth_paths d)
           (ad_api_id d) = Ok path"
  shows "gate (chain_build_inner (rr_http G) b) (\<lambda>p q. inner_passes G scope auth path (fst p) (fst q))"
proof -
  note slots = inner_layers_slots [OF assms(3-5)]
  have auth: "gate (option_layer (cb_auth b)) (\<lambda>p q. (auth = None \<or> rq_auth_bypass (fst p)) \<and> q = p
       \<or> (\<exists>state k ctx aw. auth = Some (state, k)
            \<and> authenticate (rr_http G) (rr_auth G) (rr_storage G) (rr_jwks G) (rr_auth_clock G (snd p)) state (fst p)
              (auth_part scope (snd p)) = (Ok ctx, aw)
            \<and> q = ((fst p)\<lparr>rq_session := Some ctx\<rparr>, set_auth_part scope aw (snd p))))"
    unfolding slots(2)
    by (cases auth) (auto simp: option_layer_def [abs_def] gate_def [of "\<lambda>x. x"] intro!: gate.weaken [OF auth_gate.gate_axioms])
  note above = standing_compose [OF standing_option [OF slots(3)] standing_option [OF slots(4)]]
  note below = standing_compose [OF standing_option [OF slots(5)] standing_compose [OF standing_option [OF slots(6)]
      standing_compose [OF standing_option [OF slots(11) [OF assms(1)]] standing_compose [OF standing_option [OF slots(7)]
      standing_compose [OF standing_option [OF slots(8)] standing_compose [OF standing_option [OF slots(9)]
      standing_option [OF slots(10)]]]]]]]
  note whole = gate_compose [OF path_option_gate gate_compose [OF above gate_compose [OF auth
      gate_compose [OF below api_id_gate.gate_axioms]]]]
  show ?thesis
    unfolding chain_build_inner_def [abs_def] slots(1)
    by (rule gate.weaken [OF whole])
      (auto simp: OO_def inner_passes_def authenticated_as_def same_standing_def same_origin_def
        header_map.get_all_insert [OF assms(2)] header_map.get_all_remove [OF assms(2)] split: if_splits option.splits)
qed

section \<open>Building never fails on validated definitions\<close>

lemma only_invalid_plugins: "only_invalid (plugins_validate c api)"
  by (auto simp: plugins_validate_def plugin_ref_validate_def check_module_path_def Let_def split: option.splits)

lemma only_invalid_body: "only_invalid (body_transforms_validate X R T c api)"
  by (auto simp: body_transforms_validate_def body_rule_validate_def Let_def split: option.splits)

lemma config_of_documented:
  "(\<And>g api. only_invalid (ce_graphql_validate (rr_config G) g api)) \<Longrightarrow> config_documented (config_of G)"
  by (simp add: config_documented_def config_of_def only_invalid_plugins only_invalid_body)

text \<open>A validated authentication block builds, when its PEM key is one.\<close>

lemma auth_header_validated:
  "header_name_check X api h = Ok () \<Longrightarrow> \<exists>n. parse_auth_header X api h = Ok n"
  by (cases "hn_parse X h") (simp_all add: header_name_check_def require_Ok parse_auth_header_def)

lemma jwt_keys_validated:
  assumes "jwt_key_validate api c = Ok ()"
    and "\<And>pem. jw_public_key_pem c = Some pem \<Longrightarrow> \<exists>key. au_pem_key A pem = Inr key"
  shows "\<exists>k. jwt_keys_of A api True c = Ok k"
proof (cases "jw_signing_method c")
  case Hs256
  with assms(1) have "jw_secret c \<noteq> None" by (simp add: jwt_key_validate_def require_Ok Let_def split: option.splits)
  with Hs256 show ?thesis by (clarsimp simp: jwt_keys_of_def Let_def)
next
  case Rs256
  show ?thesis
  proof (cases "jw_jwks_url c")
    case None
    with Rs256 assms(1) obtain pem where pem: "jw_public_key_pem c = Some pem"
      by (simp add: jwt_key_validate_def require_Ok Let_def split: option.splits)
    obtain key where "au_pem_key A pem = Inr key" using assms(2) [OF pem] by blast
    with None Rs256 pem show ?thesis by (simp add: jwt_keys_of_def Let_def)
  next
    case (Some url)
    with Rs256 show ?thesis by (simp add: jwt_keys_of_def Let_def)
  qed
qed

lemma challenge_validated:
  assumes "parsers_documented X" and "basic_auth_validate api realm = Ok ()"
  shows "\<exists>v. hv_from_str X (''Basic realm='' @ [CHR 0x22] @ realm @ [CHR 0x22]) = Some v"
proof -
  have "list_all (\<lambda>c. 32 \<le> (of_char c :: nat) \<and> (of_char c :: nat) \<le> 126 \<and> c \<noteq> CHR 0x22 \<and> c \<noteq> CHR 0x5c) realm"
    using assms(2) unfolding basic_auth_validate_def and_then_Ok require_Ok by (rule conjunct2)
  then have "visible realm" unfolding visible_def by (rule list.pred_mono_strong) linarith
  moreover have "visible ''Basic realm=''" "visible [CHR 0x22]" by (simp_all add: visible_def)
  ultimately have "visible (''Basic realm='' @ [CHR 0x22] @ realm @ [CHR 0x22])" by (simp only: visible_append simp_thms)
  then show ?thesis using assms(1) unfolding parsers_documented_def by metis
qed

lemma auth_validated:
  assumes "parsers_documented X" and "auth_validate pu X cfg api = Ok ()"
    and "\<And>c pem. cfg = Jwt c \<Longrightarrow> jw_public_key_pem c = Some pem \<Longrightarrow> \<exists>key. au_pem_key A pem = Inr key"
  shows "\<exists>a. auth_from_config X A cfg api org True = Ok a"
proof (cases cfg)
  case (AuthToken c)
  then obtain n where "parse_auth_header X api (at_header c) = Ok n"
    using assms(2) auth_header_validated [of X api "at_header c"] by (auto simp: auth_validate_def auth_token_validate_def)
  with AuthToken show ?thesis by (simp add: auth_from_config_def Let_def bind_res_def)
next
  case (Jwt c)
  then have v: "header_name_check X api (jw_header c) = Ok ()" "jwt_key_validate api c = Ok ()"
    using assms(2) by (simp_all add: auth_validate_def jwt_validate_def Let_def)
  obtain keys cache n where "jwt_keys_of A api True c = Ok (keys, cache)" "parse_auth_header X api (jw_header c) = Ok n"
    using jwt_keys_validated [OF v(2), of A] assms(3) [OF Jwt] auth_header_validated [OF v(1)] by auto
  with Jwt show ?thesis by (simp add: auth_from_config_def Let_def bind_res_def)
next
  case (Oidc c)
  then obtain n where "parse_auth_header X api (oi_header c) = Ok n"
    using assms(2) auth_header_validated [of X api "oi_header c"] by (auto simp: auth_validate_def oidc_validate_def Let_def)
  with Oidc show ?thesis by (simp add: auth_from_config_def Let_def bind_res_def)
next
  case (BasicAuth realm)
  then obtain v where "hv_from_str X (''Basic realm='' @ [CHR 0x22] @ realm @ [CHR 0x22]) = Some v"
    using assms(2) challenge_validated [OF assms(1)] by (auto simp: auth_validate_def)
  with BasicAuth show ?thesis by (simp add: auth_from_config_def Let_def)
qed (simp_all add: auth_from_config_def)

lemma compile_rule_validated:
  assumes "parsers_documented X" and "body_rule_validate X R T r api direction i = Ok ()"
  shows "\<exists>c. compile_rule X R T direction api (k, r) = Ok c"
proof -
  have "\<exists>ms. traverse (\<lambda>m. case method_parse X (to_ascii_uppercase m) of
                       Some m' \<Rightarrow> Ok m'
                     | None \<Rightarrow> Err (InvalidApiDefinition api (e m))) (br_methods r) = Ok ms" for e
  proof (rule traverse_total)
    fix m
    assume "m \<in> set (br_methods r)"
    then obtain t where t: "t \<in> set TRANSFORM_METHODS" "eq_ignore_ascii_case t m"
      using assms(2) by (auto simp: body_rule_validate_def validate_methods_Ok Let_def)
    then have "to_ascii_uppercase m = t" using eq_ignore_upper transform_methods_upper by metis
    with t assms(1) show "\<exists>y. (case method_parse X (to_ascii_uppercase m) of
        Some m' \<Rightarrow> Ok m' | None \<Rightarrow> Err (InvalidApiDefinition api (e m))) = Ok y"
      by (simp add: parsers_documented_def)
  qed
  then show ?thesis
    using assms(2)
    by (auto simp: compile_rule_def body_rule_validate_def validate_pattern_def require_Ok Let_def split: sum.splits option.splits)
qed

lemma compile_rules_validated:
  assumes "parsers_documented X" and "validate_each (\<lambda>i r. body_rule_validate X R T r api direction i) 0 rs = Ok ()"
  shows "\<exists>cs. compile_rules X R T rs direction api = Ok cs"
  unfolding compile_rules_def
proof (rule traverse_total)
  fix ir
  assume "ir \<in> set (List.enumerate 0 rs)"
  then have "snd ir \<in> set rs" by (clarsimp simp: in_set_enumerate_eq) (metis nth_mem)
  then obtain j where "body_rule_validate X R T (snd ir) api direction j = Ok ()"
    using validate_each_mem [OF assms(2)] by blast
  from compile_rule_validated [OF assms(1) this, where k = "fst ir"] show "\<exists>c. compile_rule X R T direction api ir = Ok c"
    by simp
qed

lemma body_transform_validated:
  assumes "parsers_documented X" and "body_transforms_validate X R T c api = Ok ()"
  shows "\<exists>s. body_transform_from_config X R T c m api = Ok s"
proof -
  have v: "validate_each (\<lambda>i r. body_rule_validate X R T r api ''request'' i) 0 (bts_request c) = Ok ()"
    "validate_each (\<lambda>i r. body_rule_validate X R T r api ''response'' i) 0 (bts_response c) = Ok ()"
    using assms(2) by (simp_all add: body_transforms_validate_def Let_def)
  obtain a b where "compile_rules X R T (bts_request c) ''request'' api = Ok a"
    "compile_rules X R T (bts_response c) ''response'' api = Ok b"
    using compile_rules_validated [OF assms(1) v(1)] compile_rules_validated [OF assms(1) v(2)] by blast
  then show ?thesis by (simp add: body_transform_from_config_def bind_res_def)
qed

text \<open>
  What a definition names outside itself loads: the plugins it refers to, the schema of its
  GraphQL block, its RSA key.
\<close>

definition artifacts_load :: "('h, 'r, 'n, 'k, 'f, 's, 'u, 'e, 'g) resources \<Rightarrow> 'g definition_ \<Rightarrow> bool" where
  "artifacts_load G d \<longleftrightarrow>
     (\<forall>g. ad_graphql d = Some g \<longrightarrow> (\<forall>scope. \<exists>l. rr_graphql G g d scope = Ok l))
     \<and> (\<forall>p. ad_plugins d = Some p \<longrightarrow> (\<exists>load. rr_plugin_loader G = Some load
          \<and> (\<forall>kind r. r \<in> set (pc_pre p) \<union> set (pc_post p) \<longrightarrow> (\<exists>x. load (ad_api_id d) kind r = Inr x))))
     \<and> (\<forall>c pem. ad_auth d = Jwt c \<longrightarrow> jw_public_key_pem c = Some pem \<longrightarrow> (\<exists>key. au_pem_key (rr_auth G) pem = Inr key))"

lemma plugins_load:
  assumes "rr_plugin_loader G = Some load" and "\<And>r. r \<in> set refs \<Longrightarrow> \<exists>x. load api kind r = Inr x"
  shows "\<exists>ps. plugin_from_config kind refs (rr_plugin_loader G) api = Ok ps"
proof -
  have "\<exists>ps. traverse (\<lambda>r. case load api kind r of Inr exec \<Rightarrow> Ok exec
      | Inl reason \<Rightarrow> Err (InvalidApiDefinition api (''plugin `'' @ pl_name r @ ''` failed to load: '' @ reason))) refs = Ok ps"
    by (rule traverse_total) (use assms(2) in force)
  then show ?thesis by (auto simp: plugin_from_config_def assms(1))
qed

lemma transpose_total: "(\<And>a. x = Some a \<Longrightarrow> \<exists>b. f a = Ok b) \<Longrightarrow> \<exists>y. transpose_res f x = Ok y"
  by (cases x) (auto simp: transpose_res_def)

lemma inner_layers_validated:
  assumes "parsers_documented (rr_http G)" and "api_validate (config_of G) (rr_http G) (rr_regex G) (rr_net G) d = Ok ()"
    and "artifacts_load G d"
  shows "\<exists>r. inner_layers G b0 d scope = Ok r"
proof -
  let ?X = "rr_http G" and ?R = "rr_regex G" and ?api = "ad_api_id d"
  note builds = validated_definition_builds [OF assms(1,2), where scope = scope]
  have vals: "auth_validate (ce_parse_uri (config_of G)) ?X (ad_auth d) ?api = Ok ()"
    "\<And>t. ad_transform_body d = Some t \<Longrightarrow> body_transforms_validate ?X ?R (rr_templates G) t ?api = Ok ()"
    using assms(2) by (auto simp: api_validate_def validate_base_def validate_identity_def validate_rules_def Let_def
        validate_opt_def config_of_def split: if_splits)
  obtain auth where "auth_from_config ?X (rr_auth G) (ad_auth d) ?api (ad_org_id d) True = Ok auth"
    using auth_validated [OF assms(1) vals(1), of "rr_auth G"] assms(3) unfolding artifacts_load_def by blast
  moreover obtain th where "transpose_res (\<lambda>t. header_transform_from_config ?X t ?api) (ad_transform_headers d) = Ok th"
    using transpose_total [of "ad_transform_headers d" "\<lambda>t. header_transform_from_config ?X t ?api"] builds by blast
  moreover obtain tb where "transpose_res (\<lambda>t. body_transform_from_config ?X ?R (rr_templates G) t
      (ad_max_request_body_bytes d) ?api) (ad_transform_body d) = Ok tb"
    using transpose_total [of "ad_transform_body d" "\<lambda>t. body_transform_from_config ?X ?R (rr_templates G) t
      (ad_max_request_body_bytes d) ?api"] body_transform_validated [OF assms(1) vals(2)] by blast
  moreover obtain gql where "transpose_res (\<lambda>g. rr_graphql G g d scope) (ad_graphql d) = Ok gql"
    using transpose_total [of "ad_graphql d" "\<lambda>g. rr_graphql G g d scope"] assms(3) unfolding artifacts_load_def by blast
  moreover obtain pp where "(case ad_plugins d of
         Some p \<Rightarrow>
           bind_res (plugin_from_config Pre (pc_pre p) (rr_plugin_loader G) ?api) (\<lambda>pre.
           bind_res (plugin_from_config Post (pc_post p) (rr_plugin_loader G) ?api) (\<lambda>post. Ok (pre, post)))
       | None \<Rightarrow> Ok (None, None)) = Ok pp"
  proof (cases "ad_plugins d")
    case (Some p)
    then obtain load where l: "rr_plugin_loader G = Some load"
      "\<And>kind r. r \<in> set (pc_pre p) \<union> set (pc_post p) \<Longrightarrow> \<exists>x. load ?api kind r = Inr x"
      using assms(3) unfolding artifacts_load_def by blast
    obtain a b where "plugin_from_config Pre (pc_pre p) (rr_plugin_loader G) ?api = Ok a"
      "plugin_from_config Post (pc_post p) (rr_plugin_loader G) ?api = Ok b"
      using plugins_load [OF l(1), of "pc_pre p" ?api Pre] plugins_load [OF l(1), of "pc_post p" ?api Post] l(2) by blast
    with Some that show ?thesis by (simp add: bind_res_def)
  qed simp
  ultimately show ?thesis using builds by (cases pp) (auto simp: inner_layers_def Let_def bind_res_def)
qed

text \<open>The definitions a build reads layers from: the API's own, or the effective one of each version.\<close>

definition deployable :: "('h, 'r, 'n, 'k, 'f, 's, 'u, 'e, 'g) resources \<Rightarrow> 'g definition_ \<Rightarrow> bool" where
  "deployable G d \<longleftrightarrow>
     (case ad_versioning d of
        None \<Rightarrow> artifacts_load G d
      | Some v \<Rightarrow> distinct (map fst (vc_versions v))
          \<and> (\<forall>name \<in> fst ` set (vc_versions v). \<forall>eff. versioning_apply v d name = Some eff \<longrightarrow> artifacts_load G eff))"

lemma build_version_validated:
  assumes "parsers_documented (rr_http G)" and "config_documented (config_of G)"
    and "api_validate (config_of G) (rr_http G) (rr_regex G) (rr_net G) d = Ok ()"
    and "ad_versioning d = Some v" and "deployable G d" and "name \<in> fst ` set (vc_versions v)"
  shows "\<exists>c. build_version G fwd v d name = Ok c"
proof -
  obtain eff where eff: "versioning_apply v d name = Some eff"
    "api_validate (config_of G) (rr_http G) (rr_regex G) (rr_net G) eff = Ok ()"
    using versions_effective [OF assms(2-4,6)] by blast
  have "artifacts_load G eff" using assms(5,6) eff(1) unfolding deployable_def assms(4) option.case by blast
  note inner = inner_layers_validated [OF assms(1) eff(2) this]
  obtain t where "upstream_target_build (config_of G) (rr_http G) (rr_regex G) (rr_net G) eff = Ok t"
    using target_validated [OF assms(1) eff(2)] by blast
  moreover obtain b keys where "inner_layers G (chain_builder_new \<lparr>cx_api_id = ad_api_id d, cx_org_id = ad_org_id d\<rparr>) eff
      (version_scope (ad_api_id eff) name) = Ok (b, keys)"
    using inner by (metis surj_pair)
  ultimately show ?thesis by (simp add: build_version_def eff(1) bind_res_def Let_def)
qed

lemma build_version_name: "build_version G fwd v d name = Ok c \<Longrightarrow> fst (fst c) = name"
  by (auto simp: build_version_def Let_def split: option.splits)

lemma traverse_names:
  "traverse (build_version G fwd v d) names = Ok cs \<Longrightarrow> map fst (map fst cs) = names"
  by (induction names arbitrary: cs) (auto dest: build_version_name split: res.splits)

lemma versions_validated:
  assumes "parsers_documented (rr_http G)" and "config_documented (config_of G)"
    and "api_validate (config_of G) (rr_http G) (rr_regex G) (rr_net G) d = Ok ()"
    and "ad_versioning d = Some v" and "deployable G d"
  shows "\<exists>cs vd. traverse (build_version G fwd v d) (map fst (vc_versions v)) = Ok cs
    \<and> version_dispatch_from_config (rr_http G) v (map fst cs) (ad_api_id d) = Ok vd"
proof -
  obtain cs where cs: "traverse (build_version G fwd v d) (map fst (vc_versions v)) = Ok cs"
    using traverse_total [of "map fst (vc_versions v)" "build_version G fwd v d"] build_version_validated [OF assms] by auto
  have "map_of (map fst cs) n \<noteq> None" if "n \<in> fst ` set (vc_versions v)" for n
    using that traverse_names [OF cs] unfolding map_of_eq_None_iff by (metis image_set)
  then obtain slots where "version_slots (ad_api_id d) (vc_versions v) (map fst cs) = Ok slots"
    using version_slots_Ok [of "vc_versions v" "map fst cs" "ad_api_id d"] assms(4,5) unfolding deployable_def by auto
  moreover have "vc_location v = VLHeader \<Longrightarrow> hn_parse (rr_http G) (vc_key v) \<noteq> None"
    using assms(3,4) by (simp add: api_validate_def validate_opt_Ok versioning_validate_def require_Ok Let_def)
  ultimately show ?thesis using cs
    by (cases "vc_location v") (auto simp: version_dispatch_from_config_def bind_res_def)
qed

lemma route_build_validated:
  assumes "parsers_documented (rr_http G)" and "config_documented (config_of G)"
    and "api_validate (config_of G) (rr_http G) (rr_regex G) (rr_net G) d = Ok ()" and "deployable G d"
  shows "\<exists>r. route_build G d = Ok r"
proof -
  let ?X = "rr_http G"
  note builds = validated_definition_builds [OF assms(1,3)]
  obtain t ipf where t: "upstream_target_build (config_of G) ?X (rr_regex G) (rr_net G) d = Ok t"
    "ip_filter_from_config (rr_net G) (ad_allow_ips d) (ad_block_ips d) (ad_api_id d) = Ok ipf"
    using builds by blast
  obtain cors where c: "transpose_res (\<lambda>c. cors_from_config ?X c (ad_api_id d)) (ad_cors d) = Ok cors"
    using transpose_total [of "ad_cors d" "\<lambda>c. cors_from_config ?X c (ad_api_id d)"] builds by blast
  show ?thesis
  proof (cases "ad_versioning d")
    case None
    then have "artifacts_load G d" using assms(4) by (simp add: deployable_def)
    from inner_layers_validated [OF assms(1,3) this]
    obtain b keys where "inner_layers G (outer_builder G d (span_name t) ipf cors) d (ad_api_id d) = Ok (b, keys)"
      by (metis surj_pair)
    with None show ?thesis by (simp add: route_build_def route_around_def t c bind_res_def Let_def)
  next
    case (Some v)
    from versions_validated [OF assms(1-3) this assms(4), where fwd = "forward_service G"] Some show ?thesis
      by (auto simp: route_build_def route_around_def t c bind_res_def Let_def)
  qed
qed

lemma route_build_starts:
  assumes "route_build G d = Ok (r, starts)"
  shows "rt_def r = d \<and> length starts = (case ad_versioning d of None \<Rightarrow> 1 | Some v \<Rightarrow> length (vc_versions v))"
proof (cases "ad_versioning d")
  case None
  with assms show ?thesis unfolding route_build_def route_around_def Let_def bind_res_Ok by clarsimp
next
  case (Some v)
  with assms obtain cs where "traverse (build_version G (forward_service G) v d) (map fst (vc_versions v)) = Ok cs" "rt_def r = d" "starts = map snd cs"
    unfolding route_build_def route_around_def Let_def bind_res_Ok by clarsimp
  with Some show ?thesis using traverse_names [of G "forward_service G" v d "map fst (vc_versions v)" cs] by (metis length_map option.simps(5))
qed

section \<open>Properties\<close>

lemma inner_layers_outer:
  "inner_layers G b0 d scope = Ok (b, keys) \<Longrightarrow> chain_build_outer b = chain_build_outer b0"
  unfolding inner_layers_def Let_def bind_res_Ok by (clarsimp simp: chain_build_outer_def [abs_def])

text \<open>
  The definition whose layers stand before the forwarder of a scope: the API's own, or the
  effective one of a version.
\<close>

definition effective_at :: "'g definition_ \<Rightarrow> string \<Rightarrow> 'g definition_ \<Rightarrow> bool" where
  "effective_at d scope eff \<longleftrightarrow>
     (case ad_versioning d of
        None \<Rightarrow> scope = ad_api_id d \<and> eff = d
      | Some v \<Rightarrow> \<exists>name \<in> fst ` set (vc_versions v). versioning_apply v d name = Some eff \<and> scope = version_scope (ad_api_id eff) name)"

text \<open>A request \<open>q\<close> that the inner stack of a definition may send on for the client's request \<open>req\<close>.\<close>

definition inner_admitted :: "('h, 'r, 'n, 'k, 'f, 's, 'u, 'e, 'g) resources \<Rightarrow> 'g definition_ \<Rightarrow> string \<Rightarrow> 'h request \<Rightarrow> 'h request \<Rightarrow> bool" where
  "inner_admitted G eff scope req q \<longleftrightarrow>
     (\<exists>path auth. path_policy_from_config (rr_http G) (rr_regex G) (ad_allow_paths eff) (ad_block_paths eff) (ad_ignore_auth_paths eff)
          (ad_api_id eff) = Ok path
        \<and> auth_from_config (rr_http G) (rr_auth G) (ad_auth eff) (ad_api_id eff) (ad_org_id eff) True = Ok auth
        \<and> inner_passes G scope auth path req q)"

text \<open>A request \<open>q\<close> that an API may send to the upstream of a scope for the client's request \<open>req\<close>.\<close>

definition upstream_admitted :: "('h, 'r, 'n, 'k, 'f, 's, 'u, 'e, 'g) resources \<Rightarrow> 'g definition_ \<Rightarrow> string \<Rightarrow> 'h request \<Rightarrow> 'h request \<Rightarrow> bool" where
  "upstream_admitted G d scope req q \<longleftrightarrow>
     (\<exists>ipf. ip_filter_from_config (rr_net G) (ad_allow_ips d) (ad_block_ips d) (ad_api_id d) = Ok ipf
        \<and> (\<forall>f. ipf = Some f \<longrightarrow> (\<exists>addr. rq_client_addr req = Some addr \<and> permits (rr_net G) f addr)))
     \<and> (\<exists>eff. effective_at d scope eff
          \<and> inner_admitted G eff scope (req\<lparr>rq_context := Some \<lparr>cx_api_id = ad_api_id d, cx_org_id = ad_org_id d\<rparr>\<rparr>) q)"

lemma inner_layers_gate:
  assumes "layers_documented G" and "header_map (rr_http G)" and "inner_layers G b0 d scope = Ok (b, keys)"
  shows "gate (chain_build_inner (rr_http G) b) (\<lambda>p q. inner_admitted G d scope (fst p) (fst q))"
proof -
  from assms(3) obtain auth path where
    a: "auth_from_config (rr_http G) (rr_auth G) (ad_auth d) (ad_api_id d) (ad_org_id d) True = Ok auth"
    "path_policy_from_config (rr_http G) (rr_regex G) (ad_allow_paths d) (ad_block_paths d) (ad_ignore_auth_paths d)
       (ad_api_id d) = Ok path"
    unfolding inner_layers_def Let_def bind_res_Ok by clarsimp
  show ?thesis
    by (rule gate.weaken [OF inner_gate [OF assms a]]) (use a in \<open>auto simp: inner_admitted_def\<close>)
qed

text \<open>Two sets of chains under the same names that answer a request alike in every world, if it is let in.\<close>

definition alike :: "bool \<Rightarrow> 'h request \<Rightarrow> (string \<times> ('h, 'w) service) list \<Rightarrow> (string \<times> ('h, 'w) service) list \<Rightarrow> bool" where
  "alike P req built built' \<longleftrightarrow> list_all2 (\<lambda>(n, c) (n', c'). n = n' \<and> (P \<longrightarrow> (\<forall>w. c req w = c' req w))) built built'"

lemma alike_delete: "alike P req built built' \<Longrightarrow> alike P req (AList.delete n built) (AList.delete n built')"
  unfolding alike_def AList.delete_eq by (induction rule: list_all2_induct) auto

lemma alike_lookup:
  "alike P req built built' \<Longrightarrow> rel_option (\<lambda>c c'. P \<longrightarrow> (\<forall>w. c req w = c' req w)) (map_of built n) (map_of built' n)"
  unfolding alike_def by (induction rule: list_all2_induct) auto

lemma alike_slots:
  assumes "alike P req built built'" and "version_slots api vs built = Ok slots"
  shows "\<exists>slots'. version_slots api vs built' = Ok slots'
    \<and> (\<forall>n. rel_option (\<lambda>s s'. vs_expires_at s = vs_expires_at s' \<and> (P \<longrightarrow> (\<forall>w. vs_chain s req w = vs_chain s' req w))) (map_of slots n) (map_of slots' n))"
  using assms
proof (induction vs arbitrary: built built' slots)
  case (Cons v vs)
  obtain name ov where v: "v = (name, ov)" by fastforce
  from Cons.prems(2) obtain c rest where c: "map_of built name = Some c"
    "version_slots api vs (AList.delete name built) = Ok rest" "slots = (name, \<lparr>vs_chain = c, vs_expires_at = vo_expires_at ov\<rparr>) # rest"
    by (auto simp: v split: option.splits)
  obtain c' where c': "map_of built' name = Some c'" "P \<longrightarrow> (\<forall>w. c req w = c' req w)"
    using alike_lookup [OF Cons.prems(1), of name] c(1) by (auto simp: option_rel_Some1)
  from Cons.IH [OF alike_delete [OF Cons.prems(1)] c(2)] c c' show ?case by (auto simp: v bind_res_def)
qed simp

lemma alike_dispatch:
  assumes "alike P req built built'" and "version_dispatch_from_config X cfg built api = Ok vd"
  shows "\<exists>vd'. version_dispatch_from_config X cfg built' api = Ok vd' \<and> (P \<longrightarrow> (\<forall>w. version_call X now vd req w = version_call X now vd' req w))"
proof -
  from assms(2) obtain sel slots where
    s: "version_slots api (vc_versions cfg) built = Ok slots"
    "vd = \<lparr>vd_selector = sel, vd_default_version = vc_default_version cfg, vd_versions = slots\<rparr>"
    and sel: "\<And>slots'. version_slots api (vc_versions cfg) built' = Ok slots' \<Longrightarrow>
      version_dispatch_from_config X cfg built' api = Ok \<lparr>vd_selector = sel, vd_default_version = vc_default_version cfg, vd_versions = slots'\<rparr>"
    unfolding version_dispatch_from_config_def bind_res_Ok by auto
  obtain slots' where s': "version_slots api (vc_versions cfg) built' = Ok slots'"
    "\<And>n. rel_option (\<lambda>s s'. vs_expires_at s = vs_expires_at s' \<and> (P \<longrightarrow> (\<forall>w. vs_chain s req w = vs_chain s' req w))) (map_of slots n) (map_of slots' n)"
    using alike_slots [OF assms(1) s(1)] by blast
  have "version_call X now vd req w
      = version_call X now \<lparr>vd_selector = sel, vd_default_version = vc_default_version cfg, vd_versions = slots'\<rparr> req w" if P for w
    using that s'(2) [of "the (case requested X sel req of Some name \<Rightarrow> Some name | None \<Rightarrow> vc_default_version cfg)"]
    by (auto simp: version_call_def s(2) elim!: option.rel_cases split: option.splits)
  with sel [OF s'(1)] show ?thesis by blast
qed

lemma build_version_alike:
  assumes "layers_documented G" and "header_map (rr_http G)" and "build_version G fwd v d name = Ok c"
    and "\<And>eff q x. P \<Longrightarrow> versioning_apply v d name = Some eff \<Longrightarrow> inner_admitted G eff (ss_scope (snd c)) req q \<Longrightarrow>
      ss_scope (snd c) = version_scope (ad_api_id eff) name \<Longrightarrow>
      fwd (ss_scope (snd c)) (ss_target (snd c)) q x = fwd' (ss_scope (snd c)) (ss_target (snd c)) q x"
  shows "\<exists>c'. build_version G fwd' v d name = Ok c' \<and> snd c' = snd c \<and> alike P req [fst c] [fst c']"
proof -
  from assms(3) obtain eff t b keys where e: "versioning_apply v d name = Some eff"
    and t: "upstream_target_build (config_of G) (rr_http G) (rr_regex G) (rr_net G) eff = Ok t"
    and b: "inner_layers G (chain_builder_new \<lparr>cx_api_id = ad_api_id d, cx_org_id = ad_org_id d\<rparr>) eff (version_scope (ad_api_id eff) name) = Ok (b, keys)"
    and c: "c = ((name, chain_build_inner (rr_http G) b (fwd (version_scope (ad_api_id eff) name) t)),
      \<lparr>ss_scope = version_scope (ad_api_id eff) name, ss_target = t, ss_keys = keys\<rparr>)"
    by (auto simp: build_version_def Let_def split: option.splits)
  have "chain_build_inner (rr_http G) b (fwd (version_scope (ad_api_id eff) name) t) req w
      = chain_build_inner (rr_http G) b (fwd' (version_scope (ad_api_id eff) name) t) req w" if P for w
    by (rule gate.consults [OF inner_layers_gate [OF assms(1,2) b]]) (use assms(4) [OF that e] in \<open>simp add: c\<close>)
  then show ?thesis by (simp add: build_version_def e t b Let_def bind_res_def c alike_def)
qed

lemma build_versions_alike:
  assumes "layers_documented G" and "header_map (rr_http G)" and "traverse (build_version G fwd v d) names = Ok cs"
    and "\<And>s name eff q x. P \<Longrightarrow> s \<in> snd ` set cs \<Longrightarrow> name \<in> set names \<Longrightarrow> versioning_apply v d name = Some eff \<Longrightarrow>
      inner_admitted G eff (ss_scope s) req q \<Longrightarrow> ss_scope s = version_scope (ad_api_id eff) name \<Longrightarrow>
      fwd (ss_scope s) (ss_target s) q x = fwd' (ss_scope s) (ss_target s) q x"
  shows "\<exists>cs'. traverse (build_version G fwd' v d) names = Ok cs' \<and> map snd cs' = map snd cs \<and> alike P req (map fst cs) (map fst cs')"
  using assms(3,4)
proof (induction names arbitrary: cs)
  case Nil
  then show ?case by (simp add: alike_def)
next
  case (Cons name names)
  from Cons.prems(1) obtain c cs1 where c: "build_version G fwd v d name = Ok c" "traverse (build_version G fwd v d) names = Ok cs1" "cs = c # cs1"
    by (auto split: res.splits)
  obtain c' where c': "build_version G fwd' v d name = Ok c'" "snd c' = snd c" "alike P req [fst c] [fst c']"
    using build_version_alike [OF assms(1,2) c(1), where P = P and req = req and fwd' = fwd'] Cons.prems(2) [of "snd c" name] c(3) by auto
  obtain cs' where cs': "traverse (build_version G fwd' v d) names = Ok cs'" "map snd cs' = map snd cs1" "alike P req (map fst cs1) (map fst cs')"
    using Cons.IH [OF c(2)] Cons.prems(2) c(3) by (metis (no_types, lifting) image_insert insert_iff list.set(2))
  from c c' cs' show ?case by (simp add: alike_def)
qed

text \<open>
  C1. The upstream is reached only through the gates: a route of any definition, versioned or
  not, may be built around any other service in the forwarder's place, and as long as that
  service answers like the forwarder on the admitted requests, no answer to the client and no
  state changes. Admitted for the upstream of a scope means: the address filter permits the
  client; the paths of the definition in force there (the API's own or the version's) are open
  to the request; it is the request of the same client on the same connection; unless that
  definition is keyless, it carries the session of a successful authentication under it, or
  the path is exempt; and its \<open>x-g2-api-id\<close> header is the gateway's.
\<close>

theorem upstream_only_through_gates:
  assumes "layers_documented G" and "header_map (rr_http G)" and "route_build G d = Ok (r, starts)"
    and "\<And>s q v. s \<in> set starts \<Longrightarrow> upstream_admitted G d (ss_scope s) req q \<Longrightarrow>
      svc (ss_scope s) (ss_target s) q v = forward_service G (ss_scope s) (ss_target s) q v"
  shows "\<exists>r'. route_around G svc d = Ok (r', starts) \<and> (\<forall>w. rt_chain r' req w = rt_chain r req w)"
proof -
  from assms(3) obtain target ipf cors where
    t: "upstream_target_build (config_of G) (rr_http G) (rr_regex G) (rr_net G) d = Ok target"
    "ip_filter_from_config (rr_net G) (ad_allow_ips d) (ad_block_ips d) (ad_api_id d) = Ok ipf"
    "transpose_res (\<lambda>c. cors_from_config (rr_http G) c (ad_api_id d)) (ad_cors d) = Ok cors"
    unfolding route_build_def route_around_def Let_def bind_res_Ok by clarsimp
  let ?outer = "outer_builder G d (span_name target) ipf cors"
  let ?stamped = "req\<lparr>rq_context := Some \<lparr>cx_api_id = ad_api_id d, cx_org_id = ad_org_id d\<rparr>\<rparr>"
  have outer: "chain_build_outer ?outer inner req w = chain_build_outer ?outer inner' req w"
    if "(\<forall>f. ipf = Some f \<longrightarrow> (\<exists>addr. rq_client_addr req = Some addr \<and> permits (rr_net G) f addr)) \<Longrightarrow> \<forall>v. inner ?stamped v = inner' ?stamped v"
    for inner inner' w
    by (rule gate.consults [OF outer_gate [OF assms(1)]]) (use that in auto)
  show ?thesis
  proof (cases "ad_versioning d")
    case None
    with assms(3) obtain b keys where b: "inner_layers G ?outer d (ad_api_id d) = Ok (b, keys)"
      and r: "rt_chain r = chain_build (rr_http G) b (forward_service G (ad_api_id d) target)"
      "starts = [\<lparr>ss_scope = ad_api_id d, ss_target = target, ss_keys = keys\<rparr>]"
      unfolding route_build_def route_around_def Let_def bind_res_Ok by (clarsimp simp: t)
    have "chain_build (rr_http G) b (svc (ad_api_id d) target) req w = rt_chain r req w" for w
      unfolding r(1) chain_build_composed inner_layers_outer [OF b]
    proof (rule outer, intro allI)
      fix v assume "\<forall>f. ipf = Some f \<longrightarrow> (\<exists>addr. rq_client_addr req = Some addr \<and> permits (rr_net G) f addr)"
      with t(2) None assms(4) show "chain_build_inner (rr_http G) b (svc (ad_api_id d) target) ?stamped v
          = chain_build_inner (rr_http G) b (forward_service G (ad_api_id d) target) ?stamped v"
        by (intro gate.consults [OF inner_layers_gate [OF assms(1,2) b]]) (simp add: r(2) upstream_admitted_def effective_at_def)
    qed
    with None show ?thesis by (simp add: route_around_def t b Let_def bind_res_def r(2))
  next
    case (Some v)
    with assms(3) obtain cs vd where cs: "traverse (build_version G (forward_service G) v d) (map fst (vc_versions v)) = Ok cs"
      "version_dispatch_from_config (rr_http G) v (map fst cs) (ad_api_id d) = Ok vd"
      and r: "rt_chain r = chain_build_outer ?outer (version_call (rr_http G) (rr_unix G) vd)" "starts = map snd cs"
      unfolding route_build_def route_around_def Let_def bind_res_Ok by (clarsimp simp: t)
    let ?P = "\<forall>f. ipf = Some f \<longrightarrow> (\<exists>addr. rq_client_addr req = Some addr \<and> permits (rr_net G) f addr)"
    have "\<exists>cs'. traverse (build_version G svc v d) (map fst (vc_versions v)) = Ok cs' \<and> map snd cs' = map snd cs
        \<and> alike ?P ?stamped (map fst cs) (map fst cs')"
    proof (rule build_versions_alike [OF assms(1,2) cs(1)])
      fix s name eff q x
      assume ?P and s: "s \<in> snd ` set cs" "name \<in> set (map fst (vc_versions v))" "versioning_apply v d name = Some eff"
        "inner_admitted G eff (ss_scope s) ?stamped q" "ss_scope s = version_scope (ad_api_id eff) name"
      then have "upstream_admitted G d (ss_scope s) req q"
        using t(2) Some by (auto simp: upstream_admitted_def effective_at_def)
      with assms(4) [of s q x] s(1) show "forward_service G (ss_scope s) (ss_target s) q x = svc (ss_scope s) (ss_target s) q x"
        by (simp add: r(2))
    qed
    then obtain cs' where cs': "traverse (build_version G svc v d) (map fst (vc_versions v)) = Ok cs'" "map snd cs' = map snd cs"
      "alike ?P ?stamped (map fst cs) (map fst cs')" by blast
    obtain vd' where vd': "version_dispatch_from_config (rr_http G) v (map fst cs') (ad_api_id d) = Ok vd'"
      "?P \<longrightarrow> (\<forall>w. version_call (rr_http G) (rr_unix G) vd ?stamped w = version_call (rr_http G) (rr_unix G) vd' ?stamped w)"
      using alike_dispatch [OF cs'(3) cs(2)] by blast
    have "chain_build_outer ?outer (version_call (rr_http G) (rr_unix G) vd') req w = rt_chain r req w" for w
      unfolding r(1) by (rule outer) (use vd'(2) in simp)
    with Some show ?thesis by (simp add: route_around_def t cs'(1,2) vd'(1) Let_def bind_res_def r(2))
  qed
qed

text \<open>An API with token authentication and a blocked path, and the resources to build it.\<close>

definition secured_definition :: "unit definition_" where
  "secured_definition = \<lparr>ad_api_id = ''users'', ad_name = ''Users'', ad_org_id = ''default'',
     ad_listen_path = ''/users/'', ad_target_url = ''http://h/v1'', ad_target_list = [],
     ad_strip_listen_path = True, ad_preserve_host_header = False, ad_upstream_timeout_ms = 1,
     ad_active = True, ad_auth = AuthToken \<lparr>at_header = ''authorization'', at_query_param = None, at_cookie = None\<rparr>,
     ad_transform_headers = None, ad_transform_body = None,
     ad_url_rewrites = [], ad_transform_method = None, ad_allow_paths = [],
     ad_block_paths = [\<lparr>pr_pattern = ''/x'', pr_methods = []\<rparr>], ad_ignore_auth_paths = [],
     ad_mock_responses = [], ad_endpoint_rate_limits = [], ad_cors = None, ad_allow_ips = [], ad_block_ips = [],
     ad_max_request_body_bytes = Some 5, ad_health_check = None, ad_service_discovery = None,
     ad_circuit_breaker = None, ad_upstream_retries = 2, ad_enable_upgrades = False, ad_upstream_http2 = False,
     ad_cache = None, ad_versioning = None, ad_graphql = None, ad_plugins = None\<rparr>"

definition sample_resources :: "(alist_headers, string, ip_addr, string, unit, memory_storage,
    alist_headers upstream_request list \<times> alist_headers exchange list, unit, unit) resources" where
  "sample_resources = \<lparr>rr_config = \<lparr>ce_parse_uri = sample_parse_uri, ce_path_and_query_ok = (\<lambda>p. visible p),
       ce_body_validate = (\<lambda>b api. Ok ()), ce_graphql_validate = (\<lambda>g api. Ok ()),
       ce_graphql_subscriptions = (\<lambda>g. False), ce_plugins_validate = (\<lambda>p api. Ok ())\<rparr>,
     rr_http = alist_ext, rr_regex = literal_ext, rr_net = sample_net, rr_auth = sample_auth, rr_jwks = sample_jwks,
     rr_cache = sample_cache_ext, rr_templates = sample_templates, rr_client = scripted, rr_storage = memory_ops,
     rr_hash_one = (\<lambda>_. 0), rr_eager = (\<lambda>_. True), rr_auth_clock = (\<lambda>_. sample_auth_clock), rr_rate_clock = (\<lambda>_. sample_clock 0),
     rr_cache_clock = (\<lambda>_. 0), rr_unix = (\<lambda>_. 0), rr_analytics_clock = \<lparr>ay_unix = (\<lambda>_. None), ay_now = (\<lambda>_. 0)\<rparr>,
     rr_plugin_loader = None, rr_graphql = (\<lambda>_ _ _. Ok None), rr_trace = (\<lambda>_ _ inner. inner), rr_metrics = None,
     rr_stats = True, rr_analytics = True\<rparr>"

lemma secured_sel:
  "ad_api_id secured_definition = ''users''" "ad_name secured_definition = ''Users''"
  "ad_org_id secured_definition = ''default''" "ad_listen_path secured_definition = ''/users/''"
  "ad_target_url secured_definition = ''http://h/v1''" "ad_target_list secured_definition = []"
  "ad_upstream_timeout_ms secured_definition = 1"
  "ad_auth secured_definition = AuthToken \<lparr>at_header = ''authorization'', at_query_param = None, at_cookie = None\<rparr>"
  "ad_transform_headers secured_definition = None" "ad_transform_body secured_definition = None"
  "ad_url_rewrites secured_definition = []" "ad_transform_method secured_definition = None"
  "ad_allow_paths secured_definition = []" "ad_block_paths secured_definition = [\<lparr>pr_pattern = ''/x'', pr_methods = []\<rparr>]"
  "ad_ignore_auth_paths secured_definition = []" "ad_mock_responses secured_definition = []"
  "ad_endpoint_rate_limits secured_definition = []" "ad_cors secured_definition = None"
  "ad_allow_ips secured_definition = []" "ad_block_ips secured_definition = []"
  "ad_max_request_body_bytes secured_definition = Some 5" "ad_health_check secured_definition = None"
  "ad_service_discovery secured_definition = None" "ad_circuit_breaker secured_definition = None"
  "ad_upstream_retries secured_definition = 2" "ad_enable_upgrades secured_definition = False"
  "ad_upstream_http2 secured_definition = False" "ad_cache secured_definition = None"
  "ad_versioning secured_definition = None" "ad_graphql secured_definition = None" "ad_plugins secured_definition = None"
  by (simp_all add: secured_definition_def)

lemma sample_resources_sel:
  "rr_http sample_resources = alist_ext" "rr_regex sample_resources = literal_ext" "rr_net sample_resources = sample_net"
  "ce_parse_uri (config_of sample_resources) = sample_parse_uri" "ce_path_and_query_ok (config_of sample_resources) = visible"
  "ce_graphql_validate (rr_config sample_resources) = (\<lambda>g api. Ok ())"
  by (simp_all add: sample_resources_def config_of_def)

lemma secured_valid:
  "api_validate (config_of sample_resources) (rr_http sample_resources) (rr_regex sample_resources) (rr_net sample_resources)
     secured_definition = Ok ()"
  unfolding api_validate_def validate_base_def validate_unfold secured_sel sample_resources_sel
  by (simp add: sample_url_ok auth_validate_def auth_token_validate_def header_name_check_def graphic_def path_rule_validate_def
      validate_pattern_def literal_ext_def alist_ext_def token_def require_Ok blank_opt_def)

lemma secured_deployable: "deployable sample_resources secured_definition"
  by (simp add: deployable_def artifacts_load_def secured_sel)

lemma sample_documented: "layers_documented sample_resources"
  by (simp add: layers_documented_def sample_resources_def gate_def)

lemma sample_config_documented: "config_documented (config_of sample_resources)"
  by (rule config_of_documented) (simp add: sample_resources_sel)

theorem upstream_only_through_gates_witness:
  "\<exists>r starts r'. route_build sample_resources secured_definition = Ok (r, starts)
    \<and> route_around sample_resources (\<lambda>scope target q v.
         if upstream_admitted sample_resources secured_definition scope (sample_request ''GET'' ''/x'') q
         then forward_service sample_resources scope target q v else (None, v)) secured_definition = Ok (r', starts)
    \<and> (\<forall>w. rt_chain r' (sample_request ''GET'' ''/x'') w = rt_chain r (sample_request ''GET'' ''/x'') w)"
proof -
  obtain r starts where r: "route_build sample_resources secured_definition = Ok (r, starts)"
    using route_build_validated [OF _ sample_config_documented secured_valid secured_deployable] alist_documented
    by (auto simp: sample_resources_sel)
  have "header_map (rr_http sample_resources)" by (simp add: sample_resources_sel alist.header_map_axioms)
  from upstream_only_through_gates [OF sample_documented this r] r show ?thesis by simp
qed

text \<open>
  C10. Every validated definition becomes a route: when \<open>ApiDefinition::validate\<close> accepts it, the
  method and header parsers behave as documented, and what it names outside itself loads, then
  \<open>Route::build\<close> returns a route, also for a versioned API, whose every version builds; no
  configuration that passed validation fails or panics later.
\<close>

theorem validated_route_builds:
  assumes "parsers_documented (rr_http G)" and "\<And>g api. only_invalid (ce_graphql_validate (rr_config G) g api)"
    and "api_validate (config_of G) (rr_http G) (rr_regex G) (rr_net G) d = Ok ()" and "deployable G d"
  shows "\<exists>r starts. route_build G d = Ok (r, starts) \<and> rt_def r = d
    \<and> length starts = (case ad_versioning d of None \<Rightarrow> 1 | Some v \<Rightarrow> length (vc_versions v))"
proof -
  obtain r starts where r: "route_build G d = Ok (r, starts)"
    using route_build_validated [OF assms(1) config_of_documented [OF assms(2)] assms(3,4)] by auto
  with route_build_starts [OF r] show ?thesis by blast
qed

theorem validated_route_builds_witness:
  "\<exists>r starts. route_build sample_resources secured_definition = Ok (r, starts) \<and> length starts = 1"
  using validated_route_builds [OF _ _ secured_valid secured_deployable] alist_documented
  by (auto simp: sample_resources_sel secured_sel)

end
