(* ===== verification/No_Panic.thy ===== *)
theory No_Panic
  imports Gateway
begin

text \<open>
  The builds of \<open>g2-proxy/src/router.rs\<close> do not panic, whatever the definitions: what the validators
  and the \<open>from_config\<close> functions refuse is an error, and the \<open>expect\<close>s of the builds (a target
  address that was checked, a version of the versions map) are not reached, because
  \<open>UpstreamTarget::build\<close> validates first.
\<close>

section \<open>Sequencing\<close>

lemma bind_res_Panic: "bind_res r k = Panic \<longleftrightarrow> r = Panic \<or> (\<exists>x. r = Ok x \<and> k x = Panic)"
  by (cases r) (simp_all add: bind_res_def)

lemma traverse_Panic: "traverse f xs = Panic \<Longrightarrow> \<exists>x \<in> set xs. f x = Panic"
  by (induction xs) (auto split: res.splits)

lemma traverse_no_panic: "(\<And>x. x \<in> set xs \<Longrightarrow> f x \<noteq> Panic) \<Longrightarrow> traverse f xs \<noteq> Panic"
  using traverse_Panic by blast

lemma and_then_Panic: "and_then r k = Panic \<longleftrightarrow> r = Panic \<or> (r = Ok () \<and> k = Panic)"
  by (cases r) (simp_all add: and_then_def)

lemma require_no_panic [simp]: "require b e \<noteq> Panic"
  by (simp add: require_def)

lemma validate_opt_Panic: "validate_opt f x = Panic \<longleftrightarrow> (\<exists>v. x = Some v \<and> f v = Panic)"
  by (cases x) (simp_all add: validate_opt_def)

lemma validate_each_no_panic: "(\<And>i x. f i x \<noteq> Panic) \<Longrightarrow> validate_each f i xs \<noteq> Panic"
  by (induction xs arbitrary: i) (auto simp: and_then_Panic split: if_splits)

lemma wrap_err_Panic: "wrap_err f r = Panic \<longleftrightarrow> r = Panic"
  by (cases r) (simp_all add: wrap_err_def)

lemma first_failure_no_panic [simp]: "first_failure ok f xs \<noteq> Panic"
  by (induction xs) auto

lemma transpose_res_Panic: "transpose_res f x = Panic \<longleftrightarrow> (\<exists>a. x = Some a \<and> f a = Panic)"
  by (cases x) (auto simp: transpose_res_def bind_res_Panic)

lemmas sequence_Panic = bind_res_Panic and_then_Panic validate_opt_Panic wrap_err_Panic transpose_res_Panic

section \<open>Validation\<close>

lemma check_target_url_no_panic [simp]: "check_target_url p url \<noteq> Panic"
  by (auto simp: check_target_url_def split: sum.splits)

lemma validate_lists_no_panic [simp]:
  "validate_pattern R p api l i \<noteq> Panic" "validate_methods ms api l i \<noteq> Panic" "mock_headers_validate X fl i nvs \<noteq> Panic"
  "add_rules_validate X api dir nvs \<noteq> Panic" "remove_rules_validate X api dir ns \<noteq> Panic" "validate_ip_list N xs api f \<noteq> Panic"
  subgoal by (auto simp: validate_pattern_def split: sum.splits)
  subgoal by (induction ms) (auto simp: and_then_Panic split: if_splits)
  subgoal by (induction nvs) (auto simp: and_then_Panic split: if_splits)
  subgoal by (induction nvs) (auto simp: and_then_Panic split: if_splits)
  subgoal by (induction ns) (auto simp: and_then_Panic split: if_splits)
  subgoal by (induction xs) (auto simp: and_then_Panic split: if_splits)
  done

lemma auth_validate_no_panic [simp]: "auth_validate p X a api \<noteq> Panic"
  by (auto simp: sequence_Panic auth_validate_def auth_token_validate_def jwt_validate_def jwt_key_validate_def oidc_validate_def
      basic_auth_validate_def hmac_validate_def header_name_check_def jwks_url_check_def Let_def
      split: auth_config.splits jwt_signing_method.splits option.splits)

lemma validate_identity_no_panic: "validate_identity E X d \<noteq> Panic"
  by (simp add: validate_identity_def Let_def sequence_Panic validate_each_no_panic)

lemma validate_rules_no_panic:
  assumes "\<And>b api. ce_body_validate E b api \<noteq> Panic"
  shows "validate_rules E X R N d \<noteq> Panic"
proof -
  have "header_transforms_validate X t api \<noteq> Panic" "url_rewrite_validate R u api i \<noteq> Panic" "validate_transform_method m api \<noteq> Panic"
    "path_rule_validate R p api l i \<noteq> Panic" "mock_response_validate X R mk api i \<noteq> Panic" "endpoint_rate_limit_validate R e api i \<noteq> Panic"
    "cors_validate pu X c api \<noteq> Panic" for t u m p mk e c api l i pu
    by (auto simp: sequence_Panic header_transforms_validate_def header_transform_validate_def url_rewrite_validate_def
        validate_transform_method_def path_rule_validate_def mock_response_validate_def endpoint_rate_limit_validate_def cors_validate_def Let_def
        split: sum.splits)
  with assms show ?thesis by (simp add: validate_rules_def Let_def sequence_Panic validate_each_no_panic)
qed

lemma validate_upstream_no_panic:
  assumes "\<And>g api. ce_graphql_validate E g api \<noteq> Panic" and "\<And>p api. ce_plugins_validate E p api \<noteq> Panic"
  shows "validate_upstream E d \<noteq> Panic"
  using assms by (auto simp: validate_upstream_def sequence_Panic health_check_validate_def service_discovery_validate_def check_data_path_def
      circuit_breaker_validate_def cache_validate_def Let_def split: option.splits)

lemma plugins_validate_no_panic [simp]: "plugins_validate c api \<noteq> Panic"
  by (auto simp: plugins_validate_def plugin_ref_validate_def check_module_path_def Let_def sequence_Panic validate_each_no_panic split: option.splits)

lemma body_transforms_validate_no_panic [simp]: "body_transforms_validate X R T c api \<noteq> Panic"
  by (auto simp: body_transforms_validate_def body_rule_validate_def Let_def sequence_Panic validate_each_no_panic split: option.splits sum.splits)

text \<open>What the parameters of a build promise: the GraphQL validator and the GraphQL layer do not panic.\<close>

definition graphql_no_panic :: "('h, 'r, 'n, 'k, 'f, 's, 'u, 'e, 'g) resources \<Rightarrow> bool" where
  "graphql_no_panic G \<longleftrightarrow>
     (\<forall>g api. ce_graphql_validate (rr_config G) g api \<noteq> Panic) \<and> (\<forall>g d scope. rr_graphql G g d scope \<noteq> Panic)"

lemma validate_base_no_panic:
  assumes "graphql_no_panic G"
  shows "validate_base (config_of G) X R N d \<noteq> Panic"
proof -
  have "ce_body_validate (config_of G) b api \<noteq> Panic" "ce_graphql_validate (config_of G) g api \<noteq> Panic"
    "ce_plugins_validate (config_of G) p api \<noteq> Panic" for b g p api
    using assms by (simp_all add: config_of_def graphql_no_panic_def)
  then show ?thesis
    by (simp add: validate_base_def and_then_Panic validate_identity_no_panic validate_rules_no_panic validate_upstream_no_panic)
qed

lemma versions_validate_no_panic:
  assumes "graphql_no_panic G" and "fst ` set vs \<subseteq> fst ` set (vc_versions v)"
  shows "versions_validate (config_of G) X R N v d vs \<noteq> Panic"
  using assms(2)
proof (induction vs)
  case (Cons nov vs)
  obtain n ov where nov: "nov = (n, ov)" by fastforce
  then have "versioning_apply v d n \<noteq> None" using Cons.prems by (force simp: versioning_apply_def map_of_eq_None_iff split: option.splits)
  with Cons show ?case by (auto simp: nov validate_base_no_panic [OF assms(1)] split: if_splits res.splits error.splits)
qed simp

lemma api_validate_no_panic:
  assumes "graphql_no_panic G"
  shows "api_validate (config_of G) X R N d \<noteq> Panic"
  by (auto simp: api_validate_def sequence_Panic validate_base_no_panic [OF assms] versioning_validate_def Let_def
      versions_validate_no_panic [OF assms] split: option.splits version_location.splits)

section \<open>Building\<close>

lemma compile_parts_no_panic [simp]:
  "compile_regex R what api p \<noteq> Panic" "compile_methods X what api ms \<noteq> Panic" "parse_auth_header X api h \<noteq> Panic"
  by (auto simp: compile_regex_def compile_methods_def parse_auth_header_def split: sum.splits option.splits intro!: traverse_no_panic)

lemma compiled_rule_no_panic [simp]: "compile_list X R api rules \<noteq> Panic"
  by (auto simp: compile_list_def compiled_rule_compile_def bind_res_Panic intro!: traverse_no_panic)

lemma version_slots_no_panic: "version_slots api vs built \<noteq> Panic"
  by (induction vs arbitrary: built) (auto simp: bind_res_Panic split: option.splits)

lemma from_config_no_panic:
  "auth_from_config X A cfg api org fetch \<noteq> Panic" "endpoint_limits_from_config X R ls api org scope \<noteq> Panic"
  "header_transform_from_config X t api \<noteq> Panic" "body_transform_from_config X R T bt m api \<noteq> Panic"
  "path_policy_from_config X R a b i api \<noteq> Panic" "mock_from_config X R mocks api \<noteq> Panic"
  "plugin_from_config kind refs loader api \<noteq> Panic" "ip_filter_from_config N ai bi api \<noteq> Panic" "cors_from_config X c api \<noteq> Panic"
  "version_dispatch_from_config X v built api \<noteq> Panic"
  subgoal by (auto simp: auth_from_config_def jwt_keys_of_def Let_def bind_res_Panic split: auth_config.splits option.splits jwt_signing_method.splits sum.splits)
  subgoal by (auto simp: endpoint_limits_from_config_def compile_endpoint_limit_def bind_res_Panic dest!: traverse_Panic)
  subgoal by (auto simp: header_transform_from_config_def compiled_rules_compile_def parse_name_def bind_res_Panic dest!: traverse_Panic split: option.splits)
  subgoal by (auto simp: body_transform_from_config_def compile_rules_def compile_rule_def Let_def bind_res_Panic dest!: traverse_Panic split: option.splits sum.splits)
  subgoal by (auto simp: path_policy_from_config_def bind_res_Panic)
  subgoal by (auto simp: mock_from_config_def compiled_mock_compile_def bind_res_Panic dest!: traverse_Panic split: option.splits)
  subgoal by (auto simp: plugin_from_config_def bind_res_Panic dest!: traverse_Panic split: option.splits sum.splits)
  subgoal by (auto simp: ip_filter_from_config_def parse_ip_list_def bind_res_Panic dest!: traverse_Panic split: option.splits)
  subgoal by (auto simp: cors_from_config_def cors_join_def cors_join_opt_def cors_max_age_def bind_res_Panic Let_def dest!: traverse_Panic split: option.splits)
  subgoal by (auto simp: version_dispatch_from_config_def bind_res_Panic version_slots_no_panic split: version_location.splits option.splits)
  done

lemma inner_layers_no_panic:
  assumes "graphql_no_panic G"
  shows "inner_layers G b d scope \<noteq> Panic"
  using assms unfolding inner_layers_def Let_def
  by (auto simp: sequence_Panic from_config_no_panic graphql_no_panic_def split: option.splits)

lemma upstream_target_no_panic:
  assumes "graphql_no_panic G" and "parsers_documented X"
  shows "upstream_target_build (config_of G) X R N d \<noteq> Panic"
proof (cases "api_validate (config_of G) X R N d")
  case (Ok u)
  then show ?thesis using target_validated [OF assms(2), of "config_of G" R N d] by auto
qed (use api_validate_no_panic [OF assms(1)] in \<open>auto simp: upstream_target_build_def bind_res_def\<close>)

lemma build_version_no_panic:
  assumes "graphql_no_panic G" and "parsers_documented (rr_http G)" and "name \<in> fst ` set (vc_versions v)"
  shows "build_version G fwd v d name \<noteq> Panic"
proof -
  have "versioning_apply v d name \<noteq> None" using assms(3) by (force simp: versioning_apply_def map_of_eq_None_iff split: option.splits)
  then show ?thesis
    by (auto simp: build_version_def Let_def bind_res_Panic upstream_target_no_panic [OF assms(1,2)] inner_layers_no_panic [OF assms(1)]
        split: option.splits)
qed

text \<open>\<open>Route::build\<close> does not panic.\<close>

lemma route_build_no_panic:
  assumes "graphql_no_panic G" and "parsers_documented (rr_http G)"
  shows "route_build G d \<noteq> Panic"
proof -
  have "traverse (build_version G fwd v d) (map fst (vc_versions v)) \<noteq> Panic" for fwd v
    using build_version_no_panic [OF assms] by (intro traverse_no_panic) auto
  then show ?thesis
    unfolding route_build_def route_around_def Let_def
    by (auto simp: sequence_Panic from_config_no_panic upstream_target_no_panic [OF assms] inner_layers_no_panic [OF assms(1)] split: option.splits)
qed

end
