(* ===== verification/Admin.thy ===== *)
theory Admin
  imports Auth Router
begin

text \<open>
  The admin API, \<open>g2-admin/src\<close>: the secret that gates it and its routes (\<open>lib.rs\<close>), the
  operations on keys (\<open>keys.rs\<close>) and the generic operations on stored definitions and policies
  (\<open>resources.rs\<close>). Every operation runs over any store; each of its storage calls is at an
  instant of its own, so operations of several callers may interleave between them. Routing and
  body parsing are axum's: a call is what they deliver. The JSON codec of the stored records,
  the hash, the random bytes and the renderers of the node status are parameters.
\<close>

section \<open>Responses\<close>

datatype admin_body = AdminJson json | AdminText string

record admin_response =
  ar_status :: nat
  ar_body :: admin_body

definition admin_json :: "nat \<Rightarrow> json \<Rightarrow> admin_response" where
  "admin_json status doc = \<lparr>ar_status = status, ar_body = AdminJson doc\<rparr>"

definition admin_error :: "nat \<Rightarrow> string \<Rightarrow> admin_response" where
  "admin_error status message = admin_json status (JObject [(''error'', JString message)])"

text \<open>A handler's answer, \<open>None\<close> when it panics, with the store.\<close>

type_synonym 's admin_result = "admin_response option \<times> 's"

record admin_clock =
  ak_scan :: instant
  ak_get :: instant
  ak_set :: instant

section \<open>Keys\<close>

record key_address =
  ka_hashed :: bool
  ka_org_id :: "string option"

text \<open>How key sessions are written and read as JSON.\<close>

record session_codec =
  sx_print :: "key_session \<Rightarrow> string"
  sx_parse :: "string \<Rightarrow> key_session option"
  sx_json :: "key_session \<Rightarrow> json"

definition address_key_hash :: "(string \<Rightarrow> string) \<Rightarrow> key_address \<Rightarrow> string \<Rightarrow> string" where
  "address_key_hash sha addr param = (if ka_hashed addr then param else hash_key sha param)"

definition address_org :: "key_address \<Rightarrow> string" where
  "address_org addr = (case ka_org_id addr of Some o' \<Rightarrow> o' | None \<Rightarrow> DEFAULT_ORG_ID)"

definition storable_session :: "session_codec \<Rightarrow> (error \<Rightarrow> string) \<Rightarrow> key_session \<Rightarrow> (admin_response, string) res" where
  "storable_session C show_error session =
     (case session_validate session of
        Err e \<Rightarrow> Err (admin_error 400 (show_error e))
      | Panic \<Rightarrow> Panic
      | Ok _ \<Rightarrow> Ok (sx_print C session))"

definition key_storage_unavailable :: admin_response where
  "key_storage_unavailable = admin_error 503 ''key storage unavailable''"

definition write_record :: "'s storage_ops \<Rightarrow> instant \<Rightarrow> admin_response \<Rightarrow> string \<Rightarrow> string \<Rightarrow> admin_response \<Rightarrow> 's \<Rightarrow> 's admin_result" where
  "write_record S t unavailable key record done s =
     (case st_set S s t key record None of
        (Ok _, s') \<Rightarrow> (Some done, s')
      | (Err _, s') \<Rightarrow> (Some unavailable, s')
      | (Panic, s') \<Rightarrow> (None, s'))"

definition create_key :: "'s storage_ops \<Rightarrow> session_codec \<Rightarrow> (error \<Rightarrow> string) \<Rightarrow> (string \<Rightarrow> string) \<Rightarrow> admin_clock \<Rightarrow> string \<Rightarrow>
    key_session \<Rightarrow> 's \<Rightarrow> 's admin_result" where
  "create_key S C show_error sha ck random_bytes session s =
     (case storable_session C show_error session of
        Err resp \<Rightarrow> (Some resp, s)
      | Panic \<Rightarrow> (None, s)
      | Ok record \<Rightarrow>
          (let raw_key = hex_encode random_bytes;
               key_hash = hash_key sha raw_key
           in write_record S (ak_set ck) key_storage_unavailable (session_storage_key (ks_org_id session) key_hash) record
                (admin_json 201 (JObject [(''key'', JString raw_key), (''key_hash'', JString key_hash), (''action'', JString ''added'')])) s))"

definition list_keys :: "'s storage_ops \<Rightarrow> admin_clock \<Rightarrow> key_address \<Rightarrow> 's \<Rightarrow> 's admin_result" where
  "list_keys S ck addr s =
     (let p = session_key_prefix (address_org addr)
      in case st_scan_prefix S s (ak_scan ck) p of
           (Ok keys, s') \<Rightarrow>
             (Some (admin_json 200 (JObject [(''keys'', JArray (map JString (sort (List.map_filter (strip_prefix p) keys))))])), s')
         | (Err _, s') \<Rightarrow> (Some key_storage_unavailable, s')
         | (Panic, s') \<Rightarrow> (None, s'))"

definition put_key :: "'s storage_ops \<Rightarrow> session_codec \<Rightarrow> (error \<Rightarrow> string) \<Rightarrow> (string \<Rightarrow> string) \<Rightarrow> admin_clock \<Rightarrow> string \<Rightarrow>
    key_address \<Rightarrow> key_session \<Rightarrow> 's \<Rightarrow> 's admin_result" where
  "put_key S C show_error sha ck key addr session s =
     (case storable_session C show_error session of
        Err resp \<Rightarrow> (Some resp, s)
      | Panic \<Rightarrow> (None, s)
      | Ok record \<Rightarrow>
          (let key_hash = address_key_hash sha addr key;
               storage_key = session_storage_key (ks_org_id session) key_hash
           in case st_get S s (ak_get ck) storage_key of
                (Err _, s1) \<Rightarrow> (Some key_storage_unavailable, s1)
              | (Panic, s1) \<Rightarrow> (None, s1)
              | (Ok old, s1) \<Rightarrow>
                  write_record S (ak_set ck) key_storage_unavailable storage_key record
                    (admin_json 200 (JObject [(''key_hash'', JString key_hash),
                       (''action'', JString (if old = None then ''added'' else ''modified''))])) s1))"

definition get_key :: "'s storage_ops \<Rightarrow> session_codec \<Rightarrow> (string \<Rightarrow> string) \<Rightarrow> admin_clock \<Rightarrow> string \<Rightarrow> key_address \<Rightarrow> 's \<Rightarrow>
    's admin_result" where
  "get_key S C sha ck key addr s =
     (case st_get S s (ak_get ck) (session_storage_key (address_org addr) (address_key_hash sha addr key)) of
        (Err _, s1) \<Rightarrow> (Some key_storage_unavailable, s1)
      | (Panic, s1) \<Rightarrow> (None, s1)
      | (Ok None, s1) \<Rightarrow> (Some (admin_error 404 ''key not found''), s1)
      | (Ok (Some record), s1) \<Rightarrow>
          (case sx_parse C record of
             Some session \<Rightarrow> (Some (admin_json 200 (sx_json C session)), s1)
           | None \<Rightarrow> (Some (admin_error 500 ''malformed key session record''), s1)))"

definition delete_key :: "'s storage_ops \<Rightarrow> (string \<Rightarrow> string) \<Rightarrow> admin_clock \<Rightarrow> string \<Rightarrow> key_address \<Rightarrow> 's \<Rightarrow> 's admin_result" where
  "delete_key S sha ck key addr s =
     (case st_delete S s (ak_set ck) (session_storage_key (address_org addr) (address_key_hash sha addr key)) of
        (Err _, s1) \<Rightarrow> (Some key_storage_unavailable, s1)
      | (Panic, s1) \<Rightarrow> (None, s1)
      | (Ok True, s1) \<Rightarrow> (Some (admin_json 200 (JObject [(''action'', JString ''deleted'')])), s1)
      | (Ok False, s1) \<Rightarrow> (Some (admin_error 404 ''key not found''), s1))"

section \<open>Stored resources\<close>

text \<open>\<open>StoredResource\<close> with the codec of its type.\<close>

record 'r resource_kind =
  rk_kind :: string
  rk_id :: "'r \<Rightarrow> string"
  rk_org_id :: "'r \<Rightarrow> string"
  rk_storage_key :: "string \<Rightarrow> string \<Rightarrow> string"
  rk_key_prefix :: "string \<Rightarrow> string"
  rk_validate :: "'r \<Rightarrow> (error, unit) res"
  rk_print :: "'r \<Rightarrow> string"
  rk_parse :: "string \<Rightarrow> string + 'r"
  rk_json :: "'r \<Rightarrow> json"

record 'r codec =
  cd_print :: "'r \<Rightarrow> string"
  cd_parse :: "string \<Rightarrow> string + 'r"
  cd_json :: "'r \<Rightarrow> json"

definition api_resource :: "(('b, 'g, 'p) api_definition \<Rightarrow> (error, unit) res) \<Rightarrow> ('b, 'g, 'p) api_definition codec \<Rightarrow>
    ('b, 'g, 'p) api_definition resource_kind" where
  "api_resource validate C =
     \<lparr>rk_kind = ''API definition'', rk_id = ad_api_id, rk_org_id = ad_org_id, rk_storage_key = api_definition_storage_key,
      rk_key_prefix = api_definition_key_prefix, rk_validate = validate, rk_print = cd_print C, rk_parse = cd_parse C,
      rk_json = cd_json C\<rparr>"

definition policy_resource :: "policy codec \<Rightarrow> policy resource_kind" where
  "policy_resource C =
     \<lparr>rk_kind = ''policy'', rk_id = po_policy_id, rk_org_id = po_org_id, rk_storage_key = policy_storage_key,
      rk_key_prefix = policy_key_prefix, rk_validate = policy_validate, rk_print = cd_print C, rk_parse = cd_parse C,
      rk_json = cd_json C\<rparr>"

definition query_org :: "string option \<Rightarrow> string" where
  "query_org org_id = (case org_id of Some o' \<Rightarrow> o' | None \<Rightarrow> DEFAULT_ORG_ID)"

definition storable :: "'r resource_kind \<Rightarrow> (error \<Rightarrow> string) \<Rightarrow> 'r \<Rightarrow> (admin_response, string) res" where
  "storable K show_error r =
     (case rk_validate K r of
        Err e \<Rightarrow> Err (admin_error 400 (show_error e))
      | Panic \<Rightarrow> Panic
      | Ok _ \<Rightarrow> Ok (rk_print K r))"

definition storage_unavailable :: admin_response where
  "storage_unavailable = admin_error 503 ''storage unavailable''"

definition corrupt_record :: admin_response where
  "corrupt_record = admin_error 500 ''malformed stored record''"

definition resource_not_found :: "'r resource_kind \<Rightarrow> admin_response" where
  "resource_not_found K = admin_error 404 (rk_kind K @ '' not found'')"

text \<open>The reads of a listing: the records, the answer that ends it, or a panic.\<close>

fun list_records :: "'s storage_ops \<Rightarrow> 'r resource_kind \<Rightarrow> instant \<Rightarrow> string list \<Rightarrow> 's \<Rightarrow> (admin_response, 'r list) res \<times> 's" where
  "list_records S K t [] s = (Ok [], s)"
| "list_records S K t (key # keys) s =
     (case st_get S s t key of
        (Err _, s1) \<Rightarrow> (Err storage_unavailable, s1)
      | (Panic, s1) \<Rightarrow> (Panic, s1)
      | (Ok None, s1) \<Rightarrow> list_records S K t keys s1
      | (Ok (Some record), s1) \<Rightarrow>
          (case rk_parse K record of
             Inl _ \<Rightarrow> (Err corrupt_record, s1)
           | Inr r \<Rightarrow>
               (case list_records S K t keys s1 of
                  (Ok rs, s2) \<Rightarrow> (Ok (r # rs), s2)
                | other \<Rightarrow> other)))"

definition resource_list :: "'s storage_ops \<Rightarrow> 'r resource_kind \<Rightarrow> admin_clock \<Rightarrow> string option \<Rightarrow> 's \<Rightarrow> 's admin_result" where
  "resource_list S K ck org s =
     (case st_scan_prefix S s (ak_scan ck) (rk_key_prefix K (query_org org)) of
        (Err _, s1) \<Rightarrow> (Some storage_unavailable, s1)
      | (Panic, s1) \<Rightarrow> (None, s1)
      | (Ok keys, s1) \<Rightarrow>
          (case list_records S K (ak_get ck) keys s1 of
             (Err resp, s2) \<Rightarrow> (Some resp, s2)
           | (Panic, s2) \<Rightarrow> (None, s2)
           | (Ok rs, s2) \<Rightarrow> (Some (admin_json 200 (JArray (map (rk_json K) (sort_key (rk_id K) rs)))), s2)))"

definition resource_get :: "'s storage_ops \<Rightarrow> 'r resource_kind \<Rightarrow> admin_clock \<Rightarrow> string \<Rightarrow> string option \<Rightarrow> 's \<Rightarrow> 's admin_result" where
  "resource_get S K ck i org s =
     (case st_get S s (ak_get ck) (rk_storage_key K (query_org org) i) of
        (Err _, s1) \<Rightarrow> (Some storage_unavailable, s1)
      | (Panic, s1) \<Rightarrow> (None, s1)
      | (Ok None, s1) \<Rightarrow> (Some (resource_not_found K), s1)
      | (Ok (Some record), s1) \<Rightarrow>
          (case rk_parse K record of
             Inr r \<Rightarrow> (Some (admin_json 200 (rk_json K r)), s1)
           | Inl _ \<Rightarrow> (Some corrupt_record, s1)))"

text \<open>\<open>create\<close> in its two halves, up to and after the read that looks for the id.\<close>

definition create_check :: "'s storage_ops \<Rightarrow> 'r resource_kind \<Rightarrow> (error \<Rightarrow> string) \<Rightarrow> instant \<Rightarrow> 'r \<Rightarrow> 's \<Rightarrow>
    (admin_response, string) res \<times> 's" where
  "create_check S K show_error t r s =
     (case storable K show_error r of
        Err resp \<Rightarrow> (Err resp, s)
      | Panic \<Rightarrow> (Panic, s)
      | Ok record \<Rightarrow>
          (case st_get S s t (rk_storage_key K (rk_org_id K r) (rk_id K r)) of
             (Err _, s1) \<Rightarrow> (Err storage_unavailable, s1)
           | (Panic, s1) \<Rightarrow> (Panic, s1)
           | (Ok (Some _), s1) \<Rightarrow>
               (Err (admin_error 409 (rk_kind K @ '' `'' @ rk_id K r @ ''` already exists; use PUT to update'')), s1)
           | (Ok None, s1) \<Rightarrow> (Ok record, s1)))"

definition create_write :: "'s storage_ops \<Rightarrow> 'r resource_kind \<Rightarrow> instant \<Rightarrow> 'r \<Rightarrow> string \<Rightarrow> 's \<Rightarrow> 's admin_result" where
  "create_write S K t r record s =
     write_record S t storage_unavailable (rk_storage_key K (rk_org_id K r) (rk_id K r)) record
       (admin_json 201 (JObject [(''id'', JString (rk_id K r)), (''action'', JString ''added'')])) s"

definition resource_create :: "'s storage_ops \<Rightarrow> 'r resource_kind \<Rightarrow> (error \<Rightarrow> string) \<Rightarrow> admin_clock \<Rightarrow> 'r \<Rightarrow> 's \<Rightarrow> 's admin_result" where
  "resource_create S K show_error ck r s =
     (case create_check S K show_error (ak_get ck) r s of
        (Err resp, s1) \<Rightarrow> (Some resp, s1)
      | (Panic, s1) \<Rightarrow> (None, s1)
      | (Ok record, s1) \<Rightarrow> create_write S K (ak_set ck) r record s1)"

definition resource_put :: "'s storage_ops \<Rightarrow> 'r resource_kind \<Rightarrow> (error \<Rightarrow> string) \<Rightarrow> admin_clock \<Rightarrow> string \<Rightarrow> 'r \<Rightarrow> 's \<Rightarrow>
    's admin_result" where
  "resource_put S K show_error ck i r s =
     (if rk_id K r \<noteq> i
      then (Some (admin_error 400 (''body id `'' @ rk_id K r @ ''` does not match path id `'' @ i @ ''`'')), s)
      else case storable K show_error r of
             Err resp \<Rightarrow> (Some resp, s)
           | Panic \<Rightarrow> (None, s)
           | Ok record \<Rightarrow>
               (let key = rk_storage_key K (rk_org_id K r) (rk_id K r)
                in case st_get S s (ak_get ck) key of
                     (Err _, s1) \<Rightarrow> (Some storage_unavailable, s1)
                   | (Panic, s1) \<Rightarrow> (None, s1)
                   | (Ok old, s1) \<Rightarrow>
                       write_record S (ak_set ck) storage_unavailable key record
                         (admin_json 200 (JObject [(''id'', JString (rk_id K r)),
                            (''action'', JString (if old = None then ''added'' else ''modified''))])) s1))"

definition resource_delete :: "'s storage_ops \<Rightarrow> 'r resource_kind \<Rightarrow> admin_clock \<Rightarrow> string \<Rightarrow> string option \<Rightarrow> 's \<Rightarrow> 's admin_result" where
  "resource_delete S K ck i org s =
     (case st_delete S s (ak_set ck) (rk_storage_key K (query_org org) i) of
        (Err _, s1) \<Rightarrow> (Some storage_unavailable, s1)
      | (Panic, s1) \<Rightarrow> (None, s1)
      | (Ok True, s1) \<Rightarrow> (Some (admin_json 200 (JObject [(''id'', JString i), (''action'', JString ''deleted'')])), s1)
      | (Ok False, s1) \<Rightarrow> (Some (resource_not_found K), s1))"

section \<open>The admin router\<close>

definition ADMIN_AUTH_HEADER :: string where
  "ADMIN_AUTH_HEADER = ''x-g2-authorization''"

definition ADMIN_FORBIDDEN_MSG :: string where
  "ADMIN_FORBIDDEN_MSG = ''admin authorization missing or invalid''"

text \<open>
  What the routes use from outside: the store with its publish operation, the codecs, the
  validator of definitions, the rendering of errors, and the documents of the status endpoints.
\<close>

record ('s, 'b, 'g, 'p) admin_ext =
  ax_ops :: "'s storage_ops"
  ax_publish :: "'s \<Rightarrow> string \<Rightarrow> string \<Rightarrow> (storage_error, unit) res \<times> 's"
  ax_sessions :: session_codec
  ax_apis :: "('b, 'g, 'p) api_definition codec"
  ax_policies :: "policy codec"
  ax_validate :: "('b, 'g, 'p) api_definition \<Rightarrow> (error, unit) res"
  ax_show_error :: "error \<Rightarrow> string"
  ax_sha256 :: "string \<Rightarrow> string"
  ax_version :: string
  ax_openapi :: json

record admin_state =
  am_secret_digest :: string
  am_node :: "json option"
  am_stats :: "json option"
  am_metrics :: "string option"

datatype ('b, 'g, 'p) admin_call =
    GetHealth | GetMetrics | GetVersion | PostReload | PostGraphqlSync | GetNode | GetStats
  | ListKeys key_address
  | CreateKey string key_session
  | GetKey string key_address
  | PutKey string key_address key_session
  | DeleteKey string key_address
  | ListApis "string option"
  | CreateApi "('b, 'g, 'p) api_definition"
  | GetApi string "string option"
  | PutApi string "('b, 'g, 'p) api_definition"
  | DeleteApi string "string option"
  | ListPolicies "string option"
  | CreatePolicy policy
  | GetPolicy string "string option"
  | PutPolicy string policy
  | DeletePolicy string "string option"
  | GetOpenapi
  | UnknownPath

definition secret_matches :: "(string \<Rightarrow> string) \<Rightarrow> admin_state \<Rightarrow> string \<Rightarrow> bool" where
  "secret_matches sha st presented \<longleftrightarrow> sha presented = am_secret_digest st"

definition admin_router :: "(string \<Rightarrow> string) \<Rightarrow> string \<Rightarrow> json option \<Rightarrow> json option \<Rightarrow> string option \<Rightarrow> (error, admin_state) res" where
  "admin_router sha admin_secret node stats metrics =
     (if is_blank admin_secret then Err (InvalidGatewayConfig ''admin secret must not be empty'')
      else Ok \<lparr>am_secret_digest = sha admin_secret, am_node = node, am_stats = stats, am_metrics = metrics\<rparr>)"

definition reload_channel :: "string \<Rightarrow> string" where
  "reload_channel org_id = ''g2:'' @ org_id @ '':channel:reload''"

definition graphql_sync_channel :: "string \<Rightarrow> string" where
  "graphql_sync_channel org_id = ''g2:'' @ org_id @ '':channel:graphql-sync''"

definition broadcast :: "('s, 'b, 'g, 'p) admin_ext \<Rightarrow> string \<Rightarrow> string \<Rightarrow> string \<Rightarrow> 's \<Rightarrow> 's admin_result" where
  "broadcast A channel payload message s =
     (case ax_publish A s channel payload of
        (Ok _, s') \<Rightarrow> (Some (admin_json 200 (JObject [(''status'', JString ''ok''), (''message'', JString message)])), s')
      | (Err _, s') \<Rightarrow> (Some (admin_error 503 ''storage unavailable''), s')
      | (Panic, s') \<Rightarrow> (None, s'))"

definition dashboard_doc :: "json option \<Rightarrow> 's \<Rightarrow> 's admin_result" where
  "dashboard_doc doc s =
     (Some (case doc of Some d \<Rightarrow> admin_json 200 d
            | None \<Rightarrow> admin_error 503 ''node status unavailable on this deployment''), s)"

text \<open>The handlers behind the secret.\<close>

definition admin_authed :: "('s, 'b, 'g, 'p) admin_ext \<Rightarrow> admin_state \<Rightarrow> admin_clock \<Rightarrow> ('b, 'g, 'p) admin_call \<Rightarrow> 's \<Rightarrow> 's admin_result" where
  "admin_authed A st ck call s =
     (let S = ax_ops A; C = ax_sessions A; show_error = ax_show_error A; sha = ax_sha256 A;
          apis = api_resource (ax_validate A) (ax_apis A); policies = policy_resource (ax_policies A)
      in case call of
           GetVersion \<Rightarrow> (Some (admin_json 200 (JObject [(''version'', JString (ax_version A))])), s)
         | PostReload \<Rightarrow> broadcast A (reload_channel DEFAULT_ORG_ID) ''reload'' ''reload broadcast'' s
         | PostGraphqlSync \<Rightarrow> broadcast A (graphql_sync_channel DEFAULT_ORG_ID) ''sync'' ''graphql schema sync broadcast'' s
         | GetNode \<Rightarrow> dashboard_doc (am_node st) s
         | GetStats \<Rightarrow> dashboard_doc (am_stats st) s
         | ListKeys addr \<Rightarrow> list_keys S ck addr s
         | CreateKey random_bytes session \<Rightarrow> create_key S C show_error sha ck random_bytes session s
         | GetKey key addr \<Rightarrow> get_key S C sha ck key addr s
         | PutKey key addr session \<Rightarrow> put_key S C show_error sha ck key addr session s
         | DeleteKey key addr \<Rightarrow> delete_key S sha ck key addr s
         | ListApis org \<Rightarrow> resource_list S apis ck org s
         | CreateApi d \<Rightarrow> resource_create S apis show_error ck d s
         | GetApi i org \<Rightarrow> resource_get S apis ck i org s
         | PutApi i d \<Rightarrow> resource_put S apis show_error ck i d s
         | DeleteApi i org \<Rightarrow> resource_delete S apis ck i org s
         | ListPolicies org \<Rightarrow> resource_list S policies ck org s
         | CreatePolicy p \<Rightarrow> resource_create S policies show_error ck p s
         | GetPolicy i org \<Rightarrow> resource_get S policies ck i org s
         | PutPolicy i p \<Rightarrow> resource_put S policies show_error ck i p s
         | DeletePolicy i org \<Rightarrow> resource_delete S policies ck i org s
         | GetOpenapi \<Rightarrow> (Some (admin_json 200 (ax_openapi A)), s)
         | _ \<Rightarrow> (Some (admin_error 404 ''no such admin endpoint''), s))"

definition require_admin_secret :: "'h http_ext \<Rightarrow> (string \<Rightarrow> string) \<Rightarrow> admin_state \<Rightarrow> 'h \<Rightarrow> ('s \<Rightarrow> 's admin_result) \<Rightarrow> 's \<Rightarrow> 's admin_result" where
  "require_admin_secret X sha st headers inner s =
     (case Option.bind (hm_get X headers ADMIN_AUTH_HEADER) (hv_to_str X) of
        Some secret \<Rightarrow> (if secret_matches sha st secret then inner s else (Some (admin_error 403 ADMIN_FORBIDDEN_MSG), s))
      | None \<Rightarrow> (Some (admin_error 403 ADMIN_FORBIDDEN_MSG), s))"

definition admin_handle :: "'h http_ext \<Rightarrow> ('s, 'b, 'g, 'p) admin_ext \<Rightarrow> admin_state \<Rightarrow> admin_clock \<Rightarrow> 'h \<Rightarrow>
    ('b, 'g, 'p) admin_call \<Rightarrow> 's \<Rightarrow> 's admin_result" where
  "admin_handle X A st ck headers call s =
     (case call of
        GetHealth \<Rightarrow> (Some (admin_json 200 (JObject [(''status'', JString ''pass'')])), s)
      | GetMetrics \<Rightarrow>
          (Some (case am_metrics st of
                   Some rendered \<Rightarrow> \<lparr>ar_status = 200, ar_body = AdminText rendered\<rparr>
                 | None \<Rightarrow> admin_error 503 ''metrics not enabled''), s)
      | _ \<Rightarrow> require_admin_secret X (ax_sha256 A) st headers (admin_authed A st ck call) s)"

section \<open>Lemmas\<close>

text \<open>What every kind of resource promises about its keys.\<close>

locale keyed_resource =
  fixes K :: "'r resource_kind"
  assumes key_of_prefix: "rk_storage_key K org i = rk_key_prefix K org @ i"
begin

lemma key_inj: "rk_storage_key K org i = rk_storage_key K org j \<longleftrightarrow> i = j"
  by (simp add: key_of_prefix)

lemma key_listed: "prefix (rk_key_prefix K org) (rk_storage_key K org i)"
  by (simp add: key_of_prefix)

end

interpretation api_keys: keyed_resource "api_resource validate C"
  by unfold_locales (simp add: api_resource_def api_definition_storage_key_def)

interpretation policy_keys: keyed_resource "policy_resource C"
  by unfold_locales (simp add: policy_resource_def policy_storage_key_def)

text \<open>
  A store after some operations: from instant \<open>t\<close> on it holds what it held before, minus what was
  deleted, plus records that satisfy \<open>P\<close>.
\<close>

definition only_adds :: "(string \<Rightarrow> string \<Rightarrow> bool) \<Rightarrow> instant \<Rightarrow> memory_storage \<Rightarrow> memory_storage \<Rightarrow> bool" where
  "only_adds P t s s' \<longleftrightarrow>
     (mem_inv t s \<longrightarrow> mem_inv t s')
     \<and> (\<forall>u k v. t \<le> u \<longrightarrow> mem_kv s' u k = Some v \<longrightarrow> mem_kv s u k = Some v \<or> P k v)"

lemma only_adds_refl [simp]: "only_adds P t s s"
  by (simp add: only_adds_def)

lemma only_adds_trans: "only_adds P t s s1 \<Longrightarrow> only_adds P t s1 s2 \<Longrightarrow> only_adds P t s s2"
  unfolding only_adds_def by blast

lemma only_adds_later: "only_adds P t s s' \<Longrightarrow> mem_inv t s \<Longrightarrow> t \<le> t' \<Longrightarrow> only_adds P t' s s'"
  unfolding only_adds_def using mem_inv_later by (meson le_trans)

lemma only_adds_get:
  assumes "mem_inv t s" and "mem_get s t k = (r, s')"
  shows "only_adds P t s s'"
proof -
  have "mem_inv t s'" using memkv.get_inv [OF assms(1), of k] assms(2) by (simp add: memory_ops_def)
  moreover have "t \<le> u \<Longrightarrow> mem_kv s' u = mem_kv s u" for u
    using memkv.get_kv [OF assms(1), of u k] assms(2) by (simp add: memory_ops_def)
  ultimately show ?thesis by (simp add: only_adds_def)
qed

lemma only_adds_set:
  assumes "mem_inv t s" and "mem_set s t k v None = (r, s')" and "P k v"
  shows "only_adds P t s s'"
proof -
  have r: "mem_set s t k v None = (Ok (), s')" using assms(2) by (auto simp: mem_set_def)
  have "mem_inv t s'" using memkv.set_inv [OF assms(1), of k v None] r by (simp add: memory_ops_def)
  moreover have "mem_kv s' u = (mem_kv s u)(k := Some v)" if "t \<le> u" for u
    using memkv.set_kv [OF assms(1), of k v None s' u] r that by (simp add: memory_ops_def)
  ultimately show ?thesis using assms(3) by (auto simp: only_adds_def split: if_splits)
qed

lemma mem_delete_total: "\<exists>b s'. mem_delete s t k = (Ok b, s')"
  by (cases "map_of (ms_map s) k") (auto simp: mem_delete_def)

lemma only_adds_delete:
  assumes "mem_inv t s" and "mem_delete s t k = (r, s')"
  shows "only_adds P t s s'"
proof -
  obtain b where r: "mem_delete s t k = (Ok b, s')" using assms(2) by (auto simp: mem_delete_def split: option.splits)
  have "mem_inv t s'" using memkv.delete_inv [OF assms(1), of k] r by (simp add: memory_ops_def)
  moreover have "mem_kv s' u = (mem_kv s u)(k := None)" for u
    using memkv.delete_kv [OF assms(1), of k b s' u] r by (simp add: memory_ops_def)
  ultimately show ?thesis by (auto simp: only_adds_def split: if_splits)
qed

lemma get_step:
  assumes "mem_inv t s" and "t \<le> t1" and "t1 \<le> t'" and "st_get memory_ops s t1 k = (r, s')"
  shows "mem_inv t1 s'" and "only_adds P t' s s'"
proof -
  have i: "mem_inv t1 s" using assms(1,2) by (rule mem_inv_later)
  have a: "only_adds P t1 s s'" using only_adds_get [OF i] assms(4) by (simp add: memory_ops_def)
  then show "mem_inv t1 s'" using i by (simp add: only_adds_def)
  from only_adds_later [OF a i assms(3)] show "only_adds P t' s s'" .
qed

lemma write_record_adds:
  assumes "mem_inv t s" and "t \<le> t1" and "t1 \<le> t'" and "P key record"
    and "write_record memory_ops t1 unavailable key record fin s = (r, s')"
  shows "only_adds P t' s s'"
proof -
  have i: "mem_inv t1 s" using assms(1,2) by (rule mem_inv_later)
  obtain out where "mem_set s t1 key record None = (out, s')"
    using assms(5) by (auto simp: write_record_def memory_ops_def split: prod.splits res.splits)
  from only_adds_later [OF only_adds_set [where P = P, OF i this assms(4)] i assms(3)] show ?thesis .
qed

lemma delete_step:
  assumes "mem_inv t s" and "t \<le> t1" and "t1 \<le> t'" and "st_delete memory_ops s t1 k = (r, s')"
  shows "only_adds P t' s s'"
proof -
  have i: "mem_inv t1 s" using assms(1,2) by (rule mem_inv_later)
  show ?thesis
    using only_adds_later [OF only_adds_delete [where P = P, OF i] i assms(3)] assms(4) by (simp add: memory_ops_def)
qed

lemma scan_step: "mem_scan_prefix s t p = (r, s') \<Longrightarrow> s' = s"
  by (simp add: mem_scan_prefix_def)

text \<open>The instants of an operation lie between two points of time, in the order of its calls.\<close>

definition clock_within :: "instant \<Rightarrow> admin_clock \<Rightarrow> instant \<Rightarrow> bool" where
  "clock_within t ck t' \<longleftrightarrow> t \<le> ak_scan ck \<and> ak_scan ck \<le> ak_get ck \<and> ak_get ck \<le> ak_set ck \<and> ak_set ck \<le> t'"

lemma list_records_adds:
  "list_records memory_ops K t1 keys s = (r, s') \<Longrightarrow> mem_inv t s \<Longrightarrow> t \<le> t1 \<Longrightarrow> t1 \<le> t' \<Longrightarrow> only_adds P t' s s'"
proof (induction memory_ops K t1 keys s arbitrary: t r s' rule: list_records.induct)
  case (2 K t1 key keys s)
  obtain out s1 where g: "st_get memory_ops s t1 key = (out, s1)" by fastforce
  note a = get_step [OF 2(4,5,6) g]
  have rest: "only_adds P t' s1 s2" if "list_records memory_ops K t1 keys s1 = (r2, s2)"
    "out = Ok None \<or> (\<exists>record x. out = Ok (Some record) \<and> rk_parse K record = Inr x)" for r2 s2
    using that g 2(1) [OF g [symmetric] _ _ that(1) a(1) order.refl 2(6)] 2(2) [OF g [symmetric] _ _ _ that(1) a(1) order.refl 2(6)]
    by auto
  show ?case
    using 2(3) g a(2) [where P = P] only_adds_trans [OF a(2) rest]
    by (auto split: res.splits option.splits sum.splits prod.splits)
qed simp

lemma key_ops_adds:
  assumes "mem_inv t s" and "clock_within t ck t'"
    and "\<And>h. session_validate session = Ok () \<Longrightarrow> P (session_storage_key (ks_org_id session) h) (sx_print C session)"
  shows "create_key memory_ops C se sha ck rnd session s = (r, s') \<Longrightarrow> only_adds P t' s s'"
    and "put_key memory_ops C se sha ck key addr session s = (r, s') \<Longrightarrow> only_adds P t' s s'"
proof -
  have ck: "t \<le> ak_get ck" "t \<le> ak_set ck" "ak_get ck \<le> ak_set ck" "ak_set ck \<le> t'" "ak_get ck \<le> t'"
    using assms(2) by (auto simp: clock_within_def)
  have stored: "P (session_storage_key (ks_org_id session) h) rcd" if "storable_session C se session = Ok rcd" for rcd h
    using that assms(3) by (auto simp: storable_session_def split: res.splits)
  show "only_adds P t' s s'" if "create_key memory_ops C se sha ck rnd session s = (r, s')"
    using that write_record_adds [where P = P, OF assms(1) ck(2,4) stored]
    by (auto simp: create_key_def Let_def split: res.splits)
  show "only_adds P t' s s'" if p: "put_key memory_ops C se sha ck key addr session s = (r, s')"
  proof (cases "storable_session C se session")
    case (Ok rcd)
    obtain out s1 where g: "st_get memory_ops s (ak_get ck) (session_storage_key (ks_org_id session) (address_key_hash sha addr key)) = (out, s1)"
      by fastforce
    note a = get_step [OF assms(1) ck(1,5) g]
    show ?thesis
      using p Ok g a(2) [where P = P] only_adds_trans [OF a(2) write_record_adds [where P = P, OF a(1) ck(3,4) stored [OF Ok]]]
      by (auto simp: put_key_def Let_def split: res.splits)
  qed (use p in \<open>auto simp: put_key_def\<close>)
qed

lemma key_reads_add:
  assumes "mem_inv t s" and "clock_within t ck t'"
  shows "get_key memory_ops C sha ck key addr s = (r, s') \<Longrightarrow> only_adds P t' s s'"
    and "delete_key memory_ops sha ck key addr s = (r, s') \<Longrightarrow> only_adds P t' s s'"
    and "list_keys memory_ops ck addr s = (r, s') \<Longrightarrow> only_adds P t' s s'"
proof -
  have ck: "t \<le> ak_get ck" "ak_get ck \<le> t'" "t \<le> ak_set ck" "ak_set ck \<le> t'" using assms(2) by (auto simp: clock_within_def)
  show "only_adds P t' s s'" if "get_key memory_ops C sha ck key addr s = (r, s')"
    using that get_step(2) [where P = P, OF assms(1) ck(1,2)]
    by (auto simp: get_key_def split: res.splits option.splits prod.splits)
  show "only_adds P t' s s'" if "delete_key memory_ops sha ck key addr s = (r, s')"
    using that delete_step [where P = P, OF assms(1) ck(3,4)]
    by (auto simp: delete_key_def split: res.splits bool.splits prod.splits)
  show "only_adds P t' s s'" if "list_keys memory_ops ck addr s = (r, s')"
    using that by (auto simp: list_keys_def Let_def dest!: scan_step split: res.splits prod.splits)
qed

lemma resource_writes_add:
  assumes "mem_inv t s" and "clock_within t ck t'"
    and "rk_validate K x = Ok () \<Longrightarrow> P (rk_storage_key K (rk_org_id K x) (rk_id K x)) (rk_print K x)"
  shows "resource_create memory_ops K se ck x s = (r, s') \<Longrightarrow> only_adds P t' s s'"
    and "resource_put memory_ops K se ck i x s = (r, s') \<Longrightarrow> only_adds P t' s s'"
proof -
  let ?key = "rk_storage_key K (rk_org_id K x) (rk_id K x)"
  have ck: "t \<le> ak_get ck" "ak_get ck \<le> ak_set ck" "ak_set ck \<le> t'" "ak_get ck \<le> t'"
    using assms(2) by (auto simp: clock_within_def)
  obtain out s1 where g: "st_get memory_ops s (ak_get ck) ?key = (out, s1)" by fastforce
  note a = get_step [OF assms(1) ck(1,4) g]
  have stored: "P ?key rcd" if "storable K se x = Ok rcd" for rcd
    using that assms(3) by (auto simp: storable_def split: res.splits)
  have written: "only_adds P t' s s2" if "storable K se x = Ok rcd" "write_record memory_ops (ak_set ck) u ?key rcd fin s1 = (r2, s2)"
    for rcd u fin r2 s2
    using only_adds_trans [OF a(2) write_record_adds [where P = P, OF a(1) ck(2,3) stored [OF that(1)] that(2)]] .
  show "only_adds P t' s s'" if "resource_create memory_ops K se ck x s = (r, s')"
    using that g a(2) [where P = P] written
    by (auto simp: resource_create_def create_check_def create_write_def split: res.splits option.splits)
  show "only_adds P t' s s'" if "resource_put memory_ops K se ck i x s = (r, s')"
    using that g a(2) [where P = P] written
    by (auto simp: resource_put_def Let_def split: res.splits if_splits)
qed

lemma resource_reads_add:
  assumes "mem_inv t s" and "clock_within t ck t'"
  shows "resource_get memory_ops K ck i org s = (r, s') \<Longrightarrow> only_adds P t' s s'"
    and "resource_delete memory_ops K ck i org s = (r, s') \<Longrightarrow> only_adds P t' s s'"
    and "resource_list memory_ops K ck org s = (r, s') \<Longrightarrow> only_adds P t' s s'"
proof -
  have ck: "t \<le> ak_get ck" "ak_get ck \<le> t'" "t \<le> ak_set ck" "ak_set ck \<le> t'" using assms(2) by (auto simp: clock_within_def)
  show "only_adds P t' s s'" if "resource_get memory_ops K ck i org s = (r, s')"
    using that get_step(2) [where P = P, OF assms(1) ck(1,2)]
    by (auto simp: resource_get_def split: res.splits option.splits prod.splits sum.splits)
  show "only_adds P t' s s'" if "resource_delete memory_ops K ck i org s = (r, s')"
    using that delete_step [where P = P, OF assms(1) ck(3,4)]
    by (auto simp: resource_delete_def split: res.splits bool.splits prod.splits)
  show "only_adds P t' s s'" if "resource_list memory_ops K ck org s = (r, s')"
    using that list_records_adds [where P = P, OF _ assms(1) ck(1,2)]
    by (auto simp: resource_list_def dest!: scan_step split: res.splits prod.splits)
qed

text \<open>
  Records outside every organization's API definitions, for organizations without a colon in
  their name; and what the admin API files.
\<close>

definition foreign :: "string \<Rightarrow> bool" where
  "foreign k \<longleftrightarrow> (\<forall>org. CHR '':'' \<notin> set org \<longrightarrow> \<not> prefix (api_definition_key_prefix org) k)"

definition filed :: "('s, 'b, 'g, 'p) admin_ext \<Rightarrow> string \<Rightarrow> string \<Rightarrow> bool" where
  "filed A k v \<longleftrightarrow>
     foreign k
     \<or> (\<exists>d. ax_validate A d = Ok () \<and> v = cd_print (ax_apis A) d \<and> k = api_definition_storage_key (ad_org_id d) (ad_api_id d))"

lemma before_colon: "CHR '':'' \<notin> set a \<Longrightarrow> CHR '':'' \<notin> set b \<Longrightarrow> a @ CHR '':'' # x = b @ CHR '':'' # y \<longleftrightarrow> a = b \<and> x = y"
  using split_once_Some [of "CHR '':''" "a @ CHR '':'' # x" a x] split_once_Some [of "CHR '':''" "a @ CHR '':'' # x" b y] by auto

lemma foreign_kinds:
  assumes "CHR '':'' \<notin> set o'"
  shows "foreign (session_storage_key o' h)" and "foreign (policy_storage_key o' i)"
  using before_colon [OF assms]
  by (auto simp: foreign_def prefix_def api_definition_key_prefix_def session_storage_key_def session_key_prefix_def
      policy_storage_key_def policy_key_prefix_def)

fun plain_org :: "('b, 'g, 'p) admin_call \<Rightarrow> bool" where
  "plain_org (CreateKey rnd session) = (CHR '':'' \<notin> set (ks_org_id session))"
| "plain_org (PutKey key addr session) = (CHR '':'' \<notin> set (ks_org_id session))"
| "plain_org (CreatePolicy p) = (CHR '':'' \<notin> set (po_org_id p))"
| "plain_org (PutPolicy i p) = (CHR '':'' \<notin> set (po_org_id p))"
| "plain_org _ = True"

lemma admin_authed_adds:
  assumes "ax_ops A = memory_ops" and "\<And>s c m. snd (ax_publish A s c m) = s" and "mem_inv t s" and "clock_within t ck t'"
    and "plain_org call" and "admin_authed A st ck call s = (r, s')"
  shows "only_adds (filed A) t' s s'"
proof -
  have b: "broadcast A c m msg s = (r, s') \<Longrightarrow> s' = s" for c m msg
    using assms(2) [of s c m] by (auto simp: broadcast_def split: prod.splits res.splits)
  have p: "filed A (rk_storage_key (policy_resource C) (rk_org_id (policy_resource C) x) (rk_id (policy_resource C) x)) v"
    if "CHR '':'' \<notin> set (po_org_id x)" for C x v
    using foreign_kinds(2) [OF that] by (simp add: filed_def policy_resource_def)
  have d: "rk_validate (api_resource (ax_validate A) (ax_apis A)) x = Ok () \<Longrightarrow>
      filed A (rk_storage_key (api_resource (ax_validate A) (ax_apis A)) (rk_org_id (api_resource (ax_validate A) (ax_apis A)) x)
        (rk_id (api_resource (ax_validate A) (ax_apis A)) x)) (rk_print (api_resource (ax_validate A) (ax_apis A)) x)" for x
    unfolding filed_def api_resource_def by auto
  have k: "filed A (session_storage_key (ks_org_id x) h) v" if "CHR '':'' \<notin> set (ks_org_id x)" for x h v
    using foreign_kinds(1) [OF that] by (simp add: filed_def)
  note reads = key_reads_add [OF assms(3,4), where P = "filed A"] resource_reads_add [OF assms(3,4), where P = "filed A"]
  note writes = key_ops_adds [where P = "filed A", OF assms(3,4) k] resource_writes_add [where P = "filed A", OF assms(3,4) p]
    resource_writes_add [where P = "filed A", OF assms(3,4) d]
  from assms(5,6) show ?thesis
    unfolding admin_authed_def Let_def assms(1)
    by (cases call) (auto intro: reads writes dest: b simp: dashboard_doc_def split: option.splits)
qed

text \<open>
  Runs of a store: admin calls with any headers, and whatever else the gateway does to it, as
  long as that files nothing under the definitions and keeps the store's invariant.
\<close>

inductive admin_run :: "'h http_ext \<Rightarrow> (memory_storage, 'b, 'g, 'p) admin_ext \<Rightarrow> admin_state \<Rightarrow> instant \<Rightarrow> memory_storage \<Rightarrow> bool"
  for X A st where
  start: "admin_run X A st 0 mem_new"
| call: "admin_run X A st t s \<Longrightarrow> clock_within t ck t' \<Longrightarrow> plain_org call \<Longrightarrow>
    admin_handle X A st ck headers call s = (r, s') \<Longrightarrow> admin_run X A st t' s'"
| other: "admin_run X A st t s \<Longrightarrow> t \<le> t' \<Longrightarrow> only_adds (\<lambda>k v. foreign k) t' s s' \<Longrightarrow> admin_run X A st t' s'"

lemma admin_handle_adds:
  assumes "ax_ops A = memory_ops" and "\<And>s c m. snd (ax_publish A s c m) = s" and "mem_inv t s" and "clock_within t ck t'"
    and "plain_org call" and "admin_handle X A st ck headers call s = (r, s')"
  shows "only_adds (filed A) t' s s'"
  using assms(6) admin_authed_adds [OF assms(1-5)]
  by (auto simp: admin_handle_def require_admin_secret_def split: admin_call.splits option.splits if_splits)

lemma admin_run_filed:
  assumes "admin_run X A st t s" and "ax_ops A = memory_ops" and "\<And>s c m. snd (ax_publish A s c m) = s"
  shows "mem_inv t s \<and> (\<forall>u k v. t \<le> u \<longrightarrow> mem_kv s u k = Some v \<longrightarrow> filed A k v)"
  using assms(1)
proof (induction rule: admin_run.induct)
  case start
  show ?case by (simp add: mem_kv_def mem_new_def mem_inv_new [unfolded mem_new_def])
next
  case (call t s ck t' call headers r s')
  have le: "t \<le> t'" using call.hyps(2) by (auto simp: clock_within_def)
  from call.IH have i: "mem_inv t s" by blast
  from admin_handle_adds [OF assms(2,3) i call.hyps(2,3,4)] have a: "only_adds (filed A) t' s s'" .
  moreover have "mem_inv t' s" using i le by (rule mem_inv_later)
  ultimately show ?case using call.IH le unfolding only_adds_def by (meson le_trans)
next
  case (other t s t' s')
  from other.IH have i: "mem_inv t s" by blast
  have "mem_inv t' s" using i other.hyps(2) by (rule mem_inv_later)
  moreover have "foreign k \<Longrightarrow> filed A k v" for k v by (simp add: filed_def)
  ultimately show ?case using other.IH other.hyps(2,3) unfolding only_adds_def by (meson le_trans)
qed

text \<open>Reading back what was filed: every record of the listing parses, validates and lies under its own key.\<close>

lemma load_records_filed:
  assumes "mem_inv u s" and "\<And>d. validate d = Ok () \<Longrightarrow> cd_parse C (cd_print C d) = Inr d"
    and "\<And>k v. k \<in> set keys \<Longrightarrow> mem_kv s u k = Some v \<Longrightarrow>
      \<exists>d. validate d = Ok () \<and> v = cd_print C d \<and> k = api_definition_storage_key (ad_org_id d) (ad_api_id d)"
  shows "\<exists>ds s'. load_records memory_ops (cd_parse C) validate se u s keys = (Ok ds, s')
    \<and> set ds = {d. validate d = Ok () \<and> (\<exists>k \<in> set keys. mem_kv s u k = Some (cd_print C d))}"
  using assms(1,3)
proof (induction keys arbitrary: s)
  case Nil
  then show ?case by simp
next
  case (Cons key keys)
  obtain r s1 where g: "mem_get s u key = (Ok r, s1)" using mem_get_total by blast
  have r: "r = mem_kv s u key" using memkv.get_val [OF Cons.prems(1), of key r s1] g by simp
  have kv: "mem_kv s1 u = mem_kv s u" using memkv.get_kv [OF Cons.prems(1), of u key] g by simp
  have "mem_inv u s1" using memkv.get_inv [OF Cons.prems(1), of key] g by simp
  then obtain ds s' where rest: "load_records memory_ops (cd_parse C) validate se u s1 keys = (Ok ds, s')"
    "set ds = {d. validate d = Ok () \<and> (\<exists>k \<in> set keys. mem_kv s u k = Some (cd_print C d))}"
    using Cons.IH [of s1] Cons.prems(2) unfolding kv by auto
  show ?case
  proof (cases r)
    case None
    with g r rest show ?thesis by auto
  next
    case (Some raw)
    then obtain d where d: "validate d = Ok ()" "raw = cd_print C d" "key = api_definition_storage_key (ad_org_id d) (ad_api_id d)"
      using Cons.prems(2) [of key raw] r by auto
    have "load_records memory_ops (cd_parse C) validate se u s (key # keys) = (Ok (d # ds), s')"
      using g Some d rest(1) assms(2) by simp
    moreover have "validate d' = Ok () \<Longrightarrow> cd_print C d = cd_print C d' \<longleftrightarrow> d = d'" for d'
      using assms(2) d(1) by (metis sum.inject(2))
    ultimately show ?thesis using rest(2) r Some d(1,2) by auto
  qed
qed

lemma stored_definitions:
  assumes "admin_run X A st t s" and "ax_ops A = memory_ops" and "\<And>s c m. snd (ax_publish A s c m) = s"
    and "\<And>d. ax_validate A d = Ok () \<Longrightarrow> cd_parse (ax_apis A) (cd_print (ax_apis A) d) = Inr d" and "CHR '':'' \<notin> set org" and "t \<le> u"
  shows "\<exists>ds s'. load_api_definitions memory_ops (cd_parse (ax_apis A)) (ax_validate A) se u s org = (Ok ds, s')
    \<and> set ds = {d. ax_validate A d = Ok ()
                    \<and> mem_kv s u (api_definition_storage_key (ad_org_id d) (ad_api_id d)) = Some (cd_print (ax_apis A) d)
                    \<and> prefix (api_definition_key_prefix org) (api_definition_storage_key (ad_org_id d) (ad_api_id d))}"
proof -
  from admin_run_filed [OF assms(1-3)] have i: "mem_inv u s" and f: "\<And>k v. mem_kv s u k = Some v \<Longrightarrow> filed A k v"
    using mem_inv_later assms(6) by blast+
  obtain keys where scan: "mem_scan_prefix s u (api_definition_key_prefix org) = (Ok keys, s)"
    and keys: "set keys = {k. prefix (api_definition_key_prefix org) k \<and> mem_kv s u k \<noteq> None}"
    using memkv.scan_val [OF i, of "api_definition_key_prefix org"] by (auto simp: mem_scan_prefix_def)
  have own: "\<exists>d. ax_validate A d = Ok () \<and> v = cd_print (ax_apis A) d \<and> k = api_definition_storage_key (ad_org_id d) (ad_api_id d)"
    if "prefix (api_definition_key_prefix org) k" "mem_kv s u k = Some v" for k v
    using f [OF that(2)] that(1) assms(5) unfolding filed_def foreign_def by blast
  obtain ds s' where ds: "load_records memory_ops (cd_parse (ax_apis A)) (ax_validate A) se u s keys = (Ok ds, s')"
    "set ds = {d. ax_validate A d = Ok () \<and> (\<exists>k \<in> set keys. mem_kv s u k = Some (cd_print (ax_apis A) d))}"
    using load_records_filed [OF i, of "ax_validate A" "ax_apis A" keys se] assms(4) own keys by auto
  have inj: "ax_validate A d = Ok () \<Longrightarrow> ax_validate A d' = Ok () \<Longrightarrow> cd_print (ax_apis A) d = cd_print (ax_apis A) d' \<Longrightarrow> d = d'"
    for d d' using assms(4) by (metis sum.inject(2))
  have "load_api_definitions memory_ops (cd_parse (ax_apis A)) (ax_validate A) se u s org = (Ok (sort_key ad_api_id ds), s')"
    by (simp add: load_api_definitions_def scan ds(1))
  moreover have "ax_validate A d = Ok () \<Longrightarrow> \<exists>k \<in> set keys. mem_kv s u k = Some (cd_print (ax_apis A) d) \<Longrightarrow>
      mem_kv s u (api_definition_storage_key (ad_org_id d) (ad_api_id d)) = Some (cd_print (ax_apis A) d)
      \<and> prefix (api_definition_key_prefix org) (api_definition_storage_key (ad_org_id d) (ad_api_id d))" for d
    using own keys inj by blast
  ultimately show ?thesis using ds(2) keys by auto
qed

section \<open>Properties\<close>



text \<open>An admin API on a memory store whose codec is exact for one definition.\<close>

definition sample_admin :: "(memory_storage, unit, unit, unit) admin_ext" where
  "sample_admin = \<lparr>ax_ops = memory_ops, ax_publish = (\<lambda>s _ _. (Ok (), s)),
     ax_sessions = \<lparr>sx_print = (\<lambda>_. ''session''), sx_parse = (\<lambda>_. None), sx_json = (\<lambda>_. JNull)\<rparr>,
     ax_apis = \<lparr>cd_print = (\<lambda>_. ''users''), cd_parse = (\<lambda>_. Inr sample_definition), cd_json = (\<lambda>_. JNull)\<rparr>,
     ax_policies = \<lparr>cd_print = (\<lambda>_. ''policy''), cd_parse = (\<lambda>_. Inl ''none''), cd_json = (\<lambda>_. JNull)\<rparr>,
     ax_validate = (\<lambda>d. if d = sample_definition then Ok () else Err (InvalidGatewayConfig ''other'')),
     ax_show_error = (\<lambda>_. ''invalid''), ax_sha256 = id, ax_version = ''1'', ax_openapi = JNull\<rparr>"

definition sample_admin_state :: admin_state where
  "sample_admin_state = \<lparr>am_secret_digest = ''s'', am_node = None, am_stats = None, am_metrics = None\<rparr>"

definition sample_admin_clock :: admin_clock where
  "sample_admin_clock = \<lparr>ak_scan = 1, ak_get = 2, ak_set = 3\<rparr>"




text \<open>
  Two creations of one id that both look before either writes are both answered \<open>201\<close>, and the
  second overwrites the first: the \<open>409\<close> protects against a repeated call, not a concurrent one.
\<close>

lemma create_not_atomic:
  assumes "mem_inv t s" and "rk_storage_key K (rk_org_id K y) (rk_id K y) = rk_storage_key K (rk_org_id K x) (rk_id K x)"
    and "mem_kv s t (rk_storage_key K (rk_org_id K x) (rk_id K x)) = None" and "rk_validate K x = Ok ()" and "rk_validate K y = Ok ()"
  shows "\<exists>s1 s2 s3 s4. create_check memory_ops K se t x s = (Ok (rk_print K x), s1)
    \<and> create_check memory_ops K se t y s1 = (Ok (rk_print K y), s2)
    \<and> create_write memory_ops K t x (rk_print K x) s2 = (Some (admin_json 201 (JObject [(''id'', JString (rk_id K x)), (''action'', JString ''added'')])), s3)
    \<and> create_write memory_ops K t y (rk_print K y) s3 = (Some (admin_json 201 (JObject [(''id'', JString (rk_id K y)), (''action'', JString ''added'')])), s4)
    \<and> mem_kv s4 t (rk_storage_key K (rk_org_id K x) (rk_id K x)) = Some (rk_print K y)"
proof -
  let ?key = "rk_storage_key K (rk_org_id K x) (rk_id K x)"
  obtain v1 s1 where g1: "mem_get s t ?key = (Ok v1, s1)" using mem_get_total by blast
  have v1: "v1 = None" using memkv.get_val [OF assms(1), of ?key v1 s1] g1 assms(3) by simp
  have i1: "mem_inv t s1" using memkv.get_inv [OF assms(1), of ?key] g1 by simp
  have k1: "mem_kv s1 t ?key = None" using memkv.get_kv [OF assms(1), of t ?key] g1 assms(3) by simp
  obtain v2 s2 where g2: "mem_get s1 t ?key = (Ok v2, s2)" using mem_get_total by blast
  have v2: "v2 = None" using memkv.get_val [OF i1, of ?key v2 s2] g2 k1 by simp
  have i2: "mem_inv t s2" using memkv.get_inv [OF i1, of ?key] g2 by simp
  obtain s3 where w1: "mem_set s2 t ?key (rk_print K x) None = (Ok (), s3)" by (simp add: mem_set_def)
  have i3: "mem_inv t s3" using memkv.set_inv [OF i2, of ?key "rk_print K x" None] w1 by simp
  obtain s4 where w2: "mem_set s3 t ?key (rk_print K y) None = (Ok (), s4)" by (simp add: mem_set_def)
  have k4: "mem_kv s4 t ?key = Some (rk_print K y)" using memkv.set_kv [OF i3, of ?key "rk_print K y" None s4 t] w2 by simp
  show ?thesis
    using g1 v1 g2 v2 w1 w2 k4 assms(2,4,5)
    by (simp add: create_check_def create_write_def write_record_def storable_def admin_json_def)
qed

end
