(* ===== verification/Reload.thy ===== *)
theory Reload
  imports No_Panic Admin "HOL-Library.Multiset"
begin

text \<open>
  Configuration reload (\<open>g2way/src/reload.rs\<close>): building a route table from the definition files
  and the stored definitions, and the listener that rebuilds and swaps it on every nudge while
  the previous table keeps serving. The directory is read anew at every build, so its contents
  are an argument.
\<close>

section \<open>Building a table\<close>

datatype reload_error = ReloadConfig error | ReloadStored definition_load_error

record ('h, 'r, 'n, 'k, 'f, 's, 'u, 'e, 'g) reload_context =
  rc_apps_dir :: string
  rc_org_id :: string
  rc_resources :: "('h, 'r, 'n, 'k, 'f, 's, 'u, 'e, 'g) resources"
  rc_parse_file :: "string \<Rightarrow> string + 'g definition_"
  rc_parse_stored :: "string \<Rightarrow> string + 'g definition_"
  rc_show_error :: "error \<Rightarrow> string"

type_synonym ('h, 'r, 'n, 'k, 'f, 's, 'u, 'e, 'g) table = "('g definition_, 'h, ('s, 'k, 'f, 'u, 'e) gw) route list"

definition ctx_validate :: "('h, 'r, 'n, 'k, 'f, 's, 'u, 'e, 'g) reload_context \<Rightarrow> 'g definition_ \<Rightarrow> (error, unit) res" where
  "ctx_validate ctx =
     (let G = rc_resources ctx in api_validate (config_of G) (rr_http G) (rr_regex G) (rr_net G))"

definition build_one :: "('h, 'r, 'n, 'k, 'f, 's, 'u, 'e, 'g) resources \<Rightarrow> 'g definition_ \<Rightarrow>
    (error, ('g definition_, 'h, ('s, 'k, 'f, 'u, 'e) gw) route) res" where
  "build_one G d = bind_res (route_build G d) (\<lambda>(r, starts). Ok r)"

definition table_of :: "('h, 'r, 'n, 'k, 'f, 's, 'u, 'e, 'g) reload_context \<Rightarrow> 'g definition_ list \<Rightarrow> 'g definition_ list \<Rightarrow>
    (error, ('h, 'r, 'n, 'k, 'f, 's, 'u, 'e, 'g) table) res" where
  "table_of ctx file_defs storage_defs =
     bind_res (merge_sources file_defs storage_defs)
       (route_table_build (build_one (rc_resources ctx)) ad_active)"

definition build_table :: "('h, 'r, 'n, 'k, 'f, 's, 'u, 'e, 'g) reload_context \<Rightarrow> (string \<Rightarrow> string + dir_entry list) \<Rightarrow> instant \<Rightarrow> 's \<Rightarrow>
    (reload_error, ('h, 'r, 'n, 'k, 'f, 's, 'u, 'e, 'g) table) res \<times> 's" where
  "build_table ctx read_dir t s =
     (case load_dir read_dir (rc_parse_file ctx) (ctx_validate ctx) (rc_apps_dir ctx) of
        Err e \<Rightarrow> (Err (ReloadConfig e), s)
      | Panic \<Rightarrow> (Panic, s)
      | Ok file_defs \<Rightarrow>
          (case load_api_definitions (rr_storage (rc_resources ctx)) (rc_parse_stored ctx) (ctx_validate ctx) (rc_show_error ctx) t s (rc_org_id ctx) of
             (Err e, s1) \<Rightarrow> (Err (ReloadStored e), s1)
           | (Panic, s1) \<Rightarrow> (Panic, s1)
           | (Ok storage_defs, s1) \<Rightarrow>
               (case table_of ctx file_defs storage_defs of
                  Ok table \<Rightarrow> (Ok table, s1)
                | Err e \<Rightarrow> (Err (ReloadConfig e), s1)
                | Panic \<Rightarrow> (Panic, s1))))"

section \<open>The listener\<close>

text \<open>
  The table in force and whether the listener's task still runs: a panic in a build ends that
  task, and a subscription that ends leaves the loop.
\<close>

record 't pod =
  pd_table :: 't
  pd_listening :: bool

definition on_nudge :: "('h, 'r, 'n, 'k, 'f, 's, 'u, 'e, 'g) reload_context \<Rightarrow> (string \<Rightarrow> string + dir_entry list) \<Rightarrow> instant \<Rightarrow>
    ('h, 'r, 'n, 'k, 'f, 's, 'u, 'e, 'g) table pod \<times> 's \<Rightarrow> ('h, 'r, 'n, 'k, 'f, 's, 'u, 'e, 'g) table pod \<times> 's" where
  "on_nudge ctx read_dir t st =
     (case st of
        (pod, s) \<Rightarrow>
          if \<not> pd_listening pod then (pod, s)
          else (case build_table ctx read_dir t s of
                  (Ok table, s1) \<Rightarrow> (pod\<lparr>pd_table := table\<rparr>, s1)
                | (Err e, s1) \<Rightarrow> (pod, s1)
                | (Panic, s1) \<Rightarrow> (pod\<lparr>pd_listening := False\<rparr>, s1)))"

text \<open>
  A running gateway between requests: nudges, the end of the subscription, and writes of other
  tasks and pods to the store. A request is answered by the table in force when it arrives.
\<close>

inductive pod_step :: "('h, 'r, 'n, 'k, 'f, 's, 'u, 'e, 'g) reload_context \<Rightarrow> ('h, 'r, 'n, 'k, 'f, 's, 'u, 'e, 'g) table pod \<times> 's \<Rightarrow>
    ('h, 'r, 'n, 'k, 'f, 's, 'u, 'e, 'g) table pod \<times> 's \<Rightarrow> bool"
  for ctx where
  nudge: "pod_step ctx st (on_nudge ctx read_dir t st)"
| unsubscribed: "pod_step ctx (pod, s) (pod\<lparr>pd_listening := False\<rparr>, s)"
| writes: "pod_step ctx (pod, s) (pod, s')"

section \<open>Lemmas\<close>

lemma load_entries_valid:
  "load_entries parse validate dir es = Ok ds \<Longrightarrow> d \<in> set ds \<Longrightarrow> validate d = Ok ()"
  by (induction parse validate dir es arbitrary: ds rule: load_entries.induct) (auto split: if_splits sum.splits option.splits)

lemma load_dir_valid: "load_dir read_dir parse validate dir = Ok ds \<Longrightarrow> d \<in> set ds \<Longrightarrow> validate d = Ok ()"
  by (auto simp: load_dir_def split: sum.splits dest: load_entries_valid)

lemma build_routes_total:
  "(\<And>d. d \<in> set ds \<Longrightarrow> \<exists>r. build d = Ok r) \<Longrightarrow> \<exists>rs. build_routes build active ds = Ok rs"
  by (induction ds) (fastforce simp: bind_res_def)+

lemma merge_sources_Ok:
  "merge_sources f s = Ok ds \<longleftrightarrow>
     ds = sort_key ad_api_id (f @ s) \<and> distinct (map ad_api_id (f @ s)) \<and> distinct (map normalized_path (f @ s))"
  by (auto simp: merge_sources_def merge_from_Ok comp_def)

lemma build_routes_defs:
  assumes "build_routes build active ds = Ok rs" and "\<And>d r. build d = Ok r \<Longrightarrow> rt_def r = d"
  shows "map rt_def rs = filter active ds \<and> (\<forall>r \<in> set rs. build (rt_def r) = Ok r)"
  using assms(1)
proof (induction ds arbitrary: rs)
  case Nil
  then show ?case by simp
next
  case (Cons d ds)
  then obtain r rs' where "build d = Ok r" "build_routes build active ds = Ok rs'" "rs = (if active d then r # rs' else rs')" by auto
  with Cons.IH [of rs'] assms(2) [of d r] show ?case by simp
qed

lemma distinct_map_sort: "distinct (map f (sort_key k xs)) \<longleftrightarrow> distinct (map f xs)"
  by (metis distinct_map distinct_sort set_sort)

lemma build_one_Ok: "build_one G d = Ok r \<longleftrightarrow> (\<exists>starts. route_build G d = Ok (r, starts))"
  by (auto simp: build_one_def)

lemma build_one_own: "build_one G d = Ok r \<Longrightarrow> rt_def r = d"
  unfolding build_one_Ok using route_build_starts by blast

lemma table_of_Ok:
  "table_of ctx f s = Ok table \<longleftrightarrow>
     distinct (map ad_api_id (f @ s)) \<and> distinct (map normalized_path (f @ s))
     \<and> (\<exists>rs. build_routes (build_one (rc_resources ctx)) ad_active (sort_key ad_api_id (f @ s)) = Ok rs \<and> table = sort_key route_key rs)"
  by (auto simp: table_of_def route_table_build_def merge_sources_Ok)

lemma table_of_routes:
  assumes "table_of ctx f s = Ok table"
  shows "rt_def ` set table = {d \<in> set (f @ s). ad_active d}"
    and "\<And>r. r \<in> set table \<Longrightarrow> build_one (rc_resources ctx) (rt_def r) = Ok r"
    and "distinct (map k (f @ s)) \<Longrightarrow> distinct (map (k \<circ> rt_def) table)"
    and "mset (map rt_def table) = mset (filter ad_active (f @ s))"
proof -
  obtain rs where rs: "build_routes (build_one (rc_resources ctx)) ad_active (sort_key ad_api_id (f @ s)) = Ok rs" and t: "table = sort_key route_key rs"
    using assms unfolding table_of_Ok by blast
  have m: "map rt_def rs = filter ad_active (sort_key ad_api_id (f @ s))" and b: "\<forall>r \<in> set rs. build_one (rc_resources ctx) (rt_def r) = Ok r"
    using build_routes_defs [OF rs] build_one_own by blast+
  have "set (map rt_def rs) = {d \<in> set (f @ s). ad_active d}" unfolding m by auto
  then show "rt_def ` set table = {d \<in> set (f @ s). ad_active d}" by (simp add: t)
  show "build_one (rc_resources ctx) (rt_def r) = Ok r" if "r \<in> set table" for r using b that by (simp add: t)
  have "mset (map rt_def table) = mset (map rt_def rs)" by (simp add: t)
  also have "\<dots> = mset (filter ad_active (f @ s))" unfolding m by (simp add: mset_filter)
  finally show "mset (map rt_def table) = mset (filter ad_active (f @ s))" .
  assume "distinct (map k (f @ s))"
  then have "distinct (map k (filter ad_active (sort_key ad_api_id (f @ s))))" by (intro distinct_map_filter) (simp only: distinct_map_sort)
  then have "distinct (map k (map rt_def rs))" using m by simp
  then show "distinct (map (k \<circ> rt_def) table)" unfolding t distinct_map_sort by simp
qed

text \<open>Building from definitions that are valid and deployable fails only on a conflict.\<close>

lemma table_of_total:
  assumes "parsers_documented (rr_http (rc_resources ctx))" and "config_documented (config_of (rc_resources ctx))"
    and "\<And>d. d \<in> set (f @ s) \<Longrightarrow> ctx_validate ctx d = Ok () \<and> deployable (rc_resources ctx) d"
    and "distinct (map ad_api_id (f @ s))" and "distinct (map normalized_path (f @ s))"
  shows "\<exists>table. table_of ctx f s = Ok table"
proof -
  have "\<exists>r. build_one (rc_resources ctx) d = Ok r" if "d \<in> set (f @ s)" for d
    using route_build_validated [OF assms(1,2), of d] assms(3) [OF that] by (auto simp: ctx_validate_def Let_def build_one_Ok)
  then have "\<exists>rs. build_routes (build_one (rc_resources ctx)) ad_active (sort_key ad_api_id (f @ s)) = Ok rs"
    by (intro build_routes_total) simp
  then show ?thesis using assms(4,5) unfolding table_of_Ok by blast
qed

text \<open>A table of routes built from validated, active definitions without conflicts.\<close>

definition sound_table :: "('h, 'r, 'n, 'k, 'f, 's, 'u, 'e, 'g) reload_context \<Rightarrow> ('h, 'r, 'n, 'k, 'f, 's, 'u, 'e, 'g) table \<Rightarrow> bool" where
  "sound_table ctx table \<longleftrightarrow>
     (\<forall>r \<in> set table. ctx_validate ctx (rt_def r) = Ok () \<and> ad_active (rt_def r)
        \<and> (\<exists>starts. route_build (rc_resources ctx) (rt_def r) = Ok (r, starts)))
     \<and> distinct (map (ad_api_id \<circ> rt_def) table) \<and> distinct (map (normalized_path \<circ> rt_def) table)"

lemma load_records_valid:
  "load_records S parse validate se t s keys = (Ok ds, s') \<Longrightarrow> d \<in> set ds \<Longrightarrow> validate d = Ok ()"
  by (induction S parse validate se t s keys arbitrary: ds s' rule: load_records.induct)
    (auto split: prod.splits res.splits option.splits sum.splits if_splits)

lemma load_api_definitions_valid:
  "load_api_definitions S parse validate se t s org = (Ok ds, s') \<Longrightarrow> d \<in> set ds \<Longrightarrow> validate d = Ok ()"
  by (auto simp: load_api_definitions_def split: prod.splits res.splits dest: load_records_valid)

lemma table_of_sound:
  assumes "table_of ctx f s = Ok table" and "\<And>d. d \<in> set (f @ s) \<Longrightarrow> ctx_validate ctx d = Ok ()"
  shows "sound_table ctx table"
proof -
  have "distinct (map ad_api_id (f @ s))" "distinct (map normalized_path (f @ s))" using assms(1) by (simp_all add: table_of_Ok)
  note d = this [THEN table_of_routes(3) [OF assms(1)]]
  have "ctx_validate ctx (rt_def r) = Ok () \<and> ad_active (rt_def r)" if "r \<in> set table" for r
    using table_of_routes(1) [OF assms(1)] assms(2) that by blast
  with d table_of_routes(2) [OF assms(1)] show ?thesis by (simp add: sound_table_def build_one_Ok)
qed

lemma build_table_Ok:
  "build_table ctx read_dir t s = (Ok table, s') \<longleftrightarrow>
     (\<exists>f d. load_dir read_dir (rc_parse_file ctx) (ctx_validate ctx) (rc_apps_dir ctx) = Ok f
        \<and> load_api_definitions (rr_storage (rc_resources ctx)) (rc_parse_stored ctx) (ctx_validate ctx) (rc_show_error ctx) t s (rc_org_id ctx)
            = (Ok d, s')
        \<and> table_of ctx f d = Ok table)"
  by (auto simp: build_table_def split: res.splits prod.splits)

lemma build_table_sound: "build_table ctx read_dir t s = (Ok table, s') \<Longrightarrow> sound_table ctx table"
  unfolding build_table_Ok using table_of_sound load_dir_valid load_api_definitions_valid by (metis Un_iff set_append)

lemma on_nudge_table:
  "on_nudge ctx read_dir t (pod, s) = (pod', s') \<Longrightarrow>
   pd_table pod' = pd_table pod \<or> fst (build_table ctx read_dir t s) = Ok (pd_table pod')"
  by (auto simp: on_nudge_def split: if_splits prod.splits res.splits)

lemma pod_step_sound:
  assumes "pod_step ctx st st'" and "sound_table ctx (pd_table (fst st))"
  shows "sound_table ctx (pd_table (fst st'))"
  using assms
proof (induction rule: pod_step.induct)
  case (nudge st read_dir t)
  obtain pod s where st: "st = (pod, s)" by fastforce
  obtain pod' s' where n: "on_nudge ctx read_dir t (pod, s) = (pod', s')" by fastforce
  from on_nudge_table [OF n] nudge st n show ?case
    by (auto dest: build_table_sound intro: build_table_sound [OF prod_eqI])
qed simp_all

lemma merge_from_no_panic: "merge_from ids paths ds \<noteq> Panic"
  by (induction ids paths ds rule: merge_from.induct) (auto split: option.splits)

lemma merge_sources_no_panic: "merge_sources f s \<noteq> Panic"
  using merge_from_no_panic by (auto simp: merge_sources_def bind_res_def split: res.splits)

lemma build_routes_Ok_iff: "(\<exists>rs. build_routes build active ds = Ok rs) \<longleftrightarrow> (\<forall>d \<in> set ds. \<exists>r. build d = Ok r)"
proof (induction ds)
  case (Cons d ds)
  then show ?case by (cases "build d"; cases "build_routes build active ds") (auto simp: bind_res_def)
qed simp

lemma table_of_buildable:
  "(\<exists>table. table_of ctx f s = Ok table) \<longleftrightarrow> distinct (map ad_api_id (f @ s)) \<and> distinct (map normalized_path (f @ s))
     \<and> (\<forall>d \<in> set (f @ s). \<exists>r. route_build (rc_resources ctx) d = Ok r)"
proof -
  have "(\<exists>r. build_one (rc_resources ctx) d = Ok r) \<longleftrightarrow> (\<exists>r. route_build (rc_resources ctx) d = Ok r)" for d
    unfolding build_one_Ok by auto
  then show ?thesis
    unfolding table_of_Ok using build_routes_Ok_iff [of "build_one (rc_resources ctx)" ad_active "sort_key ad_api_id (f @ s)"] by auto
qed

text \<open>Building a table does not panic when the parameters do not.\<close>

definition reads_no_panic :: "'s storage_ops \<Rightarrow> bool" where
  "reads_no_panic S \<longleftrightarrow> (\<forall>s t k. fst (st_get S s t k) \<noteq> Panic) \<and> (\<forall>s t p. fst (st_scan_prefix S s t p) \<noteq> Panic)"

lemma memory_reads_no_panic: "reads_no_panic memory_ops"
proof -
  have "fst (mem_get s t k) \<noteq> Panic" for s t k using mem_get_total [of s t k] by auto
  moreover have "fst (mem_scan_prefix s t p) \<noteq> Panic" for s t p by (simp add: mem_scan_prefix_def)
  ultimately show ?thesis by (simp add: reads_no_panic_def)
qed

lemma load_dir_no_panic:
  assumes "\<And>d. validate d \<noteq> Panic"
  shows "load_dir read_dir parse validate dir \<noteq> Panic"
proof -
  have "load_entries parse validate dir es \<noteq> Panic" for es
    using assms by (induction parse validate dir es rule: load_entries.induct) (auto simp: bind_res_Panic split: sum.splits)
  moreover have "conflicts_from ids paths ds \<noteq> Panic" for ids paths and ds :: "('a, 'b, 'c) api_definition list"
    by (induction ids paths ds rule: conflicts_from.induct) auto
  ultimately show ?thesis by (auto simp: load_dir_def check_conflicts_def bind_res_Panic split: sum.splits)
qed

lemma load_api_definitions_no_panic:
  assumes "reads_no_panic S" and "\<And>d. validate d \<noteq> Panic"
  shows "fst (load_api_definitions S parse validate se t s org) \<noteq> Panic"
proof -
  have get: "st_get S s t k \<noteq> (Panic, s')" "st_scan_prefix S s t p \<noteq> (Panic, s')" for s t k p s'
    using assms(1) unfolding reads_no_panic_def by (metis fst_conv)+
  have r: "fst (load_records S parse validate se t s keys) \<noteq> Panic" for s keys
  proof (induction keys arbitrary: s)
    case (Cons k keys)
    then show ?case using assms(2) get(1) by (auto split: prod.splits res.splits option.splits sum.splits) (metis fst_conv)+
  qed simp
  show ?thesis
    using r get(2) by (auto simp: load_api_definitions_def split: prod.splits res.splits) (metis fst_conv)+
qed

lemma build_table_no_panic:
  assumes "parsers_documented (rr_http (rc_resources ctx))" and "graphql_no_panic (rc_resources ctx)"
    and "reads_no_panic (rr_storage (rc_resources ctx))"
  shows "fst (build_table ctx read_dir t s) \<noteq> Panic"
proof -
  have v: "ctx_validate ctx d \<noteq> Panic" for d using api_validate_no_panic [OF assms(2)] by (simp add: ctx_validate_def Let_def)
  have "build_routes (build_one (rc_resources ctx)) active ds \<noteq> Panic" for active ds
    by (induction ds) (auto simp: bind_res_Panic build_one_def route_build_no_panic [OF assms(2,1)])
  then have "table_of ctx f ds \<noteq> Panic" for f ds
    using merge_sources_no_panic [of f ds] by (auto simp: table_of_def route_table_build_def bind_res_Panic)
  moreover have "load_dir read_dir (rc_parse_file ctx) (ctx_validate ctx) (rc_apps_dir ctx) \<noteq> Panic" by (rule load_dir_no_panic [OF v])
  moreover have "fst (load_api_definitions (rr_storage (rc_resources ctx)) (rc_parse_stored ctx) (ctx_validate ctx) (rc_show_error ctx) t s
      (rc_org_id ctx)) \<noteq> Panic"
    by (rule load_api_definitions_no_panic [OF assms(3) v])
  ultimately show ?thesis by (auto simp: build_table_def split: res.splits prod.splits)
qed

section \<open>Properties\<close>

text \<open>
  C16. Whatever happens to the files, the store and the subscription while the gateway runs, and
  however often and with whatever outcome it reloads, the table in force consists of routes that
  \<open>Route::build\<close> made from validated, active definitions, no two of them with the same id or the
  same listen path.
\<close>

theorem reload_serves_validated:
  assumes "(pod_step ctx)\<^sup>*\<^sup>* (pod0, s0) (pod, s)" and "build_table ctx read_dir t s1 = (Ok (pd_table pod0), s2)"
  shows "(\<forall>r \<in> set (pd_table pod). ctx_validate ctx (rt_def r) = Ok () \<and> ad_active (rt_def r)
        \<and> (\<exists>starts. route_build (rc_resources ctx) (rt_def r) = Ok (r, starts)))
    \<and> distinct (map (ad_api_id \<circ> rt_def) (pd_table pod)) \<and> distinct (map (normalized_path \<circ> rt_def) (pd_table pod))"
proof -
  have "sound_table ctx (pd_table (fst st'))" if "(pod_step ctx)\<^sup>*\<^sup>* (pod0, s0) st'" for st'
    using that by induction (simp_all add: build_table_sound [OF assms(2)] pod_step_sound)
  from this [OF assms(1)] show ?thesis by (simp add: sound_table_def)
qed

text \<open>
  C17. A reload nudge that reaches a running listener takes up exactly what is configured, or
  nothing. When the definition files and the stored definitions load and validate, no id or
  listen path occurs twice among them, and \<open>Route::build\<close> makes a route of each (the plugins and
  schemas it names load), the new table has, for every active definition of either source,
  exactly one route, built from it. In every other case the previous table keeps serving. Either
  way the listener goes on, as the build does not panic: of the parameters it is assumed only
  that the GraphQL validator and layer and reads of the store do not, and that the header and
  method parsers take what is documented.
\<close>

theorem reload_exact:
  assumes "parsers_documented (rr_http (rc_resources ctx))" and "graphql_no_panic (rc_resources ctx)"
    and "reads_no_panic (rr_storage (rc_resources ctx))"
    and "pd_listening pod" and "on_nudge ctx read_dir t (pod, s) = (pod', s')"
  shows "pd_listening pod' \<and>
    (case (load_dir read_dir (rc_parse_file ctx) (ctx_validate ctx) (rc_apps_dir ctx),
          fst (load_api_definitions (rr_storage (rc_resources ctx)) (rc_parse_stored ctx) (ctx_validate ctx) (rc_show_error ctx) t s (rc_org_id ctx))) of
       (Ok f, Ok ds) \<Rightarrow>
         (if distinct (map ad_api_id (f @ ds)) \<and> distinct (map normalized_path (f @ ds))
             \<and> (\<forall>d \<in> set (f @ ds). \<exists>r. route_build (rc_resources ctx) d = Ok r)
          then mset (map rt_def (pd_table pod')) = mset (filter ad_active (f @ ds))
             \<and> (\<forall>r \<in> set (pd_table pod'). \<exists>starts. route_build (rc_resources ctx) (rt_def r) = Ok (r, starts))
          else pd_table pod' = pd_table pod)
     | _ \<Rightarrow> pd_table pod' = pd_table pod)"
proof -
  obtain b s1 where b: "build_table ctx read_dir t s = (b, s1)" by fastforce
  then have "b \<noteq> Panic" using build_table_no_panic [OF assms(1-3), of read_dir t s] by simp
  then have p: "pd_listening pod' \<and> pd_table pod' = (case b of Ok table \<Rightarrow> table | _ \<Rightarrow> pd_table pod)"
    using assms(4,5) b by (cases b) (auto simp: on_nudge_def)
  obtain l s2 where l: "load_api_definitions (rr_storage (rc_resources ctx)) (rc_parse_stored ctx) (ctx_validate ctx) (rc_show_error ctx) t s
      (rc_org_id ctx) = (l, s2)" by fastforce
  show ?thesis
  proof (cases "\<exists>f ds. load_dir read_dir (rc_parse_file ctx) (ctx_validate ctx) (rc_apps_dir ctx) = Ok f \<and> l = Ok ds")
    case True
    then obtain f ds where f: "load_dir read_dir (rc_parse_file ctx) (ctx_validate ctx) (rc_apps_dir ctx) = Ok f" and ds: "l = Ok ds" by blast
    have "b = Ok table \<longleftrightarrow> table_of ctx f ds = Ok table" for table
      using b by (auto simp: build_table_def f l ds split: res.splits)
    note tb = this table_of_buildable [of ctx f ds]
    have "mset (map rt_def table) = mset (filter ad_active (f @ ds)) \<and> (\<forall>r \<in> set table. \<exists>starts. route_build (rc_resources ctx) (rt_def r) = Ok (r, starts))"
      if "table_of ctx f ds = Ok table" for table
      using table_of_routes(2,4) [OF that] by (simp add: build_one_Ok)
    note routes = this
    show ?thesis
    proof (cases "\<exists>table. table_of ctx f ds = Ok table")
      case True
      then obtain table where t: "table_of ctx f ds = Ok table" by blast
      then have "b = Ok table" using tb(1) by blast
      then have "pd_table pod' = table" using p by simp
      with routes [OF t] p True show ?thesis unfolding f l ds fst_conv prod.case res.case tb(2) [symmetric] by simp
    next
      case False
      then have "pd_table pod' = pd_table pod" using tb(1) p by (auto split: res.splits)
      with p False show ?thesis unfolding f l ds fst_conv prod.case res.case tb(2) [symmetric] by simp
    qed
  next
    case False
    then have "\<nexists>table s2. build_table ctx read_dir t s = (Ok table, s2)" unfolding build_table_Ok l by blast
    with b p have "pd_listening pod' \<and> pd_table pod' = pd_table pod" by (auto split: res.splits)
    with False show ?thesis by (auto simp: l split: res.splits)
  qed
qed

section \<open>A gateway with one definition file\<close>

definition sample_context :: "(alist_headers, string, ip_addr, string, unit, memory_storage,
    alist_headers upstream_request list \<times> alist_headers exchange list, unit, unit) reload_context" where
  "sample_context = \<lparr>rc_apps_dir = ''apps'', rc_org_id = ''default'', rc_resources = sample_resources, rc_parse_file = (\<lambda>_. Inr secured_definition),
     rc_parse_stored = (\<lambda>_. Inl ''none''), rc_show_error = (\<lambda>_. [])\<rparr>"

abbreviation one_file :: "string \<Rightarrow> string + dir_entry list" where
  "one_file \<equiv> (\<lambda>dir. Inr [FileEntry ''users.json'' (Some ''json'') (Inr ''users''), FileEntry ''notes'' None (Inl ''unread'')])"

lemma sample_context_loads:
  "load_dir one_file (rc_parse_file sample_context) (ctx_validate sample_context) (rc_apps_dir sample_context) = Ok [secured_definition]"
  "load_api_definitions (rr_storage (rc_resources sample_context)) (rc_parse_stored sample_context) (ctx_validate sample_context)
     (rc_show_error sample_context) t mem_new (rc_org_id sample_context) = (Ok [], mem_new)"
proof -
  have v: "ctx_validate sample_context secured_definition = Ok ()"
    using secured_valid by (simp add: ctx_validate_def sample_context_def)
  then show "load_dir one_file (rc_parse_file sample_context) (ctx_validate sample_context) (rc_apps_dir sample_context) = Ok [secured_definition]"
    by (simp add: load_dir_def sample_context_def bind_res_def check_conflicts_def)
  show "load_api_definitions (rr_storage (rc_resources sample_context)) (rc_parse_stored sample_context) (ctx_validate sample_context)
      (rc_show_error sample_context) t mem_new (rc_org_id sample_context) = (Ok [], mem_new)"
    by (simp add: load_api_definitions_def sample_context_def sample_resources_def mem_scan_prefix_def mem_new_def)
qed

lemma sample_context_table: "\<exists>table. build_table sample_context one_file t mem_new = (Ok table, mem_new)"
proof -
  have "\<exists>table. table_of sample_context [secured_definition] [] = Ok table"
  proof (rule table_of_total)
    show "ctx_validate sample_context d = Ok () \<and> deployable (rc_resources sample_context) d" if "d \<in> set ([secured_definition] @ [])" for d
      using that secured_valid secured_deployable by (simp add: ctx_validate_def sample_context_def)
  qed (simp_all add: sample_context_def sample_resources_sel alist_documented sample_config_documented)
  then show ?thesis by (auto simp: build_table_Ok sample_context_loads)
qed

theorem reload_serves_validated_witness:
  "\<exists>table pod s. build_table sample_context one_file 0 mem_new = (Ok table, mem_new)
     \<and> on_nudge sample_context (\<lambda>_. Inl ''gone'') 1 (\<lparr>pd_table = table, pd_listening = True\<rparr>, mem_new) = (pod, s)
     \<and> pd_table pod = table \<and> distinct (map (ad_api_id \<circ> rt_def) (pd_table pod))"
proof -
  obtain table where t: "build_table sample_context one_file 0 mem_new = (Ok table, mem_new)" using sample_context_table by blast
  let ?pod = "\<lparr>pd_table = table, pd_listening = True\<rparr>"
  have n: "on_nudge sample_context (\<lambda>_. Inl ''gone'') 1 (?pod, mem_new) = (?pod, mem_new)"
    by (simp add: on_nudge_def build_table_def load_dir_def)
  have "(pod_step sample_context)\<^sup>*\<^sup>* (?pod, mem_new) (?pod, mem_new)"
    using pod_step.nudge [of sample_context "(?pod, mem_new)" "\<lambda>_. Inl ''gone''" 1] unfolding n by blast
  from reload_serves_validated [OF this, of one_file 0 mem_new mem_new] t n show ?thesis by auto
qed

lemma sample_no_panic: "graphql_no_panic sample_resources" "reads_no_panic (rr_storage sample_resources)"
  by (simp_all add: graphql_no_panic_def sample_resources_def memory_reads_no_panic)

theorem reload_exact_witness:
  "\<exists>pod s. on_nudge sample_context one_file 1 (\<lparr>pd_table = [], pd_listening = True\<rparr>, mem_new) = (pod, s)
     \<and> pd_listening pod \<and> map rt_def (pd_table pod) = [secured_definition]"
proof -
  obtain pod s where n: "on_nudge sample_context one_file 1 (\<lparr>pd_table = [], pd_listening = True\<rparr>, mem_new) = (pod, s)" by fastforce
  have r: "rc_resources sample_context = sample_resources" by (simp add: sample_context_def)
  have p: "parsers_documented (rr_http (rc_resources sample_context))"
    "graphql_no_panic (rc_resources sample_context)" "reads_no_panic (rr_storage (rc_resources sample_context))"
    by (simp_all add: r sample_no_panic sample_resources_sel alist_documented)
  have "ad_active secured_definition" "\<exists>x. route_build sample_resources secured_definition = Ok x"
    using route_build_validated [OF _ sample_config_documented secured_valid secured_deployable] alist_documented
    by (simp_all add: secured_definition_def sample_resources_sel)
  then have "pd_listening pod \<and> mset (map rt_def (pd_table pod)) = mset [secured_definition]"
    using reload_exact [OF p _ n] by (simp add: sample_context_loads [unfolded r] r)
  then have "pd_listening pod \<and> map rt_def (pd_table pod) = [secured_definition]" by (metis mset_single_iff_right)
  then show ?thesis using n by simp
qed

end
