(* ===== verification/Config.thy ===== *)
theory Config
  imports Session Spike_Guard
begin

text \<open>
  The process configuration (\<open>g2-core/src/config.rs\<close>): the settings of a gateway node, the parsers
  of its enumerations, the cross-field validation, the overrides of the command line
  (\<open>g2way/src/main.rs\<close>), and the TLS acceptor built from it (\<open>g2way/src/tls.rs\<close>). The file
  system, the YAML parser and the operations of \<open>rustls\<close> are parameters.
\<close>

section \<open>Settings\<close>

datatype analytics_sink_kind = SinkStdout | SinkRedis | SinkOtlpLogs

datatype client_cert_mode = CertNone | CertOptional | CertRequired

record tls_config =
  tl_cert_file :: "string option"
  tl_key_file :: "string option"
  tl_client_ca_file :: "string option"
  tl_client_cert_mode :: client_cert_mode

definition tls_default :: tls_config where
  "tls_default = \<lparr>tl_cert_file = None, tl_key_file = None, tl_client_ca_file = None, tl_client_cert_mode = CertNone\<rparr>"

record gateway_config =
  gc_listen_addr :: string
  gc_apps_dir :: string
  gc_shutdown_grace_period_secs :: nat
  gc_redis_url :: "string option"
  gc_admin_listen_addr :: "string option"
  gc_admin_secret :: "string option"
  gc_spike_guard :: "spike_guard_config option"
  gc_otlp_endpoint :: "string option"
  gc_analytics_sink :: "analytics_sink_kind option"
  gc_tls :: "tls_config option"
  gc_plugins_dir :: "string option"

definition gateway_config_default :: gateway_config where
  "gateway_config_default =
     \<lparr>gc_listen_addr = ''0.0.0.0:8080'', gc_apps_dir = ''./apps'', gc_shutdown_grace_period_secs = 30, gc_redis_url = None,
      gc_admin_listen_addr = None, gc_admin_secret = None, gc_spike_guard = None, gc_otlp_endpoint = None,
      gc_analytics_sink = None, gc_tls = None, gc_plugins_dir = None\<rparr>"

text \<open>The two \<open>FromStr\<close> implementations; a failure carries the message of its error type.\<close>

definition sink_from_str :: "string \<Rightarrow> (string, analytics_sink_kind) res" where
  "sink_from_str s =
     (let l = to_ascii_lowercase s
      in if l = ''stdout'' then Ok SinkStdout
         else if l = ''redis'' then Ok SinkRedis
         else if l = ''otlp_logs'' \<or> l = ''otlp-logs'' then Ok SinkOtlpLogs
         else Err (''unknown analytics sink `'' @ l @ ''`; expected `stdout`, `redis`, or `otlp_logs`''))"

definition cert_mode_from_str :: "string \<Rightarrow> (string, client_cert_mode) res" where
  "cert_mode_from_str s =
     (let l = to_ascii_lowercase s
      in if l = ''none'' then Ok CertNone
         else if l = ''optional'' then Ok CertOptional
         else if l = ''required'' then Ok CertRequired
         else Err (''unknown client cert mode `'' @ l @ ''`; expected `none`, `optional`, or `required`''))"

text \<open>\<open>GatewayConfig::from_file\<close> over reading a file and the YAML parser.\<close>

definition config_from_file :: "(string \<Rightarrow> string + string) \<Rightarrow> (string \<Rightarrow> string + gateway_config) \<Rightarrow> string \<Rightarrow> (error, gateway_config) res" where
  "config_from_file read parse path =
     (case read path of
        Inl e \<Rightarrow> Err (IoError path e)
      | Inr raw \<Rightarrow> (case parse raw of Inl e \<Rightarrow> Err (ParseError path e) | Inr c \<Rightarrow> Ok c))"

section \<open>Validation\<close>

definition tls_validate :: "tls_config \<Rightarrow> (error, unit) res" where
  "tls_validate tls =
     (if tl_cert_file tls = None \<or> tl_key_file tls = None then
        Err (InvalidGatewayConfig (''`tls` requires both `tls.cert_file` and `tls.key_file` (omit the ''
          @ ''`tls` block entirely for a plain-HTTP listener)''))
      else if tl_client_cert_mode tls \<noteq> CertNone \<and> tl_client_ca_file tls = None then
        Err (InvalidGatewayConfig (''`tls.client_cert_mode: ''
          @ (if tl_client_cert_mode tls = CertOptional then ''optional'' else ''required'')
          @ ''` requires `tls.client_ca_file` '' @ [CHR 0xE2, CHR 0x80, CHR 0x94] @ '' there is ''
          @ ''no CA to verify client certificates against''))
      else if tl_client_cert_mode tls = CertNone \<and> tl_client_ca_file tls \<noteq> None then
        Err (InvalidGatewayConfig (''`tls.client_ca_file` is set but `tls.client_cert_mode` is `none`; ''
          @ ''the bundle would be silently ignored '' @ [CHR 0xE2, CHR 0x80, CHR 0x94] @ '' set the mode to `optional` ''
          @ ''or `required`, or drop the bundle''))
      else Ok ())"

definition sink_validate :: "gateway_config \<Rightarrow> (error, unit) res" where
  "sink_validate c =
     (if gc_analytics_sink c = Some SinkRedis \<and> gc_redis_url c = None then
        Err (InvalidGatewayConfig (''`analytics_sink: redis` requires `redis_url` '' @ [CHR 0xE2, CHR 0x80, CHR 0x94]
          @ '' with in-memory storage the records would pile up unread in this process''))
      else if gc_analytics_sink c = Some SinkOtlpLogs \<and> gc_otlp_endpoint c = None then
        Err (InvalidGatewayConfig (''`analytics_sink: otlp_logs` requires `otlp_endpoint` '' @ [CHR 0xE2, CHR 0x80, CHR 0x94]
          @ '' there is no collector to export the records to''))
      else Ok ())"

definition gateway_config_validate :: "gateway_config \<Rightarrow> (error, unit) res" where
  "gateway_config_validate c =
     (if gc_admin_listen_addr c \<noteq> None \<and> (case gc_admin_secret c of None \<Rightarrow> True | Some s \<Rightarrow> trim s = []) then
        Err (InvalidGatewayConfig (''`admin_listen_addr` is set but `admin_secret` is missing or empty; ''
          @ ''the admin API never runs unsecured''))
      else if (case gc_spike_guard c of None \<Rightarrow> False | Some g \<Rightarrow> sgc_capacity g = 0 \<or> sgc_refill_per_sec g = 0) then
        Err (InvalidGatewayConfig (''`spike_guard.capacity` and `spike_guard.refill_per_sec` must be ''
          @ ''greater than zero (omit `spike_guard` to disable it)''))
      else if (case gc_otlp_endpoint c of None \<Rightarrow> False | Some e \<Rightarrow> \<not> prefix ''http://'' e \<and> \<not> prefix ''https://'' e) then
        Err (InvalidGatewayConfig (''`otlp_endpoint` must be an http:// or https:// URL, got `''
          @ (case gc_otlp_endpoint c of None \<Rightarrow> [] | Some e \<Rightarrow> e) @ ''` (omit it to disable OTLP export)''))
      else bind_res (sink_validate c) (\<lambda>_. case gc_tls c of None \<Rightarrow> Ok () | Some tls \<Rightarrow> tls_validate tls))"

section \<open>The command line\<close>

record cli =
  cli_config :: "string option"
  cli_listen :: "string option"
  cli_apps_dir :: "string option"
  cli_redis_url :: "string option"
  cli_admin_listen :: "string option"
  cli_admin_secret :: "string option"
  cli_otlp_endpoint :: "string option"
  cli_analytics_sink :: "analytics_sink_kind option"
  cli_tls_cert :: "string option"
  cli_tls_key :: "string option"
  cli_tls_client_ca :: "string option"
  cli_tls_client_cert_mode :: "client_cert_mode option"
  cli_plugins_dir :: "string option"
  cli_dump_openapi :: bool

text \<open>\<open>if let Some(v) = flag { field = Some(v) }\<close>\<close>

definition override_with :: "'a option \<Rightarrow> 'a option \<Rightarrow> 'a option" where
  "override_with flag field = (case flag of Some v \<Rightarrow> Some v | None \<Rightarrow> field)"

definition or_default :: "tls_config option \<Rightarrow> tls_config" where
  "or_default t = (case t of Some tls \<Rightarrow> tls | None \<Rightarrow> tls_default)"

definition override_tls_files :: "cli \<Rightarrow> tls_config option \<Rightarrow> tls_config option" where
  "override_tls_files c t =
     (if cli_tls_cert c \<noteq> None \<or> cli_tls_key c \<noteq> None \<or> cli_tls_client_ca c \<noteq> None then
        (let tls = or_default t
         in Some (tls\<lparr>tl_cert_file := override_with (cli_tls_cert c) (tl_cert_file tls), tl_key_file := override_with (cli_tls_key c) (tl_key_file tls),
                      tl_client_ca_file := override_with (cli_tls_client_ca c) (tl_client_ca_file tls)\<rparr>))
      else t)"

definition override_cert_mode :: "cli \<Rightarrow> tls_config option \<Rightarrow> tls_config option" where
  "override_cert_mode c t =
     (case cli_tls_client_cert_mode c of
        Some mode \<Rightarrow> Some ((or_default t)\<lparr>tl_client_cert_mode := mode\<rparr>)
      | None \<Rightarrow> t)"

definition apply_cli :: "cli \<Rightarrow> gateway_config \<Rightarrow> gateway_config" where
  "apply_cli c config =
     config\<lparr>gc_listen_addr := (case cli_listen c of Some l \<Rightarrow> l | None \<Rightarrow> gc_listen_addr config),
            gc_apps_dir := (case cli_apps_dir c of Some d \<Rightarrow> d | None \<Rightarrow> gc_apps_dir config),
            gc_redis_url := override_with (cli_redis_url c) (gc_redis_url config),
            gc_admin_listen_addr := override_with (cli_admin_listen c) (gc_admin_listen_addr config),
            gc_admin_secret := override_with (cli_admin_secret c) (gc_admin_secret config),
            gc_otlp_endpoint := override_with (cli_otlp_endpoint c) (gc_otlp_endpoint config),
            gc_analytics_sink := override_with (cli_analytics_sink c) (gc_analytics_sink config),
            gc_plugins_dir := override_with (cli_plugins_dir c) (gc_plugins_dir config),
            gc_tls := override_cert_mode c (override_tls_files c (gc_tls config))\<rparr>"

section \<open>The TLS acceptor\<close>

text \<open>
  What \<open>build_acceptor\<close> uses of \<open>rustls\<close>: reading a PEM file of certificates (the file, then each
  block of it) and a key, the set-up of protocol versions, adding a root, building the client
  verifier, and pairing the chain with the key. A failing step gives its message.
\<close>

record ('c, 'k) tls_ext =
  tx_pem_certs :: "string \<Rightarrow> string + (string + 'c) list"
  tx_pem_key :: "string \<Rightarrow> string + 'k"
  tx_protocols :: "string option"
  tx_add_root :: "'c \<Rightarrow> string option"
  tx_verifier :: "'c list \<Rightarrow> bool \<Rightarrow> string option"
  tx_single_cert :: "'c list \<Rightarrow> 'k \<Rightarrow> string option"

datatype 'c client_auth = NoClientAuth | VerifyClients "'c list" bool

record ('c, 'k) acceptor =
  av_certs :: "'c list"
  av_key :: 'k
  av_client_auth :: "'c client_auth"
  av_alpn :: "string list"

definition sum_res :: "('a \<Rightarrow> 'e) \<Rightarrow> 'a + 'b \<Rightarrow> ('e, 'b) res" where
  "sum_res f r = (case r of Inl e \<Rightarrow> Err (f e) | Inr x \<Rightarrow> Ok x)"

definition fail_res :: "('a \<Rightarrow> 'e) \<Rightarrow> 'a option \<Rightarrow> ('e, unit) res" where
  "fail_res f r = (case r of Some e \<Rightarrow> Err (f e) | None \<Rightarrow> Ok ())"

definition load_cert_chain :: "('c, 'k) tls_ext \<Rightarrow> string \<Rightarrow> (string, 'c list) res" where
  "load_cert_chain T path =
     bind_res (sum_res (\<lambda>e. ''cannot read PEM file `'' @ path @ ''`: '' @ e) (tx_pem_certs T path)) (\<lambda>blocks.
     bind_res (traverse (sum_res (\<lambda>e. ''malformed certificate in `'' @ path @ ''`: '' @ e)) blocks) (\<lambda>certs.
       if certs = [] then Err (''`'' @ path @ ''` contained no certificates'') else Ok certs))"

definition require_set :: "string \<Rightarrow> 'a option \<Rightarrow> (string, 'a) res" where
  "require_set name v = (case v of Some x \<Rightarrow> Ok x | None \<Rightarrow> Err (''`tls.'' @ name @ ''` is not set''))"

definition build_client_auth :: "('c, 'k) tls_ext \<Rightarrow> tls_config \<Rightarrow> (string, 'c client_auth) res" where
  "build_client_auth T cfg =
     (case tl_client_cert_mode cfg of
        CertNone \<Rightarrow> Ok NoClientAuth
      | mode \<Rightarrow>
          bind_res (require_set ''client_ca_file'' (tl_client_ca_file cfg)) (\<lambda>ca_path.
          bind_res (load_cert_chain T ca_path) (\<lambda>chain.
          bind_res (traverse (\<lambda>cert. fail_res (\<lambda>e. ''`tls.client_ca_file` `'' @ ca_path @ ''` holds an unusable CA certificate: '' @ e)
                      (tx_add_root T cert)) chain) (\<lambda>_.
            if chain = [] then Err (''`tls.client_ca_file` `'' @ ca_path @ ''` contained no certificates'')
            else bind_res (fail_res (\<lambda>e. ''client certificate verifier setup failed: '' @ e) (tx_verifier T chain (mode = CertOptional)))
                   (\<lambda>_. Ok (VerifyClients chain (mode = CertOptional)))))))"

definition build_acceptor :: "('c, 'k) tls_ext \<Rightarrow> tls_config \<Rightarrow> (string, ('c, 'k) acceptor) res" where
  "build_acceptor T cfg =
     bind_res (require_set ''cert_file'' (tl_cert_file cfg)) (\<lambda>cert_path.
     bind_res (require_set ''key_file'' (tl_key_file cfg)) (\<lambda>key_path.
     bind_res (load_cert_chain T cert_path) (\<lambda>certs.
     bind_res (sum_res (\<lambda>e. ''cannot load `tls.key_file` `'' @ key_path @ ''`: '' @ e) (tx_pem_key T key_path)) (\<lambda>key.
     bind_res (fail_res (\<lambda>e. ''TLS protocol setup failed: '' @ e) (tx_protocols T)) (\<lambda>_.
     bind_res (build_client_auth T cfg) (\<lambda>client.
     bind_res (fail_res (\<lambda>e. ''`tls.cert_file` `'' @ cert_path @ ''` / `tls.key_file` `'' @ key_path @ ''` rejected: '' @ e)
                 (tx_single_cert T certs key)) (\<lambda>_.
       Ok \<lparr>av_certs = certs, av_key = key, av_client_auth = client, av_alpn = [''h2'', ''http/1.1'']\<rparr>)))))))"

section \<open>Lemmas\<close>

text \<open>The settings that may be started.\<close>

definition startable :: "gateway_config \<Rightarrow> bool" where
  "startable c \<longleftrightarrow>
     (\<forall>a. gc_admin_listen_addr c = Some a \<longrightarrow> (\<exists>s. gc_admin_secret c = Some s \<and> trim s \<noteq> []))
     \<and> (\<forall>g. gc_spike_guard c = Some g \<longrightarrow> sgc_capacity g > 0 \<and> sgc_refill_per_sec g > 0)
     \<and> (\<forall>e. gc_otlp_endpoint c = Some e \<longrightarrow> prefix ''http://'' e \<or> prefix ''https://'' e)
     \<and> (gc_analytics_sink c = Some SinkRedis \<longrightarrow> gc_redis_url c \<noteq> None)
     \<and> (gc_analytics_sink c = Some SinkOtlpLogs \<longrightarrow> gc_otlp_endpoint c \<noteq> None)
     \<and> (\<forall>tls. gc_tls c = Some tls \<longrightarrow>
          tl_cert_file tls \<noteq> None \<and> tl_key_file tls \<noteq> None
          \<and> (tl_client_cert_mode tls = CertNone \<longleftrightarrow> tl_client_ca_file tls = None))"

lemma tls_validate_Ok:
  "tls_validate tls = Ok () \<longleftrightarrow>
     tl_cert_file tls \<noteq> None \<and> tl_key_file tls \<noteq> None \<and> (tl_client_cert_mode tls = CertNone \<longleftrightarrow> tl_client_ca_file tls = None)"
  by (auto simp: tls_validate_def)

lemma sink_validate_Ok:
  "sink_validate c = Ok () \<longleftrightarrow>
     (gc_analytics_sink c = Some SinkRedis \<longrightarrow> gc_redis_url c \<noteq> None) \<and> (gc_analytics_sink c = Some SinkOtlpLogs \<longrightarrow> gc_otlp_endpoint c \<noteq> None)"
  by (auto simp: sink_validate_def)

lemma gateway_config_validate_Ok: "gateway_config_validate c = Ok () \<longleftrightarrow> startable c"
  by (auto simp: gateway_config_validate_def startable_def sink_validate_Ok tls_validate_Ok word_neq_0_conv split: option.splits)

lemma sum_res_Ok [simp]: "sum_res f r = Ok x \<longleftrightarrow> r = Inr x"
  by (cases r) (simp_all add: sum_res_def)

lemma fail_res_Ok [simp]: "fail_res f r = Ok u \<longleftrightarrow> r = None"
  by (cases r) (simp_all add: fail_res_def)

lemma require_set_Ok [simp]: "require_set n v = Ok x \<longleftrightarrow> v = Some x"
  by (cases v) (simp_all add: require_set_def)

lemma load_cert_chain_Ok:
  "load_cert_chain T path = Ok certs \<longleftrightarrow> certs \<noteq> [] \<and> tx_pem_certs T path = Inr (map Inr certs)"
proof -
  have "list_all2 (\<lambda>x y. sum_res f x = Ok y) blocks certs \<longleftrightarrow> blocks = map Inr certs" for blocks and f :: "string \<Rightarrow> string"
    by (induction blocks certs rule: list_induct2') auto
  then show ?thesis by (auto simp: load_cert_chain_def traverse_Ok)
qed

lemma traverse_fail_res: "traverse (\<lambda>c. fail_res (f c) (g c)) chain = Ok us \<longleftrightarrow> us = map (\<lambda>_. ()) chain \<and> (\<forall>c \<in> set chain. g c = None)"
  unfolding traverse_Ok by (induction chain us rule: list_induct2') auto

lemma build_client_auth_Ok:
  "build_client_auth T cfg = Ok a \<longleftrightarrow>
     (if tl_client_cert_mode cfg = CertNone then a = NoClientAuth
      else \<exists>ca chain. tl_client_ca_file cfg = Some ca \<and> load_cert_chain T ca = Ok chain \<and> (\<forall>c \<in> set chain. tx_add_root T c = None)
             \<and> tx_verifier T chain (tl_client_cert_mode cfg = CertOptional) = None
             \<and> a = VerifyClients chain (tl_client_cert_mode cfg = CertOptional))"
  by (cases "tl_client_cert_mode cfg")
    (auto simp: build_client_auth_def load_cert_chain_Ok traverse_fail_res split: if_splits)

end
