(* ===== verification/Server.thy ===== *)
theory Server
  imports Reload Config
begin

text \<open>
  The process (\<open>g2way/src/main.rs\<close>, \<open>server.rs\<close>): start-up from the command line to the listeners,
  and the accept loop with TLS handshakes, the requests of each connection and the graceful
  shutdown, as a step relation over the connections. Sockets, the handshake, telemetry, the
  Redis client and the plugin host are parameters.
\<close>

section \<open>Start-up\<close>

datatype start_error = StartConfig error | StartReload reload_error | StartFailed string

definition lift_err :: "('a \<Rightarrow> 'e) \<Rightarrow> ('a, 'b) res \<Rightarrow> ('e, 'b) res" where
  "lift_err f r = (case r of Ok x \<Rightarrow> Ok x | Err e \<Rightarrow> Err (f e) | Panic \<Rightarrow> Panic)"

datatype sink_choice = StdoutSink | RedisListSink | OtlpLogsSink string

text \<open>
  What \<open>run\<close> calls: each fallible step gives its message. The resources of the routes come from
  the storage in use; the metrics layer and the plugin loader are added as the settings say.
\<close>

record ('c, 'i, 'h, 'r, 'n, 'k, 'f, 's, 'u, 'e, 'g) start_ext =
  sp_read_file :: "string \<Rightarrow> string + string"
  sp_parse_config :: "string \<Rightarrow> string + gateway_config"
  sp_tls :: "('c, 'i) tls_ext"
  sp_telemetry :: "string option \<Rightarrow> bool \<Rightarrow> string option"
  sp_runtime :: "string option"
  sp_redis :: "string \<Rightarrow> string + 's"
  sp_memory :: 's
  sp_now :: instant
  sp_otlp_sink :: "string \<Rightarrow> string option"
  sp_plugin_host :: "string \<Rightarrow> string + ('h, ('s, 'k, 'f, 'u, 'e) gw) plugin_loader"
  sp_metrics :: "request_context \<Rightarrow> string \<Rightarrow> ('h, ('s, 'k, 'f, 'u, 'e) gw) layer"
  sp_resources :: "bool \<Rightarrow> ('h, 'r, 'n, 'k, 'f, 's, 'u, 'e, 'g) resources"
  sp_context :: "('h, 'r, 'n, 'k, 'f, 's, 'u, 'e, 'g) resources \<Rightarrow> ('h, 'r, 'n, 'k, 'f, 's, 'u, 'e, 'g) reload_context"
  sp_read_dir :: "string \<Rightarrow> string + dir_entry list"
  sp_bind :: "string \<Rightarrow> string option"
  sp_sha256 :: "string \<Rightarrow> string"
  sp_admin_docs :: "json option \<times> json option"
  sp_prometheus :: string
  sp_openapi :: string

record ('c, 'i, 'h, 'r, 'n, 'k, 'f, 's, 'u, 'e, 'g) started =
  su_config :: gateway_config
  su_tls :: "('c, 'i) acceptor option"
  su_store :: 's
  su_spike_guard :: "spike_guard option"
  su_sink :: "sink_choice option"
  su_context :: "('h, 'r, 'n, 'k, 'f, 's, 'u, 'e, 'g) reload_context"
  su_table :: "('h, 'r, 'n, 'k, 'f, 's, 'u, 'e, 'g) table"
  su_admin :: "(string \<times> admin_state) option"
  su_grace :: duration

datatype 'a start_outcome = Printed string | Running 'a

definition load_config :: "('c, 'i, 'h, 'r, 'n, 'k, 'f, 's, 'u, 'e, 'g) start_ext \<Rightarrow> cli \<Rightarrow> (start_error, gateway_config) res" where
  "load_config P cli =
     bind_res (case cli_config cli of
                 Some path \<Rightarrow> lift_err StartConfig (config_from_file (sp_read_file P) (sp_parse_config P) path)
               | None \<Rightarrow> Ok gateway_config_default) (\<lambda>base.
     bind_res (lift_err StartConfig (gateway_config_validate (apply_cli cli base))) (\<lambda>_. Ok (apply_cli cli base)))"

definition start_tls :: "('c, 'i, 'h, 'r, 'n, 'k, 'f, 's, 'u, 'e, 'g) start_ext \<Rightarrow> gateway_config \<Rightarrow> (start_error, ('c, 'i) acceptor option) res" where
  "start_tls P config =
     (case gc_tls config of
        Some tls \<Rightarrow> bind_res (lift_err StartFailed (build_acceptor (sp_tls P) tls)) (\<lambda>a. Ok (Some a))
      | None \<Rightarrow> Ok None)"

definition start_storage :: "('c, 'i, 'h, 'r, 'n, 'k, 'f, 's, 'u, 'e, 'g) start_ext \<Rightarrow> gateway_config \<Rightarrow> (start_error, 's) res" where
  "start_storage P config =
     (case gc_redis_url config of Some url \<Rightarrow> sum_res StartFailed (sp_redis P url) | None \<Rightarrow> Ok (sp_memory P))"

definition start_sink :: "('c, 'i, 'h, 'r, 'n, 'k, 'f, 's, 'u, 'e, 'g) start_ext \<Rightarrow> gateway_config \<Rightarrow> (start_error, sink_choice option) res" where
  "start_sink P config =
     (case gc_analytics_sink config of
        None \<Rightarrow> Ok None
      | Some SinkStdout \<Rightarrow> Ok (Some StdoutSink)
      | Some SinkRedis \<Rightarrow> Ok (Some RedisListSink)
      | Some SinkOtlpLogs \<Rightarrow>
          (case gc_otlp_endpoint config of
             None \<Rightarrow> Panic
           | Some endpoint \<Rightarrow> bind_res (fail_res StartFailed (sp_otlp_sink P endpoint)) (\<lambda>_. Ok (Some (OtlpLogsSink endpoint)))))"

definition start_plugins :: "('c, 'i, 'h, 'r, 'n, 'k, 'f, 's, 'u, 'e, 'g) start_ext \<Rightarrow> gateway_config \<Rightarrow>
    (start_error, ('h, ('s, 'k, 'f, 'u, 'e) gw) plugin_loader option) res" where
  "start_plugins P config =
     (case gc_plugins_dir config of
        Some dir \<Rightarrow> bind_res (sum_res StartFailed (sp_plugin_host P dir)) (\<lambda>host. Ok (Some host))
      | None \<Rightarrow> Ok None)"

definition start_context :: "('c, 'i, 'h, 'r, 'n, 'k, 'f, 's, 'u, 'e, 'g) start_ext \<Rightarrow> gateway_config \<Rightarrow> sink_choice option \<Rightarrow>
    ('h, ('s, 'k, 'f, 'u, 'e) gw) plugin_loader option \<Rightarrow> ('h, 'r, 'n, 'k, 'f, 's, 'u, 'e, 'g) reload_context" where
  "start_context P config sink plugins =
     (sp_context P ((sp_resources P (gc_redis_url config \<noteq> None))
        \<lparr>rr_stats := True, rr_analytics := sink \<noteq> None, rr_plugin_loader := plugins,
         rr_metrics := (if gc_otlp_endpoint config \<noteq> None \<or> gc_admin_listen_addr config \<noteq> None then Some (sp_metrics P) else None)\<rparr>))
     \<lparr>rc_apps_dir := gc_apps_dir config, rc_org_id := DEFAULT_ORG_ID\<rparr>"

definition start_admin :: "('c, 'i, 'h, 'r, 'n, 'k, 'f, 's, 'u, 'e, 'g) start_ext \<Rightarrow> gateway_config \<Rightarrow> (start_error, (string \<times> admin_state) option) res" where
  "start_admin P config =
     (case gc_admin_listen_addr config of
        None \<Rightarrow> Ok None
      | Some addr \<Rightarrow>
          (case gc_admin_secret config of
             None \<Rightarrow> Panic
           | Some secret \<Rightarrow>
               bind_res (lift_err StartConfig (admin_router (sp_sha256 P) secret (fst (sp_admin_docs P)) (snd (sp_admin_docs P)) (Some (sp_prometheus P)))) (\<lambda>st.
               bind_res (fail_res StartFailed (sp_bind P addr)) (\<lambda>_. Ok (Some (addr, st))))))"

text \<open>From the first route table to the bound listeners.\<close>

definition start_serving :: "('c, 'i, 'h, 'r, 'n, 'k, 'f, 's, 'u, 'e, 'g) start_ext \<Rightarrow> gateway_config \<Rightarrow> ('c, 'i) acceptor option \<Rightarrow> 's \<Rightarrow> sink_choice option \<Rightarrow>
    ('h, ('s, 'k, 'f, 'u, 'e) gw) plugin_loader option \<Rightarrow> (start_error, ('c, 'i, 'h, 'r, 'n, 'k, 'f, 's, 'u, 'e, 'g) started start_outcome) res" where
  "start_serving P config tls store sink plugins =
     (let ctx = start_context P config sink plugins
      in case build_table ctx (sp_read_dir P) (sp_now P) store of
           (Err e, store1) \<Rightarrow> Err (StartReload e)
         | (Panic, store1) \<Rightarrow> Panic
         | (Ok table, store1) \<Rightarrow>
             bind_res (fail_res StartFailed (sp_bind P (gc_listen_addr config))) (\<lambda>_.
             bind_res (start_admin P config) (\<lambda>admin.
               Ok (Running \<lparr>su_config = config, su_tls = tls, su_store = store1,
                     su_spike_guard = map_option (\<lambda>g. spike_new g (sp_now P)) (gc_spike_guard config),
                     su_sink = sink, su_context = ctx, su_table = table, su_admin = admin,
                     su_grace = from_secs (gc_shutdown_grace_period_secs config)\<rparr>))))"

definition start :: "('c, 'i, 'h, 'r, 'n, 'k, 'f, 's, 'u, 'e, 'g) start_ext \<Rightarrow> cli \<Rightarrow>
    (start_error, ('c, 'i, 'h, 'r, 'n, 'k, 'f, 's, 'u, 'e, 'g) started start_outcome) res" where
  "start P cli =
     (if cli_dump_openapi cli then Ok (Printed (sp_openapi P))
      else
        bind_res (load_config P cli) (\<lambda>config.
        bind_res (start_tls P config) (\<lambda>tls.
        bind_res (fail_res StartFailed (sp_telemetry P (gc_otlp_endpoint config) (gc_admin_listen_addr config \<noteq> None))) (\<lambda>_.
        bind_res (fail_res StartFailed (sp_runtime P)) (\<lambda>_.
        bind_res (start_storage P config) (\<lambda>store.
        bind_res (start_sink P config) (\<lambda>sink.
        bind_res (start_plugins P config)
          (start_serving P config tls store sink))))))))"

section \<open>The accept loop\<close>

definition HANDSHAKE_TIMEOUT :: duration where
  "HANDSHAKE_TIMEOUT = from_secs 10"

definition plain_connection :: connection_info where
  "plain_connection = \<lparr>cn_tls = False, cn_client_cert_fingerprint = None\<rparr>"

text \<open>The stamp of a TLS connection, from the certificates the handshake verified.\<close>

definition tls_connection :: "(string \<Rightarrow> string) \<Rightarrow> string list option \<Rightarrow> connection_info" where
  "tls_connection sha256 peer =
     \<lparr>cn_tls = True,
      cn_client_cert_fingerprint =
        map_option (cert_fingerprint_hex sha256) (Option.bind peer (\<lambda>certs. case certs of [] \<Rightarrow> None | c # _ \<Rightarrow> Some c))\<rparr>"

datatype connection = Handshaking instant | Serving connection_info | ConnClosed

datatype server_phase = Accepting | DrainingSince instant | Drained | GraceExpired | AcceptFailed

text \<open>
  The accept loop with its connections, numbered in the order they were accepted, and the log
  of the requests handed to the gateway with the stamp each carries.
\<close>

record server =
  sv_phase :: server_phase
  sv_conns :: "connection list"
  sv_served :: "(nat \<times> connection_info) list"

definition server_start :: server where
  "server_start = \<lparr>sv_phase = Accepting, sv_conns = [], sv_served = []\<rparr>"

text \<open>
  One event at the instant \<open>now\<close>. \<open>hs a peer\<close>: a handshake with the acceptor \<open>a\<close> can complete with
  these peer certificates. Each connection's task holds a watcher from the moment it is
  accepted, so the drain waits for handshakes, too.
\<close>

inductive serve_step :: "((string, 'i) acceptor \<Rightarrow> string list option \<Rightarrow> bool) \<Rightarrow> (string \<Rightarrow> string) \<Rightarrow> (string, 'i) acceptor option \<Rightarrow> duration \<Rightarrow>
    instant \<Rightarrow> server \<Rightarrow> server \<Rightarrow> bool"
  for hs sha256 tls grace now where
  accept: "sv_phase sv = Accepting \<Longrightarrow>
    serve_step hs sha256 tls grace now sv
      (sv\<lparr>sv_conns := sv_conns sv @ [case tls of None \<Rightarrow> Serving plain_connection | Some a \<Rightarrow> Handshaking now]\<rparr>)"
| accept_failed: "sv_phase sv = Accepting \<Longrightarrow> serve_step hs sha256 tls grace now sv (sv\<lparr>sv_phase := AcceptFailed\<rparr>)"
| handshake: "i < length (sv_conns sv) \<Longrightarrow> sv_conns sv ! i = Handshaking t \<Longrightarrow> now \<le> t + HANDSHAKE_TIMEOUT \<Longrightarrow> tls = Some a \<Longrightarrow> hs a peer \<Longrightarrow>
    serve_step hs sha256 tls grace now sv (sv\<lparr>sv_conns := (sv_conns sv)[i := Serving (tls_connection sha256 peer)]\<rparr>)"
| handshake_failed: "i < length (sv_conns sv) \<Longrightarrow> sv_conns sv ! i = Handshaking t \<Longrightarrow>
    serve_step hs sha256 tls grace now sv (sv\<lparr>sv_conns := (sv_conns sv)[i := ConnClosed]\<rparr>)"
| request: "i < length (sv_conns sv) \<Longrightarrow> sv_conns sv ! i = Serving info \<Longrightarrow>
    serve_step hs sha256 tls grace now sv (sv\<lparr>sv_served := sv_served sv @ [(i, info)]\<rparr>)"
| ended: "i < length (sv_conns sv) \<Longrightarrow> sv_conns sv ! i = Serving info \<Longrightarrow>
    serve_step hs sha256 tls grace now sv (sv\<lparr>sv_conns := (sv_conns sv)[i := ConnClosed]\<rparr>)"
| signal: "sv_phase sv = Accepting \<Longrightarrow> serve_step hs sha256 tls grace now sv (sv\<lparr>sv_phase := DrainingSince now\<rparr>)"
| drained: "sv_phase sv = DrainingSince t \<Longrightarrow> set (sv_conns sv) \<subseteq> {ConnClosed} \<Longrightarrow>
    serve_step hs sha256 tls grace now sv (sv\<lparr>sv_phase := Drained\<rparr>)"
| grace_expired: "sv_phase sv = DrainingSince t \<Longrightarrow> t + grace \<le> now \<Longrightarrow>
    serve_step hs sha256 tls grace now sv (sv\<lparr>sv_phase := GraceExpired\<rparr>)"

text \<open>Runs as the list of states reached with their instants, the latest first.\<close>

inductive serve_run :: "((string, 'i) acceptor \<Rightarrow> string list option \<Rightarrow> bool) \<Rightarrow> (string \<Rightarrow> string) \<Rightarrow> (string, 'i) acceptor option \<Rightarrow> duration \<Rightarrow>
    (instant \<times> server) list \<Rightarrow> bool"
  for hs sha256 tls grace where
  first: "serve_run hs sha256 tls grace [(0, server_start)]"
| event: "serve_run hs sha256 tls grace ((t, sv) # past) \<Longrightarrow> t \<le> now \<Longrightarrow> serve_step hs sha256 tls grace now sv sv' \<Longrightarrow>
    serve_run hs sha256 tls grace ((now, sv') # (t, sv) # past)"

section \<open>Lemmas\<close>

lemma lift_err_Ok [simp]: "lift_err f r = Ok x \<longleftrightarrow> r = Ok x"
  by (cases r) (simp_all add: lift_err_def)

text \<open>A stamp that a listener with this acceptor can give.\<close>

definition stamped :: "((string, 'i) acceptor \<Rightarrow> string list option \<Rightarrow> bool) \<Rightarrow> (string \<Rightarrow> string) \<Rightarrow> (string, 'i) acceptor option \<Rightarrow> connection_info \<Rightarrow> bool" where
  "stamped hs sha256 tls info \<longleftrightarrow>
     (case tls of None \<Rightarrow> info = plain_connection | Some a \<Rightarrow> \<exists>peer. hs a peer \<and> info = tls_connection sha256 peer)"

definition server_inv :: "((string, 'i) acceptor \<Rightarrow> string list option \<Rightarrow> bool) \<Rightarrow> (string \<Rightarrow> string) \<Rightarrow> (string, 'i) acceptor option \<Rightarrow> server \<Rightarrow> bool" where
  "server_inv hs sha256 tls sv \<longleftrightarrow>
     (\<forall>i < length (sv_conns sv). \<forall>info. sv_conns sv ! i = Serving info \<longrightarrow> stamped hs sha256 tls info)
     \<and> (\<forall>i info. (i, info) \<in> set (sv_served sv) \<longrightarrow>
          i < length (sv_conns sv) \<and> stamped hs sha256 tls info \<and> (sv_conns sv ! i = Serving info \<or> sv_conns sv ! i = ConnClosed))
     \<and> (\<forall>i info info'. (i, info) \<in> set (sv_served sv) \<longrightarrow> (i, info') \<in> set (sv_served sv) \<longrightarrow> info = info')"

lemma serve_step_inv:
  assumes "serve_step hs sha256 tls grace now sv sv'" and "server_inv hs sha256 tls sv"
  shows "server_inv hs sha256 tls sv'"
  using assms
proof (induction rule: serve_step.induct)
  case (accept sv)
  then show ?case by (auto simp: server_inv_def nth_append less_Suc_eq stamped_def split: option.splits)
next
  case (handshake i sv t a peer)
  have "stamped hs sha256 tls (tls_connection sha256 peer)" using handshake.hyps(4,5) by (auto simp: stamped_def)
  moreover have "(i, info) \<notin> set (sv_served sv)" for info
    using handshake.prems handshake.hyps(2) by (force simp: server_inv_def)
  ultimately show ?case using handshake.prems handshake.hyps(1) by (auto simp: server_inv_def nth_list_update)
next
  case (handshake_failed i sv t)
  then show ?case by (auto simp: server_inv_def nth_list_update)
next
  case (request i sv info)
  have "info' = info" if "(i, info') \<in> set (sv_served sv)" for info'
    using that request.prems request.hyps(2) by (force simp: server_inv_def)
  with request show ?case by (auto simp: server_inv_def)
next
  case (ended i sv info)
  then show ?case by (auto simp: server_inv_def nth_list_update)
qed (auto simp: server_inv_def)

lemma serve_run_inv: "serve_run hs sha256 tls grace ((t, sv) # past) \<Longrightarrow> server_inv hs sha256 tls sv"
proof (induction "(t, sv) # past" arbitrary: t sv past rule: serve_run.induct)
  case first
  then show ?case by (simp add: server_inv_def server_start_def)
next
  case (event t sv past now sv')
  then show ?case using serve_step_inv by blast
qed

text \<open>
  Phases only move on, no connection is added once the loop has been left, and a connection that
  is closed stays so.
\<close>

definition drain_inv :: "duration \<Rightarrow> instant \<Rightarrow> server \<Rightarrow> (instant \<times> server) list \<Rightarrow> bool" where
  "drain_inv grace t sv past \<longleftrightarrow>
     (sv_phase sv = Drained \<longrightarrow> set (sv_conns sv) \<subseteq> {ConnClosed})
     \<and> (sv_phase sv = GraceExpired \<longrightarrow> (\<exists>t0 sv0 d. (t0, sv0) \<in> set past \<and> sv_phase sv0 = DrainingSince d \<and> d + grace \<le> t))
     \<and> (\<forall>t0 sv0. (t0, sv0) \<in> set past \<longrightarrow> sv_phase sv0 \<noteq> Accepting \<longrightarrow> sv_phase sv \<noteq> Accepting \<and> length (sv_conns sv) = length (sv_conns sv0))"

lemma set_list_update_Closed: "set xs \<subseteq> {ConnClosed} \<Longrightarrow> i < length xs \<Longrightarrow> xs ! i \<noteq> ConnClosed \<Longrightarrow> P"
  using nth_mem by blast

lemma drain_inv_step:
  assumes "serve_step hs sha256 tls grace now sv sv'" and "drain_inv grace t sv past" and "t \<le> now"
  shows "drain_inv grace now sv' ((t, sv) # past)"
  using assms
proof (induction rule: serve_step.induct)
  case (handshake i sv t' a peer)
  then have "sv_phase sv \<noteq> Drained" using set_list_update_Closed [of "sv_conns sv" i] by (auto simp: drain_inv_def)
  with handshake show ?case unfolding drain_inv_def by (auto intro: order_trans)
next
  case (handshake_failed i sv t')
  then have "sv_phase sv \<noteq> Drained" using set_list_update_Closed [of "sv_conns sv" i] by (auto simp: drain_inv_def)
  with handshake_failed show ?case unfolding drain_inv_def by (auto intro: order_trans)
next
  case (ended i sv info)
  then have "sv_phase sv \<noteq> Drained" using set_list_update_Closed [of "sv_conns sv" i] by (auto simp: drain_inv_def)
  with ended show ?case unfolding drain_inv_def by (auto intro: order_trans)
qed (auto simp: drain_inv_def intro: order_trans)

lemma serve_run_drain: "serve_run hs sha256 tls grace ((t, sv) # past) \<Longrightarrow> drain_inv grace t sv past"
proof (induction "(t, sv) # past" arbitrary: t sv past rule: serve_run.induct)
  case first
  then show ?case by (simp add: drain_inv_def server_start_def)
next
  case (event t sv past now sv')
  then show ?case using drain_inv_step by blast
qed

text \<open>What a validated TLS block makes of the handshake: the documented behaviour of the verifier of \<open>rustls\<close>.\<close>

definition handshake_documented :: "(string list \<Rightarrow> string \<Rightarrow> bool) \<Rightarrow> (string, 'i) acceptor \<Rightarrow> string list option \<Rightarrow> bool" where
  "handshake_documented trusts a peer \<longleftrightarrow>
     (case av_client_auth a of
        NoClientAuth \<Rightarrow> peer = None
      | VerifyClients roots optional \<Rightarrow>
          (case peer of None \<Rightarrow> optional | Some certs \<Rightarrow> certs \<noteq> [] \<and> trusts roots (hd certs)))"

text \<open>The certificate a fingerprint stands for was verified against the configured authorities.\<close>

definition vouched_for :: "(string list \<Rightarrow> string \<Rightarrow> bool) \<Rightarrow> (string, 'i) tls_ext \<Rightarrow> (string \<Rightarrow> string) \<Rightarrow> tls_config \<Rightarrow> string \<Rightarrow> bool" where
  "vouched_for trusts T sha256 cfg fp \<longleftrightarrow>
     (\<exists>ca roots cert. tl_client_ca_file cfg = Some ca \<and> load_cert_chain T ca = Ok roots \<and> trusts roots cert \<and> fp = cert_fingerprint_hex sha256 cert)"

lemma build_acceptor_client_auth:
  "build_acceptor T cfg = Ok a \<Longrightarrow> build_client_auth T cfg = Ok (av_client_auth a)"
  by (auto simp: build_acceptor_def)

lemma stamp_vouched:
  assumes "build_acceptor T cfg = Ok a" and "handshake_documented trusts a peer"
  shows "cn_tls (tls_connection sha256 peer)"
    and "tl_client_cert_mode cfg = CertNone \<Longrightarrow> cn_client_cert_fingerprint (tls_connection sha256 peer) = None"
    and "tl_client_cert_mode cfg = CertRequired \<Longrightarrow> cn_client_cert_fingerprint (tls_connection sha256 peer) \<noteq> None"
    and "cn_client_cert_fingerprint (tls_connection sha256 peer) = Some fp \<Longrightarrow> vouched_for trusts T sha256 cfg fp"
proof -
  note c = build_acceptor_client_auth [OF assms(1), unfolded build_client_auth_Ok]
  show "cn_tls (tls_connection sha256 peer)" by (simp add: tls_connection_def)
  show "tl_client_cert_mode cfg = CertNone \<Longrightarrow> cn_client_cert_fingerprint (tls_connection sha256 peer) = None"
    using c assms(2) by (simp add: handshake_documented_def tls_connection_def)
  show "tl_client_cert_mode cfg = CertRequired \<Longrightarrow> cn_client_cert_fingerprint (tls_connection sha256 peer) \<noteq> None"
    using c assms(2) by (auto simp: handshake_documented_def tls_connection_def neq_Nil_conv split: option.splits)
  assume fp: "cn_client_cert_fingerprint (tls_connection sha256 peer) = Some fp"
  then obtain cert certs where p: "peer = Some (cert # certs)" "fp = cert_fingerprint_hex sha256 cert"
    by (cases peer) (auto simp: tls_connection_def split: list.splits)
  with c assms(2) show "vouched_for trusts T sha256 cfg fp"
    by (auto simp: handshake_documented_def vouched_for_def split: if_splits)
qed

lemma no_panic_parts:
  "lift_err f r = Panic \<longleftrightarrow> r = Panic" "sum_res g x \<noteq> Panic" "fail_res g y \<noteq> Panic" "require_set n z \<noteq> Panic"
  by (auto simp: lift_err_def sum_res_def fail_res_def require_set_def split: res.splits sum.splits option.splits)

lemma load_cert_chain_no_panic: "load_cert_chain T p \<noteq> Panic"
proof -
  have "traverse (sum_res f) bs \<noteq> Panic" for f :: "string \<Rightarrow> string" and bs :: "(string + 'a) list"
    using traverse_Panic no_panic_parts(2) by blast
  then show ?thesis by (simp add: load_cert_chain_def bind_res_Panic no_panic_parts)
qed

lemma build_client_auth_no_panic: "build_client_auth T cfg \<noteq> Panic"
proof -
  have t: "traverse (\<lambda>c. fail_res f (g c)) bs \<noteq> Panic" for f :: "string \<Rightarrow> string" and g :: "'a \<Rightarrow> string option" and bs
    using traverse_Panic [of "\<lambda>c. fail_res f (g c)" bs] no_panic_parts(3) by blast
  show ?thesis
    by (cases "tl_client_cert_mode cfg") (simp_all add: build_client_auth_def bind_res_Panic no_panic_parts load_cert_chain_no_panic t)
qed

lemma build_acceptor_no_panic: "build_acceptor T cfg \<noteq> Panic"
  by (simp add: build_acceptor_def bind_res_Panic no_panic_parts load_cert_chain_no_panic build_client_auth_no_panic)

lemma validate_no_panic: "gateway_config_validate c \<noteq> Panic"
  by (simp add: gateway_config_validate_def bind_res_Panic sink_validate_def tls_validate_def split: option.splits)

lemma load_config_Ok:
  "load_config P cli = Ok config \<longleftrightarrow>
     startable config \<and> (\<exists>base. config = apply_cli cli base
       \<and> (case cli_config cli of None \<Rightarrow> base = gateway_config_default
          | Some path \<Rightarrow> config_from_file (sp_read_file P) (sp_parse_config P) path = Ok base))"
  by (cases "cli_config cli") (auto simp: load_config_def gateway_config_validate_Ok)

lemma start_tls_Ok:
  "start_tls P config = Ok tls \<longleftrightarrow>
     (case gc_tls config of None \<Rightarrow> tls = None | Some cfg \<Rightarrow> \<exists>a. tls = Some a \<and> build_acceptor (sp_tls P) cfg = Ok a)"
  by (auto simp: start_tls_def split: option.splits)

lemma start_admin_Ok:
  assumes "startable config" and "start_admin P config = Ok admin"
  shows "case gc_admin_listen_addr config of None \<Rightarrow> admin = None
    | Some addr \<Rightarrow> \<exists>secret st. admin = Some (addr, st) \<and> gc_admin_secret config = Some secret \<and> trim secret \<noteq> []
        \<and> am_secret_digest st = sp_sha256 P secret"
  using assms by (auto simp: start_admin_def startable_def admin_router_def is_blank_def split: option.splits if_splits)

lemma start_serving_Running:
  assumes "start_serving P config tls store sink plugins = Ok (Running su)"
  shows "su_config su = config" and "su_tls su = tls" and "su_context su = start_context P config sink plugins"
    and "build_table (su_context su) (sp_read_dir P) (sp_now P) store = (Ok (su_table su), su_store su)"
    and "start_admin P config = Ok (su_admin su)"
proof -
  obtain r s1 where b: "build_table (start_context P config sink plugins) (sp_read_dir P) (sp_now P) store = (r, s1)" by fastforce
  then obtain table where r: "r = Ok table" using assms by (cases r) (simp_all add: start_serving_def Let_def)
  show "su_config su = config" "su_tls su = tls" "su_context su = start_context P config sink plugins"
    "build_table (su_context su) (sp_read_dir P) (sp_now P) store = (Ok (su_table su), su_store su)"
    "start_admin P config = Ok (su_admin su)"
    using assms b by (auto simp: start_serving_def Let_def r)
qed

lemma start_Running:
  assumes "start P cli = Ok (Running su)"
  obtains sink plugins store where "load_config P cli = Ok (su_config su)" and "start_tls P (su_config su) = Ok (su_tls su)"
    and "su_context su = start_context P (su_config su) sink plugins"
    and "build_table (su_context su) (sp_read_dir P) (sp_now P) store = (Ok (su_table su), su_store su)"
    and "start_admin P (su_config su) = Ok (su_admin su)"
proof -
  obtain config tls store sink plugins where "load_config P cli = Ok config" "start_tls P config = Ok tls"
    and s: "start_serving P config tls store sink plugins = Ok (Running su)"
    using assms by (auto simp: start_def split: if_splits)
  with start_serving_Running [OF s] that show ?thesis by metis
qed

text \<open>Every \<open>expect\<close> of start-up is about a setting that validation requires.\<close>

lemma start_parts_no_panic:
  assumes "startable config"
  shows "start_tls P config \<noteq> Panic" and "start_storage P config \<noteq> Panic" and "start_sink P config \<noteq> Panic"
    and "start_plugins P config \<noteq> Panic" and "start_admin P config \<noteq> Panic"
proof -
  show "start_tls P config \<noteq> Panic"
    by (auto simp: start_tls_def bind_res_Panic no_panic_parts build_acceptor_no_panic split: option.splits)
  show "start_storage P config \<noteq> Panic" by (auto simp: start_storage_def no_panic_parts split: option.splits)
  show "start_sink P config \<noteq> Panic"
    using assms by (auto simp: start_sink_def startable_def bind_res_Panic no_panic_parts split: option.splits analytics_sink_kind.splits)
  show "start_plugins P config \<noteq> Panic" by (auto simp: start_plugins_def bind_res_Panic no_panic_parts split: option.splits)
  show "start_admin P config \<noteq> Panic"
    using assms by (auto simp: start_admin_def startable_def admin_router_def is_blank_def bind_res_Panic no_panic_parts split: option.splits if_splits)
qed

lemma load_config_no_panic: "load_config P cli \<noteq> Panic"
  by (auto simp: load_config_def bind_res_Panic no_panic_parts validate_no_panic config_from_file_def split: option.splits sum.splits)

lemma start_serving_no_panic:
  assumes "startable config" and "fst (build_table (start_context P config sink plugins) (sp_read_dir P) (sp_now P) store) \<noteq> Panic"
  shows "start_serving P config tls store sink plugins \<noteq> Panic"
proof -
  obtain r s1 where b: "build_table (start_context P config sink plugins) (sp_read_dir P) (sp_now P) store = (r, s1)" by fastforce
  with assms(2) start_parts_no_panic(5) [OF assms(1)] show ?thesis
    by (cases r) (auto simp: start_serving_def Let_def bind_res_Panic no_panic_parts)
qed

text \<open>
  What start-up relies on: the header and method parsers take what is documented, and the
  GraphQL validator and layer and reads of the store do not panic.
\<close>

definition start_documented :: "('c, 'i, 'h, 'r, 'n, 'k, 'f, 's, 'u, 'e, 'g) start_ext \<Rightarrow> bool" where
  "start_documented P \<longleftrightarrow>
     (\<forall>redis. let G = sp_resources P redis
        in parsers_documented (rr_http G) \<and> graphql_no_panic G \<and> reads_no_panic (rr_storage G))
     \<and> (\<forall>G. rc_resources (sp_context P G) = G)"

lemma start_build_no_panic:
  assumes "start_documented P"
  shows "fst (build_table (start_context P config sink plugins) (sp_read_dir P) (sp_now P) store) \<noteq> Panic"
  using assms
  by (intro build_table_no_panic) (simp_all add: start_documented_def start_context_def graphql_no_panic_def Let_def)

lemma start_no_panic:
  assumes "start_documented P"
  shows "start P cli \<noteq> Panic"
proof -
  have "start_serving P config tls store sink plugins \<noteq> Panic" if "startable config" for config tls store sink plugins
    by (rule start_serving_no_panic [OF that start_build_no_panic [OF assms]])
  then show ?thesis
    by (auto simp: start_def bind_res_Panic no_panic_parts load_config_Ok load_config_no_panic start_parts_no_panic)
qed

section \<open>Properties\<close>


text \<open>
  C15. What a request says of its transport is true. Whatever clients, handshakes and requests come
  in whatever order, a request that reaches the gateway through a listener without TLS is
  stamped as plain; through one with TLS it was sent on a connection whose handshake completed,
  all requests of a connection carry the same stamp, a client certificate's fingerprint is that
  of a certificate verified against the configured bundle, it is there whenever the mode is
  \<open>required\<close>, and never when the mode is \<open>none\<close>.
\<close>

theorem requests_stamped_truly:
  assumes "serve_run hs sha tls grace ((t, sv) # past)" and "(i, info) \<in> set (sv_served sv)"
    and "start_tls P config = Ok tls" and "\<And>a peer. hs a peer \<Longrightarrow> handshake_documented trusts a peer"
  shows "(case gc_tls config of
       None \<Rightarrow> info = \<lparr>cn_tls = False, cn_client_cert_fingerprint = None\<rparr>
     | Some cfg \<Rightarrow> cn_tls info
         \<and> (tl_client_cert_mode cfg = CertNone \<longrightarrow> cn_client_cert_fingerprint info = None)
         \<and> (tl_client_cert_mode cfg = CertRequired \<longrightarrow> cn_client_cert_fingerprint info \<noteq> None)
         \<and> (\<forall>fp. cn_client_cert_fingerprint info = Some fp \<longrightarrow> vouched_for trusts (sp_tls P) sha cfg fp))
    \<and> (\<forall>info'. (i, info') \<in> set (sv_served sv) \<longrightarrow> info' = info)"
proof -
  from serve_run_inv [OF assms(1)] assms(2) have st: "stamped hs sha tls info" and same: "\<forall>info'. (i, info') \<in> set (sv_served sv) \<longrightarrow> info' = info"
    by (auto simp: server_inv_def)
  show ?thesis
  proof (cases "gc_tls config")
    case None
    with assms(3) st same show ?thesis by (simp add: start_tls_Ok stamped_def plain_connection_def)
  next
    case (Some cfg)
    with assms(3) st obtain a peer where a: "build_acceptor (sp_tls P) cfg = Ok a" and p: "hs a peer" "info = tls_connection sha peer"
      by (auto simp: start_tls_Ok stamped_def)
    note v = stamp_vouched [OF a assms(4) [OF p(1)], of sha]
    show ?thesis using v same unfolding Some option.case p(2) by blast
  qed
qed

text \<open>
  Shutdown drains. Once the signal has come no connection is accepted; the loop ends with every
  connection closed, handshakes included, or after the grace period has passed since the
  signal, or because accepting itself failed.
\<close>

theorem shutdown_drains:
  assumes "serve_run hs sha tls grace ((t, sv) # past)"
  shows "(sv_phase sv = Drained \<longrightarrow> set (sv_conns sv) \<subseteq> {ConnClosed})
    \<and> (sv_phase sv = GraceExpired \<longrightarrow> (\<exists>t0 sv0 d. (t0, sv0) \<in> set past \<and> sv_phase sv0 = DrainingSince d \<and> d + grace \<le> t))
    \<and> (\<forall>t0 sv0. (t0, sv0) \<in> set past \<longrightarrow> sv_phase sv0 \<noteq> Accepting \<longrightarrow> sv_phase sv \<noteq> Accepting \<and> length (sv_conns sv) = length (sv_conns sv0))"
  using serve_run_drain [OF assms] by (simp add: drain_inv_def)

section \<open>A gateway with client certificates\<close>

definition sample_tls :: "(string, unit) tls_ext" where
  "sample_tls = \<lparr>tx_pem_certs = (\<lambda>path. Inr [Inr path]), tx_pem_key = (\<lambda>_. Inr ()), tx_protocols = None, tx_add_root = (\<lambda>_. None),
     tx_verifier = (\<lambda>_ _. None), tx_single_cert = (\<lambda>_ _. None)\<rparr>"

definition sample_start :: "(string, unit, alist_headers, string, ip_addr, string, unit, memory_storage,
    alist_headers upstream_request list \<times> alist_headers exchange list, unit, unit) start_ext" where
  "sample_start = \<lparr>sp_read_file = (\<lambda>_. Inl ''no file''), sp_parse_config = (\<lambda>_. Inl ''no YAML''), sp_tls = sample_tls, sp_telemetry = (\<lambda>_ _. None),
     sp_runtime = None, sp_redis = (\<lambda>_. Inl ''refused''), sp_memory = mem_new, sp_now = 1, sp_otlp_sink = (\<lambda>_. None),
     sp_plugin_host = (\<lambda>_. Inl ''no directory''), sp_metrics = (\<lambda>_ _ inner. inner), sp_resources = (\<lambda>_. sample_resources),
     sp_context = (\<lambda>G. sample_context\<lparr>rc_resources := G\<rparr>), sp_read_dir = (\<lambda>_. Inr []), sp_bind = (\<lambda>_. None), sp_sha256 = id,
     sp_admin_docs = (None, None), sp_prometheus = [], sp_openapi = []\<rparr>"

definition sample_cli :: cli where
  "sample_cli = \<lparr>cli_config = None, cli_listen = None, cli_apps_dir = None, cli_redis_url = None, cli_admin_listen = Some ''localhost:1'',
     cli_admin_secret = Some ''s'', cli_otlp_endpoint = None, cli_analytics_sink = None, cli_tls_cert = Some ''cert'', cli_tls_key = Some ''key'',
     cli_tls_client_ca = Some ''ca'', cli_tls_client_cert_mode = Some CertRequired, cli_plugins_dir = None, cli_dump_openapi = False\<rparr>"

abbreviation sample_tls_config :: tls_config where
  "sample_tls_config \<equiv> \<lparr>tl_cert_file = Some ''cert'', tl_key_file = Some ''key'', tl_client_ca_file = Some ''ca'', tl_client_cert_mode = CertRequired\<rparr>"

definition sample_gateway_config :: gateway_config where
  "sample_gateway_config = gateway_config_default\<lparr>gc_admin_listen_addr := Some ''localhost:1'', gc_admin_secret := Some ''s'', gc_tls := Some sample_tls_config\<rparr>"

definition sample_acceptor :: "(string, unit) acceptor" where
  "sample_acceptor = \<lparr>av_certs = [''cert''], av_key = (), av_client_auth = VerifyClients [''ca''] False, av_alpn = [''h2'', ''http/1.1'']\<rparr>"

lemma sample_gateway_config_loaded: "load_config sample_start sample_cli = Ok sample_gateway_config"
proof -
  have "trim ''s'' \<noteq> []" by (rule trim_keeps_graphic [of "CHR ''s''"]) (simp, code_simp)
  then show ?thesis
    by (auto simp: load_config_Ok startable_def sample_gateway_config_def gateway_config_default_def sample_cli_def apply_cli_def override_with_def
        override_tls_files_def override_cert_mode_def or_default_def tls_default_def)
qed

lemma sample_tls_started: "start_tls sample_start sample_gateway_config = Ok (Some sample_acceptor)"
  by (simp add: start_tls_def sample_gateway_config_def sample_start_def build_acceptor_def build_client_auth_def load_cert_chain_def require_set_def
      sum_res_def fail_res_def lift_err_def sample_tls_def sample_acceptor_def bind_res_def)

lemma sample_start_documented: "start_documented sample_start"
  by (simp add: start_documented_def sample_start_def sample_context_def Let_def sample_no_panic sample_resources_sel alist_documented)

lemma sample_table:
  "build_table (start_context sample_start config sink plugins) (sp_read_dir sample_start) (sp_now sample_start) mem_new = (Ok [], mem_new)"
proof -
  let ?ctx = "start_context sample_start config sink plugins"
  have "load_dir (sp_read_dir sample_start) (rc_parse_file ?ctx) (ctx_validate ?ctx) (rc_apps_dir ?ctx) = Ok []"
    by (simp add: load_dir_def sample_start_def check_conflicts_def bind_res_def)
  moreover have "rr_storage (rc_resources ?ctx) = memory_ops"
    by (simp add: start_context_def sample_start_def sample_context_def sample_resources_def)
  moreover have "table_of ?ctx [] [] = Ok []" by (simp add: table_of_Ok)
  ultimately show ?thesis by (simp add: build_table_Ok load_api_definitions_def mem_scan_prefix_def mem_new_def)
qed


text \<open>A client with a certificate connects, sends a request, and is drained at shutdown.\<close>

abbreviation sample_peers :: "(string, unit) acceptor \<Rightarrow> string list option \<Rightarrow> bool" where
  "sample_peers \<equiv> handshake_documented (\<lambda>roots cert. roots = [''ca''] \<and> cert = ''client'')"

abbreviation sample_stamp :: connection_info where
  "sample_stamp \<equiv> tls_connection id (Some [''client''])"

lemma sample_run:
  "\<exists>past. serve_run sample_peers id (Some sample_acceptor) 100
     ((3, \<lparr>sv_phase = Accepting, sv_conns = [Serving sample_stamp], sv_served = [(0, sample_stamp)]\<rparr>) # past)"
proof -
  let ?step = "serve_step sample_peers id (Some sample_acceptor) 100"
  have h: "sample_peers sample_acceptor (Some [''client''])" by (simp add: handshake_documented_def sample_acceptor_def)
  have "?step 1 server_start \<lparr>sv_phase = Accepting, sv_conns = [Handshaking 1], sv_served = []\<rparr>"
    using serve_step.accept [of server_start sample_peers id "Some sample_acceptor" 100 1] by (simp add: server_start_def)
  note r1 = serve_run.event [OF serve_run.first _ this]
  have "?step 2 \<lparr>sv_phase = Accepting, sv_conns = [Handshaking 1], sv_served = []\<rparr> \<lparr>sv_phase = Accepting, sv_conns = [Serving sample_stamp], sv_served = []\<rparr>"
    using h serve_step.handshake [of 0 "\<lparr>sv_phase = Accepting, sv_conns = [Handshaking 1], sv_served = []\<rparr>" 1 2 "Some sample_acceptor" sample_acceptor
        sample_peers "Some [''client'']" id 100]
    by (simp add: HANDSHAKE_TIMEOUT_def from_secs_def ns_per_sec_def)
  note r2 = serve_run.event [OF r1 _ this]
  have "?step 3 \<lparr>sv_phase = Accepting, sv_conns = [Serving sample_stamp], sv_served = []\<rparr>
      \<lparr>sv_phase = Accepting, sv_conns = [Serving sample_stamp], sv_served = [(0, sample_stamp)]\<rparr>"
    using serve_step.request [of 0 "\<lparr>sv_phase = Accepting, sv_conns = [Serving sample_stamp], sv_served = []\<rparr>" sample_stamp] by simp
  from serve_run.event [OF r2 _ this] show ?thesis by auto
qed

theorem requests_stamped_truly_witness:
  "\<exists>past sv info. serve_run sample_peers id (Some sample_acceptor) 100 ((3, sv) # past) \<and> (0, info) \<in> set (sv_served sv)
     \<and> cn_client_cert_fingerprint info = Some (cert_fingerprint_hex id ''client'')
     \<and> vouched_for (\<lambda>roots cert. roots = [''ca''] \<and> cert = ''client'') sample_tls id sample_tls_config (cert_fingerprint_hex id ''client'')"
proof -
  obtain past where r: "serve_run sample_peers id (Some sample_acceptor) 100
      ((3, \<lparr>sv_phase = Accepting, sv_conns = [Serving sample_stamp], sv_served = [(0, sample_stamp)]\<rparr>) # past)" using sample_run by blast
  have fp: "cn_client_cert_fingerprint sample_stamp = Some (cert_fingerprint_hex id ''client'')" by (simp add: tls_connection_def)
  have "gc_tls sample_gateway_config = Some sample_tls_config" "sp_tls sample_start = sample_tls" by (simp_all add: sample_gateway_config_def sample_start_def)
  with requests_stamped_truly [OF r _ sample_tls_started, of 0 sample_stamp "\<lambda>roots cert. roots = [''ca''] \<and> cert = ''client''"] fp
  have "vouched_for (\<lambda>roots cert. roots = [''ca''] \<and> cert = ''client'') sample_tls id sample_tls_config (cert_fingerprint_hex id ''client'')" by simp
  with r fp show ?thesis by (intro exI conjI) (assumption | simp)+
qed

theorem shutdown_drains_witness:
  "\<exists>past sv. serve_run sample_peers id (Some sample_acceptor) 100 ((6, sv) # past) \<and> sv_phase sv = Drained \<and> sv_conns sv = [ConnClosed]"
proof -
  let ?step = "serve_step sample_peers id (Some sample_acceptor) 100"
  let ?sv = "\<lambda>ph c. \<lparr>sv_phase = ph, sv_conns = [c], sv_served = [(0, sample_stamp)]\<rparr>"
  obtain past where r: "serve_run sample_peers id (Some sample_acceptor) 100 ((3, ?sv Accepting (Serving sample_stamp)) # past)" using sample_run by blast
  have "?step 4 (?sv Accepting (Serving sample_stamp)) (?sv (DrainingSince 4) (Serving sample_stamp))"
    using serve_step.signal [of "?sv Accepting (Serving sample_stamp)"] by simp
  note step = this
  have "(3 :: nat) \<le> 4" by simp
  note r4 = serve_run.event [OF r this step]
  have "?step 5 (?sv (DrainingSince 4) (Serving sample_stamp)) (?sv (DrainingSince 4) ConnClosed)"
    using serve_step.ended [of 0 "?sv (DrainingSince 4) (Serving sample_stamp)" sample_stamp] by simp
  note step = this
  have "(4 :: nat) \<le> 5" by simp
  note r5 = serve_run.event [OF r4 this step]
  have "?step 6 (?sv (DrainingSince 4) ConnClosed) (?sv Drained ConnClosed)"
    using serve_step.drained [of "?sv (DrainingSince 4) ConnClosed" 4] by simp
  note step = this
  have "(5 :: nat) \<le> 6" by simp
  note r6 = serve_run.event [OF r5 this step]
  from shutdown_drains [OF r6] r6 show ?thesis by (intro exI conjI) (assumption | simp)+
qed

end
