(* ===== verification/Graphql_Policy.thy ===== *)
theory Graphql_Policy
  imports Session
begin

text \<open>
  The protection pipeline of the GraphQL layer, \<open>g2-middleware/src/graphql.rs\<close>: introspection
  control, the depth limit and field permissions over a parsed document. The document is the
  data of the \<open>apollo-compiler\<close> crate the pipeline reads: operations and named fragments, each
  with a selection set that knows its parent type. The walks keep a visited set (or a memo and a
  stack) over fragments as the code does; the lemmas relate them to the selections an executor
  of the document would make, where every spread is replaced by its fragment.
\<close>

section \<open>Documents\<close>

datatype selection = SelField string selection_set | SelInline selection_set | SelSpread string
and selection_set = SelectionSet string "selection list"

datatype operation_type = OpQuery | OpMutation | OpSubscription

record operation =
  op_type :: operation_type
  op_set :: selection_set

record document =
  doc_anonymous :: "operation option"
  doc_named :: "(string \<times> operation) list"
  doc_fragments :: "(string \<times> selection_set) list"

definition operations :: "document \<Rightarrow> operation list" where
  "operations doc = (case doc_anonymous doc of Some op \<Rightarrow> [op] | None \<Rightarrow> []) @ map snd (doc_named doc)"

section \<open>The walks\<close>

text \<open>
  The recursive \<open>walk\<close> of the source, which \<open>selects_introspection\<close>, \<open>is_pure_introspection\<close> and
  \<open>first_forbidden_field\<close> each write out: the first field for which \<open>hit\<close> answers ends it, \<open>deep\<close> says
  whether fields are entered, \<open>absent\<close> is the answer at a spread of an unknown fragment, and a
  fragment is entered once.
\<close>

abbreviation unvisited :: "document \<Rightarrow> string set \<Rightarrow> nat" where
  "unvisited doc visited \<equiv> card (fst ` set (doc_fragments doc) - visited)"

function walk :: "(string \<Rightarrow> string \<Rightarrow> 'a option) \<Rightarrow> bool \<Rightarrow> 'a option \<Rightarrow> document \<Rightarrow> string \<Rightarrow> selection list \<Rightarrow> string set \<Rightarrow>
    'a option \<times> string set" where
  "walk hit deep absent doc ty [] visited = (None, visited)"
| "walk hit deep absent doc ty (SelField name (SelectionSet t ss) # rest) visited =
     (case hit ty name of
        Some x \<Rightarrow> (Some x, visited)
      | None \<Rightarrow>
          if deep
          then case walk hit deep absent doc t ss visited of
                 (Some x, v) \<Rightarrow> (Some x, v)
               | (None, v) \<Rightarrow> walk hit deep absent doc ty rest v
          else walk hit deep absent doc ty rest visited)"
| "walk hit deep absent doc ty (SelInline (SelectionSet t ss) # rest) visited =
     (case walk hit deep absent doc t ss visited of
        (Some x, v) \<Rightarrow> (Some x, v)
      | (None, v) \<Rightarrow> walk hit deep absent doc ty rest v)"
| "walk hit deep absent doc ty (SelSpread name # rest) visited =
     (if name \<in> visited then walk hit deep absent doc ty rest visited
      else case map_of (doc_fragments doc) name of
             None \<Rightarrow>
               (case absent of
                  Some x \<Rightarrow> (Some x, insert name visited)
                | None \<Rightarrow> walk hit deep absent doc ty rest (insert name visited))
           | Some (SelectionSet t ss) \<Rightarrow>
               (case walk hit deep absent doc t ss (insert name visited) of
                  (Some x, v) \<Rightarrow> (Some x, v)
                | (None, v) \<Rightarrow> walk hit deep absent doc ty rest v))"
  by pat_completeness auto

lemma walk_grows: "walk_dom (hit, deep, absent, doc, ty, sels, visited) \<Longrightarrow>
    visited \<subseteq> snd (walk hit deep absent doc ty sels visited)"
proof (induction hit deep absent doc ty sels visited rule: walk.pinduct)
  case (2 hit deep absent doc ty name t ss rest visited)
  then show ?case by (fastforce simp: walk.psimps split: option.splits prod.splits)
next
  case (3 hit deep absent doc ty t ss rest visited)
  then show ?case by (fastforce simp: walk.psimps split: option.splits prod.splits)
next
  case (4 hit deep absent doc ty name rest visited)
  then show ?case by (fastforce simp: walk.psimps split: option.splits prod.splits selection_set.splits)
qed (simp add: walk.psimps)

lemma unvisited_mono: "v \<subseteq> w \<Longrightarrow> unvisited doc w \<le> unvisited doc v"
  by (rule card_mono) auto

lemma unvisited_insert:
  assumes "map_of (doc_fragments doc) name = Some body" and "name \<notin> visited"
  shows "unvisited doc (insert name visited) < unvisited doc visited"
proof (rule psubset_card_mono)
  have "name \<in> fst ` set (doc_fragments doc)" using map_of_SomeD [OF assms(1)] by force
  then show "fst ` set (doc_fragments doc) - insert name visited \<subset> fst ` set (doc_fragments doc) - visited"
    using assms(2) by auto
qed simp

lemma walk_unvisited:
  assumes "(x, v) = walk hit deep absent doc ty sels visited" and "walk_dom (hit, deep, absent, doc, ty, sels, visited)"
  shows "unvisited doc v \<le> unvisited doc visited"
  using walk_grows [OF assms(2)] assms(1) [symmetric] by (simp add: unvisited_mono)

termination walk
proof (relation "(\<lambda>(hit, deep, absent, doc, ty, sels, visited). unvisited doc visited) <*mlex*>
    measure (\<lambda>(hit, deep, absent, doc, ty, sels, visited). size_list size sels)", goal_cases)
  case 1
  then show ?case by (intro wf_mlex) simp
next
  case (3 hit deep absent doc ty name t ss rest visited x v)
  have "unvisited doc v \<le> unvisited doc visited" by (rule walk_unvisited) (fact 3(3), fact 3(5))
  then show ?case by (auto simp: mlex_iff)
next
  case (6 hit deep absent doc ty t ss rest visited x v)
  have "unvisited doc v \<le> unvisited doc visited" by (rule walk_unvisited) (fact 6(1), fact 6(3))
  then show ?case by (auto simp: mlex_iff)
next
  case (9 hit deep absent doc ty name rest visited a t ss)
  then show ?case using unvisited_insert by (auto simp: mlex_iff)
next
  case (10 hit deep absent doc ty name rest visited a t ss x v)
  have "unvisited doc v \<le> unvisited doc (insert name visited)" by (rule walk_unvisited) (fact 10(4), fact 10(6))
  also have "\<dots> \<le> unvisited doc visited" by (rule unvisited_mono) auto
  finally show ?case by (auto simp: mlex_iff)
next
  case (8 hit deep absent doc ty name rest visited)
  have "unvisited doc (insert name visited) \<le> unvisited doc visited" by (rule unvisited_mono) auto
  then show ?case by (auto simp: mlex_iff)
qed (auto simp: mlex_iff)

text \<open>The operations one after the other, with the visited set shared.\<close>

fun walk_operations :: "(string \<Rightarrow> string \<Rightarrow> 'a option) \<Rightarrow> bool \<Rightarrow> 'a option \<Rightarrow> document \<Rightarrow> operation list \<Rightarrow> string set \<Rightarrow> 'a option" where
  "walk_operations hit deep absent doc [] visited = None"
| "walk_operations hit deep absent doc (op # ops) visited =
     (case op_set op of
        SelectionSet ty sels \<Rightarrow>
          (case walk hit deep absent doc ty sels visited of
             (Some x, v) \<Rightarrow> Some x
           | (None, v) \<Rightarrow> walk_operations hit deep absent doc ops v))"

definition introspective :: "string \<Rightarrow> bool" where
  "introspective name \<longleftrightarrow> name = ''__schema'' \<or> name = ''__type''"

definition meta_field :: "string \<Rightarrow> bool" where
  "meta_field name \<longleftrightarrow> prefix ''__'' name"

definition selects_introspection :: "document \<Rightarrow> bool" where
  "selects_introspection doc \<longleftrightarrow>
     walk_operations (\<lambda>ty name. if introspective name then Some () else None) True None doc (operations doc) {} \<noteq> None"

definition is_pure_introspection :: "document \<Rightarrow> bool" where
  "is_pure_introspection doc \<longleftrightarrow>
     walk_operations (\<lambda>ty name. if meta_field name then None else Some ()) False (Some ()) doc (operations doc) {} = None"

definition listed :: "string \<Rightarrow> string \<Rightarrow> type_fields list \<Rightarrow> bool" where
  "listed ty field lst \<longleftrightarrow> (\<exists>t \<in> set lst. tf_name t = ty \<and> (\<exists>f \<in> set (tf_fields t). f = ''*'' \<or> f = field))"

definition field_allowed :: "string \<Rightarrow> string \<Rightarrow> api_access \<Rightarrow> bool" where
  "field_allowed ty field grants \<longleftrightarrow>
     (if aa_allowed_types grants = [] then \<not> listed ty field (aa_restricted_types grants)
      else listed ty field (aa_allowed_types grants))"

definition first_forbidden_field :: "document \<Rightarrow> api_access \<Rightarrow> (string \<times> string) option" where
  "first_forbidden_field doc grants =
     walk_operations (\<lambda>ty name. if \<not> meta_field name \<and> \<not> field_allowed ty name grants then Some (ty, name) else None)
       True None doc (operations doc) {}"

section \<open>Depth\<close>

function set_depth :: "document \<Rightarrow> selection list \<Rightarrow> (string, nat) hashmap \<Rightarrow> string list \<Rightarrow> nat \<times> (string, nat) hashmap" where
  "set_depth doc [] memo stack = (0, memo)"
| "set_depth doc (SelField name (SelectionSet t ss) # rest) memo stack =
     (case set_depth doc ss memo stack of
        (d, m) \<Rightarrow> (case set_depth doc rest m stack of (r, m') \<Rightarrow> (max (1 + d) r, m')))"
| "set_depth doc (SelInline (SelectionSet t ss) # rest) memo stack =
     (case set_depth doc ss memo stack of
        (d, m) \<Rightarrow> (case set_depth doc rest m stack of (r, m') \<Rightarrow> (max d r, m')))"
| "set_depth doc (SelSpread name # rest) memo stack =
     (case map_of memo name of
        Some d \<Rightarrow> (case set_depth doc rest memo stack of (r, m) \<Rightarrow> (max d r, m))
      | None \<Rightarrow>
          if name \<in> set stack then set_depth doc rest memo stack
          else case map_of (doc_fragments doc) name of
                 None \<Rightarrow> set_depth doc rest memo stack
               | Some (SelectionSet t ss) \<Rightarrow>
                   (case set_depth doc ss memo (name # stack) of
                      (d, m) \<Rightarrow> (case set_depth doc rest (AList.update name d m) stack of (r, m') \<Rightarrow> (max d r, m'))))"
  by pat_completeness auto

termination set_depth
proof (relation "(\<lambda>(doc, sels, memo, stack). unvisited doc (set stack)) <*mlex*>
    measure (\<lambda>(doc, sels, memo, stack). size_list size sels)", goal_cases)
  case 1
  then show ?case by (intro wf_mlex) simp
qed (auto simp: mlex_iff dest: unvisited_insert)

fun operations_depth :: "document \<Rightarrow> operation list \<Rightarrow> (string, nat) hashmap \<Rightarrow> nat" where
  "operations_depth doc [] memo = 0"
| "operations_depth doc (op # ops) memo =
     (case op_set op of
        SelectionSet ty sels \<Rightarrow> (case set_depth doc sels memo [] of (d, m) \<Rightarrow> max d (operations_depth doc ops m)))"

definition document_depth :: "document \<Rightarrow> nat" where
  "document_depth doc = operations_depth doc (operations doc) []"

section \<open>The pipeline\<close>

datatype violation = Introspection | DepthLimit | ForbiddenField string string

fun violation_message :: "violation \<Rightarrow> string" where
  "violation_message Introspection = ''introspection is disabled''"
| "violation_message DepthLimit = ''depth limit exceeded''"
| "violation_message (ForbiddenField ty field) = ''field: '' @ field @ '' is restricted on type: '' @ ty"

text \<open>The settings of \<open>GraphQlShared\<close> the pipeline reads.\<close>

record policing =
  pg_introspection_enabled :: bool
  pg_max_query_depth :: "nat option"

definition effective_depth_limit :: "policing \<Rightarrow> api_access option \<Rightarrow> nat option" where
  "effective_depth_limit shared grants =
     (case Option.bind grants aa_max_query_depth of
        Some n \<Rightarrow> if n > 0 then Some (if nat n \<le> u32_max then nat n else u32_max) else None
      | None \<Rightarrow> pg_max_query_depth shared)"

definition introspection_allowed :: "policing \<Rightarrow> api_access option \<Rightarrow> bool" where
  "introspection_allowed shared grants \<longleftrightarrow>
     pg_introspection_enabled shared \<and> \<not> (case grants of Some g \<Rightarrow> aa_disable_introspection g | None \<Rightarrow> False)"

definition check_document :: "policing \<Rightarrow> api_access option \<Rightarrow> document \<Rightarrow> violation + unit" where
  "check_document shared grants doc =
     (if \<not> introspection_allowed shared grants \<and> selects_introspection doc then Inl Introspection
      else if is_pure_introspection doc then Inr ()
      else if (case effective_depth_limit shared grants of Some limit \<Rightarrow> document_depth doc > limit | None \<Rightarrow> False)
      then Inl DepthLimit
      else case Option.bind grants (first_forbidden_field doc) of
             Some (ty, field) \<Rightarrow> Inl (ForbiddenField ty field)
           | None \<Rightarrow> Inr ())"

section \<open>What a document selects\<close>

text \<open>
  The fields an executor meets: a field of the set itself, and those of nested selections (when
  \<open>deep\<close>), inline fragments and spread fragments, each with the type it is selected on.
\<close>

inductive reaches :: "document \<Rightarrow> bool \<Rightarrow> string \<Rightarrow> selection list \<Rightarrow> string \<Rightarrow> string \<Rightarrow> bool" for doc deep where
  field: "SelField name s \<in> set sels \<Longrightarrow> reaches doc deep ty sels ty name"
| nested: "deep \<Longrightarrow> SelField name (SelectionSet t ss) \<in> set sels \<Longrightarrow> reaches doc deep t ss u f \<Longrightarrow> reaches doc deep ty sels u f"
| inline: "SelInline (SelectionSet t ss) \<in> set sels \<Longrightarrow> reaches doc deep t ss u f \<Longrightarrow> reaches doc deep ty sels u f"
| spread: "SelSpread name \<in> set sels \<Longrightarrow> map_of (doc_fragments doc) name = Some (SelectionSet t ss) \<Longrightarrow>
    reaches doc deep t ss u f \<Longrightarrow> reaches doc deep ty sels u f"

text \<open>A chain of nested fields of a given length.\<close>

inductive nests :: "document \<Rightarrow> selection list \<Rightarrow> nat \<Rightarrow> bool" for doc where
  none: "nests doc sels 0"
| field: "SelField name (SelectionSet t ss) \<in> set sels \<Longrightarrow> nests doc ss k \<Longrightarrow> nests doc sels (Suc k)"
| inline: "SelInline (SelectionSet t ss) \<in> set sels \<Longrightarrow> nests doc ss k \<Longrightarrow> nests doc sels k"
| spread: "SelSpread name \<in> set sels \<Longrightarrow> map_of (doc_fragments doc) name = Some (SelectionSet t ss) \<Longrightarrow>
    nests doc ss k \<Longrightarrow> nests doc sels k"

inductive_cases nests_Nil [elim!]: "nests doc [] k"

definition some_op_reaches :: "document \<Rightarrow> bool \<Rightarrow> operation list \<Rightarrow> string \<Rightarrow> string \<Rightarrow> bool" where
  "some_op_reaches doc deep ops u f \<longleftrightarrow> (\<exists>op \<in> set ops. \<exists>t ss. op_set op = SelectionSet t ss \<and> reaches doc deep t ss u f)"

definition selects :: "document \<Rightarrow> string \<Rightarrow> string \<Rightarrow> bool" where
  "selects doc ty f \<longleftrightarrow> some_op_reaches doc True (operations doc) ty f"

definition root_field :: "document \<Rightarrow> string \<Rightarrow> bool" where
  "root_field doc f \<longleftrightarrow> (\<exists>ty. some_op_reaches doc False (operations doc) ty f)"

definition nesting :: "document \<Rightarrow> nat \<Rightarrow> bool" where
  "nesting doc k \<longleftrightarrow> (\<exists>op \<in> set (operations doc). \<exists>t ss. op_set op = SelectionSet t ss \<and> nests doc ss k)"

text \<open>The fields and the spreads written in a selection list, without following spreads.\<close>

fun fields_of :: "bool \<Rightarrow> string \<Rightarrow> selection list \<Rightarrow> (string \<times> string) set" where
  "fields_of deep ty [] = {}"
| "fields_of deep ty (SelField name (SelectionSet t ss) # rest) =
     insert (ty, name) ((if deep then fields_of deep t ss else {}) \<union> fields_of deep ty rest)"
| "fields_of deep ty (SelInline (SelectionSet t ss) # rest) = fields_of deep t ss \<union> fields_of deep ty rest"
| "fields_of deep ty (SelSpread name # rest) = fields_of deep ty rest"

fun spreads_of :: "bool \<Rightarrow> selection list \<Rightarrow> string set" where
  "spreads_of deep [] = {}"
| "spreads_of deep (SelField name (SelectionSet t ss) # rest) = (if deep then spreads_of deep ss else {}) \<union> spreads_of deep rest"
| "spreads_of deep (SelInline (SelectionSet t ss) # rest) = spreads_of deep ss \<union> spreads_of deep rest"
| "spreads_of deep (SelSpread name # rest) = insert name (spreads_of deep rest)"

definition body_spreads :: "bool \<Rightarrow> selection_set \<Rightarrow> string set" where
  "body_spreads deep s = (case s of SelectionSet t ss \<Rightarrow> spreads_of deep ss)"

lemma body_spreads_set [simp]: "body_spreads deep (SelectionSet t ss) = spreads_of deep ss"
  by (simp add: body_spreads_def)

text \<open>
  What validation of a document ensures of its fragments (fragment spreads name defined fragments
  and must not form cycles, GraphQL specification 5.5.2).
\<close>

definition valid_document :: "document \<Rightarrow> bool" where
  "valid_document doc \<longleftrightarrow>
     (\<forall>s \<in> op_set ` set (operations doc) \<union> ran (map_of (doc_fragments doc)).
        body_spreads True s \<subseteq> dom (map_of (doc_fragments doc)))
     \<and> (\<exists>rank :: string \<Rightarrow> nat. \<forall>n s m. map_of (doc_fragments doc) n = Some s \<longrightarrow> m \<in> body_spreads True s \<longrightarrow> rank m < rank n)"

subsection \<open>The walk finds exactly what is reached\<close>

lemma spreads_of_deep: "spreads_of deep sels \<subseteq> spreads_of True sels"
  by (induction deep sels rule: spreads_of.induct) auto

definition body_clear :: "(string \<Rightarrow> string \<Rightarrow> 'a option) \<Rightarrow> bool \<Rightarrow> 'a option \<Rightarrow> document \<Rightarrow> string set \<Rightarrow> string \<Rightarrow> bool" where
  "body_clear hit deep absent doc V n \<longleftrightarrow>
     (case map_of (doc_fragments doc) n of
        None \<Rightarrow> absent = None
      | Some (SelectionSet t ss) \<Rightarrow> (\<forall>(u, f) \<in> fields_of deep t ss. hit u f = None) \<and> spreads_of deep ss \<subseteq> V)"

lemma body_clear_mono: "body_clear hit deep absent doc V n \<Longrightarrow> V \<subseteq> W \<Longrightarrow> body_clear hit deep absent doc W n"
  by (auto simp: body_clear_def split: option.splits selection_set.splits)

text \<open>After a walk that found nothing: what was seen and what the visited set now covers.\<close>

definition cleared :: "(string \<Rightarrow> string \<Rightarrow> 'a option) \<Rightarrow> bool \<Rightarrow> 'a option \<Rightarrow> document \<Rightarrow> (string \<times> string) set \<Rightarrow> string set \<Rightarrow>
    string set \<Rightarrow> string set \<Rightarrow> bool" where
  "cleared hit deep absent doc F S V W \<longleftrightarrow>
     V \<subseteq> W \<and> (\<forall>(u, f) \<in> F. hit u f = None) \<and> S \<subseteq> W \<and> (\<forall>n \<in> W - V. body_clear hit deep absent doc W n)"

lemma cleared_seq:
  assumes "cleared hit deep absent doc F S V U" and "cleared hit deep absent doc F' S' U W"
  shows "cleared hit deep absent doc (F \<union> F') (S \<union> S') V W"
  unfolding cleared_def
proof (intro conjI ballI)
  fix n assume "n \<in> W - V"
  then consider "n \<in> U - V" | "n \<in> W - U" by auto
  then show "body_clear hit deep absent doc W n"
    using assms by cases (auto simp: cleared_def intro: body_clear_mono)
qed (use assms in \<open>auto simp: cleared_def\<close>)

lemma cleared_insert: "hit ty name = None \<Longrightarrow> cleared hit deep absent doc F S V W \<Longrightarrow> cleared hit deep absent doc (insert (ty, name) F) S V W"
  by (auto simp: cleared_def)

lemma cleared_visit:
  assumes "cleared hit deep absent doc F S (insert name V) W" and "body_clear hit deep absent doc W name"
  shows "cleared hit deep absent doc F (insert name S) V W"
  using assms by (auto simp: cleared_def)

lemma walk_None:
  "walk hit deep absent doc ty sels V = (None, W) \<Longrightarrow> cleared hit deep absent doc (fields_of deep ty sels) (spreads_of deep sels) V W"
proof (induction hit deep absent doc ty sels V arbitrary: W rule: walk.induct)
  case (1 hit deep absent doc ty V)
  then show ?case by (simp add: cleared_def)
next
  case (2 hit deep absent doc ty name t ss rest V)
  from 2(4) have h: "hit ty name = None" by (auto split: option.splits)
  show ?case
  proof (cases deep)
    case True
    with 2(4) h obtain U where U: "walk hit deep absent doc t ss V = (None, U)" "walk hit deep absent doc ty rest U = (None, W)"
      by (auto split: prod.splits option.splits)
    show ?thesis
      using cleared_insert [OF h cleared_seq [OF 2(1) [OF h True U(1)] 2(2) [OF h True U(1) [symmetric] refl U(2)]]] True by simp
  next
    case False
    with 2(3) [OF h False] 2(4) h show ?thesis by (simp add: cleared_insert)
  qed
next
  case (3 hit deep absent doc ty t ss rest V)
  then obtain U where U: "walk hit deep absent doc t ss V = (None, U)" "walk hit deep absent doc ty rest U = (None, W)"
    by (auto split: prod.splits option.splits)
  show ?case using cleared_seq [OF 3(1) [OF U(1)] 3(2) [OF U(1) [symmetric] refl U(2)]] by simp
next
  case (4 hit deep absent doc ty name rest V)
  show ?case
  proof (cases "name \<in> V")
    case True
    with 4 show ?thesis by (auto simp: cleared_def)
  next
    case new: False
    show ?thesis
    proof (cases "map_of (doc_fragments doc) name")
      case None
      with 4(5) new have a: "absent = None" "walk hit deep absent doc ty rest (insert name V) = (None, W)"
        by (auto split: option.splits)
      show ?thesis using cleared_visit [OF 4(2) [OF new None a]] a(1) None by (simp add: body_clear_def)
    next
      case (Some s)
      obtain t ss where s: "s = SelectionSet t ss" by (cases s)
      from 4(5) new Some s obtain U where U: "walk hit deep absent doc t ss (insert name V) = (None, U)"
        "walk hit deep absent doc ty rest U = (None, W)" by (auto split: prod.splits option.splits)
      note b = 4(3) [OF new Some s U(1)] and r = 4(4) [OF new Some s U(1) [symmetric] refl U(2)]
      have "body_clear hit deep absent doc W name" using b r Some s by (auto simp: body_clear_def cleared_def)
      moreover have "cleared hit deep absent doc (fields_of deep ty rest) (spreads_of deep rest) (insert name V) W"
        using cleared_seq [OF b r] by (auto simp: cleared_def)
      ultimately show ?thesis using cleared_visit by simp
    qed
  qed
qed

lemma fields_of_member:
  "SelField name s \<in> set sels \<Longrightarrow> (ty, name) \<in> fields_of deep ty sels"
  "deep \<Longrightarrow> SelField name (SelectionSet t ss) \<in> set sels \<Longrightarrow> fields_of deep t ss \<subseteq> fields_of deep ty sels"
  "SelInline (SelectionSet t ss) \<in> set sels \<Longrightarrow> fields_of deep t ss \<subseteq> fields_of deep ty sels"
  by (induction deep ty sels rule: fields_of.induct) auto

lemma spreads_of_member:
  "SelSpread name \<in> set sels \<Longrightarrow> name \<in> spreads_of deep sels"
  "deep \<Longrightarrow> SelField name (SelectionSet t ss) \<in> set sels \<Longrightarrow> spreads_of deep ss \<subseteq> spreads_of deep sels"
  "SelInline (SelectionSet t ss) \<in> set sels \<Longrightarrow> spreads_of deep ss \<subseteq> spreads_of deep sels"
  by (induction deep sels rule: spreads_of.induct) auto

lemma closed_reaches:
  assumes "\<forall>n \<in> W. body_clear hit deep absent doc W n"
  shows "reaches doc deep ty sels u f \<Longrightarrow> \<forall>(u, f) \<in> fields_of deep ty sels. hit u f = None \<Longrightarrow> spreads_of deep sels \<subseteq> W \<Longrightarrow> hit u f = None"
proof (induction rule: reaches.induct)
  case (field name s sels ty)
  then show ?case using fields_of_member(1) by fastforce
next
  case (nested name t ss sels u f ty)
  then show ?case using fields_of_member(2) [of deep name t ss sels ty] spreads_of_member(2) [of deep name t ss sels] by blast
next
  case (inline t ss sels u f ty)
  then show ?case using fields_of_member(3) [of t ss sels deep ty] spreads_of_member(3) [of t ss sels deep] by blast
next
  case (spread name sels t ss u f ty)
  then have "body_clear hit deep absent doc W name" using assms spreads_of_member(1) by blast
  with spread show ?case by (auto simp: body_clear_def)
qed

lemma reaches_mono: "reaches doc deep ty sels u f \<Longrightarrow> set sels \<subseteq> set sels' \<Longrightarrow> reaches doc deep ty sels' u f"
  by (induction rule: reaches.induct) (blast intro: reaches.intros)+

text \<open>Every spread that can be reached is of a defined fragment.\<close>

definition spreads_defined :: "document \<Rightarrow> selection list \<Rightarrow> bool" where
  "spreads_defined doc sels \<longleftrightarrow>
     spreads_of True sels \<subseteq> dom (map_of (doc_fragments doc))
     \<and> (\<forall>s \<in> ran (map_of (doc_fragments doc)). body_spreads True s \<subseteq> dom (map_of (doc_fragments doc)))"

lemma spreads_defined_sub:
  "spreads_defined doc (SelField name (SelectionSet t ss) # rest) \<longleftrightarrow> spreads_defined doc ss \<and> spreads_defined doc rest"
  "spreads_defined doc (SelInline (SelectionSet t ss) # rest) \<longleftrightarrow> spreads_defined doc ss \<and> spreads_defined doc rest"
  "spreads_defined doc (SelSpread name # rest) \<longleftrightarrow> name \<in> dom (map_of (doc_fragments doc)) \<and> spreads_defined doc rest"
  by (auto simp: spreads_defined_def)

lemma spreads_defined_body:
  "spreads_defined doc sels \<Longrightarrow> map_of (doc_fragments doc) name = Some (SelectionSet t ss) \<Longrightarrow> spreads_defined doc ss"
  unfolding spreads_defined_def using ranI by (fastforce simp: body_spreads_def)

lemma walk_Some:
  "walk hit deep absent doc ty sels V = (Some x, W) \<Longrightarrow> spreads_defined doc sels \<Longrightarrow>
   \<exists>u f. reaches doc deep ty sels u f \<and> hit u f = Some x"
proof (induction hit deep absent doc ty sels V arbitrary: W rule: walk.induct)
  case (2 hit deep absent doc ty name t ss rest V)
  note sd = 2(5) [unfolded spreads_defined_sub]
  have rest: ?case if "\<exists>u f. reaches doc deep ty rest u f \<and> hit u f = Some x"
    using that reaches_mono by (meson set_subset_Cons)
  show ?case
  proof (cases "hit ty name")
    case (Some y)
    with 2(4) have "hit ty name = Some x" by simp
    then show ?thesis by (meson list.set_intros(1) reaches.field)
  next
    case h: None
    show ?thesis
    proof (cases deep)
      case True
      show ?thesis
      proof (cases "walk hit deep absent doc t ss V")
        case (Pair r U)
        show ?thesis
        proof (cases r)
          case None
          with 2(4) h True Pair have "walk hit deep absent doc ty rest U = (Some x, W)" by simp
          then show ?thesis using rest 2(2) [OF h True Pair [symmetric] None] sd by blast
        next
          case (Some y)
          with 2(4) h True Pair have "walk hit deep absent doc t ss V = (Some x, W)" by simp
          from 2(1) [OF h True this] sd obtain u f where "reaches doc deep t ss u f" "hit u f = Some x" by blast
          then show ?thesis using reaches.nested [OF True, of name t ss] by (meson list.set_intros(1))
        qed
      qed
    next
      case False
      with 2(4) h have "walk hit deep absent doc ty rest V = (Some x, W)" by simp
      then show ?thesis using rest 2(3) [OF h False] sd by blast
    qed
  qed
next
  case (3 hit deep absent doc ty t ss rest V)
  note sd = 3(4) [unfolded spreads_defined_sub]
  obtain r U where b: "walk hit deep absent doc t ss V = (r, U)" by fastforce
  show ?case
  proof (cases r)
    case None
    with 3(3) b have "walk hit deep absent doc ty rest U = (Some x, W)" by simp
    then show ?thesis using 3(2) [OF b [symmetric] None] sd reaches_mono by (meson set_subset_Cons)
  next
    case (Some y)
    with 3(3) b have "walk hit deep absent doc t ss V = (Some x, W)" by simp
    from 3(1) [OF this] sd show ?thesis by (meson list.set_intros(1) reaches.inline)
  qed
next
  case (4 hit deep absent doc ty name rest V)
  note sd = 4(6) [unfolded spreads_defined_sub]
  have rest: ?case if "\<exists>u f. reaches doc deep ty rest u f \<and> hit u f = Some x"
    using that reaches_mono by (meson set_subset_Cons)
  show ?case
  proof (cases "name \<in> V")
    case True
    with 4(5) have "walk hit deep absent doc ty rest V = (Some x, W)" by simp
    then show ?thesis using rest 4(1) [OF True] sd by blast
  next
    case new: False
    from sd obtain s where d: "map_of (doc_fragments doc) name = Some s" by auto
    obtain t ss where s: "s = SelectionSet t ss" by (cases s)
    obtain r U where b: "walk hit deep absent doc t ss (insert name V) = (r, U)" by fastforce
    show ?thesis
    proof (cases r)
      case None
      with 4(5) new d s b have "walk hit deep absent doc ty rest U = (Some x, W)" by simp
      then show ?thesis using rest 4(4) [OF new d s b [symmetric] None] sd by blast
    next
      case (Some y)
      with 4(5) new d s b have "walk hit deep absent doc t ss (insert name V) = (Some x, W)" by simp
      from 4(3) [OF new d s this] spreads_defined_body [OF conjunct2 [OF sd]] d s show ?thesis
        by (meson list.set_intros(1) reaches.spread)
    qed
  qed
qed simp

lemma some_op_reaches_Cons:
  "op_set op = SelectionSet t ss \<Longrightarrow> some_op_reaches doc deep (op # ops) u f \<longleftrightarrow> reaches doc deep t ss u f \<or> some_op_reaches doc deep ops u f"
  by (auto simp: some_op_reaches_def)

lemma walk_operations_None:
  "walk_operations hit deep absent doc ops V = None \<Longrightarrow> \<forall>n \<in> V. body_clear hit deep absent doc V n \<Longrightarrow>
   some_op_reaches doc deep ops u f \<Longrightarrow> hit u f = None"
proof (induction hit deep absent doc ops V rule: walk_operations.induct)
  case (2 hit deep absent doc op ops V)
  obtain t ss where op: "op_set op = SelectionSet t ss" by (cases "op_set op")
  with 2(2) obtain W where W: "walk hit deep absent doc t ss V = (None, W)" "walk_operations hit deep absent doc ops W = None"
    by (auto split: prod.splits option.splits)
  note c = walk_None [OF W(1), unfolded cleared_def]
  have closed: "\<forall>n \<in> W. body_clear hit deep absent doc W n" using c 2(3) body_clear_mono by blast
  show ?case
  proof (cases "some_op_reaches doc deep ops u f")
    case True
    then show ?thesis using 2(1) [OF op W(1) [symmetric] refl W(2) closed] by blast
  next
    case False
    with 2(4) have "reaches doc deep t ss u f" unfolding some_op_reaches_Cons [OF op] by blast
    then show ?thesis using closed_reaches [OF closed] c by blast
  qed
qed (simp add: some_op_reaches_def)

lemma walk_operations_Some:
  "walk_operations hit deep absent doc ops V = Some x \<Longrightarrow>
   \<forall>op \<in> set ops. \<forall>t ss. op_set op = SelectionSet t ss \<longrightarrow> spreads_defined doc ss \<Longrightarrow>
   \<exists>u f. some_op_reaches doc deep ops u f \<and> hit u f = Some x"
proof (induction hit deep absent doc ops V rule: walk_operations.induct)
  case (2 hit deep absent doc op ops V)
  obtain t ss where op: "op_set op = SelectionSet t ss" by (cases "op_set op")
  obtain r W where W: "walk hit deep absent doc t ss V = (r, W)" by fastforce
  show ?case
  proof (cases r)
    case None
    with 2(2) op W have "walk_operations hit deep absent doc ops W = Some x" by simp
    with 2(1) [OF op W [symmetric] None this] 2(3) show ?thesis unfolding some_op_reaches_Cons [OF op] by (meson list.set_intros(2))
  next
    case (Some y)
    with 2(2) op W have "walk hit deep absent doc t ss V = (Some x, W)" by simp
    from walk_Some [OF this] 2(3) op obtain u f where "reaches doc deep t ss u f" "hit u f = Some x" by auto
    then show ?thesis unfolding some_op_reaches_Cons [OF op] by blast
  qed
qed simp

lemma valid_spreads: "valid_document doc \<Longrightarrow> \<forall>op \<in> set (operations doc). \<forall>t ss. op_set op = SelectionSet t ss \<longrightarrow> spreads_defined doc ss"
  unfolding valid_document_def spreads_defined_def by (metis UnI1 UnI2 body_spreads_set imageI)

lemma walk_operations_exact:
  assumes "valid_document doc"
  shows "walk_operations hit deep absent doc (operations doc) {} = None
    \<longleftrightarrow> (\<forall>u f. some_op_reaches doc deep (operations doc) u f \<longrightarrow> hit u f = None)"
proof (cases "walk_operations hit deep absent doc (operations doc) {}")
  case None
  then show ?thesis using walk_operations_None [OF None] by auto
next
  case (Some x)
  then show ?thesis using walk_operations_Some [OF Some valid_spreads [OF assms]] by force
qed

lemma selects_introspection_exact:
  "valid_document doc \<Longrightarrow> selects_introspection doc \<longleftrightarrow> (\<exists>ty f. selects doc ty f \<and> introspective f)"
  unfolding selects_introspection_def by (subst walk_operations_exact) (auto simp: selects_def)

lemma is_pure_introspection_exact:
  "valid_document doc \<Longrightarrow> is_pure_introspection doc \<longleftrightarrow> (\<forall>f. root_field doc f \<longrightarrow> meta_field f)"
  unfolding is_pure_introspection_def by (subst walk_operations_exact) (auto simp: root_field_def split: if_splits)

lemma first_forbidden_field_None:
  "valid_document doc \<Longrightarrow>
   first_forbidden_field doc g = None \<longleftrightarrow> (\<forall>ty f. selects doc ty f \<longrightarrow> meta_field f \<or> field_allowed ty f g)"
  unfolding first_forbidden_field_def
  by (subst walk_operations_exact) (auto simp: selects_def split: if_splits)

lemma first_forbidden_field_Some:
  assumes "valid_document doc" and "first_forbidden_field doc g = Some (ty, f)"
  shows "selects doc ty f \<and> \<not> meta_field f \<and> \<not> field_allowed ty f g"
  using walk_operations_Some [OF assms(2) [unfolded first_forbidden_field_def] valid_spreads [OF assms(1)]]
  by (auto simp: selects_def split: if_splits)

subsection \<open>The memoised depth is the longest chain\<close>

lemma nests_mono: "nests doc sels k \<Longrightarrow> set sels \<subseteq> set sels' \<Longrightarrow> nests doc sels' k"
  by (induction rule: nests.induct) (blast intro: nests.intros)+

lemma nests_Cons:
  "nests doc (SelField name (SelectionSet t ss) # rest) k \<longleftrightarrow> (\<exists>j. k = Suc j \<and> nests doc ss j) \<or> nests doc rest k"
  "nests doc (SelInline (SelectionSet t ss) # rest) k \<longleftrightarrow> nests doc ss k \<or> nests doc rest k"
  "nests doc (SelSpread name # rest) k
   \<longleftrightarrow> (\<exists>t ss. map_of (doc_fragments doc) name = Some (SelectionSet t ss) \<and> nests doc ss k) \<or> nests doc rest k"
proof -
  have m: "nests doc rest k \<Longrightarrow> nests doc (s # rest) k" for s k by (erule nests_mono) auto
  show "nests doc (SelField name (SelectionSet t ss) # rest) k \<longleftrightarrow> (\<exists>j. k = Suc j \<and> nests doc ss j) \<or> nests doc rest k"
    by (auto intro: m nests.field elim: nests.cases) (erule nests.cases; auto intro: nests.intros)
  show "nests doc (SelInline (SelectionSet t ss) # rest) k \<longleftrightarrow> nests doc ss k \<or> nests doc rest k"
    by (auto intro: m nests.inline) (erule nests.cases; auto intro: nests.intros)
  show "nests doc (SelSpread name # rest) k
     \<longleftrightarrow> (\<exists>t ss. map_of (doc_fragments doc) name = Some (SelectionSet t ss) \<and> nests doc ss k) \<or> nests doc rest k"
    by (auto intro: m nests.spread) (erule nests.cases; auto intro: nests.intros)
qed

definition memo_exact :: "document \<Rightarrow> (string, nat) hashmap \<Rightarrow> bool" where
  "memo_exact doc memo \<longleftrightarrow>
     (\<forall>n d. map_of memo n = Some d \<longrightarrow>
        (\<exists>t ss. map_of (doc_fragments doc) n = Some (SelectionSet t ss) \<and> (\<forall>k. nests doc ss k \<longleftrightarrow> k \<le> d)))"

lemma set_depth_exact:
  assumes "\<forall>n s m. map_of (doc_fragments doc) n = Some s \<longrightarrow> m \<in> body_spreads True s \<longrightarrow> rank m < (rank n :: nat)"
  shows "set_depth doc sels memo stack = (d, memo') \<Longrightarrow> memo_exact doc memo \<Longrightarrow>
    \<forall>n \<in> spreads_of True sels. \<forall>m \<in> set stack. rank n < rank m \<Longrightarrow>
    memo_exact doc memo' \<and> (\<forall>k. nests doc sels k \<longleftrightarrow> k \<le> d)"
  using assms
proof (induction doc sels memo stack arbitrary: d memo' rule: set_depth.induct)
  case (1 doc memo stack)
  then show ?case by (auto intro: nests.none)
next
  case (2 doc name t ss rest memo stack)
  obtain a m b where s: "set_depth doc ss memo stack = (a, m)" "set_depth doc rest m stack = (b, memo')" and d: "d = max (1 + a) b"
    using 2(3) by (auto split: prod.splits)
  have A: "memo_exact doc m \<and> (\<forall>k. nests doc ss k \<longleftrightarrow> k \<le> a)" using 2(1) [OF s(1) 2(4) _ 2(6)] 2(5) by simp
  have B: "memo_exact doc memo' \<and> (\<forall>k. nests doc rest k \<longleftrightarrow> k \<le> b)"
    using 2(2) [OF s(1) [symmetric] s(2) _ _ 2(6)] A 2(5) by simp
  have "(\<exists>j. k = Suc j \<and> j \<le> a) \<or> k \<le> b \<longleftrightarrow> k \<le> d" for k using d by (cases k) auto
  then show ?case using A B by (simp add: nests_Cons)
next
  case (3 doc t ss rest memo stack)
  obtain a m b where s: "set_depth doc ss memo stack = (a, m)" "set_depth doc rest m stack = (b, memo')" and d: "d = max a b"
    using 3(3) by (auto split: prod.splits)
  have A: "memo_exact doc m \<and> (\<forall>k. nests doc ss k \<longleftrightarrow> k \<le> a)" using 3(1) [OF s(1) 3(4) _ 3(6)] 3(5) by simp
  have B: "memo_exact doc memo' \<and> (\<forall>k. nests doc rest k \<longleftrightarrow> k \<le> b)"
    using 3(2) [OF s(1) [symmetric] s(2) _ _ 3(6)] A 3(5) by simp
  then show ?case using A B d by (auto simp: nests_Cons)
next
  case (4 doc name rest memo stack)
  have sr: "\<forall>n \<in> spreads_of True rest. \<forall>m \<in> set stack. rank n < rank m" using 4(8) by simp
  have zero: "nests doc rest 0" by (rule nests.none)
  show ?case
  proof (cases "map_of memo name")
    case (Some a)
    with 4(6) obtain b where s: "set_depth doc rest memo stack = (b, memo')" and d: "d = max a b" by (auto split: prod.splits)
    have B: "memo_exact doc memo' \<and> (\<forall>k. nests doc rest k \<longleftrightarrow> k \<le> b)" by (rule 4(5) [OF Some s 4(7) sr 4(9)])
    obtain t ss where "map_of (doc_fragments doc) name = Some (SelectionSet t ss)" "\<forall>k. nests doc ss k \<longleftrightarrow> k \<le> a"
      using 4(7) Some unfolding memo_exact_def by blast
    with B d show ?thesis by (auto simp: nests_Cons)
  next
    case new: None
    have st: "name \<notin> set stack" using 4(8) by auto
    show ?thesis
    proof (cases "map_of (doc_fragments doc) name")
      case None
      with 4(6) new st have s: "set_depth doc rest memo stack = (d, memo')" by simp
      show ?thesis using 4(2) [OF new st None s 4(7) sr 4(9)] None by (simp add: nests_Cons)
    next
      case (Some body)
      obtain t ss where body: "body = SelectionSet t ss" by (cases body)
      obtain a m b where s: "set_depth doc ss memo (name # stack) = (a, m)"
        "set_depth doc rest (AList.update name a m) stack = (b, memo')" and d: "d = max a b"
        using 4(6) new st Some body by (auto split: prod.splits)
      have lower: "\<forall>n \<in> spreads_of True ss. rank n < rank name" using 4(9) Some body by fastforce
      have "\<forall>n \<in> spreads_of True ss. \<forall>m \<in> set (name # stack). rank n < rank m"
        using lower 4(8) by fastforce
      from 4(3) [OF new st Some body s(1) 4(7) this 4(9)]
      have A: "memo_exact doc m" "\<forall>k. nests doc ss k \<longleftrightarrow> k \<le> a" by auto
      have "memo_exact doc (AList.update name a m)" using A Some body unfolding memo_exact_def by auto
      from 4(4) [OF new st Some body s(1) [symmetric] s(2) this sr 4(9)]
      show ?thesis using A d Some body by (auto simp: nests_Cons)
    qed
  qed
qed

lemma operations_depth_exact:
  assumes "\<forall>n s m. map_of (doc_fragments doc) n = Some s \<longrightarrow> m \<in> body_spreads True s \<longrightarrow> rank m < (rank n :: nat)"
  shows "memo_exact doc memo \<Longrightarrow>
    operations_depth doc ops memo < k \<longleftrightarrow> 0 < k \<and> \<not> (\<exists>op \<in> set ops. \<exists>t ss. op_set op = SelectionSet t ss \<and> nests doc ss k)"
proof (induction ops arbitrary: memo)
  case (Cons op ops)
  obtain t ss where op: "op_set op = SelectionSet t ss" by (cases "op_set op")
  obtain d m where s: "set_depth doc ss memo [] = (d, m)" by fastforce
  have e: "memo_exact doc m" "nests doc ss k \<longleftrightarrow> k \<le> d" using set_depth_exact [OF assms s Cons.prems] by auto
  show ?case using Cons.IH [OF e(1)] e(2) op s by auto
qed simp

lemma document_depth_exact:
  assumes "valid_document doc"
  shows "document_depth doc > limit \<longleftrightarrow> nesting doc (Suc limit)"
proof -
  obtain rank :: "string \<Rightarrow> nat" where "\<forall>n s m. map_of (doc_fragments doc) n = Some s \<longrightarrow> m \<in> body_spreads True s \<longrightarrow> rank m < rank n"
    using assms unfolding valid_document_def by blast
  from operations_depth_exact [OF this, of "[]" "operations doc" "Suc limit"]
  show ?thesis by (auto simp: memo_exact_def document_depth_def nesting_def not_less)
qed

subsection \<open>The depth fits the machine integer\<close>

text \<open>
  The code computes the depth in \<open>u32\<close>: it is at most the number of fields written in the document,
  which is below the number of its bytes, so that it cannot overflow for a body under 4 GiB.
\<close>

fun field_count :: "selection list \<Rightarrow> nat" where
  "field_count [] = 0"
| "field_count (SelField name (SelectionSet t ss) # rest) = 1 + field_count ss + field_count rest"
| "field_count (SelInline (SelectionSet t ss) # rest) = field_count ss + field_count rest"
| "field_count (SelSpread name # rest) = field_count rest"

definition set_fields :: "selection_set \<Rightarrow> nat" where
  "set_fields s = (case s of SelectionSet t ss \<Rightarrow> field_count ss)"

definition fragment_fields :: "document \<Rightarrow> (string \<Rightarrow> bool) \<Rightarrow> nat" where
  "fragment_fields doc P = (\<Sum>n \<in> {n \<in> dom (map_of (doc_fragments doc)). P n}. set_fields (the (map_of (doc_fragments doc) n)))"

lemma fragment_fields_mono: "(\<And>n. P n \<Longrightarrow> Q n) \<Longrightarrow> fragment_fields doc P \<le> fragment_fields doc Q"
  unfolding fragment_fields_def by (rule sum_mono2) (auto simp: finite_dom_map_of)

lemma fragment_fields_step:
  assumes "map_of (doc_fragments doc) name = Some s" and "rank name < (R :: nat)"
  shows "set_fields s + fragment_fields doc (\<lambda>n. rank n < rank name) \<le> fragment_fields doc (\<lambda>n. rank n < R)"
proof -
  let ?A = "{n \<in> dom (map_of (doc_fragments doc)). rank n < rank name}"
  have "set_fields s + fragment_fields doc (\<lambda>n. rank n < rank name)
      = (\<Sum>n \<in> insert name ?A. set_fields (the (map_of (doc_fragments doc) n)))"
    using assms(1) by (simp add: fragment_fields_def finite_dom_map_of)
  also have "\<dots> \<le> fragment_fields doc (\<lambda>n. rank n < R)"
    unfolding fragment_fields_def using assms by (intro sum_mono2) (auto simp: finite_dom_map_of)
  finally show ?thesis .
qed

lemma field_count_member:
  "SelField name (SelectionSet t ss) \<in> set sels \<Longrightarrow> Suc (field_count ss) \<le> field_count sels"
  "SelInline (SelectionSet t ss) \<in> set sels \<Longrightarrow> field_count ss \<le> field_count sels"
  by (induction sels rule: field_count.induct) auto

lemma nests_bound:
  assumes "\<forall>n s m. map_of (doc_fragments doc) n = Some s \<longrightarrow> m \<in> body_spreads True s \<longrightarrow> rank m < (rank n :: nat)"
  shows "nests doc sels k \<Longrightarrow> \<forall>n \<in> spreads_of True sels. rank n < R \<Longrightarrow> k \<le> field_count sels + fragment_fields doc (\<lambda>n. rank n < R)"
proof (induction arbitrary: R rule: nests.induct)
  case (field name t ss sels k)
  have "\<forall>n \<in> spreads_of True ss. rank n < R" using field.prems spreads_of_member(2) [OF TrueI field.hyps(1)] by blast
  then show ?case using field.IH field_count_member(1) [OF field.hyps(1)] by fastforce
next
  case (inline t ss sels k)
  have "\<forall>n \<in> spreads_of True ss. rank n < R" using inline.prems spreads_of_member(3) [OF inline.hyps(1)] by blast
  then show ?case using inline.IH field_count_member(2) [OF inline.hyps(1)] by fastforce
next
  case (spread name sels t ss k)
  have "rank name < R" using spread.prems spreads_of_member(1) [OF spread.hyps(1)] by blast
  from fragment_fields_step [OF spread.hyps(2), of rank R, OF this]
  have "field_count ss + fragment_fields doc (\<lambda>n. rank n < rank name) \<le> fragment_fields doc (\<lambda>n. rank n < R)"
    by (simp add: set_fields_def)
  moreover have "\<forall>n \<in> spreads_of True ss. rank n < rank name" using assms spread.hyps(2) by fastforce
  ultimately show ?case using spread.IH by fastforce
qed simp

definition written_fields :: "document \<Rightarrow> nat" where
  "written_fields doc = (\<Sum>op \<leftarrow> operations doc. set_fields (op_set op)) + fragment_fields doc (\<lambda>n. True)"

lemma document_depth_bound:
  assumes "valid_document doc"
  shows "document_depth doc \<le> written_fields doc"
proof (rule ccontr)
  assume "\<not> document_depth doc \<le> written_fields doc"
  then have "nesting doc (Suc (written_fields doc))" by (simp add: document_depth_exact [OF assms, symmetric])
  then obtain op t ss where op: "op \<in> set (operations doc)" "op_set op = SelectionSet t ss" "nests doc ss (Suc (written_fields doc))"
    unfolding nesting_def by blast
  obtain rank :: "string \<Rightarrow> nat" where r: "\<forall>n s m. map_of (doc_fragments doc) n = Some s \<longrightarrow> m \<in> body_spreads True s \<longrightarrow> rank m < rank n"
    using assms unfolding valid_document_def by blast
  have fin: "finite (spreads_of True ss)" by (induction "True" ss rule: spreads_of.induct) auto
  then have "\<forall>n \<in> spreads_of True ss. rank n < Suc (Max (rank ` spreads_of True ss))" by (simp add: less_Suc_eq_le)
  from nests_bound [OF r op(3) this] fragment_fields_mono [of _ "\<lambda>_. True"]
  have "Suc (written_fields doc) \<le> field_count ss + fragment_fields doc (\<lambda>n. True)" by (meson add_left_mono le_trans)
  moreover have "field_count ss \<le> (\<Sum>op \<leftarrow> operations doc. set_fields (op_set op))"
    using op(1,2) member_le_sum_list [of "field_count ss" "map (\<lambda>op. set_fields (op_set op)) (operations doc)"]
    by (force simp: set_fields_def image_iff)
  ultimately show False by (simp add: written_fields_def)
qed

section \<open>Properties\<close>

text \<open>
  C11. The pipeline decides exactly the policy. A validated document passes if and only if it selects no
  \<open>__schema\<close> or \<open>__type\<close> anywhere when introspection is off for the API or the key, and either all its
  root fields are meta fields, or no chain of nested fields, fragments expanded, is longer than
  the limit in force and every field it selects, on the type it selects it on, is a meta field or
  one the key's grants allow. A field it is refused for is one it selects and the grants forbid.
\<close>

theorem check_document_exact:
  assumes "valid_document doc"
  shows "(check_document shared grants doc = Inr () \<longleftrightarrow>
      (introspection_allowed shared grants \<or> \<not> (\<exists>ty f. selects doc ty f \<and> introspective f))
      \<and> ((\<forall>f. root_field doc f \<longrightarrow> meta_field f)
         \<or> (\<forall>limit. effective_depth_limit shared grants = Some limit \<longrightarrow> \<not> nesting doc (Suc limit))
           \<and> (\<forall>g ty f. grants = Some g \<longrightarrow> selects doc ty f \<longrightarrow> meta_field f \<or> field_allowed ty f g)))
    \<and> (\<forall>ty f. check_document shared grants doc = Inl (ForbiddenField ty f) \<longrightarrow>
         selects doc ty f \<and> (\<exists>g. grants = Some g \<and> \<not> field_allowed ty f g))"
proof
  have d: "(case effective_depth_limit shared grants of Some limit \<Rightarrow> document_depth doc > limit | None \<Rightarrow> False)
      \<longleftrightarrow> \<not> (\<forall>limit. effective_depth_limit shared grants = Some limit \<longrightarrow> \<not> nesting doc (Suc limit))"
    by (auto simp: document_depth_exact [OF assms] split: option.splits)
  have f: "Option.bind grants (first_forbidden_field doc) = None
      \<longleftrightarrow> (\<forall>g ty f. grants = Some g \<longrightarrow> selects doc ty f \<longrightarrow> meta_field f \<or> field_allowed ty f g)"
    by (cases grants) (simp_all add: first_forbidden_field_None [OF assms])
  show "check_document shared grants doc = Inr () \<longleftrightarrow>
      (introspection_allowed shared grants \<or> \<not> (\<exists>ty f. selects doc ty f \<and> introspective f))
      \<and> ((\<forall>f. root_field doc f \<longrightarrow> meta_field f)
         \<or> (\<forall>limit. effective_depth_limit shared grants = Some limit \<longrightarrow> \<not> nesting doc (Suc limit))
           \<and> (\<forall>g ty f. grants = Some g \<longrightarrow> selects doc ty f \<longrightarrow> meta_field f \<or> field_allowed ty f g))"
    unfolding check_document_def d f [symmetric] selects_introspection_exact [OF assms] is_pure_introspection_exact [OF assms]
    by (auto split: option.splits)
  show "\<forall>ty f. check_document shared grants doc = Inl (ForbiddenField ty f) \<longrightarrow>
         selects doc ty f \<and> (\<exists>g. grants = Some g \<and> \<not> field_allowed ty f g)"
    using first_forbidden_field_Some [OF assms] unfolding check_document_def
    by (cases grants) (auto split: if_splits option.splits)
qed

text \<open>
  \<open>query { user { ...Part } }\<close> with \<open>fragment Part on User { name friends { name } }\<close>, whose chain
  \<open>user\<close>, \<open>friends\<close>, \<open>name\<close> passes through the fragment.
\<close>

definition sample_document :: document where
  "sample_document =
     \<lparr>doc_anonymous = Some \<lparr>op_type = OpQuery,
        op_set = SelectionSet ''Query'' [SelField ''user'' (SelectionSet ''User'' [SelSpread ''Part''])]\<rparr>,
      doc_named = [],
      doc_fragments = [(''Part'', SelectionSet ''User'' [SelField ''name'' (SelectionSet ''String'' []),
        SelField ''friends'' (SelectionSet ''User'' [SelField ''name'' (SelectionSet ''String'' [])])])]\<rparr>"

definition sample_grants :: api_access where
  "sample_grants = \<lparr>aa_allowed_types = [], aa_restricted_types = [\<lparr>tf_name = ''User'', tf_fields = [''email'']\<rparr>],
     aa_disable_introspection = True, aa_max_query_depth = Some 3\<rparr>"

lemma sample_document_valid: "valid_document sample_document"
  by (auto simp: valid_document_def sample_document_def operations_def ran_def split: if_splits)

theorem check_document_exact_witness:
  "valid_document sample_document
   \<and> check_document \<lparr>pg_introspection_enabled = True, pg_max_query_depth = Some 2\<rparr> (Some sample_grants) sample_document = Inr ()
   \<and> check_document \<lparr>pg_introspection_enabled = True, pg_max_query_depth = Some 2\<rparr> None sample_document = Inl DepthLimit
   \<and> nesting sample_document 3 \<and> \<not> selects sample_document ''User'' ''email''"
proof -
  let ?P = "\<lparr>pg_introspection_enabled = True, pg_max_query_depth = Some 2\<rparr>"
  have parts: "\<not> selects_introspection sample_document" "\<not> is_pure_introspection sample_document"
    "first_forbidden_field sample_document sample_grants = None" "document_depth sample_document = 3" by code_simp+
  have limits: "effective_depth_limit ?P (Some sample_grants) = Some 3" "effective_depth_limit ?P None = Some 2" "introspection_allowed ?P None"
    by (simp_all add: effective_depth_limit_def introspection_allowed_def sample_grants_def u32_max_def)
  have ok: "check_document ?P (Some sample_grants) sample_document = Inr ()" by (simp add: check_document_def parts limits)
  have deep: "check_document ?P None sample_document = Inl DepthLimit" by (simp add: check_document_def parts limits)
  from limits(2,3) check_document_exact [OF sample_document_valid, of ?P None, THEN conjunct1] deep have "nesting sample_document (Suc 2)" by auto
  then have "nesting sample_document 3" by (simp add: numeral_3_eq_3 numeral_2_eq_2)
  moreover have "\<not> (\<forall>f. root_field sample_document f \<longrightarrow> meta_field f)"
    using parts(2) unfolding is_pure_introspection_exact [OF sample_document_valid] .
  then have "\<forall>ty f. selects sample_document ty f \<longrightarrow> meta_field f \<or> field_allowed ty f sample_grants"
    using check_document_exact [OF sample_document_valid, of ?P "Some sample_grants", THEN conjunct1] ok by blast
  moreover have "\<not> meta_field ''email''" "\<not> field_allowed ''User'' ''email'' sample_grants" by code_simp+
  ultimately show ?thesis using sample_document_valid ok deep by blast
qed

end
