(* ===== verification/Graphql_Ws.thy ===== *)
theory Graphql_Ws
  imports Graphql_Policy Http Json
begin

text \<open>
  GraphQL subscriptions over WebSocket, \<open>g2-middleware/src/graphql_ws.rs\<close>: recognising a handshake,
  the subprotocols, what is done with each text frame of the client, and the relay between the
  two legs. WebSocket framing, the JSON codec and the document parser are parameters. The schema
  may be swapped by a schema sync between any two frames, so every frame of the client comes
  with the schema in force when it is policed.
\<close>

section \<open>Parameters\<close>

record inbound =
  ib_kind :: string
  ib_id :: "json option"
  ib_payload :: "json option"

record envelope =
  ev_query :: "string option"
  ev_operation_name :: "string option"
  ev_variables :: "json option"

text \<open>The document parser against a schema, the selection of an operation, and the JSON codec.\<close>

record ('schema, 'r) graphql_ext =
  gx_document :: "'schema \<Rightarrow> string \<Rightarrow> string list + document"
  gx_operation :: "document \<Rightarrow> string option \<Rightarrow> operation option"
  gx_inbound :: "string \<Rightarrow> inbound option"
  gx_envelope :: "string \<Rightarrow> string + envelope"
  gx_from_str :: "string \<Rightarrow> string + json"
  gx_print :: "json \<Rightarrow> string"
  gx_captures :: "'r \<Rightarrow> string \<Rightarrow> (string \<Rightarrow> string option) option"

section \<open>Handshakes\<close>

definition PROTO_GRAPHQL_TRANSPORT_WS :: string where
  "PROTO_GRAPHQL_TRANSPORT_WS = ''graphql-transport-ws''"

definition PROTO_GRAPHQL_WS :: string where
  "PROTO_GRAPHQL_WS = ''graphql-ws''"

definition CLOSE_BAD_REQUEST :: nat where
  "CLOSE_BAD_REQUEST = 4400"

definition has_token :: "'h http_ext \<Rightarrow> string option \<Rightarrow> string \<Rightarrow> bool" where
  "has_token X value token' \<longleftrightarrow>
     (case Option.bind value (hv_to_str X) of
        Some v \<Rightarrow> list_ex (\<lambda>t. eq_ignore_ascii_case (trim t) token') (split_on (CHR '','') v)
      | None \<Rightarrow> False)"

definition is_websocket_handshake :: "'h http_ext \<Rightarrow> 'h request \<Rightarrow> bool" where
  "is_websocket_handshake X req \<longleftrightarrow>
     rq_method req = ''GET'' \<and> has_token X (hm_get X (rq_headers req) ''connection'') ''upgrade''
     \<and> has_token X (hm_get X (rq_headers req) ''upgrade'') ''websocket''"

definition known_protocol :: "string \<Rightarrow> bool" where
  "known_protocol name \<longleftrightarrow> name = PROTO_GRAPHQL_TRANSPORT_WS \<or> name = PROTO_GRAPHQL_WS"

definition offers_known_protocol :: "'h http_ext \<Rightarrow> 'h \<Rightarrow> bool" where
  "offers_known_protocol X headers \<longleftrightarrow>
     list_ex (\<lambda>name. known_protocol (trim name))
       (concat (map (split_on (CHR '','')) (List.map_filter (hv_to_str X) (hm_get_all X headers ''sec-websocket-protocol''))))"

definition tunnel_accepts :: "'h http_ext \<Rightarrow> string option \<Rightarrow> bool" where
  "tunnel_accepts X negotiated =
     (case negotiated of
        None \<Rightarrow> True
      | Some value \<Rightarrow> (case hv_to_str X value of Some name \<Rightarrow> known_protocol (trim name) | None \<Rightarrow> False))"

datatype vocab = Modern | Legacy | Union

definition vocab_of :: "'h http_ext \<Rightarrow> string option \<Rightarrow> vocab" where
  "vocab_of X negotiated =
     (let name = map_option trim (Option.bind negotiated (hv_to_str X))
      in if name = Some PROTO_GRAPHQL_TRANSPORT_WS then Modern
         else if name = Some PROTO_GRAPHQL_WS then Legacy
         else Union)"

section \<open>Policing one frame\<close>

datatype error_style = ModernStyle | LegacyStyle

datatype action = ForwardText bool | Reply string | CloseBoth "string option" nat string

definition error_message :: "('schema, 'r) graphql_ext \<Rightarrow> error_style \<Rightarrow> json option \<Rightarrow> string list \<Rightarrow> string" where
  "error_message G style id' messages =
     (let i = (case id' of Some v \<Rightarrow> v | None \<Rightarrow> JNull)
      in case style of
           ModernStyle \<Rightarrow>
             gx_print G (JObject [(''id'', i), (''payload'', JArray (map (\<lambda>m. JObject [(''message'', JString m)]) messages)),
               (''type'', JString ''error'')])
         | LegacyStyle \<Rightarrow>
             gx_print G (JObject [(''id'', i), (''payload'', JObject [(''message'', JString (join_strings ''; '' messages))]),
               (''type'', JString ''error'')]))"

definition violation_close :: "('schema, 'r) graphql_ext \<Rightarrow> vocab \<Rightarrow> string \<Rightarrow> action" where
  "violation_close G v reason =
     (case v of
        Legacy \<Rightarrow>
          CloseBoth (Some (gx_print G (JObject [(''payload'', JObject [(''message'', JString reason)]),
            (''type'', JString ''connection_error'')]))) 1002 reason
      | _ \<Rightarrow> CloseBoth None CLOSE_BAD_REQUEST reason)"

definition payload_query :: "json option \<Rightarrow> string option" where
  "payload_query payload =
     (case Option.bind (Option.bind payload (\<lambda>p. json_get p ''query'')) as_str of
        Some q \<Rightarrow> if trim q \<noteq> [] then Some q else None
      | None \<Rightarrow> None)"

definition police_operation :: "('schema, 'r) graphql_ext \<Rightarrow> policing \<Rightarrow> 'schema \<Rightarrow> api_access option \<Rightarrow> error_style \<Rightarrow>
    json option \<Rightarrow> json option \<Rightarrow> action" where
  "police_operation G shared schema grants style id' payload =
     (case payload_query payload of
        None \<Rightarrow> Reply (error_message G style id' [''the request is missing a GraphQL query''])
      | Some query \<Rightarrow>
          (case gx_document G schema query of
             Inl messages \<Rightarrow> Reply (error_message G style id' messages)
           | Inr doc \<Rightarrow>
               (case check_document shared grants doc of
                  Inr _ \<Rightarrow> ForwardText True
                | Inl violation \<Rightarrow> Reply (error_message G style id' [violation_message violation]))))"

definition modern_kind :: "string \<Rightarrow> bool" where
  "modern_kind kind \<longleftrightarrow> kind \<in> {''connection_init'', ''ping'', ''pong'', ''subscribe'', ''complete''}"

definition legacy_kind :: "string \<Rightarrow> bool" where
  "legacy_kind kind \<longleftrightarrow> kind \<in> {''connection_init'', ''start'', ''stop'', ''connection_terminate''}"

definition known_kind :: "vocab \<Rightarrow> string \<Rightarrow> bool" where
  "known_kind v kind =
     (case v of Modern \<Rightarrow> modern_kind kind | Legacy \<Rightarrow> legacy_kind kind | Union \<Rightarrow> modern_kind kind \<or> legacy_kind kind)"

definition police_client_text :: "('schema, 'r) graphql_ext \<Rightarrow> policing \<Rightarrow> 'schema \<Rightarrow> api_access option \<Rightarrow> vocab \<Rightarrow> string \<Rightarrow> action" where
  "police_client_text G shared schema grants v text =
     (case gx_inbound G text of
        None \<Rightarrow> violation_close G v ''invalid message: not a graphql-ws JSON object''
      | Some message \<Rightarrow>
          if \<not> known_kind v (ib_kind message) then violation_close G v (''unknown message type: '' @ ib_kind message)
          else if ib_kind message \<noteq> ''subscribe'' \<and> ib_kind message \<noteq> ''start'' then ForwardText False
          else if ib_id message = None then violation_close G v (ib_kind message @ '' message without an id'')
          else police_operation G shared schema grants
                 (if ib_kind message = ''subscribe'' then ModernStyle else LegacyStyle) (ib_id message) (ib_payload message))"

section \<open>The relay\<close>

datatype ws_message = WText string | WBinary string | WPing string | WPong string | WRaw | WClose "(nat \<times> string) option"

datatype leg = LegMessage ws_message | LegFailed | LegEnded

text \<open>
  What the \<open>select!\<close> loop meets next: a message, failure or end of either leg, the schema in force
  for a client frame, and whether the send it leads to succeeds.
\<close>

datatype 'schema relay_input = FromClient leg 'schema bool | FromUpstream leg bool

text \<open>The frames handed to each leg, the counters, and whether the loop is still running.\<close>

record relay =
  ry_open :: bool
  ry_upstream :: "ws_message list"
  ry_client :: "ws_message list"
  ry_allowed :: nat
  ry_denied :: nat

definition relay_start :: relay where
  "relay_start = \<lparr>ry_open = True, ry_upstream = [], ry_client = [], ry_allowed = 0, ry_denied = 0\<rparr>"

definition to_upstream :: "ws_message \<Rightarrow> relay \<Rightarrow> relay" where
  "to_upstream m st = st\<lparr>ry_upstream := ry_upstream st @ [m]\<rparr>"

definition to_client :: "ws_message \<Rightarrow> relay \<Rightarrow> relay" where
  "to_client m st = st\<lparr>ry_client := ry_client st @ [m]\<rparr>"

definition act :: "action \<Rightarrow> ws_message \<Rightarrow> bool \<Rightarrow> relay \<Rightarrow> relay" where
  "act a message sent st =
     (case a of
        ForwardText operation \<Rightarrow>
          (to_upstream message (if operation then st\<lparr>ry_allowed := ry_allowed st + 1\<rparr> else st))\<lparr>ry_open := sent\<rparr>
      | Reply reply \<Rightarrow> (to_client (WText reply) (st\<lparr>ry_denied := ry_denied st + 1\<rparr>))\<lparr>ry_open := sent\<rparr>
      | CloseBoth notice code reason \<Rightarrow>
          (let st1 = (case notice of Some n \<Rightarrow> to_client (WText n) st | None \<Rightarrow> st)
           in (to_upstream (WClose (Some (code, reason))) (to_client (WClose (Some (code, reason))) st1))\<lparr>ry_open := False\<rparr>))"

fun relay_event :: "('schema, 'r) graphql_ext \<Rightarrow> policing \<Rightarrow> api_access option \<Rightarrow> vocab \<Rightarrow> 'schema relay_input \<Rightarrow> relay \<Rightarrow> relay" where
  "relay_event G shared grants v (FromClient (LegMessage (WText text)) schema sent) st =
     act (police_client_text G shared schema grants v text) (WText text) sent st"
| "relay_event G shared grants v (FromClient (LegMessage (WBinary b)) schema sent) st =
     act (violation_close G v ''binary frames are not supported'') (WBinary b) sent st"
| "relay_event G shared grants v (FromClient (LegMessage (WPing b)) schema sent) st = st"
| "relay_event G shared grants v (FromClient (LegMessage (WPong b)) schema sent) st = st"
| "relay_event G shared grants v (FromClient (LegMessage WRaw) schema sent) st = st"
| "relay_event G shared grants v (FromClient (LegMessage (WClose frame)) schema sent) st = (to_upstream (WClose frame) st)\<lparr>ry_open := False\<rparr>"
| "relay_event G shared grants v (FromClient LegFailed schema sent) st = (to_upstream (WClose None) st)\<lparr>ry_open := False\<rparr>"
| "relay_event G shared grants v (FromClient LegEnded schema sent) st = (to_upstream (WClose None) st)\<lparr>ry_open := False\<rparr>"
| "relay_event G shared grants v (FromUpstream (LegMessage (WPing b)) sent) st = st"
| "relay_event G shared grants v (FromUpstream (LegMessage (WPong b)) sent) st = st"
| "relay_event G shared grants v (FromUpstream (LegMessage WRaw) sent) st = st"
| "relay_event G shared grants v (FromUpstream (LegMessage (WClose frame)) sent) st = (to_client (WClose frame) st)\<lparr>ry_open := False\<rparr>"
| "relay_event G shared grants v (FromUpstream (LegMessage m) sent) st = (to_client m st)\<lparr>ry_open := sent\<rparr>"
| "relay_event G shared grants v (FromUpstream LegFailed sent) st = (to_client (WClose None) st)\<lparr>ry_open := False\<rparr>"
| "relay_event G shared grants v (FromUpstream LegEnded sent) st = (to_client (WClose None) st)\<lparr>ry_open := False\<rparr>"

text \<open>The relay over what happens on the legs; nothing is read once the loop has been left.\<close>

fun run_relay :: "('schema, 'r) graphql_ext \<Rightarrow> policing \<Rightarrow> api_access option \<Rightarrow> vocab \<Rightarrow> 'schema relay_input list \<Rightarrow> relay \<Rightarrow> relay" where
  "run_relay G shared grants v [] st = st"
| "run_relay G shared grants v (e # es) st =
     (if ry_open st then run_relay G shared grants v es (relay_event G shared grants v e st) else st)"

section \<open>Lemmas\<close>

text \<open>The messages of the client that may reach the upstream.\<close>

definition policed_query :: "('schema, 'r) graphql_ext \<Rightarrow> policing \<Rightarrow> api_access option \<Rightarrow> 'schema \<Rightarrow> json option \<Rightarrow> bool" where
  "policed_query G shared grants schema payload \<longleftrightarrow>
     (\<exists>p query doc. payload = Some p \<and> json_get p ''query'' = Some (JString query) \<and> trim query \<noteq> []
        \<and> gx_document G schema query = Inr doc \<and> check_document shared grants doc = Inr ())"

definition forwardable :: "('schema, 'r) graphql_ext \<Rightarrow> policing \<Rightarrow> api_access option \<Rightarrow> vocab \<Rightarrow> 'schema \<Rightarrow> string \<Rightarrow> bool" where
  "forwardable G shared grants v schema text \<longleftrightarrow>
     (\<exists>m. gx_inbound G text = Some m \<and> known_kind v (ib_kind m)
        \<and> (ib_kind m \<in> {''subscribe'', ''start''} \<longrightarrow> ib_id m \<noteq> None \<and> policed_query G shared grants schema (ib_payload m)))"

text \<open>The operations that are refused with an answer: known, with an id, but with a query that is not allowed.\<close>

definition refused :: "('schema, 'r) graphql_ext \<Rightarrow> policing \<Rightarrow> api_access option \<Rightarrow> vocab \<Rightarrow> 'schema \<Rightarrow> string \<Rightarrow> inbound \<Rightarrow> bool" where
  "refused G shared grants v schema text m \<longleftrightarrow>
     gx_inbound G text = Some m \<and> known_kind v (ib_kind m) \<and> ib_kind m \<in> {''subscribe'', ''start''}
     \<and> ib_id m \<noteq> None \<and> \<not> policed_query G shared grants schema (ib_payload m)"

lemma as_str_Some [simp]: "as_str v = Some q \<longleftrightarrow> v = JString q"
  by (cases v) auto

lemma payload_query_Some:
  "payload_query payload = Some q \<longleftrightarrow> (\<exists>p. payload = Some p \<and> json_get p ''query'' = Some (JString q) \<and> trim q \<noteq> [])"
  by (auto simp: payload_query_def bind_eq_Some_conv split: option.splits)

lemma police_operation_cases:
  "police_operation G shared schema grants style i payload =
     (if policed_query G shared grants schema payload then ForwardText True
      else Reply (error_message G style i
        (case payload_query payload of
           None \<Rightarrow> [''the request is missing a GraphQL query'']
         | Some q \<Rightarrow> (case gx_document G schema q of
               Inl messages \<Rightarrow> messages
             | Inr doc \<Rightarrow> (case check_document shared grants doc of Inl violation \<Rightarrow> [violation_message violation] | Inr _ \<Rightarrow> [])))))"
proof -
  have "policed_query G shared grants schema payload
      \<longleftrightarrow> (\<exists>q doc. payload_query payload = Some q \<and> gx_document G schema q = Inr doc \<and> check_document shared grants doc = Inr ())"
    unfolding policed_query_def payload_query_Some by blast
  then show ?thesis by (auto simp: police_operation_def split: option.splits sum.splits)
qed

lemma police_forward: "police_client_text G shared schema grants v text = ForwardText b \<Longrightarrow> forwardable G shared grants v schema text"
  by (auto simp: police_client_text_def forwardable_def police_operation_cases violation_close_def
      split: option.splits if_splits vocab.splits)

lemma police_forwardable: "forwardable G shared grants v schema text \<Longrightarrow> \<exists>b. police_client_text G shared schema grants v text = ForwardText b"
  by (auto simp: forwardable_def police_client_text_def police_operation_cases)

lemma police_reply:
  "police_client_text G shared schema grants v text = Reply reply \<Longrightarrow>
   \<exists>m style messages. refused G shared grants v schema text m \<and> reply = error_message G style (ib_id m) messages"
  by (auto simp: refused_def police_client_text_def police_operation_cases violation_close_def
      split: option.splits if_splits vocab.splits)

lemma police_refused:
  "refused G shared grants v schema text m \<Longrightarrow>
   \<exists>style messages. police_client_text G shared schema grants v text = Reply (error_message G style (ib_id m) messages)"
  by (auto simp: refused_def police_client_text_def police_operation_cases)

text \<open>What the events of a run carry: the client's texts with the schema each was policed against, and the upstream's data.\<close>

definition text_of :: "'schema relay_input \<Rightarrow> (string \<times> 'schema) list" where
  "text_of e = (case e of FromClient (LegMessage (WText t)) schema _ \<Rightarrow> [(t, schema)] | _ \<Rightarrow> [])"

definition data_of :: "'schema relay_input \<Rightarrow> ws_message list" where
  "data_of e = (case e of FromUpstream (LegMessage (WText t)) _ \<Rightarrow> [WText t] | FromUpstream (LegMessage (WBinary b)) _ \<Rightarrow> [WBinary b] | _ \<Rightarrow> [])"

definition client_texts :: "'schema relay_input list \<Rightarrow> (string \<times> 'schema) list" where
  "client_texts es = concat (map text_of es)"

definition upstream_data :: "'schema relay_input list \<Rightarrow> ws_message list" where
  "upstream_data es = concat (map data_of es)"

lemma act_upstream:
  "m \<in> set (ry_upstream (act a message sent st)) \<Longrightarrow>
   m \<in> set (ry_upstream st) \<or> (\<exists>c. m = WClose c) \<or> (\<exists>b. a = ForwardText b) \<and> m = message"
  by (auto simp: act_def to_upstream_def to_client_def Let_def split: action.splits option.splits if_splits)

lemma event_upstream:
  "m \<in> set (ry_upstream (relay_event G shared grants v e st)) \<Longrightarrow>
   m \<in> set (ry_upstream st) \<or> (\<exists>c. m = WClose c)
   \<or> (\<exists>text schema. m = WText text \<and> text_of e = [(text, schema)] \<and> forwardable G shared grants v schema text)"
proof (induction G shared grants v e st rule: relay_event.induct)
  case (1 G shared grants v t schema sent st)
  then show ?case using act_upstream [of m] police_forward by (fastforce simp: text_of_def)
next
  case (2 G shared grants v b schema sent st)
  then show ?case using act_upstream [of m] by (force simp: violation_close_def split: vocab.splits)
qed (auto simp: to_upstream_def to_client_def)

lemma run_upstream:
  "m \<in> set (ry_upstream (run_relay G shared grants v es st)) \<Longrightarrow>
   m \<in> set (ry_upstream st) \<or> (\<exists>c. m = WClose c)
   \<or> (\<exists>text schema. m = WText text \<and> (text, schema) \<in> set (client_texts es) \<and> forwardable G shared grants v schema text)"
proof (induction es arbitrary: st)
  case (Cons e es)
  show ?case
  proof (cases "ry_open st")
    case True
    with Cons.prems have "m \<in> set (ry_upstream (run_relay G shared grants v es (relay_event G shared grants v e st)))" by simp
    from Cons.IH [OF this] show ?thesis using event_upstream by (fastforce simp: client_texts_def)
  next
    case False
    with Cons.prems show ?thesis by simp
  qed
qed simp

text \<open>How an event that leaves the loop running extends the frames handed to the legs.\<close>

definition answered :: "('schema, 'r) graphql_ext \<Rightarrow> policing \<Rightarrow> api_access option \<Rightarrow> vocab \<Rightarrow> ws_message list \<Rightarrow> string \<times> 'schema \<Rightarrow> bool" where
  "answered G shared grants v out ts \<longleftrightarrow>
     (case ts of (text, schema) \<Rightarrow>
        forwardable G shared grants v schema text
        \<or> (\<exists>m style messages. refused G shared grants v schema text m \<and> WText (error_message G style (ib_id m) messages) \<in> set out))"

abbreviation passed :: "('schema, 'r) graphql_ext \<Rightarrow> policing \<Rightarrow> api_access option \<Rightarrow> vocab \<Rightarrow> (string \<times> 'schema) list \<Rightarrow> ws_message list" where
  "passed G shared grants v ts \<equiv> map (\<lambda>(t, _). WText t) (filter (\<lambda>(t, schema). forwardable G shared grants v schema t) ts)"

lemma event_open:
  "ry_open (relay_event G shared grants v e st) \<Longrightarrow>
   \<exists>out. ry_client (relay_event G shared grants v e st) = ry_client st @ out
     \<and> ry_upstream (relay_event G shared grants v e st) = ry_upstream st @ passed G shared grants v (text_of e)
     \<and> data_of e = (if text_of e = [] then out else []) \<and> (\<forall>ts \<in> set (text_of e). answered G shared grants v out ts)"
proof (induction G shared grants v e st rule: relay_event.induct)
  case (1 G shared grants v t schema sent st)
  show ?case
  proof (cases "police_client_text G shared schema grants v t")
    case (ForwardText b)
    then show ?thesis using police_forward [OF ForwardText]
      by (simp add: act_def to_upstream_def text_of_def data_of_def answered_def)
  next
    case (Reply reply)
    have "\<not> forwardable G shared grants v schema t" using police_forwardable Reply by fastforce
    with police_reply [OF Reply] Reply show ?thesis
      by (auto simp: act_def to_client_def text_of_def data_of_def answered_def)
  next
    case (CloseBoth n c r)
    with 1 show ?thesis by (simp add: act_def Let_def)
  qed
next
  case (2 G shared grants v b schema sent st)
  then show ?case by (cases v) (simp_all add: violation_close_def act_def Let_def)
qed (auto simp: to_upstream_def to_client_def text_of_def data_of_def)

lemma run_open:
  "ry_open (run_relay G shared grants v es st) \<Longrightarrow>
   \<exists>out. ry_client (run_relay G shared grants v es st) = ry_client st @ out
     \<and> ry_upstream (run_relay G shared grants v es st) = ry_upstream st @ passed G shared grants v (client_texts es)
     \<and> subseq (upstream_data es) out \<and> (\<forall>ts \<in> set (client_texts es). answered G shared grants v out ts)"
proof (induction es arbitrary: st)
  case Nil
  then show ?case by (simp add: client_texts_def upstream_data_def)
next
  case (Cons e es)
  let ?s = "relay_event G shared grants v e st"
  have o: "ry_open st" using Cons.prems by (auto split: if_splits)
  with Cons.prems have run: "ry_open (run_relay G shared grants v es ?s)" by simp
  then have "ry_open ?s" by (cases es) (auto split: if_splits)
  from event_open [OF this] obtain a where a: "ry_client ?s = ry_client st @ a"
    "ry_upstream ?s = ry_upstream st @ passed G shared grants v (text_of e)"
    "data_of e = (if text_of e = [] then a else [])" "\<forall>ts \<in> set (text_of e). answered G shared grants v a ts" by blast
  from Cons.IH [OF run] obtain b where b: "ry_client (run_relay G shared grants v es ?s) = ry_client ?s @ b"
    "ry_upstream (run_relay G shared grants v es ?s) = ry_upstream ?s @ passed G shared grants v (client_texts es)"
    "subseq (upstream_data es) b" "\<forall>ts \<in> set (client_texts es). answered G shared grants v b ts" by blast
  have "subseq (upstream_data (e # es)) (a @ b)"
    using b(3) a(3) by (auto simp: upstream_data_def intro: list_emb_append_mono subseq_drop_many)
  moreover have "\<forall>ts \<in> set (client_texts (e # es)). answered G shared grants v (a @ b) ts"
    using a(4) b(4) by (fastforce simp: client_texts_def answered_def)
  ultimately show ?case using a(1,2) b(1,2) o by (auto simp: client_texts_def)
qed

section \<open>Properties\<close>

text \<open>
  C13. Nothing unpoliced crosses the relay. Whatever the legs do, in whatever order and with the schema
  swapped at any moment, every frame handed to the upstream is a close frame or, unchanged, a text
  of the client that is a known control message or an operation with an id whose query parses
  against the schema of that moment and passes the pipeline with the key's grants. As long as the
  connection is up, the upstream has been handed exactly the texts that may pass, in order, every
  other text has been answered with an error message that carries its operation's id, and the
  upstream's own messages have reached the client in order and unchanged.
\<close>

theorem relay_polices:
  fixes G :: "('schema, 'r) graphql_ext" and shared :: policing and grants :: "api_access option" and v :: vocab
    and es :: "'schema relay_input list"
  defines "st \<equiv> run_relay G shared grants v es relay_start"
  shows "(\<forall>m \<in> set (ry_upstream st). (\<exists>c. m = WClose c)
      \<or> (\<exists>text schema. m = WText text \<and> (text, schema) \<in> set (client_texts es) \<and> forwardable G shared grants v schema text))
    \<and> (ry_open st \<longrightarrow>
        ry_upstream st = map (\<lambda>(t, _). WText t) (filter (\<lambda>(t, schema). forwardable G shared grants v schema t) (client_texts es))
        \<and> (\<forall>(text, schema) \<in> set (client_texts es). forwardable G shared grants v schema text
             \<or> (\<exists>m style messages. refused G shared grants v schema text m
                  \<and> WText (error_message G style (ib_id m) messages) \<in> set (ry_client st)))
        \<and> subseq (upstream_data es) (ry_client st))"
proof (intro conjI ballI impI)
  fix m assume "m \<in> set (ry_upstream st)"
  from run_upstream [OF this [unfolded st_def]] show "(\<exists>c. m = WClose c)
      \<or> (\<exists>text schema. m = WText text \<and> (text, schema) \<in> set (client_texts es) \<and> forwardable G shared grants v schema text)"
    by (auto simp: relay_start_def)
next
  assume "ry_open st"
  from run_open [OF this [unfolded st_def]] obtain out where out: "ry_client st = out"
    "ry_upstream st = passed G shared grants v (client_texts es)" "subseq (upstream_data es) out"
    "\<forall>ts \<in> set (client_texts es). answered G shared grants v out ts" unfolding st_def by (auto simp: relay_start_def)
  show "ry_upstream st = map (\<lambda>(t, _). WText t) (filter (\<lambda>(t, schema). forwardable G shared grants v schema t) (client_texts es))"
    by (rule out(2))
  show "subseq (upstream_data es) (ry_client st)" unfolding out(1) by (rule out(3))
  fix ts assume "ts \<in> set (client_texts es)"
  with out(4) show "case ts of (text, schema) \<Rightarrow> forwardable G shared grants v schema text
      \<or> (\<exists>m style messages. refused G shared grants v schema text m
           \<and> WText (error_message G style (ib_id m) messages) \<in> set (ry_client st))"
    unfolding out(1) answered_def by blast
qed

text \<open>A codec for the witness: the text is the kind of the message, an operation's query is its kind too.\<close>

definition sample_graphql :: "(nat, string) graphql_ext" where
  "sample_graphql =
     \<lparr>gx_document = (\<lambda>schema q. if schema = 0 then Inr sample_document else Inl [''unknown field'']),
      gx_operation = (\<lambda>doc name. doc_anonymous doc),
      gx_inbound = (\<lambda>t. Some \<lparr>ib_kind = t, ib_id = Some (JString ''1''), ib_payload = Some (JObject [(''query'', JString t)])\<rparr>),
      gx_envelope = (\<lambda>b. Inr \<lparr>ev_query = Some b, ev_operation_name = None, ev_variables = None\<rparr>),
      gx_from_str = (\<lambda>t. Inr (JString t)),
      gx_print = (\<lambda>_. ''json''),
      gx_captures = (\<lambda>p t. if p = t then Some (\<lambda>_. None) else None)\<rparr>"

definition sample_events :: "nat relay_input list" where
  "sample_events =
     [FromClient (LegMessage (WText ''ping'')) 0 True, FromClient (LegMessage (WText ''subscribe'')) 0 True,
      FromUpstream (LegMessage (WText ''data'')) True, FromClient (LegMessage (WText ''subscribe'')) 2 True]"

theorem relay_polices_witness:
  "let P = \<lparr>pg_introspection_enabled = True, pg_max_query_depth = None\<rparr>; st = run_relay sample_graphql P None Modern sample_events relay_start
   in ry_open st \<and> ry_upstream st = [WText ''ping'', WText ''subscribe''] \<and> ry_client st = [WText ''data'', WText ''json'']
      \<and> \<not> forwardable sample_graphql P None Modern 2 ''subscribe'' \<and> forwardable sample_graphql P None Modern 0 ''subscribe''"
proof -
  let ?P = "\<lparr>pg_introspection_enabled = True, pg_max_query_depth = None\<rparr>"
  let ?st = "run_relay sample_graphql ?P None Modern sample_events relay_start"
  have "check_document ?P None sample_document = Inr ()"
    by (simp add: check_document_def introspection_allowed_def effective_depth_limit_def)
  moreover have "trim ''subscribe'' \<noteq> []" by (rule trim_keeps_graphic [of "CHR ''s''"]) (simp, code_simp)
  ultimately have p: "police_client_text sample_graphql ?P 0 None Modern ''subscribe'' = ForwardText True"
    "police_client_text sample_graphql ?P 2 None Modern ''subscribe'' = Reply ''json''"
    "police_client_text sample_graphql ?P 0 None Modern ''ping'' = ForwardText False"
    by (simp_all add: police_client_text_def police_operation_def payload_query_def sample_graphql_def known_kind_def modern_kind_def error_message_def)
  have run: "ry_open ?st" "ry_client ?st = [WText ''data'', WText ''json'']" "ry_upstream ?st = [WText ''ping'', WText ''subscribe'']"
    by (simp_all add: sample_events_def relay_start_def p act_def to_upstream_def to_client_def)
  have texts: "client_texts sample_events = [(''ping'', 0), (''subscribe'', 0), (''subscribe'', 2)]" by code_simp
  have no: "\<not> forwardable sample_graphql ?P None Modern 2 ''subscribe''"
    by (auto simp: forwardable_def policed_query_def sample_graphql_def)
  have "ry_upstream ?st = map (\<lambda>(t, _). WText t) (filter (\<lambda>(t, schema). forwardable sample_graphql ?P None Modern schema t) (client_texts sample_events))"
    using relay_polices [of sample_graphql ?P None Modern sample_events] run(1) by simp
  with run(3) no have "forwardable sample_graphql ?P None Modern 0 ''subscribe''"
    unfolding texts by (auto split: if_splits)
  with run no show ?thesis by (simp add: Let_def)
qed

end
