(* ===== verification/Graphql.thy ===== *)
theory Graphql
  imports Chain Graphql_Ws
begin

text \<open>
  The GraphQL layer, \<open>g2-middleware/src/graphql.rs\<close>, and its response cache, \<open>graphql_cache.rs\<close>:
  pulling the query out of a request, the playground, persisted operations, policing, the cache
  and the request that goes on. The document parser, the JSON codec and the capture groups of a
  regular expression are parameters, as is the engine that executes an operation in the gateway
  (\<open>udg\<close> and \<open>supergraph\<close> modes). The schema a request sees is the one in force when it arrives.
\<close>

section \<open>Percent decoding\<close>

text \<open>\<open>String::from_utf8_lossy\<close>: each maximal ill-formed sequence becomes U+FFFD.\<close>

definition replacement :: "nat list" where
  "replacement = [0xEF, 0xBF, 0xBD]"

definition second_of_three :: "nat \<Rightarrow> nat \<Rightarrow> bool" where
  "second_of_three a b \<longleftrightarrow> is_cont b \<and> (a = 0xE0 \<longrightarrow> 0xA0 \<le> b) \<and> (a = 0xED \<longrightarrow> b \<le> 0x9F)"

definition second_of_four :: "nat \<Rightarrow> nat \<Rightarrow> bool" where
  "second_of_four a b \<longleftrightarrow> is_cont b \<and> (a = 0xF0 \<longrightarrow> 0x90 \<le> b) \<and> (a = 0xF4 \<longrightarrow> b \<le> 0x8F)"

fun utf8_lossy :: "nat list \<Rightarrow> nat list" where
  "utf8_lossy [] = []"
| "utf8_lossy (a # bs) =
     (if a < 0x80 then a # utf8_lossy bs
      else if 0xC2 \<le> a \<and> a \<le> 0xDF then
        (case bs of
           [] \<Rightarrow> replacement
         | b # cs \<Rightarrow> if is_cont b then a # b # utf8_lossy cs else replacement @ utf8_lossy bs)
      else if 0xE0 \<le> a \<and> a \<le> 0xEF then
        (case bs of
           [] \<Rightarrow> replacement
         | b # cs \<Rightarrow>
             if second_of_three a b then
               (case cs of
                  [] \<Rightarrow> replacement
                | c # ds \<Rightarrow> if is_cont c then a # b # c # utf8_lossy ds else replacement @ utf8_lossy cs)
             else replacement @ utf8_lossy bs)
      else if 0xF0 \<le> a \<and> a \<le> 0xF4 then
        (case bs of
           [] \<Rightarrow> replacement
         | b # cs \<Rightarrow>
             if second_of_four a b then
               (case cs of
                  [] \<Rightarrow> replacement
                | c # ds \<Rightarrow>
                    if is_cont c then
                      (case ds of
                         [] \<Rightarrow> replacement
                       | d # es \<Rightarrow> if is_cont d then a # b # c # d # utf8_lossy es else replacement @ utf8_lossy ds)
                    else replacement @ utf8_lossy cs)
             else replacement @ utf8_lossy bs)
      else replacement @ utf8_lossy bs)"

definition from_utf8_lossy :: "string \<Rightarrow> string" where
  "from_utf8_lossy bs = map char_of (utf8_lossy (map byte bs))"

text \<open>\<open>char::to_digit(16)\<close> of a byte.\<close>

definition to_digit16 :: "char \<Rightarrow> nat option" where
  "to_digit16 c =
     (let b = byte c
      in if 48 \<le> b \<and> b \<le> 57 then Some (b - 48)
         else if 97 \<le> b \<and> b \<le> 102 then Some (b - 87)
         else if 65 \<le> b \<and> b \<le> 70 then Some (b - 55)
         else None)"

fun percent_bytes :: "bool \<Rightarrow> string \<Rightarrow> string" where
  "percent_bytes plus_as_space [] = []"
| "percent_bytes plus_as_space (c # cs) =
     (if c = CHR ''+'' \<and> plus_as_space then CHR '' '' # percent_bytes plus_as_space cs
      else if c = CHR ''%'' then
        (case cs of
           a # b # rest \<Rightarrow>
             (case (to_digit16 a, to_digit16 b) of
                (Some hi, Some lo) \<Rightarrow> char_of (hi * 16 + lo) # percent_bytes plus_as_space rest
              | _ \<Rightarrow> CHR ''%'' # percent_bytes plus_as_space cs)
         | _ \<Rightarrow> CHR ''%'' # percent_bytes plus_as_space cs)
      else c # percent_bytes plus_as_space cs)"

definition percent_decode_lossy :: "string \<Rightarrow> bool \<Rightarrow> string" where
  "percent_decode_lossy s plus_as_space = from_utf8_lossy (percent_bytes plus_as_space s)"

fun first_pair :: "string list \<Rightarrow> string \<Rightarrow> string option" where
  "first_pair [] name = None"
| "first_pair (pair # pairs) name =
     (case (case split_once (CHR ''='') pair of Some kv \<Rightarrow> kv | None \<Rightarrow> (pair, [])) of
        (key, v) \<Rightarrow> if key = name then Some (percent_decode_lossy v True) else first_pair pairs name)"

definition query_parameter :: "string \<Rightarrow> string \<Rightarrow> string option" where
  "query_parameter raw_query name = first_pair (split_on (CHR ''&'') raw_query) name"

section \<open>The compiled configuration\<close>

record 'r compiled_persisted =
  cp_method :: string
  cp_regex :: 'r
  cp_query :: string
  cp_operation_name :: "string option"
  cp_variables :: "json option"

record 'schema schema_state =
  ss_sdl :: string
  ss_sdl_hash :: string
  ss_schema :: 'schema
  ss_persisted_docs :: "document list"

definition schema_state_new :: "(string \<Rightarrow> string) \<Rightarrow> string \<Rightarrow> 'schema \<Rightarrow> document list \<Rightarrow> 'schema schema_state" where
  "schema_state_new sha256 sdl schema persisted_docs =
     \<lparr>ss_sdl = sdl, ss_sdl_hash = hash_key sha256 sdl, ss_schema = schema, ss_persisted_docs = persisted_docs\<rparr>"

record 'r graphql_shared =
  gs_api_id :: string
  gs_policing :: policing
  gs_playground :: "(string \<times> string) option"
  gs_persisted :: "'r compiled_persisted list"
  gs_graphql_uri :: string
  gs_max_body_bytes :: nat
  gs_subscriptions_enabled :: bool
  gs_cache :: "cache_state option"

section \<open>The cache\<close>

definition graphql_cache_new :: "cache_config \<Rightarrow> string \<Rightarrow> string \<Rightarrow> cache_state" where
  "graphql_cache_new cfg scope org_id =
     \<lparr>cst_key_prefix = response_cache_key_prefix org_id (scope @ '':graphql''), cst_ttl = from_secs (ca_ttl_secs cfg),
      cst_max_body_bytes = ca_max_body_bytes cfg\<rparr>"

definition key_text :: "string \<Rightarrow> string option \<Rightarrow> string \<Rightarrow> string \<Rightarrow> string" where
  "key_text sdl_hash operation_name query variables =
     sdl_hash @ ''\<newline>'' @ (case operation_name of Some n \<Rightarrow> n | None \<Rightarrow> []) @ ''\<newline>'' @ query @ ''\<newline>'' @ variables"

definition graphql_cache_key :: "(string \<Rightarrow> string) \<Rightarrow> cache_state \<Rightarrow> string \<Rightarrow> string option \<Rightarrow> string \<Rightarrow> string \<Rightarrow> string" where
  "graphql_cache_key sha256 cache sdl_hash operation_name query variables =
     cst_key_prefix cache @ hash_key sha256 (key_text sdl_hash operation_name query variables)"

definition graphql_lookup :: "'h http_ext \<Rightarrow> 'h cache_ext \<Rightarrow> 's storage_ops \<Rightarrow> instant \<Rightarrow> string \<Rightarrow> 's \<Rightarrow>
    (unit, 'h response option) res \<times> 's" where
  "graphql_lookup X K S now key s =
     (case st_get S s now key of
        (Ok (Some stored), s1) \<Rightarrow> (Ok (decode_entry X K stored), s1)
      | (Ok None, s1) \<Rightarrow> (Ok None, s1)
      | (Err _, s1) \<Rightarrow> (Ok None, s1)
      | (Panic, s1) \<Rightarrow> (Panic, s1))"

definition graphql_record :: "'h http_ext \<Rightarrow> 'h cache_ext \<Rightarrow> cache_state \<Rightarrow> string \<Rightarrow> bool \<Rightarrow> 'h response \<Rightarrow> recording_body option" where
  "graphql_record X K cache key eager resp =
     (if \<not> (200 \<le> rs_status resp \<and> rs_status resp < 300) \<or> hm_contains X (rs_headers resp) ''set-cookie'' then None
      else Some \<lparr>rb_frames = bd_frames (rs_body resp), rb_error = bd_error (rs_body resp), rb_eager = eager,
                 rb_buf = [], rb_max = cst_max_body_bytes cache,
                 rb_write = Some \<lparr>wr_key = key, wr_ttl = cst_ttl cache, wr_status = rs_status resp,
                   wr_headers = kx_iter K (rs_headers resp), wr_policy = GraphQlSuccess\<rparr>\<rparr>)"

text \<open>\<open>serde_json::to_value\<close> of a parsed value: objects come out ordered by key.\<close>

fun to_value :: "json \<Rightarrow> json" where
  "to_value (JArray xs) = JArray (map to_value xs)"
| "to_value (JObject members) = JObject (sort_key fst (map (\<lambda>(k, v). (k, to_value v)) members))"
| "to_value v = v"

datatype raw_variables = Parsed json | VarText string

definition canonical_variables :: "('schema, 'r) graphql_ext \<Rightarrow> raw_variables option \<Rightarrow> string" where
  "canonical_variables G raw =
     (case raw of
        None \<Rightarrow> []
      | Some v \<Rightarrow>
          (let canonical = (case v of
                 Parsed value \<Rightarrow> gx_print G (to_value value)
               | VarText t \<Rightarrow> (case gx_from_str G t of Inr value \<Rightarrow> gx_print G (to_value value) | Inl _ \<Rightarrow> t))
           in if canonical = ''null'' \<or> canonical = ''{}'' then [] else canonical))"

definition canonical_json_variables :: "('schema, 'r) graphql_ext \<Rightarrow> json option \<Rightarrow> string" where
  "canonical_json_variables G v =
     (case v of
        None \<Rightarrow> []
      | Some JNull \<Rightarrow> []
      | Some value \<Rightarrow> (let canonical = gx_print G value in if canonical = ''{}'' then [] else canonical))"

section \<open>Requests\<close>

definition graphql_errors :: "'h http_ext \<Rightarrow> ('schema, 'r) graphql_ext \<Rightarrow> nat \<Rightarrow> string list \<Rightarrow> 'h response" where
  "graphql_errors X G status messages =
     (let errors = map (\<lambda>m. JObject [(''message'', JString m)]) messages;
          resp = response_new X (body_full (gx_print G (JObject [(''errors'', JArray errors)])))
      in resp\<lparr>rs_status := status, rs_headers := hm_insert X (rs_headers resp) ''content-type'' ''application/json''\<rparr>)"

definition playground_page :: "'h http_ext \<Rightarrow> string \<Rightarrow> 'h response" where
  "playground_page X html =
     (let resp = response_new X (body_full html)
      in resp\<lparr>rs_headers := hm_insert X (rs_headers resp) ''content-type'' ''text/html; charset=utf-8''\<rparr>)"

record 'h extracted_query =
  eq_query :: string
  eq_operation_name :: "string option"
  eq_variables :: "raw_variables option"
  eq_req :: "'h request"

definition body_read_error :: "'h http_ext \<Rightarrow> ('schema, 'r) graphql_ext \<Rightarrow> client_error \<Rightarrow> 'h response" where
  "body_read_error X G err =
     (if is_over_limit err then json_error X 413 ''request body too large''
      else graphql_errors X G 400 [''failed to read the request body''])"

definition filter_option :: "('a \<Rightarrow> bool) \<Rightarrow> 'a option \<Rightarrow> 'a option" where
  "filter_option P x = Option.bind x (\<lambda>v. if P v then Some v else None)"

definition extract_query :: "'h http_ext \<Rightarrow> ('schema, 'r) graphql_ext \<Rightarrow> 'r graphql_shared \<Rightarrow> 'h request \<Rightarrow>
    'h response + 'h extracted_query" where
  "extract_query X G shared req =
     (let missing = Inl (graphql_errors X G 400 [''the request is missing a GraphQL query''])
      in if rq_method req = ''GET'' then
           (case filter_option (\<lambda>q. trim q \<noteq> []) (Option.bind (rq_query req) (\<lambda>raw. query_parameter raw ''query'')) of
              Some query \<Rightarrow>
                Inr \<lparr>eq_query = query,
                     eq_operation_name = filter_option (\<lambda>n. n \<noteq> []) (Option.bind (rq_query req) (\<lambda>raw. query_parameter raw ''operationName'')),
                     eq_variables = map_option VarText (filter_option (\<lambda>v. trim v \<noteq> [])
                       (Option.bind (rq_query req) (\<lambda>raw. query_parameter raw ''variables''))),
                     eq_req = req\<rparr>
            | None \<Rightarrow> missing)
         else if rq_method req = ''POST'' then
           (case collect_limited (gs_max_body_bytes shared) (bd_frames (rq_body req)) (bd_error (rq_body req)) of
              Inl err \<Rightarrow> Inl (body_read_error X G err)
            | Inr (bytes, _) \<Rightarrow>
                (case gx_envelope G bytes of
                   Inl e \<Rightarrow> Inl (graphql_errors X G 400 [''the request body is not a valid GraphQL request: '' @ e])
                 | Inr env \<Rightarrow>
                     (case filter_option (\<lambda>q. trim q \<noteq> []) (ev_query env) of
                        Some query \<Rightarrow>
                          Inr \<lparr>eq_query = query, eq_operation_name = filter_option (\<lambda>n. n \<noteq> []) (ev_operation_name env),
                               eq_variables = map_option Parsed (ev_variables env), eq_req = req\<lparr>rq_body := body_full bytes\<rparr>\<rparr>
                      | None \<Rightarrow> missing)))
         else Inl (json_error X 405 ''GraphQL requests must use GET or POST''))"

definition parse_raw_variables :: "'h http_ext \<Rightarrow> ('schema, 'r) graphql_ext \<Rightarrow> raw_variables option \<Rightarrow>
    'h response + (string \<times> json) list" where
  "parse_raw_variables X G raw =
     (case raw of
        None \<Rightarrow> Inr []
      | Some v \<Rightarrow>
          (case (case v of Parsed value \<Rightarrow> Inr value | VarText t \<Rightarrow> gx_from_str G t) of
             Inl e \<Rightarrow> Inl (graphql_errors X G 400 [''`variables` is not valid JSON: '' @ e])
           | Inr JNull \<Rightarrow> Inr []
           | Inr (JObject members) \<Rightarrow> Inr members
           | Inr _ \<Rightarrow> Inl (graphql_errors X G 400 [''`variables` must be a JSON object''])))"

definition graphql_enforce :: "'h http_ext \<Rightarrow> ('schema, 'r) graphql_ext \<Rightarrow> 'r graphql_shared \<Rightarrow> api_access option \<Rightarrow> document \<Rightarrow>
    'h response option" where
  "graphql_enforce X G shared grants doc =
     (case check_document (gs_policing shared) grants doc of
        Inr _ \<Rightarrow> None
      | Inl (ForbiddenField ty field) \<Rightarrow> Some (graphql_errors X G 400 [violation_message (ForbiddenField ty field)])
      | Inl v \<Rightarrow> Some (json_error X 403 (violation_message v)))"

section \<open>Persisted operations\<close>

fun substitute_variables :: "'h http_ext \<Rightarrow> json \<Rightarrow> (string \<Rightarrow> string option) \<Rightarrow> 'h \<Rightarrow> json" where
  "substitute_variables X (JString t) caps headers =
     (case strip_prefix ''$path.'' t of
        Some name \<Rightarrow> (case caps name of Some m \<Rightarrow> JString (percent_decode_lossy m False) | None \<Rightarrow> JNull)
      | None \<Rightarrow>
          (case strip_prefix ''$header.'' t of
             Some name \<Rightarrow> (case Option.bind (hm_get X headers (to_ascii_lowercase name)) (hv_to_str X) of Some v \<Rightarrow> JString v | None \<Rightarrow> JNull)
           | None \<Rightarrow> JString t))"
| "substitute_variables X (JArray items) caps headers = JArray (map (\<lambda>v. substitute_variables X v caps headers) items)"
| "substitute_variables X (JObject members) caps headers =
     JObject (map (\<lambda>(k, v). (k, substitute_variables X v caps headers)) members)"
| "substitute_variables X other caps headers = other"

definition rewrite_persisted :: "'h http_ext \<Rightarrow> ('schema, 'r) graphql_ext \<Rightarrow> 'r graphql_shared \<Rightarrow> 'r compiled_persisted \<Rightarrow>
    json option \<Rightarrow> 'h request \<Rightarrow> 'h request" where
  "rewrite_persisted X G shared p variables req =
     (let bytes = gx_print G (JObject
            ((case cp_operation_name p of Some name \<Rightarrow> [(''operationName'', JString name)] | None \<Rightarrow> [])
             @ [(''query'', JString (cp_query p))]
             @ (case variables of Some v \<Rightarrow> [(''variables'', v)] | None \<Rightarrow> [])));
          h1 = hm_remove X (rq_headers req) ''transfer-encoding'';
          h2 = hm_insert X h1 ''content-type'' ''application/json'';
          h3 = hm_insert X h2 ''content-length'' (show_nat (length bytes))
      in req\<lparr>rq_method := ''POST'', rq_path := gs_graphql_uri shared, rq_query := None, rq_headers := h3,
             rq_body := body_full bytes\<rparr>)"

fun find_persisted :: "('schema, 'r) graphql_ext \<Rightarrow> 'h request \<Rightarrow> 'r compiled_persisted list \<Rightarrow> nat \<Rightarrow>
    (nat \<times> 'r compiled_persisted \<times> (string \<Rightarrow> string option)) option" where
  "find_persisted G req [] index = None"
| "find_persisted G req (p # ps) index =
     (if cp_method p \<noteq> rq_method req then find_persisted G req ps (index + 1)
      else case gx_captures G (cp_regex p) (rq_path req) of
             None \<Rightarrow> find_persisted G req ps (index + 1)
           | Some caps \<Rightarrow> Some (index, p, caps))"

section \<open>The layer\<close>

definition key_grants :: "'r graphql_shared \<Rightarrow> 'h request \<Rightarrow> api_access option" where
  "key_grants shared req = Option.bind (rq_session req) (\<lambda>s. map_of (ks_access (sc_session s)) (gs_api_id shared))"

definition is_query :: "('schema, 'r) graphql_ext \<Rightarrow> document \<Rightarrow> string option \<Rightarrow> bool" where
  "is_query G doc name \<longleftrightarrow> (case gx_operation G doc name of Some op \<Rightarrow> op_type op = OpQuery | None \<Rightarrow> False)"

definition is_subscription :: "('schema, 'r) graphql_ext \<Rightarrow> document \<Rightarrow> string option \<Rightarrow> bool" where
  "is_subscription G doc name \<longleftrightarrow> (case gx_operation G doc name of Some op \<Rightarrow> op_type op = OpSubscription | None \<Rightarrow> False)"

text \<open>The lookup before, and \<open>with_cache\<close> after, the response is produced.\<close>

definition through_cache :: "'h http_ext \<Rightarrow> 'h cache_ext \<Rightarrow> 's storage_ops \<Rightarrow> (('s, 'e) cache_world \<Rightarrow> instant) \<Rightarrow> ('h response \<Rightarrow> bool) \<Rightarrow>
    (cache_state \<times> string) option \<Rightarrow> (('s, 'e) cache_world \<Rightarrow> 'h response option \<times> ('s, 'e) cache_world) \<Rightarrow>
    ('s, 'e) cache_world \<Rightarrow> 'h response option \<times> ('s, 'e) cache_world" where
  "through_cache X K S clock eager keyed produce w =
     (case keyed of
        None \<Rightarrow> produce w
      | Some (cache, key) \<Rightarrow>
          (case graphql_lookup X K S (clock w) key (cw_store w) of
             (Panic, s1) \<Rightarrow> (None, w\<lparr>cw_store := s1\<rparr>)
           | (Ok (Some hit), s1) \<Rightarrow> (Some hit, w\<lparr>cw_store := s1\<rparr>)
           | (_, s1) \<Rightarrow>
               (case produce (w\<lparr>cw_store := s1\<rparr>) of
                  (None, w2) \<Rightarrow> (None, w2)
                | (Some resp, w2) \<Rightarrow>
                    (Some resp, w2\<lparr>cw_tees := cw_tees w2 @
                       (case graphql_record X K cache key (eager resp) resp of Some tee \<Rightarrow> [tee] | None \<Rightarrow> [])\<rparr>))))"

type_synonym ('schema, 'h, 'w) graphql_engine =
  "'schema schema_state \<Rightarrow> document \<Rightarrow> string option \<Rightarrow> (string \<times> json) list \<Rightarrow> ('h, 'w) service"

definition object_members :: "json option \<Rightarrow> (string \<times> json) list" where
  "object_members v = (case v of Some (JObject members) \<Rightarrow> members | _ \<Rightarrow> [])"

definition persisted_call :: "'h http_ext \<Rightarrow> 'h cache_ext \<Rightarrow> ('schema, 'r) graphql_ext \<Rightarrow> 's storage_ops \<Rightarrow> (string \<Rightarrow> string) \<Rightarrow>
    (('s, 'e) cache_world \<Rightarrow> instant) \<Rightarrow> ('h response \<Rightarrow> bool) \<Rightarrow> ('schema, 'h, ('s, 'e) cache_world) graphql_engine option \<Rightarrow>
    'r graphql_shared \<Rightarrow> 'schema schema_state \<Rightarrow> nat \<Rightarrow> 'r compiled_persisted \<Rightarrow> (string \<Rightarrow> string option) \<Rightarrow>
    ('h, ('s, 'e) cache_world) service \<Rightarrow> ('h, ('s, 'e) cache_world) service" where
  "persisted_call X K G S sha256 clock eager engine shared state index p caps inner req w =
     (if \<not> index < length (ss_persisted_docs state) then (None, w)
      else
        (let doc = ss_persisted_docs state ! index
         in case graphql_enforce X G shared (key_grants shared req) doc of
              Some resp \<Rightarrow> (Some resp, w)
            | None \<Rightarrow>
                (let variables = map_option (\<lambda>t. substitute_variables X t caps (rq_headers req)) (cp_variables p);
                     keyed = (case gs_cache shared of
                        Some cache \<Rightarrow>
                          (if is_query G doc (cp_operation_name p)
                           then Some (cache, graphql_cache_key sha256 cache (ss_sdl_hash state) (cp_operation_name p) (cp_query p)
                                       (canonical_json_variables G variables))
                           else None)
                      | None \<Rightarrow> None)
                 in through_cache X K S clock eager keyed
                      (\<lambda>w1. case engine of
                         Some execute \<Rightarrow> execute state doc (cp_operation_name p) (object_members variables) req w1
                       | None \<Rightarrow> inner (rewrite_persisted X G shared p variables req) w1) w)))"

definition plain_call :: "'h http_ext \<Rightarrow> 'h cache_ext \<Rightarrow> ('schema, 'r) graphql_ext \<Rightarrow> 's storage_ops \<Rightarrow> (string \<Rightarrow> string) \<Rightarrow>
    (('s, 'e) cache_world \<Rightarrow> instant) \<Rightarrow> ('h response \<Rightarrow> bool) \<Rightarrow> ('schema, 'h, ('s, 'e) cache_world) graphql_engine option \<Rightarrow>
    'r graphql_shared \<Rightarrow> 'schema schema_state \<Rightarrow> ('h, ('s, 'e) cache_world) service \<Rightarrow> ('h, ('s, 'e) cache_world) service" where
  "plain_call X K G S sha256 clock eager engine shared state inner req w =
     (case extract_query X G shared req of
        Inl resp \<Rightarrow> (Some resp, w)
      | Inr e \<Rightarrow>
          (case gx_document G (ss_schema state) (eq_query e) of
             Inl messages \<Rightarrow> (Some (graphql_errors X G 400 messages), w)
           | Inr doc \<Rightarrow>
               if is_subscription G doc (eq_operation_name e)
               then (Some (graphql_errors X G 400 [''GraphQL subscriptions require a WebSocket connection'']), w)
               else case graphql_enforce X G shared (key_grants shared req) doc of
                      Some resp \<Rightarrow> (Some resp, w)
                    | None \<Rightarrow>
                        (let keyed = (case gs_cache shared of
                               Some cache \<Rightarrow>
                                 (if is_query G doc (eq_operation_name e)
                                  then Some (cache, graphql_cache_key sha256 cache (ss_sdl_hash state) (eq_operation_name e) (eq_query e)
                                              (canonical_variables G (eq_variables e)))
                                  else None)
                             | None \<Rightarrow> None)
                         in through_cache X K S clock eager keyed
                              (\<lambda>w1. case engine of
                                 Some execute \<Rightarrow>
                                   (case parse_raw_variables X G (eq_variables e) of
                                      Inl resp \<Rightarrow> (Some resp, w1)
                                    | Inr vars \<Rightarrow> execute state doc (eq_operation_name e) vars (eq_req e) w1)
                               | None \<Rightarrow> inner (eq_req e) w1) w)))"

definition on_playground :: "'r graphql_shared \<Rightarrow> 'h request \<Rightarrow> bool" where
  "on_playground shared req \<longleftrightarrow>
     (case gs_playground shared of Some (path, _) \<Rightarrow> rq_method req = ''GET'' \<and> rq_path req = path | None \<Rightarrow> False)"

definition graphql_layer :: "'h http_ext \<Rightarrow> 'h cache_ext \<Rightarrow> ('schema, 'r) graphql_ext \<Rightarrow> 's storage_ops \<Rightarrow> (string \<Rightarrow> string) \<Rightarrow>
    (('s, 'e) cache_world \<Rightarrow> instant) \<Rightarrow> ('h response \<Rightarrow> bool) \<Rightarrow> ('schema, 'h, ('s, 'e) cache_world) graphql_engine option \<Rightarrow>
    (('s, 'e) cache_world \<Rightarrow> 'schema schema_state) \<Rightarrow> 'r graphql_shared \<Rightarrow> ('h, ('s, 'e) cache_world) layer" where
  "graphql_layer X K G S sha256 clock eager engine load_state shared inner req w =
     (let state = load_state w
      in if on_playground shared req
         then (Some (playground_page X (snd (the (gs_playground shared)))), w)
         else if is_websocket_handshake X req then
           (if \<not> gs_subscriptions_enabled shared
            then (Some (json_error X 400 ''GraphQL subscriptions are not enabled for this API''), w)
            else if \<not> offers_known_protocol X (rq_headers req)
            then (Some (json_error X 400 ''GraphQL subscriptions require the graphql-transport-ws or graphql-ws WebSocket subprotocol''), w)
            else inner (req\<lparr>rq_tunnel := Some (tunnel_accepts X)\<rparr>) w)
         else case find_persisted G req (gs_persisted shared) 0 of
                Some (index, p, caps) \<Rightarrow> persisted_call X K G S sha256 clock eager engine shared state index p caps inner req w
              | None \<Rightarrow> plain_call X K G S sha256 clock eager engine shared state inner req w)"

section \<open>Lemmas\<close>

text \<open>Decoding leaves plain ASCII text alone.\<close>

lemma utf8_lossy_ascii: "\<forall>b \<in> set bs. b < 0x80 \<Longrightarrow> utf8_lossy bs = bs"
  by (induction bs) simp_all

lemma percent_bytes_plain: "CHR ''%'' \<notin> set t \<Longrightarrow> \<not> p \<or> CHR ''+'' \<notin> set t \<Longrightarrow> percent_bytes p t = t"
  by (induction t) auto

lemma percent_decode_lossy_plain:
  assumes "CHR ''%'' \<notin> set t" and "\<not> p \<or> CHR ''+'' \<notin> set t" and "\<forall>c \<in> set t. byte c < 0x80"
  shows "percent_decode_lossy t p = t"
proof -
  have "char_of (byte c) = c" for c by (simp add: byte_def)
  then show ?thesis
    using assms(3) by (simp add: percent_decode_lossy_def from_utf8_lossy_def percent_bytes_plain [OF assms(1,2)] utf8_lossy_ascii map_idI)
qed

text \<open>The requests the layer may pass on.\<close>

definition graphql_policed :: "'h http_ext \<Rightarrow> ('schema, 'r) graphql_ext \<Rightarrow> 'r graphql_shared \<Rightarrow> 'schema schema_state \<Rightarrow>
    'h request \<Rightarrow> 'h request \<Rightarrow> bool" where
  "graphql_policed X G shared state req q \<longleftrightarrow>
     (if is_websocket_handshake X req
      then gs_subscriptions_enabled shared \<and> offers_known_protocol X (rq_headers req) \<and> q = req\<lparr>rq_tunnel := Some (tunnel_accepts X)\<rparr>
      else case find_persisted G req (gs_persisted shared) 0 of
             Some (index, p, caps) \<Rightarrow>
               index < length (ss_persisted_docs state)
               \<and> check_document (gs_policing shared) (key_grants shared req) (ss_persisted_docs state ! index) = Inr ()
               \<and> q = rewrite_persisted X G shared p
                       (map_option (\<lambda>t. substitute_variables X t caps (rq_headers req)) (cp_variables p)) req
           | None \<Rightarrow>
               (\<exists>e doc. extract_query X G shared req = Inr e \<and> gx_document G (ss_schema state) (eq_query e) = Inr doc
                  \<and> \<not> is_subscription G doc (eq_operation_name e)
                  \<and> check_document (gs_policing shared) (key_grants shared req) doc = Inr () \<and> q = eq_req e))"

lemma graphql_enforce_None: "graphql_enforce X G shared grants doc = None \<longleftrightarrow> check_document (gs_policing shared) grants doc = Inr ()"
  by (auto simp: graphql_enforce_def split: sum.splits violation.splits)

lemma extract_query_req:
  "extract_query X G shared req = Inr e \<Longrightarrow> \<exists>b. eq_req e = req\<lparr>rq_body := b\<rparr>"
proof -
  have "req = req\<lparr>rq_body := rq_body req\<rparr>" by simp
  then have r: "\<exists>b. req = req\<lparr>rq_body := b\<rparr>" by blast
  assume "extract_query X G shared req = Inr e"
  then consider "eq_req e = req" | bytes where "eq_req e = req\<lparr>rq_body := body_full bytes\<rparr>"
    by (auto simp: extract_query_def Let_def split: if_splits option.splits sum.splits prod.splits)
  then show ?thesis using r by cases auto
qed

text \<open>The layer consults the service below it only for policed requests, and never in the modes that execute in the gateway.\<close>

interpretation graphql_gate: gate "graphql_layer X K G S sha256 clock eager engine load_state shared"
    "\<lambda>p q. graphql_policed X G shared (load_state (snd p)) (fst p) (fst q)"
  for X :: "'h http_ext" and K G S sha256 clock eager engine shared and load_state :: "('s, 'e) cache_world \<Rightarrow> 'schema schema_state"
proof unfold_locales
  fix req and w :: "('s, 'e) cache_world" and inner inner' :: "('h, ('s, 'e) cache_world) service"
  assume a: "\<And>q v. graphql_policed X G shared (load_state (snd (req, w))) (fst (req, w)) (fst (q, v)) \<Longrightarrow> inner q v = inner' q v"
  let ?state = "load_state w"
  have a': "graphql_policed X G shared ?state req q \<Longrightarrow> inner q = inner' q" for q using a by fastforce
  show "graphql_layer X K G S sha256 clock eager engine load_state shared inner req w
      = graphql_layer X K G S sha256 clock eager engine load_state shared inner' req w"
  proof (cases "is_websocket_handshake X req")
    case True
    with a' show ?thesis by (auto simp: graphql_layer_def Let_def graphql_policed_def)
  next
    case http: False
    show ?thesis
    proof (cases "find_persisted G req (gs_persisted shared) 0")
      case None
      have "plain_call X K G S sha256 clock eager engine shared ?state inner req w
          = plain_call X K G S sha256 clock eager engine shared ?state inner' req w"
        using a' http None by (cases engine) (auto simp: plain_call_def graphql_policed_def graphql_enforce_None [of X G, symmetric] split: sum.splits option.splits)
      with None http show ?thesis by (simp add: graphql_layer_def Let_def)
    next
      case (Some x)
      obtain index p caps where x: "x = (index, p, caps)" by (cases x)
      have "persisted_call X K G S sha256 clock eager engine shared ?state index p caps inner req w
          = persisted_call X K G S sha256 clock eager engine shared ?state index p caps inner' req w"
        using a' http Some x by (cases engine) (auto simp: persisted_call_def graphql_policed_def graphql_enforce_None [of X G, symmetric] Let_def split: option.splits)
      with Some http x show ?thesis by (simp add: graphql_layer_def Let_def)
    qed
  qed
qed

lemma policed_standing: "graphql_policed X G shared state req q \<Longrightarrow> same_standing (req, w) (q, v)"
  by (auto simp: graphql_policed_def same_standing_def same_origin_def rewrite_persisted_def Let_def
      split: if_splits option.splits dest!: extract_query_req)

text \<open>The contract the gateway relies on of its GraphQL layer.\<close>

lemma graphql_standing: "gate (graphql_layer X K G S sha256 clock eager engine load_state shared) same_standing"
  by (rule gate.weaken [OF graphql_gate.gate_axioms]) (auto simp: policed_standing)

lemma unpoliced_untouched:
  assumes "\<forall>q. \<not> graphql_policed X G shared (load_state w) req q"
  shows "\<exists>r. \<forall>S engine inner. graphql_layer X K G S sha clock eager engine load_state shared inner req w = (r, w)"
proof (cases "is_websocket_handshake X req")
  case True
  with assms show ?thesis by (auto simp: graphql_layer_def Let_def graphql_policed_def)
next
  case http: False
  show ?thesis
  proof (cases "find_persisted G req (gs_persisted shared) 0")
    case (Some x)
    obtain index p caps where x: "x = (index, p, caps)" by (cases x)
    have "\<exists>r. \<forall>S engine inner. persisted_call X K G S sha clock eager engine shared (load_state w) index p caps inner req w = (r, w)"
    proof (cases "index < length (ss_persisted_docs (load_state w))")
      case True
      with assms http Some x obtain resp where
        "graphql_enforce X G shared (key_grants shared req) (ss_persisted_docs (load_state w) ! index) = Some resp"
        unfolding graphql_policed_def by (auto simp: graphql_enforce_None [of X G, symmetric])
      with True show ?thesis by (simp add: persisted_call_def Let_def)
    qed (simp add: persisted_call_def)
    then obtain r where
      "\<And>S engine inner. persisted_call X K G S sha clock eager engine shared (load_state w) index p caps inner req w = (r, w)" by blast
    with Some http x show ?thesis by (cases "on_playground shared req") (simp_all add: graphql_layer_def)
  next
    case None
    have "\<exists>r. \<forall>S engine inner. plain_call X K G S sha clock eager engine shared (load_state w) inner req w = (r, w)"
    proof (cases "extract_query X G shared req")
      case e: (Inr e)
      show ?thesis
      proof (cases "gx_document G (ss_schema (load_state w)) (eq_query e)")
        case doc: (Inr doc)
        have "is_subscription G doc (eq_operation_name e) \<or> (\<exists>resp. graphql_enforce X G shared (key_grants shared req) doc = Some resp)"
          using assms http None e doc by (auto simp: graphql_policed_def graphql_enforce_None [of X G, symmetric])
        with e doc show ?thesis by (cases "is_subscription G doc (eq_operation_name e)") (auto simp: plain_call_def)
      qed (simp add: plain_call_def e)
    qed (simp add: plain_call_def)
    then obtain r where "\<And>S engine inner. plain_call X K G S sha clock eager engine shared (load_state w) inner req w = (r, w)" by blast
    with None http show ?thesis by (cases "on_playground shared req") (simp_all add: graphql_layer_def)
  qed
qed

subsection \<open>Cache keys\<close>

lemma hex_no_newline: "CHR ''\<newline>'' \<notin> set (hex_encode bs)"
proof -
  have d: "hex_digit n \<noteq> CHR ''\<newline>''" if "n < 16" for n
  proof
    assume "hex_digit n = CHR ''\<newline>''"
    then have "of_char (hex_digit n) = (10 :: nat)" by simp
    with that show False by (simp add: hex_digit_def split: if_splits)
  qed
  have "(of_char b :: nat) div 16 < 16" for b :: char using mod_less_divisor [of 256 "of_char b"] by (simp add: div_less_iff_less_mult)
  then have "hex_digit (of_char b div 16) \<noteq> CHR ''\<newline>''" "hex_digit (of_char b mod 16) \<noteq> CHR ''\<newline>''" for b :: char
    using d by simp_all
  then show ?thesis by (fastforce simp: hex_encode_def)
qed

lemma hex_digit_inject: "m < 16 \<Longrightarrow> n < 16 \<Longrightarrow> hex_digit m = hex_digit n \<longleftrightarrow> m = n"
proof
  assume b: "m < 16" "n < 16" and "hex_digit m = hex_digit n"
  then have "(of_char (hex_digit m) :: nat) = of_char (hex_digit n)" by simp
  with b show "m = n" by (auto simp: hex_digit_def split: if_splits)
qed simp

lemma hex_encode_inject: "hex_encode a = hex_encode b \<longleftrightarrow> a = b"
proof (induction a arbitrary: b)
  case Nil
  then show ?case by (cases b) (simp_all add: hex_encode_def)
next
  case (Cons c a)
  show ?case
  proof (cases b)
    case Nil
    then show ?thesis by (simp add: hex_encode_def)
  next
    case (Cons d b')
    have lt: "(of_char x :: nat) div 16 < 16" for x :: char
      using mod_less_divisor [of 256 "of_char x"] by (simp add: div_less_iff_less_mult)
    have "(of_char c :: nat) div 16 = of_char d div 16 \<and> (of_char c :: nat) mod 16 = of_char d mod 16 \<longleftrightarrow> c = d"
      by (metis div_mult_mod_eq of_char_eq_iff)
    then show ?thesis using Cons.IH [of b'] Cons lt by (auto simp: hex_encode_def hex_digit_inject)
  qed
qed

lemma split_at_char: "c \<notin> set a \<Longrightarrow> c \<notin> set b \<Longrightarrow> a @ c # x = b @ c # y \<longleftrightarrow> a = b \<and> x = y"
proof (induction a arbitrary: b)
  case Nil
  then show ?case by (cases b) auto
next
  case (Cons d a)
  then show ?case by (cases b) auto
qed

lemma split_at_last_char:
  assumes "c \<notin> set u" and "c \<notin> set v"
  shows "a @ c # u = b @ c # v \<longleftrightarrow> a = b \<and> u = v"
proof -
  have "a @ c # u = b @ c # v \<longleftrightarrow> rev u @ c # rev a = rev v @ c # rev b"
    by (metis append.assoc append_Cons append_Nil rev.simps(2) rev_append rev_is_rev_conv)
  also have "\<dots> \<longleftrightarrow> rev u = rev v \<and> rev a = rev b" by (rule split_at_char) (use assms in auto)
  finally show ?thesis by auto
qed

definition one_line :: "string \<Rightarrow> bool" where
  "one_line t \<longleftrightarrow> CHR ''\<newline>'' \<notin> set t"

lemma key_text_exact:
  assumes "one_line h" "one_line h'" "\<forall>a. n = Some a \<longrightarrow> one_line a \<and> a \<noteq> []" "\<forall>a. n' = Some a \<longrightarrow> one_line a \<and> a \<noteq> []"
    and "one_line v" "one_line v'"
  shows "key_text h n q v = key_text h' n' q' v' \<longleftrightarrow> h = h' \<and> n = n' \<and> q = q' \<and> v = v'"
proof -
  let ?n = "case n of Some a \<Rightarrow> a | None \<Rightarrow> []" and ?n' = "case n' of Some a \<Rightarrow> a | None \<Rightarrow> []"
  have "CHR ''\<newline>'' \<notin> set ?n" "CHR ''\<newline>'' \<notin> set ?n'" "?n = ?n' \<longleftrightarrow> n = n'"
    using assms(3,4) by (auto simp: one_line_def split: option.splits)
  with assms(1,2,5,6) show ?thesis
    by (simp add: key_text_def one_line_def split_at_char split_at_last_char)
qed

lemma canonical_one_line:
  assumes "\<And>j. one_line (gx_print G j)"
  shows "one_line (canonical_json_variables G v)"
  using assms by (auto simp: canonical_json_variables_def Let_def one_line_def split: option.splits json.splits)

section \<open>Properties\<close>

text \<open>
  C12. Policing comes first. The layer hands the service below it only a subscription handshake it has
  marked for the policed relay, a persisted operation rewritten from a document that passes the
  pipeline with the key's grants, or a request, with its body bytes unchanged, whose query parses
  against the current schema to a document that is no subscription and passes the pipeline. When
  there is no such request, the answer is given without consulting the cache, the engine or the
  service below, and nothing changes.
\<close>

theorem graphql_gates:
  assumes "\<And>q v. graphql_policed X G shared (load_state w) req q \<Longrightarrow> inner q v = inner' q v"
  shows "graphql_layer X K G S sha clock eager engine load_state shared inner req w
      = graphql_layer X K G S sha clock eager engine load_state shared inner' req w
    \<and> ((\<forall>q. \<not> graphql_policed X G shared (load_state w) req q) \<longrightarrow>
        (\<exists>r. \<forall>S engine i. graphql_layer X K G S sha clock eager engine load_state shared i req w = (r, w)))"
  by (intro conjI impI graphql_gate.consults unpoliced_untouched) (use assms in simp_all)

definition sample_shared :: "nat option \<Rightarrow> string graphql_shared" where
  "sample_shared limit =
     \<lparr>gs_api_id = ''api'', gs_policing = \<lparr>pg_introspection_enabled = True, pg_max_query_depth = limit\<rparr>, gs_playground = None,
      gs_persisted = [], gs_graphql_uri = ''/'', gs_max_body_bytes = 10, gs_subscriptions_enabled = False, gs_cache = None\<rparr>"

definition sample_post :: "alist_headers request" where
  "sample_post = (sample_request ''POST'' ''/'')\<lparr>rq_body := body_full ''q''\<rparr>"

lemma sample_extract:
  "extract_query alist_ext sample_graphql (sample_shared limit) sample_post
   = Inr \<lparr>eq_query = ''q'', eq_operation_name = None, eq_variables = None, eq_req = sample_post\<rparr>"
proof -
  have "trim ''q'' \<noteq> []" by (rule trim_keeps_graphic [of "CHR ''q''"]) (simp, code_simp)
  then show ?thesis
    by (simp add: extract_query_def sample_post_def sample_request_def sample_shared_def sample_graphql_def body_full_def
        filter_option_def Let_def)
qed

lemma sample_policed:
  "graphql_policed alist_ext sample_graphql (sample_shared limit) (schema_state_new id [] 0 []) sample_post q
   \<longleftrightarrow> check_document \<lparr>pg_introspection_enabled = True, pg_max_query_depth = limit\<rparr> None sample_document = Inr () \<and> q = sample_post"
proof -
  have "\<not> is_websocket_handshake alist_ext sample_post" by (simp add: is_websocket_handshake_def sample_post_def sample_request_def)
  moreover have "\<not> is_subscription sample_graphql sample_document None" "key_grants (sample_shared limit) sample_post = None"
    "gx_document sample_graphql 0 ''q'' = Inr sample_document"
    by (simp_all add: is_subscription_def sample_graphql_def sample_document_def key_grants_def sample_post_def sample_request_def)
  ultimately show ?thesis
    unfolding graphql_policed_def sample_extract by (auto simp: sample_shared_def schema_state_new_def)
qed

theorem graphql_gates_witness:
  "let run = (\<lambda>limit i. graphql_layer alist_ext sample_cache_ext sample_graphql memory_ops id (\<lambda>_. 0) (\<lambda>_. False) None
       (\<lambda>_. schema_state_new id [] (0 :: nat) []) (sample_shared limit) i sample_post sample_cache_world)
   in run None (\<lambda>q w. (Some (json_error alist_ext 200 (rq_path q)), w))
        = run None (\<lambda>q w. (if q = sample_post then Some (json_error alist_ext 200 ''/'') else None, w))
      \<and> (\<exists>r. \<forall>i. run (Some 2) i = (r, sample_cache_world))"
proof -
  have "check_document \<lparr>pg_introspection_enabled = True, pg_max_query_depth = Some 2\<rparr> None sample_document \<noteq> Inr ()"
  proof -
    have "\<not> selects_introspection sample_document" "\<not> is_pure_introspection sample_document" "document_depth sample_document = 3" by code_simp+
    then show ?thesis by (simp add: check_document_def effective_depth_limit_def introspection_allowed_def)
  qed
  then have none: "\<forall>q. \<not> graphql_policed alist_ext sample_graphql (sample_shared (Some 2)) (schema_state_new id [] 0 []) sample_post q"
    by (simp add: sample_policed)
  have "rq_path sample_post = ''/''" by (simp add: sample_post_def sample_request_def)
  with graphql_gates [where load_state = "\<lambda>_. schema_state_new id [] (0 :: nat) []" and w = sample_cache_world and X = alist_ext
      and G = sample_graphql and shared = "sample_shared None" and req = sample_post
      and inner = "\<lambda>q w. (Some (json_error alist_ext 200 (rq_path q)), w)"
      and inner' = "\<lambda>q w. (if q = sample_post then Some (json_error alist_ext 200 ''/'') else None, w)"
      and K = sample_cache_ext and S = memory_ops and sha = id and clock = "\<lambda>_. 0" and eager = "\<lambda>_. False" and engine = None]
    unpoliced_untouched [where load_state = "\<lambda>_. schema_state_new id [] (0 :: nat) []" and w = sample_cache_world and X = alist_ext
      and G = sample_graphql and shared = "sample_shared (Some 2)" and req = sample_post
      and K = sample_cache_ext and sha = id and clock = "\<lambda>_. 0" and eager = "\<lambda>_. False", OF none]
  show ?thesis unfolding Let_def by (auto simp: sample_policed)
qed

text \<open>
  Cached GraphQL responses are kept apart: two query operations of an API share a cache entry only
  when the text of the schema in force, the operation name, the query text and the canonical
  variables are all the same, for a hash without collisions, operation names as the grammar has
  them, and variables printed on one line, as the codec prints them.
\<close>

theorem graphql_cache_key_exact:
  assumes "inj sha" and "\<forall>a. n = Some a \<longrightarrow> one_line a \<and> a \<noteq> []" and "\<forall>a. n' = Some a \<longrightarrow> one_line a \<and> a \<noteq> []"
    and "one_line v" and "one_line v'"
  shows "graphql_cache_key sha cache (ss_sdl_hash (schema_state_new sha sdl schema docs)) n q v
      = graphql_cache_key sha cache (ss_sdl_hash (schema_state_new sha sdl' schema' docs')) n' q' v'
    \<longleftrightarrow> sdl = sdl' \<and> n = n' \<and> q = q' \<and> v = v'"
proof -
  have "hash_key sha x = hash_key sha y \<longleftrightarrow> x = y" for x y
    using assms(1) hex_encode_inject by (auto simp: hash_key_def inj_def)
  then show ?thesis
    using key_text_exact [OF _ _ assms(2-5)] hex_no_newline by (simp add: graphql_cache_key_def schema_state_new_def one_line_def hash_key_def)
qed

theorem graphql_cache_key_exact_witness:
  "graphql_cache_key id sample_cache (ss_sdl_hash (schema_state_new id ''s'' (0 :: nat) [])) (Some ''A'') ''q'' ''{}''
     \<noteq> graphql_cache_key id sample_cache (ss_sdl_hash (schema_state_new id ''s'' (0 :: nat) [])) (Some ''A'') ''q'' ''[]''"
  using graphql_cache_key_exact [of id "Some ''A''" "Some ''A''" "''{}''" "''[]''" sample_cache "''s''" "0 :: nat" "[]" "''q''" "''s''" "0 :: nat" "[]" "''q''"]
  by (simp add: one_line_def)

text \<open>Of a repeated parameter only the first is policed, while the request goes on with both.\<close>

lemma repeated_query_parameter:
  "query_parameter ''query=a&query=b'' ''query'' = Some ''a''"
  "rq_method req = ''GET'' \<Longrightarrow> extract_query X G shared req = Inr e \<Longrightarrow> eq_req e = req"
proof -
  show "query_parameter ''query=a&query=b'' ''query'' = Some ''a''"
    by code_simp
  show "rq_method req = ''GET'' \<Longrightarrow> extract_query X G shared req = Inr e \<Longrightarrow> eq_req e = req"
    by (auto simp: extract_query_def Let_def split: option.splits)
qed

end
