(* ===== verification/Discovery.thy ===== *)
theory Discovery
  imports Transform_Body
begin

text \<open>
  Service discovery: reading host entries out of a discovery document
  (\<open>g2-core/src/api_definition.rs\<close>) and the refresher that mounts them as the new target set
  (\<open>g2-proxy/src/discovery.rs\<close>). The refresher runs beside the health checker of
  \<open>g2-proxy/src/health.rs\<close> and the requests being forwarded, all on one target set that is
  replaced as a whole; a probe round keeps the set it started with. The HTTP exchange, the
  JSON parser and printer and the authority parser are parameters.
\<close>

section \<open>Reading a document\<close>

record discovered_entry =
  de_host :: string
  de_port :: "nat option"

fun lookup_segments :: "json \<Rightarrow> string list \<Rightarrow> json option" where
  "lookup_segments v [] = Some v"
| "lookup_segments (JObject fs) (seg # segs) =
     (case map_of fs seg of Some v \<Rightarrow> lookup_segments v segs | None \<Rightarrow> None)"
| "lookup_segments (JArray items) (seg # segs) =
     (case parse_u64 seg of
        Some i \<Rightarrow> (if i < length items then lookup_segments (items ! i) segs else None)
      | None \<Rightarrow> None)"
| "lookup_segments _ (seg # segs) = None"

definition json_lookup :: "json \<Rightarrow> string \<Rightarrow> json option" where
  "json_lookup v path = (if path = [] then Some v else lookup_segments v (split_on (CHR ''.'') path))"

definition to_u16 :: "nat \<Rightarrow> nat option" where
  "to_u16 n = (if n \<le> 65535 then Some n else None)"

definition coerce_port :: "(json \<Rightarrow> string) \<Rightarrow> json \<Rightarrow> string \<Rightarrow> (string, nat) res" where
  "coerce_port show_json v path =
     (case (case v of
              JNumber n \<Rightarrow> Option.bind (as_u64 v) to_u16
            | JString s \<Rightarrow> (if list_all is_digit s then Option.bind (parse_u64 s) to_u16 else None)
            | _ \<Rightarrow> None) of
        Some p \<Rightarrow>
          (if p \<noteq> 0 then Ok p
           else Err (''`port_data_path` `'' @ path @ ''` must be a port between 1 and 65535, got `'' @ show_json v @ ''`''))
      | None \<Rightarrow> Err (''`port_data_path` `'' @ path @ ''` must be a port between 1 and 65535, got `'' @ show_json v @ ''`''))"

definition lookup_port :: "(json \<Rightarrow> string) \<Rightarrow> string option \<Rightarrow> json \<Rightarrow> string \<Rightarrow> (string, nat option) res" where
  "lookup_port show_json port_path v place =
     (case port_path of
        None \<Rightarrow> Ok None
      | Some path \<Rightarrow>
          (case json_lookup v path of
             None \<Rightarrow> Err (''`port_data_path` `'' @ path @ ''` not found in '' @ place)
           | Some x \<Rightarrow> bind_res (coerce_port show_json x path) (\<lambda>p. Ok (Some p))))"

definition show_index :: "nat \<Rightarrow> string" where
  "show_index i = ''['' @ show_nat i @ '']''"

definition entry_host :: "service_discovery_config \<Rightarrow> json \<Rightarrow> string \<Rightarrow> (string, string) res" where
  "entry_host c scope place =
     (case json_lookup scope (sd_data_path c) of
        None \<Rightarrow> Err (''`data_path` `'' @ sd_data_path c @ ''` not found in '' @ place)
      | Some v \<Rightarrow>
          (case as_str v of
             Some host \<Rightarrow>
               (if trim host \<noteq> [] then Ok host
                else Err (''`data_path` `'' @ sd_data_path c @ ''` in '' @ place @ '' is not a non-empty string''))
           | None \<Rightarrow> Err (''`data_path` `'' @ sd_data_path c @ ''` in '' @ place @ '' is not a non-empty string'')))"

definition item_entry :: "(json \<Rightarrow> string) \<Rightarrow> service_discovery_config \<Rightarrow> nat \<times> json \<Rightarrow> (string, discovered_entry) res" where
  "item_entry show_json c ix =
     (case ix of (i, item) \<Rightarrow>
        bind_res (entry_host c item (show_index i)) (\<lambda>host.
        bind_res (lookup_port show_json (sd_port_data_path c) item (''element '' @ show_index i)) (\<lambda>port.
          Ok \<lparr>de_host = host, de_port = port\<rparr>)))"

definition host_item :: "service_discovery_config \<Rightarrow> nat \<times> json \<Rightarrow> (string, string) res" where
  "host_item c ix =
     (case ix of (i, item) \<Rightarrow>
        (case as_str item of
           Some host \<Rightarrow>
             (if trim host \<noteq> [] then Ok host
              else Err (''`data_path` `'' @ sd_data_path c @ ''` element '' @ show_index i @ '' is not a non-empty string''))
         | None \<Rightarrow> Err (''`data_path` `'' @ sd_data_path c @ ''` element '' @ show_index i @ '' is not a non-empty string'')))"

definition hosts_of :: "service_discovery_config \<Rightarrow> json \<Rightarrow> (string, string list) res" where
  "hosts_of c v =
     (case v of
        JString host \<Rightarrow>
          (if trim host \<noteq> [] then Ok [host] else Err (''`data_path` `'' @ sd_data_path c @ ''` is not a non-empty string''))
      | JArray items \<Rightarrow> traverse (host_item c) (List.enumerate 0 items)
      | _ \<Rightarrow> Err (''`data_path` `'' @ sd_data_path c @ ''` must resolve to a string or array of strings''))"

definition extract_entries :: "(json \<Rightarrow> string) \<Rightarrow> service_discovery_config \<Rightarrow> json \<Rightarrow> (string, discovered_entry list) res" where
  "extract_entries show_json c doc =
     (case sd_parent_data_path c of
        Some parent \<Rightarrow>
          (case json_lookup doc parent of
             None \<Rightarrow> Err (''`parent_data_path` `'' @ parent @ ''` not found in the response'')
           | Some v \<Rightarrow>
               (case as_array v of
                  None \<Rightarrow> Err (''`parent_data_path` `'' @ parent @ ''` is not an array'')
                | Some items \<Rightarrow> traverse (item_entry show_json c) (List.enumerate 0 items)))
      | None \<Rightarrow>
          (case json_lookup doc (sd_data_path c) of
             None \<Rightarrow> Err (''`data_path` `'' @ sd_data_path c @ ''` not found in the response'')
           | Some v \<Rightarrow>
               bind_res (hosts_of c v) (\<lambda>hosts.
               bind_res (lookup_port show_json (sd_port_data_path c) doc ''the response'') (\<lambda>port.
                 Ok (map (\<lambda>host. \<lparr>de_host = host, de_port = port\<rparr>) hosts)))))"

section \<open>Polling\<close>

text \<open>
  What the poll uses from outside: the GET with its timeout, the URI and authority parsers
  (an authority is its text and its port), the JSON parser and printer, and the texts of
  foreign errors and status codes.
\<close>

datatype 'h poll_answer = PollTimedOut | PollFailed string | PollAnswered "'h response"

record ('h, 'f) discovery_ext =
  dx_get :: "string \<Rightarrow> duration \<Rightarrow> 'f \<Rightarrow> 'h poll_answer \<times> 'f"
  dx_parse_uri :: "string \<Rightarrow> string + uri_parts"
  dx_authority :: "string \<Rightarrow> string + (string \<times> nat option)"
  dx_json :: "string \<Rightarrow> string + json"
  dx_show_json :: "json \<Rightarrow> string"
  dx_show_error :: "client_error \<Rightarrow> string"
  dx_show_duration :: "duration \<Rightarrow> string"
  dx_show_status :: "nat \<Rightarrow> string"

definition MAX_DISCOVERY_BYTES :: nat where
  "MAX_DISCOVERY_BYTES = 1024 * 1024"

definition entry_addr :: "('h, 'f) discovery_ext \<Rightarrow> string \<Rightarrow> discovered_entry \<Rightarrow> (string, upstream_addr) res" where
  "entry_addr D sch entry =
     (let host = trim (de_host entry)
      in if sublist ''://'' host
         then (case try_from_url (dx_parse_uri D) host of Inl e \<Rightarrow> Err e | Inr a \<Rightarrow> Ok a)
         else case dx_authority D host of
                Inl e \<Rightarrow> Err (''`'' @ host @ ''` is not a valid host: '' @ e)
              | Inr (auth, auth_port) \<Rightarrow>
                  bind_res
                    (case (de_port entry, auth_port) of
                       (Some port, None) \<Rightarrow>
                         (let with_port = host @ '':'' @ show_nat port
                          in case dx_authority D with_port of
                               Inl e \<Rightarrow> Err (''`'' @ with_port @ ''` is not a valid authority: '' @ e)
                             | Inr (a, _) \<Rightarrow> Ok a)
                     | _ \<Rightarrow> Ok auth)
                    (\<lambda>a. Ok \<lparr>ua_scheme = (if sch = ''https'' then ''https'' else ''http''), ua_authority = a, ua_base_path = []\<rparr>))"

definition document_addrs :: "('h, 'f) discovery_ext \<Rightarrow> service_discovery_config \<Rightarrow> json \<Rightarrow> (string, upstream_addr list) res" where
  "document_addrs D c doc =
     bind_res (extract_entries (dx_show_json D) c doc) (\<lambda>entries.
       if entries = [] then Err ''discovery returned no addresses''
       else traverse (entry_addr D (sd_scheme c)) entries)"

definition read_answer :: "('h, 'f) discovery_ext \<Rightarrow> service_discovery_config \<Rightarrow> 'h response \<Rightarrow> (string, upstream_addr list) res" where
  "read_answer D c resp =
     (if \<not> (200 \<le> rs_status resp \<and> rs_status resp < 300)
      then Err (''discovery endpoint answered '' @ dx_show_status D (rs_status resp))
      else case collect_limited MAX_DISCOVERY_BYTES (bd_frames (rs_body resp)) (bd_error (rs_body resp)) of
             Inl e \<Rightarrow> Err (''reading discovery body failed: '' @ dx_show_error D e)
           | Inr (bytes, _) \<Rightarrow>
               (case dx_json D bytes of
                  Inl e \<Rightarrow> Err (''discovery response is not JSON: '' @ e)
                | Inr doc \<Rightarrow> document_addrs D c doc))"

definition poll_endpoint :: "('h, 'f) discovery_ext \<Rightarrow> service_discovery_config \<Rightarrow> 'f \<Rightarrow> (string, upstream_addr list) res \<times> 'f" where
  "poll_endpoint D c f =
     (case dx_parse_uri D (sd_endpoint c) of
        Inl e \<Rightarrow> (Err (''invalid discovery endpoint `'' @ sd_endpoint c @ ''`: '' @ e), f)
      | Inr _ \<Rightarrow>
          (let timeout = from_millis (sd_timeout_ms c)
           in case dx_get D (sd_endpoint c) timeout f of
                (PollTimedOut, f') \<Rightarrow> (Err (''poll timed out after '' @ dx_show_duration D timeout), f')
              | (PollFailed e, f') \<Rightarrow> (Err (''poll failed: '' @ e), f')
              | (PollAnswered resp, f') \<Rightarrow> (read_answer D c resp, f')))"

section \<open>The target pool\<close>

record discovery_status =
  dst_last_success_secs :: nat
  dst_last_error :: "string option"

record discovery_snapshot =
  dsn_last_success_unix_secs :: "nat option"
  dsn_last_error :: "string option"

definition status_record_success :: "nat \<Rightarrow> discovery_status \<Rightarrow> discovery_status" where
  "status_record_success now st = st\<lparr>dst_last_success_secs := now, dst_last_error := None\<rparr>"

definition status_record_error :: "string \<Rightarrow> discovery_status \<Rightarrow> discovery_status" where
  "status_record_error e st = st\<lparr>dst_last_error := Some e\<rparr>"

definition status_snapshot :: "discovery_status \<Rightarrow> discovery_snapshot" where
  "status_snapshot st =
     \<lparr>dsn_last_success_unix_secs = (if dst_last_success_secs st \<noteq> 0 then Some (dst_last_success_secs st) else None),
      dsn_last_error = dst_last_error st\<rparr>"

text \<open>
  One forwarding target as its tasks share it: the mounted set, the identity the next set
  will have, the status, whether the route table still holds it; and the state of its tasks:
  the client's side of the refresher, what the checker remembers, and the set of the probe
  round under way.
\<close>

record 'f pool =
  po_set :: target_set
  po_next_gen :: nat
  po_status :: "discovery_status option"
  po_alive :: bool
  po_fetch :: 'f
  po_probed :: "(nat \<times> string list \<times> streak list) option"
  po_round :: "target_set option"

text \<open>Authorities compare without case, as \<open>http::uri::Authority\<close> does.\<close>

definition same_addr :: "upstream_addr \<Rightarrow> upstream_addr \<Rightarrow> bool" where
  "same_addr a b \<longleftrightarrow> ua_scheme a = ua_scheme b \<and> eq_ignore_ascii_case (ua_authority a) (ua_authority b)
     \<and> ua_base_path a = ua_base_path b"

definition apply_addrs :: "nat \<Rightarrow> upstream_addr list \<Rightarrow> 'f pool \<Rightarrow> 'f pool" where
  "apply_addrs now addrs p =
     (let current = po_set p;
          p1 = (if list_all2 same_addr (ts_addrs current) addrs then p
                else p\<lparr>po_set := target_set_new (po_next_gen p) addrs (ts_health current \<noteq> None),
                       po_next_gen := po_next_gen p + 1\<rparr>)
      in p1\<lparr>po_status := map_option (status_record_success now) (po_status p1)\<rparr>)"

text \<open>One poll cycle; \<open>False\<close> ends the task.\<close>

definition refresh_once :: "('h, 'f) discovery_ext \<Rightarrow> service_discovery_config \<Rightarrow> nat \<Rightarrow> 'f pool \<Rightarrow> bool \<times> 'f pool" where
  "refresh_once D c now p =
     (if \<not> po_alive p then (False, p)
      else case poll_endpoint D c (po_fetch p) of
             (Ok addrs, f') \<Rightarrow> (True, apply_addrs now addrs (p\<lparr>po_fetch := f'\<rparr>))
           | (Err e, f') \<Rightarrow> (True, p\<lparr>po_fetch := f', po_status := map_option (status_record_error e) (po_status p)\<rparr>)
           | (Panic, f') \<Rightarrow> (False, p\<lparr>po_fetch := f'\<rparr>))"

text \<open>
  The end of a probe round: the flags of the set the round started with are the mounted ones
  unless it has been replaced; writes to a replaced set are seen by nobody.
\<close>

definition finish_round :: "health_check_config \<Rightarrow> (string \<Rightarrow> bool) \<Rightarrow> target_set \<Rightarrow> 'f pool \<Rightarrow> 'f pool" where
  "finish_round hc probe started p =
     (let mounted = (ts_gen started = ts_gen (po_set p));
          (probed, ts') = checker_tick hc probe (po_probed p) (if mounted then po_set p else started)
      in p\<lparr>po_probed := probed, po_round := None, po_set := (if mounted then ts' else po_set p)\<rparr>)"

inductive pool_step :: "('h, 'f) discovery_ext \<Rightarrow> service_discovery_config \<Rightarrow> health_check_config \<Rightarrow> 'f pool \<Rightarrow> 'f pool \<Rightarrow> bool"
  for D c hc where
  refresh: "refresh_once D c now p = (go, p') \<Longrightarrow> pool_step D c hc p p'"
| start: "po_round p = None \<Longrightarrow> po_alive p \<Longrightarrow> pool_step D c hc p (p\<lparr>po_round := Some (po_set p)\<rparr>)"
| finish: "po_round p = Some started \<Longrightarrow> pool_step D c hc p (finish_round hc probe started p)"
| dropped: "pool_step D c hc p (p\<lparr>po_alive := False\<rparr>)"

text \<open>A target as \<open>UpstreamTarget::build\<close> leaves it.\<close>

definition pool_new :: "upstream_addr list \<Rightarrow> bool \<Rightarrow> bool \<Rightarrow> 'f \<Rightarrow> 'f pool" where
  "pool_new addrs health_checked discovery f =
     \<lparr>po_set = target_set_new 0 addrs health_checked, po_next_gen = 1,
      po_status = (if discovery then Some \<lparr>dst_last_success_secs = 0, dst_last_error = None\<rparr> else None),
      po_alive = True, po_fetch = f, po_probed = None, po_round = None\<rparr>"

section \<open>Lemmas\<close>

lemma traverse_length: "traverse f xs = Ok ys \<Longrightarrow> length ys = length xs"
  by (auto simp: traverse_Ok list_all2_lengthD)

lemma traverse_nth: "traverse f xs = Ok ys \<Longrightarrow> i < length xs \<Longrightarrow> f (xs ! i) = Ok (ys ! i)"
  by (auto simp: traverse_Ok list_all2_conv_all_nth)

lemma apply_results_length [simp]:
  "length (fst (apply_results cfg rs fs ks)) = length fs"
  by (induction cfg rs fs ks rule: apply_results.induct) (auto simp: Let_def split: prod.splits)

text \<open>A target set that can be rotated: it has an address, and a flag for each if it has flags.\<close>

definition set_ok :: "target_set \<Rightarrow> bool" where
  "set_ok ts \<longleftrightarrow> ts_addrs ts \<noteq> [] \<and> (case ts_health ts of Some flags \<Rightarrow> length flags = length (ts_addrs ts) | None \<Rightarrow> True)"

lemma set_ok_new: "addrs \<noteq> [] \<Longrightarrow> set_ok (target_set_new gen addrs checked)"
  by (simp add: set_ok_def target_set_new_def health_new_def)

lemma checker_tick_set:
  assumes "checker_tick hc probe probed ts = (probed', ts')"
  shows "ts_addrs ts' = ts_addrs ts" "ts_gen ts' = ts_gen ts" "(ts_health ts' = None) = (ts_health ts = None)"
    "set_ok ts \<Longrightarrow> set_ok ts'"
  using assms
  by (auto simp: checker_tick_def set_ok_def Let_def split: option.splits prod.splits dest!: arg_cong [where f = "length \<circ> fst"])

lemma poll_addrs_nonempty: "poll_endpoint D c f = (Ok addrs, f') \<Longrightarrow> addrs \<noteq> []"
  by (auto simp: poll_endpoint_def read_answer_def document_addrs_def Let_def dest: traverse_length
      split: sum.splits prod.splits poll_answer.splits if_splits)

lemma pick_loop_index: "0 < count \<Longrightarrow> fst (pick_loop k count health cur) = Some i \<Longrightarrow> i < count"
  by (induction k count health cur rule: pick_loop.induct) (auto simp: Let_def split: if_splits option.splits)

lemma next_addr_index:
  assumes "ts_addrs ts \<noteq> []"
  shows "\<exists>i < length (ts_addrs ts). fst (next_addr ts cur) = Some i"
proof -
  have n: "0 < length (ts_addrs ts)" using assms by simp
  obtain r cur' where l: "pick_loop (length (ts_addrs ts)) (length (ts_addrs ts)) (ts_health ts) cur = (r, cur')"
    by fastforce
  then have "i < length (ts_addrs ts)" if "r = Some i" for i
    using pick_loop_index [OF n, of "length (ts_addrs ts)" "ts_health ts" cur i] that by simp
  with n l show ?thesis by (auto simp: next_addr_def Let_def split: option.splits)
qed

text \<open>What holds of a target and its tasks at every moment.\<close>

definition pool_ok :: "bool \<Rightarrow> bool \<Rightarrow> 'f pool \<Rightarrow> bool" where
  "pool_ok checked discovery p \<longleftrightarrow>
     set_ok (po_set p) \<and> (ts_health (po_set p) \<noteq> None) = checked \<and> ts_gen (po_set p) < po_next_gen p
     \<and> (po_status p \<noteq> None) = discovery
     \<and> (\<forall>s. po_round p = Some s \<longrightarrow> set_ok s \<and> ts_gen s < po_next_gen p)"

lemma pool_ok_apply: "pool_ok checked d p \<Longrightarrow> addrs \<noteq> [] \<Longrightarrow> pool_ok checked d (apply_addrs now addrs p)"
  by (auto simp: pool_ok_def apply_addrs_def Let_def set_ok_new target_set_new_def [of _ _ True] target_set_new_def [of _ _ False]
      intro: less_SucI)

lemma pool_ok_refresh:
  assumes "refresh_once D c now p = (go, p')" and "pool_ok checked d p"
  shows "pool_ok checked d p'"
proof (cases "po_alive p")
  case True
  obtain out f' where out: "poll_endpoint D c (po_fetch p) = (out, f')" by fastforce
  have f: "pool_ok checked d (p\<lparr>po_fetch := f'\<rparr>)" using assms(2) by (simp add: pool_ok_def)
  show ?thesis
  proof (cases out)
    case (Ok addrs)
    with out have "poll_endpoint D c (po_fetch p) = (Ok addrs, f')" by simp
    then have "addrs \<noteq> []" by (rule poll_addrs_nonempty)
    moreover have "p' = apply_addrs now addrs (p\<lparr>po_fetch := f'\<rparr>)" using assms(1) True out Ok by (simp add: refresh_once_def)
    ultimately show ?thesis using pool_ok_apply [OF f] by simp
  next
    case (Err e)
    with True assms(1) out have "p' = p\<lparr>po_fetch := f', po_status := map_option (status_record_error e) (po_status p)\<rparr>"
      by (simp add: refresh_once_def)
    with f show ?thesis by (simp add: pool_ok_def)
  next
    case Panic
    with True assms(1) out f show ?thesis by (simp add: refresh_once_def)
  qed
next
  case False
  with assms show ?thesis by (simp add: refresh_once_def)
qed

lemma pool_ok_finish:
  assumes "pool_ok checked d p" and "po_round p = Some started"
  shows "pool_ok checked d (finish_round hc probe started p)"
proof (cases "ts_gen started = ts_gen (po_set p)")
  case True
  obtain probed ts' where t: "checker_tick hc probe (po_probed p) (po_set p) = (probed, ts')" by fastforce
  with True show ?thesis
    using assms checker_tick_set [OF t] by (simp add: finish_round_def pool_ok_def Let_def)
next
  case False
  then show ?thesis
    using assms(1) by (auto simp: finish_round_def pool_ok_def Let_def split: prod.splits)
qed

lemma pool_ok_step: "pool_step D c hc p p' \<Longrightarrow> pool_ok checked d p \<Longrightarrow> pool_ok checked d p'"
  by (induction rule: pool_step.induct)
    (auto simp: pool_ok_refresh pool_ok_finish, auto simp: pool_ok_def)

lemma pool_ok_reachable:
  assumes "(pool_step D c hc)\<^sup>*\<^sup>* p p'" and "pool_ok checked d p"
  shows "pool_ok checked d p'"
  using assms by (induction rule: rtranclp_induct) (auto intro: pool_ok_step)

subsection \<open>What a document lists\<close>

text \<open>
  The contract of discovery, apart from how the code reads a document. A port is a number or a
  string of digits, from 1 to 65535; it is read at the configured path, inside the element or,
  without an array of elements, once for the document; with no path configured no port is
  read. The hosts are the strings at the data path, none of them blank.
\<close>

definition port_means :: "json \<Rightarrow> nat \<Rightarrow> bool" where
  "port_means v n \<longleftrightarrow> 1 \<le> n \<and> n \<le> 65535
     \<and> (v = JNumber (PosInt n) \<or> (\<exists>s. v = JString s \<and> list_all is_digit s \<and> digits_value s = n))"

definition port_at :: "service_discovery_config \<Rightarrow> json \<Rightarrow> nat option \<Rightarrow> bool" where
  "port_at c scope port \<longleftrightarrow>
     (case sd_port_data_path c of
        None \<Rightarrow> port = None
      | Some path \<Rightarrow> (\<exists>v n. json_lookup scope path = Some v \<and> port_means v n \<and> port = Some n))"

definition listed :: "service_discovery_config \<Rightarrow> json \<Rightarrow> discovered_entry list \<Rightarrow> bool" where
  "listed c doc es \<longleftrightarrow>
     (case sd_parent_data_path c of
        Some parent \<Rightarrow>
          (\<exists>items. json_lookup doc parent = Some (JArray items)
             \<and> list_all2 (\<lambda>item e. json_lookup item (sd_data_path c) = Some (JString (de_host e))
                            \<and> trim (de_host e) \<noteq> [] \<and> port_at c item (de_port e)) items es)
      | None \<Rightarrow>
          (\<exists>hosts port. (json_lookup doc (sd_data_path c) = Some (JArray (map JString hosts))
                         \<or> (\<exists>h. hosts = [h] \<and> json_lookup doc (sd_data_path c) = Some (JString h)))
             \<and> list_all (\<lambda>h. trim h \<noteq> []) hosts \<and> port_at c doc port
             \<and> es = map (\<lambda>h. \<lparr>de_host = h, de_port = port\<rparr>) hosts))"

text \<open>
  The address an entry stands for: a host written with a scheme is a whole URL; any other is
  the authority, with the entry's port appended if it names none itself, under the configured
  scheme and without a base path.
\<close>

definition entry_means :: "('h, 'f) discovery_ext \<Rightarrow> service_discovery_config \<Rightarrow> discovered_entry \<Rightarrow> upstream_addr \<Rightarrow> bool" where
  "entry_means D c e a \<longleftrightarrow>
     (if sublist ''://'' (trim (de_host e)) then try_from_url (dx_parse_uri D) (trim (de_host e)) = Inr a
      else \<exists>auth own. dx_authority D (trim (de_host e)) = Inr (auth, own)
             \<and> ua_scheme a = (if sd_scheme c = ''https'' then ''https'' else ''http'') \<and> ua_base_path a = []
             \<and> (case (own, de_port e) of
                  (None, Some n) \<Rightarrow> \<exists>q. dx_authority D (trim (de_host e) @ '':'' @ show_nat n) = Inr (ua_authority a, q)
                | _ \<Rightarrow> ua_authority a = auth))"

text \<open>
  What a poll finds: the endpoint answered in time with a \<open>2xx\<close> and a whole body of at most a
  mebibyte, which is a JSON document that lists something.
\<close>

definition discovered :: "('h, 'f) discovery_ext \<Rightarrow> service_discovery_config \<Rightarrow> 'f \<Rightarrow> upstream_addr list \<Rightarrow> bool" where
  "discovered D c f addrs \<longleftrightarrow>
     (\<exists>u resp f' doc es. dx_parse_uri D (sd_endpoint c) = Inr u
        \<and> dx_get D (sd_endpoint c) (from_millis (sd_timeout_ms c)) f = (PollAnswered resp, f')
        \<and> 200 \<le> rs_status resp \<and> rs_status resp < 300
        \<and> bd_error (rs_body resp) = None \<and> length (frames_data (bd_frames (rs_body resp))) \<le> 1024 * 1024
        \<and> dx_json D (frames_data (bd_frames (rs_body resp))) = Inr doc
        \<and> listed c doc es \<and> es \<noteq> [] \<and> list_all2 (entry_means D c) es addrs)"

lemma coerce_port_iff: "coerce_port sh v path = Ok n \<longleftrightarrow> port_means v n"
proof (cases v)
  case (JNumber m)
  then show ?thesis by (cases m) (auto simp: coerce_port_def port_means_def to_u16_def)
next
  case (JString s)
  have "parse_u64 s = (if digits_value s \<le> u64_max then Some (digits_value s) else None)"
    if "list_all is_digit s" "s \<noteq> []"
    using that by (cases s) (auto simp: parse_u64_def is_digit_def Let_def)
  moreover have "parse_u64 [] = None" "digits_value [] = 0" by (simp_all add: parse_u64_def digits_value_def)
  ultimately show ?thesis
    using JString by (cases "s = []") (auto simp: coerce_port_def port_means_def to_u16_def u64_max_def)
qed (auto simp: coerce_port_def port_means_def)

lemma lookup_port_iff: "lookup_port sh (sd_port_data_path c) scope place = Ok port \<longleftrightarrow> port_at c scope port"
  by (auto simp: lookup_port_def port_at_def coerce_port_iff split: option.splits)

lemma entry_host_iff:
  "entry_host c scope place = Ok host \<longleftrightarrow> json_lookup scope (sd_data_path c) = Some (JString host) \<and> trim host \<noteq> []"
  by (auto simp: entry_host_def split: option.splits elim!: as_str.elims)

lemma item_entry_iff:
  "item_entry sh c (i, item) = Ok e \<longleftrightarrow>
     json_lookup item (sd_data_path c) = Some (JString (de_host e)) \<and> trim (de_host e) \<noteq> [] \<and> port_at c item (de_port e)"
  by (cases e) (auto simp: item_entry_def entry_host_iff lookup_port_iff)

lemma host_item_iff: "host_item c (i, item) = Ok host \<longleftrightarrow> item = JString host \<and> trim host \<noteq> []"
  by (auto simp: host_item_def split: option.splits elim!: as_str.elims)

lemma traverse_enumerate_Ok:
  assumes "\<And>i x y. f (i, x) = Ok y \<longleftrightarrow> P x y"
  shows "traverse f (List.enumerate n xs) = Ok ys \<longleftrightarrow> list_all2 P xs ys"
proof -
  have "f (List.enumerate n xs ! i) = Ok (ys ! i) \<longleftrightarrow> P (xs ! i) (ys ! i)" if "i < length xs" for i
    using that by (simp add: nth_enumerate_eq assms)
  then show ?thesis by (auto simp: traverse_Ok list_all2_conv_all_nth)
qed

lemma strings_nonblank:
  "list_all2 (\<lambda>item host. item = JString host \<and> trim host \<noteq> []) items hosts
     \<longleftrightarrow> items = map JString hosts \<and> list_all (\<lambda>h. trim h \<noteq> []) hosts"
proof (induction items arbitrary: hosts)
  case (Cons item items)
  then show ?case by (cases hosts) auto
qed auto

lemma hosts_of_iff:
  "hosts_of c v = Ok hosts \<longleftrightarrow>
     (v = JArray (map JString hosts) \<or> (\<exists>h. hosts = [h] \<and> v = JString h)) \<and> list_all (\<lambda>h. trim h \<noteq> []) hosts"
proof (cases v)
  case (JArray items)
  then show ?thesis
    by (auto simp: hosts_of_def traverse_enumerate_Ok
        [where f = "host_item c" and P = "\<lambda>item host. item = JString host \<and> trim host \<noteq> []", OF host_item_iff] strings_nonblank)
qed (auto simp: hosts_of_def)

lemma extract_entries_iff: "extract_entries sh c doc = Ok es \<longleftrightarrow> listed c doc es"
proof (cases "sd_parent_data_path c")
  case (Some parent)
  then show ?thesis
    by (auto simp: extract_entries_def listed_def traverse_enumerate_Ok
        [where f = "item_entry sh c" and P = "\<lambda>item e. json_lookup item (sd_data_path c) = Some (JString (de_host e))
            \<and> trim (de_host e) \<noteq> [] \<and> port_at c item (de_port e)", OF item_entry_iff] split: option.splits elim!: as_array.elims)
next
  case None
  then show ?thesis
    by (auto simp: extract_entries_def listed_def hosts_of_iff lookup_port_iff split: option.splits)
qed

lemma entry_addr_iff: "entry_addr D (sd_scheme c) e = Ok a \<longleftrightarrow> entry_means D c e a"
  by (cases a) (auto simp: entry_addr_def entry_means_def Let_def split: sum.splits option.splits prod.splits)

lemma read_answer_iff:
  "read_answer D c resp = Ok addrs \<longleftrightarrow>
     200 \<le> rs_status resp \<and> rs_status resp < 300
     \<and> bd_error (rs_body resp) = None \<and> length (frames_data (bd_frames (rs_body resp))) \<le> 1024 * 1024
     \<and> (\<exists>doc es. dx_json D (frames_data (bd_frames (rs_body resp))) = Inr doc
          \<and> listed c doc es \<and> es \<noteq> [] \<and> list_all2 (entry_means D c) es addrs)"
proof (cases "collect_limited MAX_DISCOVERY_BYTES (bd_frames (rs_body resp)) (bd_error (rs_body resp))")
  case (Inl e)
  then have "\<not> (bd_error (rs_body resp) = None \<and> length (frames_data (bd_frames (rs_body resp))) \<le> MAX_DISCOVERY_BYTES)"
    using collect_limited_Inr [of MAX_DISCOVERY_BYTES "bd_frames (rs_body resp)" "bd_error (rs_body resp)"] by auto
  then show ?thesis using Inl by (auto simp: read_answer_def MAX_DISCOVERY_BYTES_def)
next
  case (Inr r)
  then obtain tr where "r = (frames_data (bd_frames (rs_body resp)), tr)" "bd_error (rs_body resp) = None"
    "length (frames_data (bd_frames (rs_body resp))) \<le> MAX_DISCOVERY_BYTES"
    by (cases r) (auto simp: collect_limited_Inr)
  then show ?thesis
    using Inr by (auto simp: read_answer_def document_addrs_def extract_entries_iff traverse_Ok entry_addr_iff
        MAX_DISCOVERY_BYTES_def split: sum.splits)
qed

lemma poll_endpoint_iff: "(\<exists>f'. poll_endpoint D c f = (Ok addrs, f')) \<longleftrightarrow> discovered D c f addrs"
  by (auto simp: poll_endpoint_def discovered_def Let_def read_answer_iff split: sum.splits prod.splits poll_answer.splits)

lemma same_addrs_refl: "list_all2 same_addr as as"
  by (simp add: list.rel_refl same_addr_def eq_ignore_ascii_case_def)

section \<open>Properties\<close>

text \<open>
  C37. Discovery never leaves an API without an upstream: whatever the discovery endpoint answers
  and however polls, probe rounds, requests and the removal of the route interleave, the
  mounted set keeps at least one address and exactly one health flag per address (or none, if
  the API has no health checks), so the rotation finds an address for every cursor and never
  divides by zero.
\<close>

theorem discovery_keeps_rotation:
  assumes "addrs \<noteq> []" and "(pool_step D c hc)\<^sup>*\<^sup>* (pool_new addrs checked discovery f) p"
  shows "(\<forall>cur. \<exists>i < length (ts_addrs (po_set p)). fst (next_addr (po_set p) cur) = Some i)
    \<and> map_option length (ts_health (po_set p)) = (if checked then Some (length (ts_addrs (po_set p))) else None)"
proof -
  have "pool_ok checked discovery (pool_new addrs checked discovery f)"
    using set_ok_new [OF assms(1), of 0 checked] by (simp add: pool_ok_def pool_new_def) (simp add: target_set_new_def)
  from pool_ok_reachable [OF assms(2) this] have ok: "pool_ok checked discovery p" .
  then show ?thesis
    using next_addr_index [of "po_set p"] by (auto simp: pool_ok_def set_ok_def split: option.splits)
qed

text \<open>
  C38. A poll is all or nothing, in both directions. If the endpoint answers in time with a
  \<open>2xx\<close>, a whole body of at most a mebibyte and a document that lists at least one entry, each
  with a non-blank host and, exactly if a port path is configured, a port from 1 to 65535, then
  the mounted addresses are those of the entries, one each and in order; the set with its health
  flags is replaced only if an address really differs (authorities compare without case). In
  every other case, one bad entry included, the set with its health flags stays as it was.
\<close>

theorem discovery_poll_exact:
  assumes "po_alive p" and "refresh_once D c now p = (go, p')"
  shows "(\<forall>addrs. discovered D c (po_fetch p) addrs \<longrightarrow>
            po_set p' = (if list_all2 same_addr (ts_addrs (po_set p)) addrs then po_set p
                         else target_set_new (po_next_gen p) addrs (ts_health (po_set p) \<noteq> None))
            \<and> list_all2 same_addr (ts_addrs (po_set p')) addrs)
    \<and> ((\<nexists>addrs. discovered D c (po_fetch p) addrs) \<longrightarrow> po_set p' = po_set p)"
proof -
  obtain out f' where poll: "poll_endpoint D c (po_fetch p) = (out, f')" by (cases "poll_endpoint D c (po_fetch p)")
  have iff: "discovered D c (po_fetch p) addrs \<longleftrightarrow> out = Ok addrs" for addrs
    using poll_endpoint_iff [of D c "po_fetch p" addrs] poll by auto
  show ?thesis
    using assms poll
    by (cases out)
      (auto simp: iff refresh_once_def apply_addrs_def Let_def target_set_new_def same_addrs_refl)
qed

text \<open>A catalog of two nodes replaces the static seed.\<close>

definition sample_catalog :: json where
  "sample_catalog = JObject [(''nodes'', JArray
     [JObject [(''ip'', JString ''a''), (''port'', JNumber (PosInt 80))], JObject [(''ip'', JString ''b''), (''port'', JString ''81'')]])]"

definition sample_discovery :: service_discovery_config where
  "sample_discovery = \<lparr>sd_endpoint = ''http://catalog'', sd_data_path = ''ip'', sd_port_data_path = Some ''port'',
     sd_parent_data_path = Some ''nodes'', sd_scheme = ''http'', sd_interval_ms = 1, sd_timeout_ms = 1\<rparr>"

definition sample_discovery_ext :: "(alist_headers, unit) discovery_ext" where
  "sample_discovery_ext = \<lparr>dx_get = (\<lambda>_ _ f. (PollAnswered (response_new alist_ext (body_full ''doc'')), f)),
     dx_parse_uri = (\<lambda>u. Inr \<lparr>uri_scheme = Some ''http'', uri_authority = Some u, uri_path = [], uri_query = None\<rparr>),
     dx_authority = (\<lambda>a. Inr (a, None)), dx_json = (\<lambda>_. Inr sample_catalog), dx_show_json = (\<lambda>_. ''json''),
     dx_show_error = (\<lambda>_. ''error''), dx_show_duration = show_nat, dx_show_status = show_nat\<rparr>"

definition sample_pool :: "unit pool" where
  "sample_pool = pool_new [\<lparr>ua_scheme = ''http'', ua_authority = ''seed'', ua_base_path = []\<rparr>] True True ()"

lemma sample_items:
  "json_lookup sample_catalog ''nodes'' = Some (JArray
     [JObject [(''ip'', JString ''a''), (''port'', JNumber (PosInt 80))], JObject [(''ip'', JString ''b''), (''port'', JString ''81'')]])"
  by (simp add: sample_catalog_def json_lookup_def)

lemma sample_port: "parse_u64 ''81'' = Some 81"
  by (simp add: parse_u64_def u64_max_def is_digit_def digits_value_def)

lemma sample_trims: "map trim [''a'', ''b''] = [''a'', ''b''] \<and> map show_nat [80, 81] = [''80'', ''81'']"
  by code_simp

lemma sample_hosts:
  "trim ''a'' = ''a''" "trim ''b'' = ''b''" "\<not> sublist ''://'' ''a''" "\<not> sublist ''://'' ''b''"
  "show_nat 80 = ''80''" "show_nat 81 = ''81''"
  using sample_trims by (simp_all add: sublist_Cons_right)

lemma sample_item_entries:
  "item_entry sh sample_discovery (0, JObject [(''ip'', JString ''a''), (''port'', JNumber (PosInt 80))]) = Ok \<lparr>de_host = ''a'', de_port = Some 80\<rparr>"
  "item_entry sh sample_discovery (1, JObject [(''ip'', JString ''b''), (''port'', JString ''81'')]) = Ok \<lparr>de_host = ''b'', de_port = Some 81\<rparr>"
  by (simp_all add: item_entry_def entry_host_def lookup_port_def coerce_port_def to_u16_def bind_res_def sample_hosts sample_port
      is_digit_def json_lookup_def sample_discovery_def)

lemma sample_entry_addrs:
  "entry_addr sample_discovery_ext ''http'' \<lparr>de_host = ''a'', de_port = Some 80\<rparr> = Ok \<lparr>ua_scheme = ''http'', ua_authority = ''a:80'', ua_base_path = []\<rparr>"
  "entry_addr sample_discovery_ext ''http'' \<lparr>de_host = ''b'', de_port = Some 81\<rparr> = Ok \<lparr>ua_scheme = ''http'', ua_authority = ''b:81'', ua_base_path = []\<rparr>"
  by (simp_all add: entry_addr_def sample_hosts bind_res_def Let_def sample_discovery_ext_def)

lemma sample_document:
  "document_addrs sample_discovery_ext sample_discovery sample_catalog = Ok
     [\<lparr>ua_scheme = ''http'', ua_authority = ''a:80'', ua_base_path = []\<rparr>, \<lparr>ua_scheme = ''http'', ua_authority = ''b:81'', ua_base_path = []\<rparr>]"
proof -
  have c: "sd_parent_data_path sample_discovery = Some ''nodes''" "sd_scheme sample_discovery = ''http''"
    by (simp_all add: sample_discovery_def)
  have "extract_entries (dx_show_json sample_discovery_ext) sample_discovery sample_catalog =
      Ok [\<lparr>de_host = ''a'', de_port = Some 80\<rparr>, \<lparr>de_host = ''b'', de_port = Some 81\<rparr>]"
    unfolding extract_entries_def c option.case sample_items as_array.simps
    by (simp add: sample_item_entries [unfolded One_nat_def])
  then show ?thesis by (simp add: document_addrs_def bind_res_def c sample_entry_addrs)
qed

lemma sample_poll:
  "poll_endpoint sample_discovery_ext sample_discovery () = (document_addrs sample_discovery_ext sample_discovery sample_catalog, ())"
  by (simp add: poll_endpoint_def read_answer_def response_new_def body_full_def MAX_DISCOVERY_BYTES_def sample_discovery_ext_def Let_def)

lemma sample_refresh:
  "map ua_authority (ts_addrs (po_set (snd (refresh_once sample_discovery_ext sample_discovery 7 sample_pool)))) = [''a:80'', ''b:81'']"
  by (simp add: refresh_once_def sample_poll sample_document sample_pool_def pool_new_def apply_addrs_def target_set_new_def Let_def)

theorem discovery_keeps_rotation_witness:
  "map_option length (ts_health (po_set (snd (refresh_once sample_discovery_ext sample_discovery 7 sample_pool)))) = Some 2"
proof -
  let ?p = "snd (refresh_once sample_discovery_ext sample_discovery 7 sample_pool)"
  have "(pool_step sample_discovery_ext sample_discovery hc)\<^sup>*\<^sup>* sample_pool ?p" for hc
    by (rule r_into_rtranclp) (rule pool_step.refresh [of _ _ 7 _ "fst (refresh_once sample_discovery_ext sample_discovery 7 sample_pool)"], simp)
  moreover have "length (ts_addrs (po_set ?p)) = 2"
    using arg_cong [OF sample_refresh, of length] by simp
  ultimately show ?thesis
    using discovery_keeps_rotation [of "[\<lparr>ua_scheme = ''http'', ua_authority = ''seed'', ua_base_path = []\<rparr>]"
        sample_discovery_ext sample_discovery _ True True "()" ?p]
    unfolding sample_pool_def [symmetric] by auto
qed

text \<open>The poll of the sample catalog mounts its two nodes in place of the seed.\<close>

lemma sample_discovered:
  "discovered sample_discovery_ext sample_discovery ()
     [\<lparr>ua_scheme = ''http'', ua_authority = ''a:80'', ua_base_path = []\<rparr>, \<lparr>ua_scheme = ''http'', ua_authority = ''b:81'', ua_base_path = []\<rparr>]"
  using poll_endpoint_iff [of sample_discovery_ext sample_discovery "()"] sample_poll sample_document by auto

theorem discovery_poll_exact_witness:
  "po_alive sample_pool
   \<and> map ua_authority (ts_addrs (po_set sample_pool)) = [''seed'']
   \<and> po_set (snd (refresh_once sample_discovery_ext sample_discovery 7 sample_pool))
     = target_set_new 1 [\<lparr>ua_scheme = ''http'', ua_authority = ''a:80'', ua_base_path = []\<rparr>,
                         \<lparr>ua_scheme = ''http'', ua_authority = ''b:81'', ua_base_path = []\<rparr>] True"
proof -
  have s: "po_alive sample_pool" "map ua_authority (ts_addrs (po_set sample_pool)) = [''seed'']"
    "length (ts_addrs (po_set sample_pool)) = 1" "po_next_gen sample_pool = 1"
    "ts_health (po_set sample_pool) \<noteq> None" "po_fetch sample_pool = ()"
    by (simp_all add: sample_pool_def pool_new_def target_set_new_def)
  from discovery_poll_exact [OF s(1) prod.collapse [symmetric], of sample_discovery_ext sample_discovery 7] sample_discovered
  have "po_set (snd (refresh_once sample_discovery_ext sample_discovery 7 sample_pool))
     = target_set_new 1 [\<lparr>ua_scheme = ''http'', ua_authority = ''a:80'', ua_base_path = []\<rparr>,
                         \<lparr>ua_scheme = ''http'', ua_authority = ''b:81'', ua_base_path = []\<rparr>] True"
    using s by (auto dest!: list_all2_lengthD split: if_splits)
  then show ?thesis using s(1,2) by (intro conjI)
qed

end
