(* ===== verification/Graphql_Sync.thy ===== *)
theory Graphql_Sync
  imports Graphql Discovery
begin

text \<open>
  Schema sync, \<open>g2-middleware/src/graphql_sync.rs\<close> and \<open>g2-proxy/src/graphql_sync.rs\<close>: turning an
  introspection response into SDL, applying it to the schema state of a layer, and the refresher
  task beside the admin's nudges. The schema compiler, the decoding of a JSON value into the
  introspection structs and the HTTP exchange are parameters.
\<close>

section \<open>Introspection responses\<close>

datatype type_ref = TypeRef string "string option" "type_ref option"

record input_value =
  iv_name :: string
  iv_ty :: type_ref
  iv_default_value :: "string option"

record introspection_field =
  if_name :: string
  if_description :: "string option"
  if_args :: "input_value list"
  if_ty :: type_ref
  if_is_deprecated :: bool
  if_deprecation_reason :: "string option"

record enum_value =
  vv_name :: string
  vv_description :: "string option"
  vv_is_deprecated :: bool
  vv_deprecation_reason :: "string option"

record introspection_directive =
  dv_name :: string
  dv_description :: "string option"
  dv_locations :: "string list"
  dv_args :: "input_value list"

record introspection_type =
  it_kind :: string
  it_name :: "string option"
  it_description :: "string option"
  it_fields :: "introspection_field list option"
  it_interfaces :: "type_ref list option"
  it_possible_types :: "type_ref list option"
  it_enum_values :: "enum_value list option"
  it_input_fields :: "input_value list option"

record introspection_schema =
  is_query_type :: "string option"
  is_mutation_type :: "string option"
  is_subscription_type :: "string option"
  is_types :: "introspection_type list"
  is_directives :: "introspection_directive list"

definition BUILTIN_SCALARS :: "string list" where
  "BUILTIN_SCALARS = [''Int'', ''Float'', ''String'', ''Boolean'', ''ID'']"

definition BUILTIN_DIRECTIVES :: "string list" where
  "BUILTIN_DIRECTIVES = [''skip'', ''include'', ''deprecated'', ''specifiedBy'']"

section \<open>Rendering\<close>

fun render_type_ref :: "type_ref \<Rightarrow> (string, string) res" where
  "render_type_ref (TypeRef kind name of_type) =
     (if kind = ''NON_NULL'' then
        (case of_type of
           None \<Rightarrow> Err ''a NON_NULL type reference has no inner type''
         | Some inner \<Rightarrow> bind_res (render_type_ref inner) (\<lambda>t. Ok (t @ ''!'')))
      else if kind = ''LIST'' then
        (case of_type of
           None \<Rightarrow> Err ''a LIST type reference has no inner type''
         | Some inner \<Rightarrow> bind_res (render_type_ref inner) (\<lambda>t. Ok (''['' @ t @ '']'')))
      else case name of None \<Rightarrow> Err ''a type reference has no name'' | Some n \<Rightarrow> Ok n)"

fun named_type :: "type_ref \<Rightarrow> (string, string) res" where
  "named_type (TypeRef kind name of_type) = (case name of None \<Rightarrow> Err ''a type reference has no name'' | Some n \<Rightarrow> Ok n)"

definition quotes :: string where
  "quotes = [CHR 0x22, CHR 0x22, CHR 0x22]"

text \<open>\<open>line.replace\<close> of three quotes by an escaped run of three.\<close>

function escape_quotes :: "string \<Rightarrow> string" where
  "escape_quotes s =
     (if prefix quotes s then CHR 0x5C # quotes @ escape_quotes (drop 3 s)
      else case s of [] \<Rightarrow> [] | c # cs \<Rightarrow> c # escape_quotes cs)"
  by pat_completeness auto
termination by (relation "measure length") (auto simp: quotes_def prefix_def)

definition push_description :: "string option \<Rightarrow> string \<Rightarrow> string" where
  "push_description description indent =
     (case description of
        None \<Rightarrow> []
      | Some d \<Rightarrow>
          if d = [] then []
          else indent @ quotes @ ''\<newline>''
            @ concat (map (\<lambda>line. indent @ escape_quotes line @ ''\<newline>'') (split_on (CHR ''\<newline>'') d))
            @ indent @ quotes @ ''\<newline>'')"

definition render_deprecation :: "'h http_ext \<Rightarrow> bool \<Rightarrow> string option \<Rightarrow> string" where
  "render_deprecation X is_deprecated reason =
     (if \<not> is_deprecated then []
      else case reason of
             Some r \<Rightarrow> '' @deprecated(reason: '' @ json_str X r @ '')''
           | None \<Rightarrow> '' @deprecated'')"

definition render_input_value :: "input_value \<Rightarrow> (string, string) res" where
  "render_input_value v =
     bind_res (render_type_ref (iv_ty v)) (\<lambda>t.
       Ok (iv_name v @ '': '' @ t @ (case iv_default_value v of Some d \<Rightarrow> '' = '' @ d | None \<Rightarrow> [])))"

definition render_args :: "input_value list \<Rightarrow> (string, string) res" where
  "render_args args =
     (if args = [] then Ok []
      else bind_res (traverse render_input_value args) (\<lambda>rendered. Ok (''('' @ join_strings '', '' rendered @ '')'')))"

definition render_directive :: "introspection_directive \<Rightarrow> (string, string) res" where
  "render_directive d =
     (if dv_name d \<in> set BUILTIN_DIRECTIVES then Ok []
      else if dv_locations d = [] then Err (''directive `@'' @ dv_name d @ ''` reports no locations'')
      else bind_res (render_args (dv_args d)) (\<lambda>args.
             Ok (''\<newline>'' @ push_description (dv_description d) []
               @ ''directive @'' @ dv_name d @ args @ '' on '' @ join_strings '' | '' (dv_locations d) @ ''\<newline>'')))"

definition render_field :: "'h http_ext \<Rightarrow> introspection_field \<Rightarrow> (string, string) res" where
  "render_field X f =
     bind_res (render_args (if_args f)) (\<lambda>args.
     bind_res (render_type_ref (if_ty f)) (\<lambda>t.
       Ok (push_description (if_description f) ''  '' @ ''  '' @ if_name f @ args @ '': '' @ t
         @ render_deprecation X (if_is_deprecated f) (if_deprecation_reason f) @ ''\<newline>'')))"

definition list_or_empty :: "'a list option \<Rightarrow> 'a list" where
  "list_or_empty x = (case x of Some xs \<Rightarrow> xs | None \<Rightarrow> [])"

definition render_object :: "'h http_ext \<Rightarrow> string \<Rightarrow> introspection_type \<Rightarrow> string \<Rightarrow> (string, string) res" where
  "render_object X keyword ty name =
     bind_res (if list_or_empty (it_interfaces ty) = [] then Ok []
               else bind_res (traverse named_type (list_or_empty (it_interfaces ty)))
                      (\<lambda>names. Ok ('' implements '' @ join_strings '' & '' names))) (\<lambda>implements.
     bind_res (if list_or_empty (it_fields ty) = [] then Ok ''\<newline>''
               else bind_res (traverse (render_field X) (list_or_empty (it_fields ty)))
                      (\<lambda>fs. Ok ('' {\<newline>'' @ concat fs @ ''}\<newline>''))) (\<lambda>fs.
       Ok (''\<newline>'' @ push_description (it_description ty) [] @ keyword @ '' '' @ name @ implements @ fs)))"

definition render_type :: "'h http_ext \<Rightarrow> introspection_type \<Rightarrow> (string, string) res" where
  "render_type X ty =
     (case it_name ty of
        None \<Rightarrow> Err ''a schema type has no name''
      | Some name \<Rightarrow>
          (let head = ''\<newline>'' @ push_description (it_description ty) []
           in if prefix ''__'' name then Ok []
              else if it_kind ty = ''SCALAR'' then
                (if name \<in> set BUILTIN_SCALARS then Ok [] else Ok (head @ ''scalar '' @ name @ ''\<newline>''))
              else if it_kind ty = ''OBJECT'' then render_object X ''type'' ty name
              else if it_kind ty = ''INTERFACE'' then render_object X ''interface'' ty name
              else if it_kind ty = ''UNION'' then
                (if list_or_empty (it_possible_types ty) = [] then Err (''union `'' @ name @ ''` reports no member types'')
                 else bind_res (traverse named_type (list_or_empty (it_possible_types ty)))
                        (\<lambda>names. Ok (head @ ''union '' @ name @ '' = '' @ join_strings '' | '' names @ ''\<newline>'')))
              else if it_kind ty = ''ENUM'' then
                Ok (head @ ''enum '' @ name @ '' {\<newline>''
                  @ concat (map (\<lambda>v. push_description (vv_description v) ''  '' @ ''  '' @ vv_name v
                      @ render_deprecation X (vv_is_deprecated v) (vv_deprecation_reason v) @ ''\<newline>'') (list_or_empty (it_enum_values ty)))
                  @ ''}\<newline>'')
              else if it_kind ty = ''INPUT_OBJECT'' then
                bind_res (traverse render_input_value (list_or_empty (it_input_fields ty)))
                  (\<lambda>vs. Ok (head @ ''input '' @ name @ '' {\<newline>'' @ concat (map (\<lambda>v. ''  '' @ v @ ''\<newline>'') vs) @ ''}\<newline>''))
              else Err (''type `'' @ name @ ''` has unknown kind `'' @ it_kind ty @ ''`'')))"

definition render_schema :: "'h http_ext \<Rightarrow> introspection_schema \<Rightarrow> (string, string) res" where
  "render_schema X schema =
     (case is_query_type schema of
        None \<Rightarrow> Err ''introspection reports no query root type''
      | Some query_root \<Rightarrow>
          bind_res (traverse render_directive (is_directives schema)) (\<lambda>directives.
          bind_res (traverse (render_type X) (is_types schema)) (\<lambda>types.
            Ok (''schema {\<newline>  query: '' @ query_root @ ''\<newline>''
              @ (case is_mutation_type schema of Some m \<Rightarrow> ''  mutation: '' @ m @ ''\<newline>'' | None \<Rightarrow> [])
              @ (case is_subscription_type schema of Some s \<Rightarrow> ''  subscription: '' @ s @ ''\<newline>'' | None \<Rightarrow> [])
              @ ''}\<newline>'' @ concat directives @ concat types))))"

definition first_graphql_error :: "json \<Rightarrow> string option" where
  "first_graphql_error response =
     Option.bind (json_get response ''errors'') (\<lambda>e.
     Option.bind (as_array e) (\<lambda>es.
       case es of [] \<Rightarrow> None | x # _ \<Rightarrow> Option.bind (json_get x ''message'') as_str))"

definition introspection_to_sdl :: "'h http_ext \<Rightarrow> (json \<Rightarrow> string + introspection_schema) \<Rightarrow> json \<Rightarrow> (string, string) res" where
  "introspection_to_sdl X from_value response =
     (let found = (case Option.bind (json_get response ''data'') (\<lambda>d. json_get d ''__schema'') of
            Some s \<Rightarrow> Some s
          | None \<Rightarrow> json_get response ''__schema'')
      in case found of
           None \<Rightarrow>
             Err (case first_graphql_error response of
                    Some msg \<Rightarrow> ''introspection failed upstream: '' @ msg
                  | None \<Rightarrow> ''response has no `__schema` (introspection disabled upstream?)'')
         | Some s \<Rightarrow>
             (case from_value s of
                Inl e \<Rightarrow> Err (''response does not match the introspection shape: '' @ e)
              | Inr schema \<Rightarrow> render_schema X schema))"

section \<open>Applying a response\<close>

record ('h, 'schema, 'f) sync_ext =
  yx_from_value :: "json \<Rightarrow> string + introspection_schema"
  yx_compile :: "string \<Rightarrow> string list + 'schema"
  yx_post :: "string \<Rightarrow> (string \<times> string) list \<Rightarrow> duration \<Rightarrow> 'f \<Rightarrow> 'h poll_answer \<times> 'f"
  yx_json :: "string \<Rightarrow> string + json"
  yx_show_error :: "client_error \<Rightarrow> string"
  yx_show_duration :: "duration \<Rightarrow> string"
  yx_show_status :: "nat \<Rightarrow> string"

text \<open>
  What a layer's sync shares: the schema state behind the \<open>ArcSwap\<close>, the status, the stored permit
  of the \<open>Notify\<close>, and whether the route still holds the layer and the target.
\<close>

record ('schema, 'f) schema_sync =
  sy_state :: "'schema schema_state"
  sy_last_success_secs :: nat
  sy_last_error :: "string option"
  sy_permit :: bool
  sy_alive :: bool
  sy_targets :: target_set
  sy_cursor :: u64
  sy_up :: 'f

definition sync_record_success :: "nat \<Rightarrow> ('schema, 'f) schema_sync \<Rightarrow> ('schema, 'f) schema_sync" where
  "sync_record_success now y = y\<lparr>sy_last_success_secs := now, sy_last_error := None\<rparr>"

definition sync_record_error :: "string \<Rightarrow> ('schema, 'f) schema_sync \<Rightarrow> ('schema, 'f) schema_sync" where
  "sync_record_error e y = y\<lparr>sy_last_error := Some e\<rparr>"

record sync_snapshot =
  yn_last_success_unix_secs :: "nat option"
  yn_last_error :: "string option"

definition sync_status :: "('schema, 'f) schema_sync \<Rightarrow> sync_snapshot" where
  "sync_status y =
     \<lparr>yn_last_success_unix_secs = (if sy_last_success_secs y > 0 then Some (sy_last_success_secs y) else None),
      yn_last_error = sy_last_error y\<rparr>"

definition validate_persisted :: "('schema, 'r) graphql_ext \<Rightarrow> 'schema \<Rightarrow> nat \<times> 'r compiled_persisted \<Rightarrow> (string, document) res" where
  "validate_persisted G schema ip =
     (case ip of (index, p) \<Rightarrow>
        (case gx_document G schema (cp_query p) of
           Inr doc \<Rightarrow> Ok doc
         | Inl messages \<Rightarrow>
             Err (''persisted query ['' @ show_nat index @ ''] is not valid against the introspected schema: '' @ join_strings ''; '' messages)))"

definition apply_introspection :: "'h http_ext \<Rightarrow> ('schema, 'r) graphql_ext \<Rightarrow> ('h, 'schema, 'f) sync_ext \<Rightarrow> (string \<Rightarrow> string) \<Rightarrow>
    'r graphql_shared \<Rightarrow> nat \<Rightarrow> json \<Rightarrow> ('schema, 'f) schema_sync \<Rightarrow> (string, bool) res \<times> ('schema, 'f) schema_sync" where
  "apply_introspection X G Y sha256 shared now response y =
     (case introspection_to_sdl X (yx_from_value Y) response of
        Err e \<Rightarrow> (Err e, y)
      | Panic \<Rightarrow> (Panic, y)
      | Ok sdl \<Rightarrow>
          if ss_sdl (sy_state y) = sdl then (Ok False, sync_record_success now y)
          else case yx_compile Y sdl of
                 Inl messages \<Rightarrow> (Err (''the introspected schema does not compile: '' @ join_strings ''; '' messages), y)
               | Inr schema \<Rightarrow>
                   (case traverse (validate_persisted G schema) (List.enumerate 0 (gs_persisted shared)) of
                      Err e \<Rightarrow> (Err e, y)
                    | Panic \<Rightarrow> (Panic, y)
                    | Ok docs \<Rightarrow>
                        (Ok True, sync_record_success now (y\<lparr>sy_state := schema_state_new sha256 sdl schema docs\<rparr>))))"

section \<open>The refresher\<close>

definition MAX_INTROSPECTION_BYTES :: nat where
  "MAX_INTROSPECTION_BYTES = 4 * 1024 * 1024"

record sync_request =
  sr_fixed_uri :: "string option"
  sr_headers :: "(string \<times> string) list"
  sr_timeout :: duration

definition introspection_uri :: "upstream_addr \<Rightarrow> string" where
  "introspection_uri addr =
     ua_scheme addr @ ''://'' @ ua_authority addr @ (if ua_base_path addr = [] then ''/'' else ua_base_path addr)"

definition read_introspection :: "'h http_ext \<Rightarrow> ('schema, 'r) graphql_ext \<Rightarrow> ('h, 'schema, 'f) sync_ext \<Rightarrow> (string \<Rightarrow> string) \<Rightarrow>
    'r graphql_shared \<Rightarrow> nat \<Rightarrow> 'h response \<Rightarrow> ('schema, 'f) schema_sync \<Rightarrow> (string, bool) res \<times> ('schema, 'f) schema_sync" where
  "read_introspection X G Y sha256 shared now resp y =
     (if \<not> (200 \<le> rs_status resp \<and> rs_status resp < 300)
      then (Err (''introspection endpoint answered '' @ yx_show_status Y (rs_status resp)), y)
      else case collect_limited MAX_INTROSPECTION_BYTES (bd_frames (rs_body resp)) (bd_error (rs_body resp)) of
             Inl e \<Rightarrow> (Err (''reading introspection body failed: '' @ yx_show_error Y e), y)
           | Inr (bytes, _) \<Rightarrow>
               (case yx_json Y bytes of
                  Inl e \<Rightarrow> (Err (''introspection response is not JSON: '' @ e), y)
                | Inr doc \<Rightarrow> apply_introspection X G Y sha256 shared now doc y))"

definition fetch_and_apply :: "'h http_ext \<Rightarrow> ('schema, 'r) graphql_ext \<Rightarrow> ('h, 'schema, 'f) sync_ext \<Rightarrow> (string \<Rightarrow> string) \<Rightarrow>
    'r graphql_shared \<Rightarrow> sync_request \<Rightarrow> nat \<Rightarrow> ('schema, 'f) schema_sync \<Rightarrow> (string, bool) res \<times> ('schema, 'f) schema_sync" where
  "fetch_and_apply X G Y sha256 shared request now y =
     (let (uri, y1) =
            (case sr_fixed_uri request of
               Some u \<Rightarrow> (Some u, y)
             | None \<Rightarrow>
                 (case next_addr (sy_targets y) (sy_cursor y) of (i, cur) \<Rightarrow>
                    (map_option (\<lambda>i. introspection_uri (ts_addrs (sy_targets y) ! i)) i, y\<lparr>sy_cursor := cur\<rparr>)))
      in case uri of
           None \<Rightarrow> (Panic, y1)
         | Some u \<Rightarrow>
             (case yx_post Y u (sr_headers request) (sr_timeout request) (sy_up y1) of
                (PollTimedOut, f) \<Rightarrow> (Err (''introspection timed out after '' @ yx_show_duration Y (sr_timeout request)), y1\<lparr>sy_up := f\<rparr>)
              | (PollFailed e, f) \<Rightarrow> (Err (''introspection request failed: '' @ e), y1\<lparr>sy_up := f\<rparr>)
              | (PollAnswered resp, f) \<Rightarrow> read_introspection X G Y sha256 shared now resp (y1\<lparr>sy_up := f\<rparr>)))"

text \<open>One cycle; \<open>False\<close> ends the task.\<close>

definition sync_once :: "'h http_ext \<Rightarrow> ('schema, 'r) graphql_ext \<Rightarrow> ('h, 'schema, 'f) sync_ext \<Rightarrow> (string \<Rightarrow> string) \<Rightarrow>
    'r graphql_shared \<Rightarrow> sync_request \<Rightarrow> nat \<Rightarrow> ('schema, 'f) schema_sync \<Rightarrow> bool \<times> ('schema, 'f) schema_sync" where
  "sync_once X G Y sha256 shared request now y =
     (if \<not> sy_alive y then (False, y)
      else case fetch_and_apply X G Y sha256 shared request now y of
             (Ok _, y1) \<Rightarrow> (True, y1)
           | (Err e, y1) \<Rightarrow> (True, sync_record_error e y1)
           | (Panic, y1) \<Rightarrow> (False, y1))"

text \<open>
  The task and what happens beside it. It fetches, then waits for the interval or a permit, whichever \<open>select!\<close> takes; a
  nudge (\<open>trigger\<close>) wakes a waiting task and stores one permit otherwise; the route may be dropped;
  the checker and discovery may replace the target set.
\<close>

datatype phase = Fetching | Waiting | Ended

inductive sync_step :: "'h http_ext \<Rightarrow> ('schema, 'r) graphql_ext \<Rightarrow> ('h, 'schema, 'f) sync_ext \<Rightarrow> (string \<Rightarrow> string) \<Rightarrow>
    'r graphql_shared \<Rightarrow> sync_request \<Rightarrow> phase \<times> ('schema, 'f) schema_sync \<Rightarrow> phase \<times> ('schema, 'f) schema_sync \<Rightarrow> bool"
  for X G Y sha256 shared request where
  fetch: "sync_once X G Y sha256 shared request now y = (True, y') \<Longrightarrow>
    sync_step X G Y sha256 shared request (Fetching, y) (Waiting, y')"
| over: "sync_once X G Y sha256 shared request now y = (False, y') \<Longrightarrow>
    sync_step X G Y sha256 shared request (Fetching, y) (Ended, y')"
| permit: "sy_permit y \<Longrightarrow> sync_step X G Y sha256 shared request (Waiting, y) (Fetching, y\<lparr>sy_permit := False\<rparr>)"
| elapsed: "sync_step X G Y sha256 shared request (Waiting, y) (Fetching, y)"
| trigger: "sync_step X G Y sha256 shared request (ph, y) (ph, y\<lparr>sy_permit := True\<rparr>)"
| dropped: "sync_step X G Y sha256 shared request (ph, y) (ph, y\<lparr>sy_alive := False\<rparr>)"
| targets: "ts_addrs ts \<noteq> [] \<Longrightarrow> sync_step X G Y sha256 shared request (ph, y) (ph, y\<lparr>sy_targets := ts, sy_cursor := cur\<rparr>)"

section \<open>Lemmas\<close>

text \<open>The parts of a schema state belong together.\<close>

definition schema_consistent :: "('schema, 'r) graphql_ext \<Rightarrow> ('h, 'schema, 'f) sync_ext \<Rightarrow> (string \<Rightarrow> string) \<Rightarrow> 'r graphql_shared \<Rightarrow>
    'schema schema_state \<Rightarrow> bool" where
  "schema_consistent G Y sha256 shared st \<longleftrightarrow>
     yx_compile Y (ss_sdl st) = Inr (ss_schema st) \<and> ss_sdl_hash st = hash_key sha256 (ss_sdl st)
     \<and> length (ss_persisted_docs st) = length (gs_persisted shared)
     \<and> (\<forall>i < length (gs_persisted shared). gx_document G (ss_schema st) (cp_query (gs_persisted shared ! i)) = Inr (ss_persisted_docs st ! i))"

lemma validate_persisted_Ok:
  assumes "traverse (validate_persisted G schema) (List.enumerate 0 ps) = Ok docs"
  shows "length docs = length ps" "i < length ps \<Longrightarrow> gx_document G schema (cp_query (ps ! i)) = Inr (docs ! i)"
proof -
  have l: "list_all2 (\<lambda>ip d. validate_persisted G schema ip = Ok d) (List.enumerate 0 ps) docs" using assms by (simp add: traverse_Ok)
  then show "length docs = length ps" by (auto dest: list_all2_lengthD)
  show "gx_document G schema (cp_query (ps ! i)) = Inr (docs ! i)" if "i < length ps"
    using list_all2_nthD [OF l, of i] that by (auto simp: nth_enumerate_eq validate_persisted_def split: sum.splits)
qed

lemma apply_introspection_cases:
  assumes "apply_introspection X G Y sha shared now response y = (r, y')"
  shows "(\<exists>e. r = Err e \<and> y' = y) \<or> (r = Panic \<and> y' = y)
    \<or> (r = Ok False \<and> y' = sync_record_success now y \<and> introspection_to_sdl X (yx_from_value Y) response = Ok (ss_sdl (sy_state y)))
    \<or> (\<exists>sdl schema docs. r = Ok True \<and> introspection_to_sdl X (yx_from_value Y) response = Ok sdl
         \<and> y' = sync_record_success now (y\<lparr>sy_state := schema_state_new sha sdl schema docs\<rparr>)
         \<and> schema_consistent G Y sha shared (schema_state_new sha sdl schema docs))"
  using assms
  by (auto simp: apply_introspection_def schema_consistent_def schema_state_new_def validate_persisted_Ok
      split: res.splits if_splits sum.splits)

text \<open>What a cycle leaves: a failure only its message; a success a cleared error and either the state it found or a fresh consistent one.\<close>

lemma read_introspection_cases:
  assumes "read_introspection X G Y sha shared now resp y = (r, y')"
  shows "((\<exists>e. r = Err e) \<or> r = Panic) \<and> y' = y
    \<or> (\<exists>b. r = Ok b) \<and> sy_last_error y' = None \<and> sy_last_success_secs y' = now \<and> 200 \<le> rs_status resp \<and> rs_status resp < 300
      \<and> sy_targets y' = sy_targets y \<and> (sy_state y' = sy_state y \<or> schema_consistent G Y sha shared (sy_state y'))"
proof (cases "\<exists>doc. 200 \<le> rs_status resp \<and> rs_status resp < 300 \<and> apply_introspection X G Y sha shared now doc y = (r, y')")
  case True
  then obtain doc where "200 \<le> rs_status resp" "rs_status resp < 300" "apply_introspection X G Y sha shared now doc y = (r, y')" by blast
  with apply_introspection_cases [OF this(3)] show ?thesis by (auto simp: sync_record_success_def)
next
  case False
  with assms show ?thesis by (auto simp: read_introspection_def split: if_splits sum.splits prod.splits)
qed

lemma fetch_and_apply_cases:
  assumes "fetch_and_apply X G Y sha shared request now y = (r, y')"
  shows "((\<exists>e. r = Err e) \<or> r = Panic) \<and> sy_state y' = sy_state y \<and> sy_last_error y' = sy_last_error y
      \<and> sy_last_success_secs y' = sy_last_success_secs y
    \<or> (\<exists>b. r = Ok b) \<and> sy_last_error y' = None \<and> sy_last_success_secs y' = now
      \<and> (sy_state y' = sy_state y \<or> schema_consistent G Y sha shared (sy_state y'))"
proof -
  obtain uri y1 where u: "(case sr_fixed_uri request of
       Some u \<Rightarrow> (Some u, y)
     | None \<Rightarrow> (case next_addr (sy_targets y) (sy_cursor y) of (i, cur) \<Rightarrow>
          (map_option (\<lambda>i. introspection_uri (ts_addrs (sy_targets y) ! i)) i, y\<lparr>sy_cursor := cur\<rparr>))) = (uri, y1)" by fastforce
  have y1: "sy_state y1 = sy_state y" "sy_last_error y1 = sy_last_error y" "sy_last_success_secs y1 = sy_last_success_secs y"
    using u by (auto split: option.splits prod.splits)
  show ?thesis
  proof (cases uri)
    case None
    with assms u y1 show ?thesis by (simp add: fetch_and_apply_def)
  next
    case (Some v)
    obtain a f where p: "yx_post Y v (sr_headers request) (sr_timeout request) (sy_up y1) = (a, f)" by fastforce
    show ?thesis
    proof (cases a)
      case (PollAnswered resp)
      with assms u Some p have "read_introspection X G Y sha shared now resp (y1\<lparr>sy_up := f\<rparr>) = (r, y')" by (simp add: fetch_and_apply_def)
      from read_introspection_cases [OF this] y1 show ?thesis by auto
    qed (use assms u Some p y1 in \<open>auto simp: fetch_and_apply_def\<close>)
  qed
qed

lemma sync_once_state:
  assumes "sync_once X G Y sha shared request now y = (go, y')"
  shows "sy_state y' = sy_state y \<or> schema_consistent G Y sha shared (sy_state y')"
proof (cases "sy_alive y")
  case True
  obtain r y1 where f: "fetch_and_apply X G Y sha shared request now y = (r, y1)" by fastforce
  with assms True have "sy_state y' = sy_state y1" by (auto simp: sync_once_def sync_record_error_def split: res.splits)
  with fetch_and_apply_cases [OF f] show ?thesis by auto
qed (use assms in \<open>simp add: sync_once_def\<close>)

lemma sync_step_consistent:
  assumes "sync_step X G Y sha shared request p q" and "schema_consistent G Y sha shared (sy_state (snd p))"
  shows "schema_consistent G Y sha shared (sy_state (snd q))"
  using assms by cases (auto dest: sync_once_state)

lemma sync_run_consistent:
  "(sync_step X G Y sha shared request)\<^sup>*\<^sup>* p q \<Longrightarrow> schema_consistent G Y sha shared (sy_state (snd p)) \<Longrightarrow>
   schema_consistent G Y sha shared (sy_state (snd q))"
  by (induction rule: rtranclp_induct) (auto intro: sync_step_consistent)

lemma find_persisted_index:
  "find_persisted G req ps n = Some (index, p, caps) \<Longrightarrow> n \<le> index \<and> index - n < length ps \<and> ps ! (index - n) = p"
proof (induction ps arbitrary: n)
  case (Cons a ps)
  then show ?case
    by (cases "cp_method a = rq_method req \<and> gx_captures G (cp_regex a) (rq_path req) \<noteq> None")
       (force simp: Suc_diff_le less_Suc_eq_0_disj nth_Cons' split: if_splits option.splits)+
qed simp

subsection \<open>Descriptions\<close>

text \<open>
  Reading a block string (GraphQL specification 2.9.4): it ends at the first three quotes that
  are not escaped, and an escaped triple stands for itself. The result is the text of the
  string, before common indentation is taken off, and what follows the string.
\<close>

definition read_on :: "string \<Rightarrow> (string \<times> string) option \<Rightarrow> (string \<times> string) option" where
  "read_on t x = (case x of None \<Rightarrow> None | Some (u, rest) \<Rightarrow> Some (t @ u, rest))"

function block_read :: "string \<Rightarrow> (string \<times> string) option" where
  "block_read s =
     (if prefix (CHR 0x5C # quotes) s then read_on quotes (block_read (drop 4 s))
      else if prefix quotes s then Some ([], drop 3 s)
      else case s of [] \<Rightarrow> None | c # cs \<Rightarrow> read_on [c] (block_read cs))"
  by pat_completeness auto
termination by (relation "measure length") (auto simp: quotes_def prefix_def)

lemma read_on_simps [simp]:
  "read_on t (read_on u x) = read_on (t @ u) x" "read_on [] x = x" "read_on t (Some (u, rest)) = Some (t @ u, rest)"
  by (auto simp: read_on_def split: option.splits)

declare escape_quotes.simps [simp del] block_read.simps [simp del]

lemma escape_quotes_unfold:
  "escape_quotes [] = []"
  "prefix quotes s \<Longrightarrow> escape_quotes s = CHR 0x5C # quotes @ escape_quotes (drop 3 s)"
  "\<not> prefix quotes (c # cs) \<Longrightarrow> escape_quotes (c # cs) = c # escape_quotes cs"
  by (subst escape_quotes.simps, simp add: quotes_def) (subst escape_quotes.simps, simp)+

text \<open>Escaped text has no three quotes at its start, and none that run into the line break after it.\<close>

lemma escape_quotes_head: "\<not> prefix quotes (escape_quotes s @ CHR ''\<newline>'' # r)"
proof (cases "prefix quotes s")
  case True
  then show ?thesis by (simp add: escape_quotes_unfold quotes_def)
next
  case a: False
  show ?thesis
  proof (cases s)
    case (Cons c cs)
    show ?thesis
    proof (cases "prefix quotes cs \<or> cs = []")
      case True
      then show ?thesis using a Cons by (auto simp: escape_quotes_unfold quotes_def)
    next
      case b: False
      then obtain d ds where cs: "cs = d # ds" by (cases cs) auto
      show ?thesis
      proof (cases "prefix quotes ds \<or> ds = []")
        case True
        then show ?thesis using a b Cons cs by (auto simp: escape_quotes_unfold quotes_def)
      next
        case c: False
        then obtain e es where "ds = e # es" by (cases ds) auto
        then show ?thesis using a b c Cons cs by (simp add: escape_quotes_unfold) (simp add: quotes_def)
      qed
    qed
  qed (simp add: escape_quotes_unfold quotes_def)
qed

lemma block_read_skip:
  "\<not> prefix quotes (c # cs) \<Longrightarrow> \<not> prefix quotes cs \<Longrightarrow> block_read (c # cs) = read_on [c] (block_read cs)"
  by (subst block_read.simps) (auto simp: quotes_def)

lemma block_read_escaped: "block_read (escape_quotes s @ CHR ''\<newline>'' # r) = read_on s (block_read (CHR ''\<newline>'' # r))"
proof (induction s rule: escape_quotes.induct)
  case (1 s)
  show ?case
  proof (cases "prefix quotes s")
    case True
    then have s: "quotes @ drop 3 s = s" by (auto simp: prefix_def quotes_def)
    have "block_read (escape_quotes s @ CHR ''\<newline>'' # r)
        = read_on quotes (block_read (escape_quotes (drop 3 s) @ CHR ''\<newline>'' # r))"
      using True by (subst block_read.simps) (simp add: escape_quotes_unfold quotes_def)
    then show ?thesis using 1(1) [OF True] by (simp add: s)
  next
    case False
    show ?thesis
    proof (cases s)
      case Nil
      then show ?thesis by (simp add: escape_quotes_unfold)
    next
      case (Cons c cs)
      have "\<not> prefix quotes (c # escape_quotes cs @ CHR ''\<newline>'' # r)"
        using escape_quotes_head [of s r] False Cons by (simp add: escape_quotes_unfold)
      from block_read_skip [OF this escape_quotes_head] 1(2) [OF False Cons] show ?thesis
        using False Cons by (simp add: escape_quotes_unfold)
    qed
  qed
qed

lemma block_read_plain: "CHR 0x22 \<notin> set t \<Longrightarrow> CHR 0x5C \<notin> set t \<Longrightarrow> block_read (t @ r) = read_on t (block_read r)"
proof (induction t)
  case Nil
  then show ?case by simp
next
  case (Cons c t)
  then have "block_read (c # t @ r) = read_on [c] (block_read (t @ r))"
    by (subst block_read.simps) (auto simp: quotes_def)
  with Cons show ?case by simp
qed

text \<open>The text of a description as it stands in the block string: each line on its own, indented.\<close>

definition block_lines :: "string \<Rightarrow> string list \<Rightarrow> string" where
  "block_lines indent ls = concat (map (\<lambda>l. indent @ l @ ''\<newline>'') ls)"

lemma block_read_lines:
  assumes "CHR 0x22 \<notin> set indent" and "CHR 0x5C \<notin> set indent"
  shows "block_read (concat (map (\<lambda>line. indent @ escape_quotes line @ ''\<newline>'') ls) @ r) = read_on (block_lines indent ls) (block_read r)"
proof (induction ls)
  case Nil
  then show ?case by (simp add: block_lines_def)
next
  case (Cons l ls)
  let ?rest = "concat (map (\<lambda>line. indent @ escape_quotes line @ ''\<newline>'') ls) @ r"
  have "block_read (indent @ escape_quotes l @ CHR ''\<newline>'' # ?rest) = read_on (indent @ l) (block_read (CHR ''\<newline>'' # ?rest))"
    by (simp add: block_read_plain [OF assms] block_read_escaped)
  also have "block_read (CHR ''\<newline>'' # ?rest) = read_on ''\<newline>'' (block_read ?rest)"
    using block_read_plain [of "''\<newline>''" ?rest] by simp
  finally show ?case using Cons.IH by (simp add: block_lines_def)
qed

lemma push_description_contained:
  assumes "CHR 0x22 \<notin> set indent" and "CHR 0x5C \<notin> set indent" and "d \<noteq> []"
  shows "\<exists>body. push_description (Some d) indent = indent @ quotes @ body
    \<and> (\<forall>r. block_read (body @ r) = Some (''\<newline>'' @ block_lines indent (split_on (CHR ''\<newline>'') d) @ indent, ''\<newline>'' @ r))"
proof -
  let ?body = "''\<newline>'' @ concat (map (\<lambda>line. indent @ escape_quotes line @ ''\<newline>'') (split_on (CHR ''\<newline>'') d)) @ indent @ quotes @ ''\<newline>''"
  have "block_read (?body @ r) = Some (''\<newline>'' @ block_lines indent (split_on (CHR ''\<newline>'') d) @ indent, ''\<newline>'' @ r)" for r
  proof -
    have "block_read (quotes @ CHR ''\<newline>'' # r) = Some ([], CHR ''\<newline>'' # r)"
      by (subst block_read.simps) (simp add: quotes_def)
    then show ?thesis
      using block_read_plain [of "''\<newline>''"] block_read_lines [OF assms(1,2)] block_read_plain [OF assms(1,2)] by simp
  qed
  then show ?thesis using assms(3) unfolding push_description_def by (intro exI [of _ ?body]) simp
qed

subsection \<open>Type references\<close>

text \<open>The types of the schema language: a reference without the members its kind does not use.\<close>

datatype gtype = Named string | ListOf gtype | NonNull gtype

fun gtype_of :: "type_ref \<Rightarrow> gtype option" where
  "gtype_of (TypeRef kind name of_type) =
     (if kind = ''NON_NULL'' then (case of_type of None \<Rightarrow> None | Some inner \<Rightarrow> map_option NonNull (gtype_of inner))
      else if kind = ''LIST'' then (case of_type of None \<Rightarrow> None | Some inner \<Rightarrow> map_option ListOf (gtype_of inner))
      else map_option Named name)"

function read_type :: "string \<Rightarrow> gtype" where
  "read_type t =
     (if t \<noteq> [] \<and> last t = CHR ''!'' then NonNull (read_type (butlast t))
      else if t \<noteq> [] \<and> hd t = CHR ''['' \<and> last t = CHR '']'' then ListOf (read_type (butlast (tl t)))
      else Named t)"
  by pat_completeness auto
termination by (relation "measure length") (auto simp: diff_less_Suc less_imp_diff_less)

declare read_type.simps [simp del]

fun names_plain :: "gtype \<Rightarrow> bool" where
  "names_plain (Named n) = (n \<noteq> [] \<and> set n \<inter> {CHR ''!'', CHR ''['', CHR '']''} = {})"
| "names_plain (ListOf t) = names_plain t"
| "names_plain (NonNull t) = names_plain t"

text \<open>Names of the schema language have none of the three characters (specification 2.1.9).\<close>

lemma read_plain_name: "names_plain (Named n) \<Longrightarrow> read_type n = Named n"
proof -
  assume p: "names_plain (Named n)"
  then have "last n \<in> set n" "set n \<inter> {CHR ''!'', CHR ''['', CHR '']''} = {}" by (auto intro: last_in_set)
  then have "last n \<noteq> CHR ''!''" "last n \<noteq> CHR '']''" by blast+
  then show ?thesis by (subst read_type.simps) simp
qed

lemma render_type_ref_reads:
  "gtype_of r = Some g \<Longrightarrow> names_plain g \<Longrightarrow> \<exists>t. render_type_ref r = Ok t \<and> read_type t = g"
proof (induction r arbitrary: g rule: gtype_of.induct)
  case (1 kind name of_type)
  consider (nn) inner h where "kind = ''NON_NULL''" "of_type = Some inner" "gtype_of inner = Some h" "g = NonNull h"
    | (list) inner h where "kind = ''LIST''" "of_type = Some inner" "gtype_of inner = Some h" "g = ListOf h"
    | (named) n where "kind \<notin> {''NON_NULL'', ''LIST''}" "name = Some n" "g = Named n"
    using 1(3) by (auto split: if_splits option.splits)
  then show ?case
  proof cases
    case nn
    then obtain t where "render_type_ref inner = Ok t" "read_type t = h" using 1 by fastforce
    then show ?thesis using nn by (simp add: bind_res_def read_type.simps [of "t @ ''!''"])
  next
    case list
    then obtain t where "render_type_ref inner = Ok t" "read_type t = h" using 1 by fastforce
    then show ?thesis using list by (simp add: bind_res_def read_type.simps [of "CHR ''['' # t @ '']''"])
  next
    case named
    then show ?thesis using 1(4) read_plain_name by simp
  qed
qed

lemma render_type_ref_partial: "gtype_of r = None \<Longrightarrow> \<exists>e. render_type_ref r = Err e"
  by (induction r rule: gtype_of.induct) (fastforce simp: bind_res_def split: if_splits option.splits)

text \<open>
  The names of an introspection answer are not checked: a type named \<open>A!\<close> is rendered as it
  stands and reads back as the non-null type of \<open>A\<close>.
\<close>

lemma unchecked_name_misread:
  "render_type_ref (TypeRef ''OBJECT'' (Some ''A!'') None) = Ok ''A!''"
  "gtype_of (TypeRef ''OBJECT'' (Some ''A!'') None) = Some (Named ''A!'')"
  "read_type ''A!'' = NonNull (Named ''A'')"
  by (simp, simp) (simp add: read_type.simps)

section \<open>Properties\<close>

text \<open>
  C39. The schema state is always one piece. However introspection responses, nudges, reloads and
  changes of the target set interleave, the compiled schema is that of its SDL text, its hash is
  that of the text, and there is one validated document per persisted operation, at its index:
  a request for a persisted operation finds the document of exactly its own operation, parsed
  against the schema in force, and never panics.
\<close>

theorem synced_schema_consistent:
  assumes "(sync_step X G Y sha shared request)\<^sup>*\<^sup>* (Fetching, y0) (ph, y)" and "schema_consistent G Y sha shared (sy_state y0)"
  shows "schema_consistent G Y sha shared (sy_state y)
    \<and> (\<forall>req index p caps. find_persisted G req (gs_persisted shared) 0 = Some (index, p, caps) \<longrightarrow>
        index < length (ss_persisted_docs (sy_state y))
        \<and> gx_document G (ss_schema (sy_state y)) (cp_query p) = Inr (ss_persisted_docs (sy_state y) ! index))"
proof -
  have c: "schema_consistent G Y sha shared (sy_state y)" using sync_run_consistent [OF assms(1)] assms(2) by simp
  then show ?thesis by (auto simp: schema_consistent_def dest!: find_persisted_index)
qed

text \<open>
  A failed sync changes nothing but the recorded error. After a cycle either the error is cleared
  and the time of success recorded, and the state is the one before or a consistent new one, or
  an error is recorded and the schema and the time of the last success are those before.
\<close>

theorem sync_stale_on_error:
  assumes "sync_once X G Y sha shared request now y = (True, y')"
  shows "sy_last_error y' = None \<and> sy_last_success_secs y' = now
      \<and> (sy_state y' = sy_state y \<or> schema_consistent G Y sha shared (sy_state y'))
    \<or> sy_last_error y' \<noteq> None \<and> sy_state y' = sy_state y \<and> sy_last_success_secs y' = sy_last_success_secs y"
proof -
  obtain r y1 where f: "fetch_and_apply X G Y sha shared request now y = (r, y1)" by fastforce
  have a: "sy_alive y" using assms by (auto simp: sync_once_def split: if_splits)
  from fetch_and_apply_cases [OF f] assms a f show ?thesis
    by (auto simp: sync_once_def sync_record_error_def split: res.splits)
qed


definition sample_persisted :: "string compiled_persisted" where
  "sample_persisted = \<lparr>cp_method = ''GET'', cp_regex = ''/p'', cp_query = ''q'', cp_operation_name = None, cp_variables = None\<rparr>"

definition sync_shared :: "string graphql_shared" where
  "sync_shared = (sample_shared None)\<lparr>gs_persisted := [sample_persisted]\<rparr>"

definition sample_sync :: "alist_headers poll_answer \<Rightarrow> (alist_headers, nat, unit) sync_ext" where
  "sample_sync answer =
     \<lparr>yx_from_value = (\<lambda>_. Inr \<lparr>is_query_type = Some ''Query'', is_mutation_type = None, is_subscription_type = None, is_types = [],
        is_directives = []\<rparr>),
      yx_compile = (\<lambda>_. Inr 0), yx_post = (\<lambda>_ _ _ f. (answer, f)), yx_json = (\<lambda>_. Inr (JObject [(''__schema'', JNull)])),
      yx_show_error = (\<lambda>_. ''e''), yx_show_duration = (\<lambda>_. ''1s''), yx_show_status = show_nat\<rparr>"

definition sample_introspection :: sync_request where
  "sample_introspection = \<lparr>sr_fixed_uri = Some ''http://u/'', sr_headers = [], sr_timeout = 1\<rparr>"

definition sync_seed :: "(nat, unit) schema_sync" where
  "sync_seed = \<lparr>sy_state = schema_state_new id ''seed'' 0 [sample_document], sy_last_success_secs = 0, sy_last_error = None, sy_permit = False,
     sy_alive = True, sy_targets = \<lparr>ts_gen = 0, ts_addrs = [], ts_health = None\<rparr>, sy_cursor = 0, sy_up = ()\<rparr>"

abbreviation rendered_sdl :: string where
  "rendered_sdl \<equiv> ''schema {\<newline>  query: Query\<newline>}\<newline>''"

lemma sample_sync_once:
  "sync_once alist_ext sample_graphql (sample_sync (PollAnswered (response_new alist_ext body_empty))) id sync_shared sample_introspection 7 sync_seed
   = (True, sync_seed\<lparr>sy_state := schema_state_new id rendered_sdl 0 [sample_document], sy_last_success_secs := 7\<rparr>)"
  by (simp add: sync_once_def fetch_and_apply_def read_introspection_def apply_introspection_def introspection_to_sdl_def render_schema_def
      sample_sync_def sample_introspection_def sync_seed_def response_new_def body_empty_def sync_shared_def sample_shared_def
      validate_persisted_def sample_graphql_def sync_record_success_def schema_state_new_def bind_res_def)

theorem synced_schema_consistent_witness:
  "\<exists>y. (sync_step alist_ext sample_graphql (sample_sync (PollAnswered (response_new alist_ext body_empty))) id sync_shared sample_introspection)\<^sup>*\<^sup>*
      (Fetching, sync_seed) (Waiting, y)
    \<and> ss_sdl (sy_state y) = rendered_sdl \<and> ss_persisted_docs (sy_state y) = [sample_document]
    \<and> gx_document sample_graphql (ss_schema (sy_state y)) ''q'' = Inr sample_document"
proof -
  let ?Y = "sample_sync (PollAnswered (response_new alist_ext body_empty))"
  let ?y = "sync_seed\<lparr>sy_state := schema_state_new id rendered_sdl 0 [sample_document], sy_last_success_secs := 7\<rparr>"
  have run: "(sync_step alist_ext sample_graphql ?Y id sync_shared sample_introspection)\<^sup>*\<^sup>* (Fetching, sync_seed) (Waiting, ?y)"
    by (rule r_into_rtranclp [of "sync_step alist_ext sample_graphql ?Y id sync_shared sample_introspection"]) (rule sync_step.fetch [OF sample_sync_once])
  have c: "schema_consistent sample_graphql ?Y id sync_shared (sy_state sync_seed)"
    by (simp add: schema_consistent_def sample_sync_def sync_seed_def schema_state_new_def sync_shared_def sample_graphql_def)
  have f: "find_persisted sample_graphql (sample_request ''GET'' ''/p'') (gs_persisted sync_shared) 0 = Some (0, sample_persisted, \<lambda>_. None)"
    by (simp add: sync_shared_def sample_persisted_def sample_request_def sample_graphql_def)
  from synced_schema_consistent [OF run c, THEN conjunct2, rule_format, OF f]
  have "gx_document sample_graphql (ss_schema (sy_state ?y)) ''q'' = Inr sample_document"
    by (simp add: sample_persisted_def schema_state_new_def)
  with run show ?thesis by (intro exI [of _ ?y]) (simp add: schema_state_new_def)
qed

theorem sync_stale_on_error_witness:
  "\<exists>y. sync_once alist_ext sample_graphql (sample_sync PollTimedOut) id sync_shared sample_introspection 7 sync_seed = (True, y)
     \<and> sy_last_error y = Some ''introspection timed out after 1s'' \<and> sy_state y = sy_state sync_seed"
proof -
  have s: "sync_once alist_ext sample_graphql (sample_sync PollTimedOut) id sync_shared sample_introspection 7 sync_seed
      = (True, sync_seed\<lparr>sy_last_error := Some ''introspection timed out after 1s''\<rparr>)"
    by (simp add: sync_once_def fetch_and_apply_def sample_sync_def sample_introspection_def sync_seed_def sync_record_error_def)
  from sync_stale_on_error [OF s] s show ?thesis by simp
qed


end
