(* ===== verification/Spec2Isabelle.thy ===== *)
theory Spec2Isabelle
  imports Server Graphql_Sync
begin

text \<open>
  \<^bold>\<open>g2way, an API gateway in Rust.\<close> A request arrives at the gateway (\<open>g2-proxy/src/gateway.rs\<close>), which
  answers health checks itself, picks the most specific route of its table and runs that
  route's chain of middleware. The chain (\<open>g2-middleware/src/chain.rs\<close>) is built once per
  configuration from an API definition (\<open>g2-core\<close>): an outer stack (tracing, metrics,
  counters, analytics, request context, address filter, CORS), then, once per API or once per
  version behind a dispatcher, an inner stack (path policy, size limit, plugins,
  authentication, rate limiting, plugins, GraphQL, header and body transforms, mocks, cache,
  the API-id header), then the forwarder (\<open>g2-proxy/src/forward.rs\<close>), which picks an upstream
  address, retries, and keeps a circuit breaker. Sessions, policies, counters and cached
  responses live in a store (\<open>g2-storage\<close>); records of the traffic leave through a bounded
  channel and a worker (\<open>g2-telemetry\<close>).

  \<^bold>\<open>Theories and sources.\<close> Paths are below \<open>src/crates/\<close>.

  \<^item> \<open>Prelude\<close>: results with panics, saturating and wrapping integers, time, the string
    operations of the standard library, hash maps, lemma collections.
  \<^item> \<open>Storage\<close>, \<open>Memory_Storage\<close>: the store interface (\<open>g2-storage/src/lib.rs\<close>) as a record of
    operations with its contracts as locales, and the in-memory store (\<open>memory.rs\<close>) that
    interprets them; C3, C22.
  \<^item> \<open>Breaker\<close>, \<open>Spike_Guard\<close>: lock-free state machines (\<open>g2-proxy/src/breaker.rs\<close>,
    \<open>g2-middleware/src/spike.rs\<close>), sequentially and as interleavings of their atomic accesses;
    C5, C21.
  \<^item> \<open>Upstream\<close>: addresses, rotation, health checks (\<open>forward.rs\<close>, \<open>health.rs\<close>); used by the
    forwarder and by discovery.
  \<^item> \<open>Session\<close>: key sessions and policies (\<open>g2-core/src/session.rs\<close>, \<open>policy.rs\<close>).
  \<^item> \<open>Http\<close>: requests, responses, streaming bodies, services and layers, with the \<open>http\<close> and
    \<open>regex\<close> crates as parameters under the locale \<open>header_map\<close>.
  \<^item> \<open>Endpoints\<close>, \<open>Rate_Limit\<close>, \<open>Path_Policy\<close>, \<open>Transform\<close>, \<open>Cors\<close>, \<open>Rewrite\<close>: the rules of an API, the
    layers that enforce them and the rewriting of upstream requests; C6, C18 to C20, C31, C32.
  \<^item> \<open>Auth_Config\<close>, \<open>Api_Definition\<close>: definitions, validation, versions and the upstream target
    (\<open>g2-core/src/api_definition.rs\<close>, \<open>versioning.rs\<close>); C33.
  \<^item> \<open>Router\<close>: sources of definitions, their merge, the route table, the entry point; C27.
  \<^item> \<open>Forward\<close>: one proxied exchange with retries, timeout, breaker and upgrades; C4, C8.
  \<^item> \<open>Hmac\<close>, \<open>Json\<close>, \<open>Jwks\<close>, \<open>Auth\<close>: every authentication mode and the layer; C2, C7, C35, C36.
  \<^item> \<open>Cache\<close>, \<open>Stats\<close>, \<open>Analytics\<close>, \<open>Transform_Body\<close>, \<open>Plugins\<close>: the remaining layers, with the analytics
    worker as a step relation beside its producers; C23 to C26, C34.
  \<^item> \<open>Chain\<close>: the chain builder and the version dispatcher; the locale \<open>gate\<close> says which requests a
    layer lets through to the service below it, is interpreted for every layer, and composes;
    C9.
  \<^item> \<open>Gateway\<close>: \<open>inner_layers\<close> and \<open>Route::build\<close> over one shared world; the upstream is reached only
    through the gates (C1) and every validated definition becomes a route (C10).
  \<^item> \<open>Discovery\<close>: service discovery (\<open>g2-proxy/src/discovery.rs\<close>) beside the health checker and the
    rotation, as a step relation; C37, C38.
  \<^item> \<open>Admin\<close>: the admin API (\<open>g2-admin/src\<close>), every operation storage call by storage call, and
    what any run of it leaves in the store; C28 to C30.

  \<^item> \<open>Graphql_Policy\<close>, \<open>Graphql_Ws\<close>, \<open>Graphql\<close>: the checks on a GraphQL document, the policed
    subscription relay, the layer and its cache (\<open>g2-middleware/src/graphql.rs\<close>, \<open>graphql_ws.rs\<close>,
    \<open>graphql_cache.rs\<close>); C11 to C13. \<open>Graphql_Sync\<close>: the schema refreshed by introspection
    (\<open>graphql_sync.rs\<close> of both crates), as a step relation; C39, C40.
  \<^item> \<open>Config\<close>, \<open>Reload\<close>, \<open>Server\<close>: the process settings and the TLS acceptor (\<open>g2-core/src/config.rs\<close>,
    \<open>g2way/src/tls.rs\<close>), hot reload (\<open>reload.rs\<close>), start-up and the accept loop (\<open>main.rs\<close>,
    \<open>server.rs\<close>); C14 to C17.

  \<^bold>\<open>Conventions.\<close> An operation that can fail returns \<open>Ok\<close>, \<open>Err\<close> or \<open>Panic\<close>; every \<open>expect\<close>, overflowing
  addition and out-of-range index of the source is a \<open>Panic\<close> branch. State is passed
  explicitly; a layer is a function from services to services over a world. An asynchronous
  operation is atomic between its awaits; where other tasks can act at an await (the analytics
  worker, key refetches, lock-free counters) the model is a step relation and the properties
  are about every interleaving. Each clock reading of a request is an instant of its own. A
  service answers \<open>None\<close> when it panics. Crates that are not part of the repository are records
  of functions; what the source relies on of them is a named hypothesis (\<open>header_map\<close>,
  \<open>parsers_documented\<close>, \<open>config_documented\<close>, \<open>layers_documented\<close>, \<open>artifacts_load\<close>), and the witnesses
  instantiate them with executable functions.

  \<^bold>\<open>Bounds.\<close> No model uses fuel: the attempt loop recurses on the attempts that are left, parsers on
  their input, the worker's shutdown loop has a decreasing measure (C24).

  \<^bold>\<open>Not modelled.\<close> The executors of the composed GraphQL modes (\<open>graphql_udg.rs\<close>, \<open>graphql_federation.rs\<close>)
  plan and resolve queries inside a schema library; they are a parameter of the GraphQL layer, and
  the validation of the GraphQL block of a definition is one of the definition's. The WebAssembly
  host (\<open>g2-plugin\<close>) is the plugin parameter. The Redis store is commands and scripts run by a
  server; its callers are verified against the store contracts. Tracing, metrics and the OTLP
  exporter only observe. Sockets, signals and the
  TLS handshake itself are the runtime's.
\<close>

end
